(* ===== verification/Prelude.thy ===== *)
theory Prelude
  imports Complex_Main
begin

text \<open>
  Shared vocabulary of the development: what the components use of Python's standard types
  (text, integers printed and read back, exceptions, naive datetimes), and the generic lemmas
  about them.

  Text is \<^typ>\<open>string\<close>, one \<^typ>\<open>char\<close> per ASCII code point. An exception is a value of
  \<open>pyerr\<close>, and code that may raise returns \<open>'a res\<close>. A naive datetime is the \<^typ>\<open>int\<close> number of
  microseconds since the Unix epoch, so that adding a \<open>timedelta\<close> is integer addition and the wall
  clock fields are quotients and remainders.
\<close>

named_theorems py_text
named_theorems py_time

section \<open>Exceptions as values\<close>

datatype pyerr =
    AccessScheduleError
  | AccessControlError
  | RadiusValidationError
  | DbError
  | AttributeError
  | ValueError
  | RuntimeError
  | StructError

type_synonym 'a res = "pyerr + 'a"

text \<open>\<open>try: ... except Exception: return d\<close>.\<close>

definition guarded :: "'a \<Rightarrow> 'a res \<Rightarrow> 'a" where
  "guarded d r = (case r of Inl _ \<Rightarrow> d | Inr x \<Rightarrow> x)"

lemma guarded_simps [simp]:
  "guarded d (Inl e) = d"
  "guarded d (Inr x) = x"
  by (simp_all add: guarded_def)

definition res_bind :: "'e + 'a \<Rightarrow> ('a \<Rightarrow> 'e + 'b) \<Rightarrow> 'e + 'b" where
  "res_bind r f = (case r of Inl e \<Rightarrow> Inl e | Inr x \<Rightarrow> f x)"

lemma res_bind_simps [simp]:
  "res_bind (Inl e) f = Inl e"
  "res_bind (Inr x) f = f x"
  by (simp_all add: res_bind_def)

lemma res_bind_Inr: "res_bind r f = Inr y \<longleftrightarrow> (\<exists>x. r = Inr x \<and> f x = Inr y)"
  by (cases r) simp_all

text \<open>A comprehension \<open>[f(x) for x in xs]\<close> whose body may raise stops at the first error.\<close>

fun map_res :: "('a \<Rightarrow> 'b res) \<Rightarrow> 'a list \<Rightarrow> 'b list res" where
  "map_res f [] = Inr []"
| "map_res f (x # xs) = res_bind (f x) (\<lambda>y. res_bind (map_res f xs) (\<lambda>ys. Inr (y # ys)))"

lemma map_res_Inr_iff: "map_res f xs = Inr ys \<longleftrightarrow> list_all2 (\<lambda>x y. f x = Inr y) xs ys"
  by (induction xs arbitrary: ys) (auto simp: res_bind_Inr list_all2_Cons1)

lemma map_res_total: "(\<And>x. x \<in> set xs \<Longrightarrow> f x = Inr (g x)) \<Longrightarrow> map_res f xs = Inr (map g xs)"
  by (induction xs) simp_all

text \<open>\<open>any(f(x) for x in xs)\<close> with a body that may raise: evaluated left to right, stopping at
  the first true element.\<close>

fun any_res :: "('a \<Rightarrow> bool res) \<Rightarrow> 'a list \<Rightarrow> bool res" where
  "any_res f [] = Inr False"
| "any_res f (x # xs) = res_bind (f x) (\<lambda>b. if b then Inr True else any_res f xs)"

lemma any_res_total: "(\<And>x. x \<in> set xs \<Longrightarrow> f x = Inr (g x)) \<Longrightarrow> any_res f xs = Inr (list_ex g xs)"
  by (induction xs) simp_all

section \<open>Exceptions and state\<close>

text \<open>An operation that may raise and that leaves its changes behind when it does.\<close>

definition io_return :: "'a \<Rightarrow> 's \<Rightarrow> ('e + 'a) \<times> 's" where "io_return x s = (Inr x, s)"

definition io_raise :: "'e \<Rightarrow> 's \<Rightarrow> ('e + 'a) \<times> 's" where "io_raise e s = (Inl e, s)"

definition io_bind :: "('s \<Rightarrow> ('e + 'a) \<times> 's) \<Rightarrow> ('a \<Rightarrow> 's \<Rightarrow> ('e + 'b) \<times> 's) \<Rightarrow> 's \<Rightarrow> ('e + 'b) \<times> 's" where
  "io_bind m f s = (case m s of (Inl e, s1) \<Rightarrow> (Inl e, s1) | (Inr x, s1) \<Rightarrow> f x s1)"

lemma io_bind_eq_Inr: "io_bind m f s = (Inr y, s2) \<longleftrightarrow> (\<exists>x s1. m s = (Inr x, s1) \<and> f x s1 = (Inr y, s2))"
  by (auto simp: io_bind_def split: prod.splits sum.splits)

section \<open>Runs\<close>

text \<open>A step relation that keeps an invariant and moves along a preorder does so over any number of steps.\<close>

locale progressing =
  fixes steps_to :: "'s \<Rightarrow> 's \<Rightarrow> bool"
    and inv :: "'s \<Rightarrow> bool"
    and along :: "'s \<Rightarrow> 's \<Rightarrow> bool"
  assumes start: "along s s"
    and compose: "along s t \<Longrightarrow> along t u \<Longrightarrow> along s u"
    and one: "steps_to s t \<Longrightarrow> inv s \<Longrightarrow> inv t \<and> along s t"
begin

lemma every_run: "steps_to\<^sup>*\<^sup>* s t \<Longrightarrow> inv s \<Longrightarrow> inv t \<and> along s t"
proof (induction rule: rtranclp_induct)
  case (step t u)
  then show ?case using one compose by blast
qed (simp add: start)

end

section \<open>Lists\<close>

lemma filter_eq_single: "distinct xs \<Longrightarrow> x \<in> set xs \<Longrightarrow> filter (\<lambda>y. y = x) xs = [x]"
  by (induction xs) (auto simp: filter_empty_conv)

lemma find_Some_first: "find P xs = Some x \<Longrightarrow> P x \<and> x \<in> set xs"
  by (induction xs) (auto split: if_splits)

lemma find_not_None: "find P xs \<noteq> None \<longleftrightarrow> (\<exists>x \<in> set xs. P x)"
  by (auto simp: find_None_iff)

lemma find_map_preserving: "(\<And>x. P (f x) = P x) \<Longrightarrow> find P (map f xs) = map_option f (find P xs)"
  by (induction xs) auto

lemma filter_map_preserving: "(\<And>x. P (f x) = P x) \<Longrightarrow> filter P (map f xs) = map f (filter P xs)"
  by (induction xs) auto

lemma length_filter_partition: "length (filter P xs) + length (filter (\<lambda>x. \<not> P x) xs) = length xs"
  by (rule sum_length_filter_compl)

text \<open>The identifier SQLite gives to a new row: the greatest one plus one.\<close>

definition next_id :: "int list \<Rightarrow> int" where
  "next_id ids = foldr max ids 0 + 1"

lemma next_id_fresh: "i \<in> set ids \<Longrightarrow> i < next_id ids"
  unfolding next_id_def by (induction ids) auto

section \<open>Text\<close>

definition code :: "char \<Rightarrow> nat" where "code c = of_char c"

definition is_space :: "char \<Rightarrow> bool" where
  "is_space c = (code c \<in> {9, 10, 11, 12, 13, 28, 29, 30, 31, 32})"

definition is_digit :: "char \<Rightarrow> bool" where "is_digit c = (48 \<le> code c \<and> code c \<le> 57)"
definition is_upper :: "char \<Rightarrow> bool" where "is_upper c = (65 \<le> code c \<and> code c \<le> 90)"
definition is_lower :: "char \<Rightarrow> bool" where "is_lower c = (97 \<le> code c \<and> code c \<le> 122)"
definition is_alpha :: "char \<Rightarrow> bool" where "is_alpha c = (is_upper c \<or> is_lower c)"
definition is_alnum :: "char \<Rightarrow> bool" where "is_alnum c = (is_alpha c \<or> is_digit c)"

definition lower_char :: "char \<Rightarrow> char" where
  "lower_char c = (if is_upper c then char_of (code c + 32) else c)"

definition upper_char :: "char \<Rightarrow> char" where
  "upper_char c = (if is_lower c then char_of (code c - 32) else c)"

definition lower :: "string \<Rightarrow> string" where "lower = map lower_char"
definition upper :: "string \<Rightarrow> string" where "upper = map upper_char"

definition lstrip :: "string \<Rightarrow> string" where "lstrip = dropWhile is_space"

definition strip :: "string \<Rightarrow> string" where "strip s = rev (lstrip (rev (lstrip s)))"

definition replace_char :: "char \<Rightarrow> char \<Rightarrow> string \<Rightarrow> string" where
  "replace_char a b = map (\<lambda>c. if c = a then b else c)"

text \<open>\<open>s or d\<close>.\<close>

definition or_default :: "string \<Rightarrow> string \<Rightarrow> string" where "or_default s d = (if s = [] then d else s)"

lemma or_default_simps [simp]: "or_default [] d = d" "s \<noteq> [] \<Longrightarrow> or_default s d = s"
  by (simp_all add: or_default_def)

text \<open>\<open>n or d\<close>.\<close>

definition or_int :: "int \<Rightarrow> int \<Rightarrow> int" where "or_int a b = (if a \<noteq> 0 then a else b)"

text \<open>\<open>s.split(sep)\<close> for a one-character separator.\<close>

fun split_on :: "char \<Rightarrow> string \<Rightarrow> string list" where
  "split_on c [] = [[]]"
| "split_on c (x # xs) =
     (if x = c then [] # split_on c xs
      else (case split_on c xs of [] \<Rightarrow> [[x]] | y # ys \<Rightarrow> (x # y) # ys))"

text \<open>\<open>s.split(sep, 1)\<close> when the separator occurs, as a pair; \<open>None\<close> when it does not.\<close>

fun split_first :: "char \<Rightarrow> string \<Rightarrow> (string \<times> string) option" where
  "split_first c [] = None"
| "split_first c (x # xs) =
     (if x = c then Some ([], xs) else map_option (\<lambda>(a, b). (x # a, b)) (split_first c xs))"

text \<open>\<open>s.split()\<close>: the maximal runs of characters that are not white space.\<close>

fun split_ws_acc :: "string \<Rightarrow> string \<Rightarrow> string list" where
  "split_ws_acc acc [] = (if acc = [] then [] else [rev acc])"
| "split_ws_acc acc (x # xs) =
     (if is_space x then (if acc = [] then split_ws_acc [] xs else rev acc # split_ws_acc [] xs)
      else split_ws_acc (x # acc) xs)"

definition split_ws :: "string \<Rightarrow> string list" where "split_ws = split_ws_acc []"

fun join_with :: "string \<Rightarrow> string list \<Rightarrow> string" where
  "join_with sep [] = []"
| "join_with sep [x] = x"
| "join_with sep (x # y # ys) = x @ sep @ join_with sep (y # ys)"

lemma split_on_nonempty [simp]: "split_on c s \<noteq> []"
  by (induction s) (auto split: list.splits)

lemma split_on_none: "c \<notin> set s \<Longrightarrow> split_on c s = [s]"
  by (induction s) auto

lemma split_on_append: "c \<notin> set a \<Longrightarrow> split_on c (a @ c # b) = a # split_on c b"
  by (induction a) auto

lemma split_on_join:
  "xs \<noteq> [] \<Longrightarrow> (\<forall>x \<in> set xs. c \<notin> set x) \<Longrightarrow> split_on c (join_with [c] xs) = xs"
  by (induction "[c]" xs rule: join_with.induct) (simp_all add: split_on_none split_on_append)

lemma split_first_append: "c \<notin> set a \<Longrightarrow> split_first c (a @ c # b) = Some (a, b)"
  by (induction a) auto

lemma strip_id: "s = [] \<or> (\<not> is_space (hd s) \<and> \<not> is_space (last s)) \<Longrightarrow> strip s = s"
proof -
  have *: "lstrip t = t" if "t = [] \<or> \<not> is_space (hd t)" for t
    using that by (cases t) (simp_all add: lstrip_def)
  assume "s = [] \<or> (\<not> is_space (hd s) \<and> \<not> is_space (last s))"
  then show ?thesis
    by (cases "s = []") (auto simp: strip_def * hd_rev)
qed

lemma strip_no_space: "(\<forall>c \<in> set s. \<not> is_space c) \<Longrightarrow> strip s = s"
  by (rule strip_id) (cases "s = []", simp_all)

lemma code_upper: "code (upper_char c) = (if 97 \<le> code c \<and> code c \<le> 122 then code c - 32 else code c)"
  by (auto simp: upper_char_def is_lower_def code_def intro!: mod_less)

lemma is_space_upper [simp]: "is_space (upper_char c) = is_space c"
  by (auto simp: is_space_def code_upper)

lemma upper_char_idem [simp]: "upper_char (upper_char c) = upper_char c"
proof -
  have "\<not> is_lower (upper_char c)" by (simp add: is_lower_def code_upper) arith
  then show ?thesis by (simp add: upper_char_def [of "upper_char c"])
qed

lemma lstrip_map: "(\<And>c. is_space (f c) = is_space c) \<Longrightarrow> lstrip (map f s) = map f (lstrip s)"
  unfolding lstrip_def by (induction s) auto

lemma strip_map: "(\<And>c. is_space (f c) = is_space c) \<Longrightarrow> strip (map f s) = map f (strip s)"
  by (simp add: strip_def lstrip_map rev_map)

lemma strip_idem [simp]: "strip (strip s) = strip s"
proof -
  have l: "lstrip s = [] \<or> \<not> is_space (hd (lstrip s))" for s
    unfolding lstrip_def by (metis hd_dropWhile)
  have "strip s = [] \<or> \<not> is_space (last (strip s))" using l [of "rev (lstrip s)"] by (auto simp: strip_def last_rev)
  moreover have "strip s = [] \<or> \<not> is_space (hd (strip s))"
  proof (cases "strip s = []")
    case False
    obtain w where "rev (lstrip s) = w @ lstrip (rev (lstrip s))"
      unfolding lstrip_def by (metis takeWhile_dropWhile_id)
    then have "lstrip s = strip s @ rev w" unfolding strip_def by (metis rev_append rev_rev_ident)
    then have "hd (lstrip s) = hd (strip s)" "lstrip s \<noteq> []" using False by auto
    with l [of s] show ?thesis by simp
  qed simp
  ultimately show ?thesis by (intro strip_id) blast
qed

section \<open>Integers in text\<close>

fun digits_of :: "nat \<Rightarrow> string" where
  "digits_of n = (if n < 10 then [char_of (48 + n)] else digits_of (n div 10) @ [char_of (48 + n mod 10)])"

declare digits_of.simps [simp del]

definition str_of_int :: "int \<Rightarrow> string" where
  "str_of_int i = (if i < 0 then CHR ''-'' # digits_of (nat (- i)) else digits_of (nat i))"

definition digit_val :: "char \<Rightarrow> nat" where "digit_val c = code c - 48"

definition nat_of_digits :: "string \<Rightarrow> nat" where
  "nat_of_digits s = foldl (\<lambda>n c. 10 * n + digit_val c) 0 s"

text \<open>\<open>int(s)\<close>: surrounding white space, one sign, digits in groups joined by single underscores.
  \<open>None\<close> is \<open>ValueError\<close>.\<close>

definition parse_nat :: "string \<Rightarrow> nat option" where
  "parse_nat s =
     (let groups = split_on (CHR ''_'') s in
      if (\<forall>g \<in> set groups. g \<noteq> [] \<and> list_all is_digit g)
      then Some (nat_of_digits (concat groups)) else None)"

text \<open>\<open>s.isdigit()\<close>.\<close>

definition str_isdigit :: "string \<Rightarrow> bool" where
  "str_isdigit s = (s \<noteq> [] \<and> list_all is_digit s)"

definition parse_int :: "string \<Rightarrow> int option" where
  "parse_int s =
     (case strip s of
        [] \<Rightarrow> None
      | c # cs \<Rightarrow>
          if c = CHR ''-'' then map_option (\<lambda>n. - int n) (parse_nat cs)
          else if c = CHR ''+'' then map_option int (parse_nat cs)
          else map_option int (parse_nat (c # cs)))"

lemma code_char_of [simp]: "n < 256 \<Longrightarrow> code (char_of n) = n"
  by (simp add: code_def)

lemma digit_val_char_of [simp]: "(n::nat) < 10 \<Longrightarrow> digit_val (char_of (48 + n)) = n"
  by (simp add: digit_val_def)

lemma is_digit_char_of [simp]: "(n::nat) < 10 \<Longrightarrow> is_digit (char_of (48 + n))"
  by (simp add: is_digit_def)

lemma digits_of_nonempty [simp]: "digits_of n \<noteq> []"
  by (subst digits_of.simps) simp

lemma digits_of_digits: "list_all is_digit (digits_of n)"
proof (induction n rule: digits_of.induct)
  case (1 n)
  then show ?case by (subst digits_of.simps) auto
qed

lemma nat_of_digits_append:
  "nat_of_digits (s @ [c]) = 10 * nat_of_digits s + digit_val c"
  by (simp add: nat_of_digits_def)

lemma nat_of_digits_digits_of [simp]: "nat_of_digits (digits_of n) = n"
proof (induction n rule: digits_of.induct)
  case (1 n)
  show ?case
  proof (cases "n < 10")
    case True
    then show ?thesis by (subst digits_of.simps) (simp add: nat_of_digits_def digit_val_def)
  next
    case False
    with 1 show ?thesis
      by (subst digits_of.simps) (simp add: nat_of_digits_append digit_val_def)
  qed
qed

lemma is_digit_not_space: "is_digit c \<Longrightarrow> \<not> is_space c"
  by (auto simp: is_digit_def is_space_def)

lemma is_digit_not_sign: "is_digit c \<Longrightarrow> c \<noteq> CHR ''-'' \<and> c \<noteq> CHR ''+'' \<and> c \<noteq> CHR ''_''"
  by (auto simp: is_digit_def code_def)

lemma parse_nat_digits: "s \<noteq> [] \<Longrightarrow> list_all is_digit s \<Longrightarrow> parse_nat s = Some (nat_of_digits s)"
proof -
  assume s: "s \<noteq> []" "list_all is_digit s"
  then have "CHR ''_'' \<notin> set s"
    using is_digit_not_sign by (auto simp: list_all_iff)
  with s show ?thesis by (simp add: parse_nat_def split_on_none)
qed

lemma parse_int_digits:
  assumes "s \<noteq> []" "list_all is_digit s"
  shows "parse_int s = Some (int (nat_of_digits s))"
    and "parse_int (CHR ''-'' # s) = Some (- int (nat_of_digits s))"
proof -
  have ns: "\<forall>c \<in> set s. \<not> is_space c"
    using assms(2) is_digit_not_space by (auto simp: list_all_iff)
  from assms obtain c cs where s: "s = c # cs" "is_digit c" by (cases s) auto
  show "parse_int s = Some (int (nat_of_digits s))"
    using assms ns s by (simp add: parse_int_def strip_no_space parse_nat_digits is_digit_not_sign)
  have "\<not> is_space (CHR ''-'')" by (simp add: is_space_def code_def)
  then have "strip (CHR ''-'' # s) = CHR ''-'' # s"
    using ns by (intro strip_no_space) auto
  then show "parse_int (CHR ''-'' # s) = Some (- int (nat_of_digits s))"
    using assms by (simp add: parse_int_def parse_nat_digits)
qed

text \<open>Printing an integer and reading it back is the identity: \<open>int(str(i)) == i\<close>.\<close>

lemma parse_int_str [simp]: "parse_int (str_of_int i) = Some i"
  using parse_int_digits [OF digits_of_nonempty digits_of_digits]
  by (simp add: str_of_int_def)

lemma str_of_int_nonempty [simp]: "str_of_int i \<noteq> []"
  by (simp add: str_of_int_def)

lemma str_of_int_inject [simp]: "str_of_int i = str_of_int j \<longleftrightarrow> i = j"
  by (metis option.inject parse_int_str)

text \<open>The number a decimal text denotes, with an optional sign and fraction; exponents, underscores and the named values
  are not read here.\<close>

definition parse_decimal :: "string \<Rightarrow> rat option" where
  "parse_decimal s =
     (let (sign, body) = (case s of [] \<Rightarrow> (1, []) | c # cs \<Rightarrow> if c = CHR ''-'' then (-1, cs) else if c = CHR ''+'' then (1, cs) else (1, s));
          whole = takeWhile is_digit body; rest = dropWhile is_digit body;
          frac = (case rest of [] \<Rightarrow> Some [] | c # cs \<Rightarrow> if c = CHR ''.'' \<and> list_all is_digit cs then Some cs else None) in
      case frac of
        None \<Rightarrow> None
      | Some f \<Rightarrow>
          if whole @ f = [] then None
          else Some (sign * (of_nat (nat_of_digits whole) + of_nat (nat_of_digits f) / 10 ^ length f)))"

section \<open>JSON values\<close>

text \<open>What \<open>json.loads\<close> makes of a text column. Numbers are integers: no component reads a
  fractional one.\<close>

datatype json =
    JNull
  | JBool bool
  | JNum int
  | JStr string
  | JArr "json list"
  | JObj "(string \<times> json) list"

text \<open>A column holding JSON text: blank, not JSON, or the value it decodes to.\<close>

datatype json_text = Blank | Malformed | Decoded json

text \<open>\<open>bool(x)\<close> of a JSON value.\<close>

fun json_truthy :: "json \<Rightarrow> bool" where
  "json_truthy JNull = False"
| "json_truthy (JBool b) = b"
| "json_truthy (JNum i) = (i \<noteq> 0)"
| "json_truthy (JStr s) = (s \<noteq> [])"
| "json_truthy (JArr xs) = (xs \<noteq> [])"
| "json_truthy (JObj kvs) = (kvs \<noteq> [])"

section \<open>Naive datetimes\<close>

type_synonym dt = int

definition usec :: int where "usec = 1000000"
definition seconds :: "int \<Rightarrow> int" where "seconds n = n * usec"
definition minute_us :: int where "minute_us = 60 * usec"
definition day_us :: int where "day_us = 86400 * usec"

definition floor_sec :: "dt \<Rightarrow> dt" where "floor_sec t = t - t mod usec"

lemma usec_val [simp, py_time]: "usec = 1000000" by (simp add: usec_def)
lemma minute_us_val [simp, py_time]: "minute_us = 60000000" by (simp add: minute_us_def)
lemma day_us_val [simp, py_time]: "day_us = 86400000000" by (simp add: day_us_def)

text \<open>The range of \<open>datetime\<close>, years 1 to 9999; a sum outside it raises \<open>OverflowError\<close>.\<close>

definition DT_MIN :: dt where "DT_MIN = seconds (- 62135596800)"
definition DT_MAX :: dt where "DT_MAX = seconds 253402300800 - 1"

text \<open>\<open>int(delta.total_seconds())\<close>: truncation toward zero.\<close>

definition total_seconds :: "int \<Rightarrow> int" where
  "total_seconds d = (if 0 \<le> d then d div usec else - ((- d) div usec))"

text \<open>Monday is 0, as in \<open>datetime.weekday\<close>; 1970-01-01 was a Thursday.\<close>

definition weekday :: "dt \<Rightarrow> nat" where "weekday t = nat ((t div day_us + 3) mod 7)"

text \<open>\<open>when.time()\<close>: microseconds since midnight.\<close>

definition time_of_day :: "dt \<Rightarrow> int" where "time_of_day t = t mod day_us"

text \<open>\<open>replace(second=0, microsecond=0)\<close>.\<close>

definition floor_minute :: "dt \<Rightarrow> dt" where "floor_minute t = t - t mod minute_us"

lemma total_seconds_nonneg: "0 \<le> d \<Longrightarrow> total_seconds d = d div usec"
  by (simp add: total_seconds_def)

lemma total_seconds_pos_le: "0 < total_seconds d \<Longrightarrow> total_seconds d * usec \<le> d"
  by (simp add: total_seconds_def split: if_splits)

lemma total_seconds_seconds [simp]: "total_seconds (seconds n) = n"
  by (auto simp: total_seconds_def seconds_def simp flip: mult_minus_left)

lemma total_seconds_mono: "a \<le> b \<Longrightarrow> total_seconds a \<le> total_seconds b"
proof -
  assume "a \<le> b"
  moreover have "- (- a div usec) \<le> b div usec" if "a < 0" "0 \<le> b"
    using that pos_imp_zdiv_nonneg_iff [of usec b] pos_imp_zdiv_nonneg_iff [of usec "- a"] by simp
  ultimately show ?thesis
    by (auto simp: total_seconds_def intro: zdiv_mono1)
qed

lemma time_of_day_bounds: "0 \<le> time_of_day t" "time_of_day t < day_us"
  by (simp_all add: time_of_day_def)

lemma floor_minute_le: "floor_minute t \<le> t" "t < floor_minute t + minute_us"
  by (simp_all add: floor_minute_def)

lemma floor_minute_mod [simp]: "floor_minute t mod minute_us = 0"
  by (simp add: floor_minute_def minus_mod_eq_mult_div)

lemmas floor_minute_mod_numeral [simp] = floor_minute_mod [unfolded minute_us_val]

lemma floor_minute_mult: "floor_minute t = minute_us * (t div minute_us)"
  by (simp add: floor_minute_def minus_mod_eq_mult_div)

lemma floor_minute_day [simp]: "floor_minute t div day_us = t div day_us"
proof -
  have day: "day_us = minute_us * 1440" by simp
  have "floor_minute t div day_us = t div minute_us div 1440"
    unfolding day floor_minute_mult by (subst zdiv_zmult2_eq) simp_all
  also have "\<dots> = t div day_us" unfolding day by (subst zdiv_zmult2_eq) simp_all
  finally show ?thesis .
qed

lemma floor_minute_multiple [simp]: "t mod minute_us = 0 \<Longrightarrow> floor_minute (t + int i * minute_us) = t + int i * minute_us"
  by (simp add: floor_minute_def mod_add_eq [symmetric])

lemma floor_minute_same:
  assumes "t mod minute_us = 0" "t \<le> u" "u < t + minute_us"
  shows "floor_minute u = t"
proof -
  have t: "t = minute_us * (t div minute_us)" using assms(1) by (simp add: minus_mod_eq_mult_div [symmetric])
  have "u mod minute_us = (minute_us * (t div minute_us) + (u - t)) mod minute_us"
    using t by simp
  also have "\<dots> = (u - t) mod minute_us" by (simp only: mod_mult_self4)
  also have "\<dots> = u - t" using assms(2,3) by (intro mod_pos_pos_trivial) auto
  finally have "u mod minute_us = u - t" .
  then show ?thesis by (simp only: floor_minute_def)
qed

end
