(* ===== verification/AccessSchedule.thy ===== *)
theory AccessSchedule
  imports Prelude
begin

text \<open>
  \<open>app/radius/core/access_schedule.py\<close>: the unified day/time windows of subscribers and plans.
  A raw schedule is parsed into a list of windows (or rejected), printed back to JSON for storage,
  and evaluated at a local wall-clock instant. A Python \<open>time\<close> is the number of microseconds since
  midnight.
\<close>

section \<open>Data\<close>

definition DAYS :: "string list" where
  "DAYS = [''sat'', ''sun'', ''mon'', ''tue'', ''wed'', ''thu'', ''fri'']"

text \<open>\<open>_PY_WEEKDAY_TO_CODE\<close>.\<close>

definition weekday_code :: "nat \<Rightarrow> string" where
  "weekday_code n = [''mon'', ''tue'', ''wed'', ''thu'', ''fri'', ''sat'', ''sun''] ! n"

record window =
  w_days :: "string list"
  w_from :: string
  w_to :: string

text \<open>The argument of \<open>parse\<close>: \<open>None\<close>, \<open>""\<close>, a text with what \<open>json.loads\<close> makes of it (\<open>None\<close>:
  it raises \<open>JSONDecodeError\<close>), a dict, or a value of another type.\<close>

datatype raw = RNone | REmpty | RText "json option" | RDict "(string \<times> json) list" | ROther

section \<open>Parsing\<close>

definition mk_time :: "nat \<Rightarrow> nat \<Rightarrow> int" where
  "mk_time h m = int (h * 60 + m) * minute_us"

text \<open>\<open>_TIME_RE\<close>: one or two digits, a colon, two digits.\<close>

fun time_match :: "string \<Rightarrow> (nat \<times> nat) option" where
  "time_match [a, c, m1, m2] =
     (if is_digit a \<and> c = CHR '':'' \<and> is_digit m1 \<and> is_digit m2
      then Some (digit_val a, 10 * digit_val m1 + digit_val m2) else None)"
| "time_match [a, b, c, m1, m2] =
     (if is_digit a \<and> is_digit b \<and> c = CHR '':'' \<and> is_digit m1 \<and> is_digit m2
      then Some (10 * digit_val a + digit_val b, 10 * digit_val m1 + digit_val m2) else None)"
| "time_match _ = None"

definition parse_time :: "string \<Rightarrow> int option res" where
  "parse_time s0 =
     (let s = strip s0 in
      if s = [] then Inr None
      else (case time_match s of
              None \<Rightarrow> Inl AccessScheduleError
            | Some (h, mm) \<Rightarrow>
                if h \<le> 23 \<and> mm \<le> 59 then Inr (Some (mk_time h mm)) else Inl AccessScheduleError))"

definition two_digits :: "nat \<Rightarrow> string" where
  "two_digits n = [char_of (48 + n div 10), char_of (48 + n mod 10)]"

definition fmt_time :: "int option \<Rightarrow> string" where
  "fmt_time t =
     (case t of
        None \<Rightarrow> []
      | Some u \<Rightarrow> two_digits (nat (u div (60 * minute_us))) @ CHR '':'' #
                  two_digits (nat (u div minute_us mod 60)))"

text \<open>\<open>str(d)\<close> of a JSON value that is not text is neither blank nor a day code.\<close>

definition day_text :: "json \<Rightarrow> string" where
  "day_text j = (case j of JStr s \<Rightarrow> s | _ \<Rightarrow> ''?'')"

definition day_items :: "json option \<Rightarrow> string list res" where
  "day_items v =
     (case v of
        None \<Rightarrow> Inr []
      | Some JNull \<Rightarrow> Inr []
      | Some (JStr s) \<Rightarrow>
          Inr (map (\<lambda>d. lower (strip d)) (filter (\<lambda>d. strip d \<noteq> []) (split_on (CHR '','') s)))
      | Some (JArr ds) \<Rightarrow>
          Inr (map (\<lambda>d. lower (strip (day_text d))) (filter (\<lambda>d. strip (day_text d) \<noteq> []) ds))
      | Some _ \<Rightarrow> Inl AccessScheduleError)"

definition normalize_days :: "json option \<Rightarrow> string list res" where
  "normalize_days v =
     res_bind (day_items v) (\<lambda>items.
       if \<exists>d \<in> set items. d \<notin> set DAYS then Inl AccessScheduleError
       else Inr (filter (\<lambda>d. d \<in> set items) DAYS))"

text \<open>\<open>w.get(key, "")\<close> handed to \<open>_parse_time\<close>: a falsy value reads as blank, a truthy value that is
  not text has no \<open>strip\<close>.\<close>

definition time_field :: "(string \<times> json) list \<Rightarrow> string \<Rightarrow> int option res" where
  "time_field w key =
     (case map_of w key of
        None \<Rightarrow> parse_time []
      | Some (JStr s) \<Rightarrow> parse_time s
      | Some j \<Rightarrow> if json_truthy j then Inl AttributeError else parse_time [])"

definition parse_window :: "json \<Rightarrow> window res" where
  "parse_window j =
     (case j of
        JObj w \<Rightarrow>
          res_bind (normalize_days (map_of w ''days'')) (\<lambda>days.
          res_bind (time_field w ''from'') (\<lambda>t_from.
          res_bind (time_field w ''to'') (\<lambda>t_to.
            Inr \<lparr>w_days = days, w_from = fmt_time t_from, w_to = fmt_time t_to\<rparr>)))
      | _ \<Rightarrow> Inl AccessScheduleError)"

definition parse_windows :: "json option \<Rightarrow> window list res" where
  "parse_windows wins_raw =
     (case wins_raw of
        None \<Rightarrow> Inr []
      | Some JNull \<Rightarrow> Inr []
      | Some (JArr ws) \<Rightarrow> map_res parse_window ws
      | Some _ \<Rightarrow> Inl AccessScheduleError)"

definition parse :: "raw \<Rightarrow> window list res" where
  "parse r =
     (case r of
        RNone \<Rightarrow> Inr []
      | REmpty \<Rightarrow> Inr []
      | RText None \<Rightarrow> Inl AccessScheduleError
      | RText (Some (JObj kvs)) \<Rightarrow> parse_windows (map_of kvs ''windows'')
      | RText (Some _) \<Rightarrow> parse_windows None
      | RDict kvs \<Rightarrow> parse_windows (map_of kvs ''windows'')
      | ROther \<Rightarrow> Inl AccessScheduleError)"

section \<open>Printing\<close>

text \<open>The dict form of a list of windows, \<open>{"windows": [...]}\<close>.\<close>

definition window_json :: "window \<Rightarrow> json" where
  "window_json w =
     JObj [(''days'', JArr (map JStr (w_days w))), (''from'', JStr (w_from w)), (''to'', JStr (w_to w))]"

definition schedule_dict :: "window list \<Rightarrow> (string \<times> json) list" where
  "schedule_dict ws = [(''windows'', JArr (map window_json ws))]"

text \<open>\<open>serialize\<close> returns text; the model keeps the value the text decodes to.\<close>

definition serialize :: "(string \<times> json) list \<Rightarrow> raw res" where
  "serialize schedule =
     res_bind (parse (RDict schedule)) (\<lambda>norm.
       Inr (if norm = [] then REmpty else RText (Some (JObj (schedule_dict norm)))))"

definition validate :: "raw \<Rightarrow> window list res" where
  "validate schedule = parse schedule"

section \<open>Evaluation\<close>

text \<open>The comparison at the end of \<open>_window_allows\<close>: inclusive start, exclusive end, wrapping past
  midnight when the end is not after the start.\<close>

definition in_clock :: "int \<Rightarrow> int \<Rightarrow> int \<Rightarrow> bool" where
  "in_clock f e t = (if f < e then f \<le> t \<and> t < e else f \<le> t \<or> t < e)"

definition window_allows :: "window \<Rightarrow> string \<Rightarrow> int \<Rightarrow> bool res" where
  "window_allows w c t =
     (if w_days w \<noteq> [] \<and> c \<notin> set (w_days w) then Inr False
      else res_bind (parse_time (w_from w)) (\<lambda>t_from.
           res_bind (parse_time (w_to w)) (\<lambda>t_to.
             if t_from = None \<and> t_to = None then Inr True
             else
               let f = (case t_from of None \<Rightarrow> mk_time 0 0 | Some x \<Rightarrow> x);
                   e = (case t_to of None \<Rightarrow> day_us - 1 | Some x \<Rightarrow> x)
               in Inr (in_clock f e t))))"

definition code_at :: "dt \<Rightarrow> string" where "code_at when = weekday_code (weekday when)"

definition clock_at :: "dt \<Rightarrow> int" where
  "clock_at when = time_of_day when - time_of_day when mod minute_us"

definition is_allowed :: "raw \<Rightarrow> dt \<Rightarrow> bool res" where
  "is_allowed schedule when =
     res_bind (parse schedule) (\<lambda>windows.
       if windows = [] then Inr True
       else any_res (\<lambda>w. window_allows w (code_at when) (clock_at when)) windows)"

definition derive_working_days :: "raw \<Rightarrow> string res" where
  "derive_working_days schedule =
     res_bind (parse schedule) (\<lambda>windows.
       if windows = [] then Inr []
       else if \<exists>w \<in> set windows. w_days w = [] then Inr []
       else Inr (join_with '','' (filter (\<lambda>d. d \<in> (\<Union>w \<in> set windows. set (w_days w))) DAYS)))"

definition empty_schedule :: "(string \<times> json) list" where
  "empty_schedule = [(''windows'', JArr [])]"

section \<open>Times survive printing and parsing\<close>

definition valid_time :: "int option \<Rightarrow> bool" where
  "valid_time t = (case t of None \<Rightarrow> True | Some u \<Rightarrow> \<exists>h m. h \<le> 23 \<and> m \<le> 59 \<and> u = mk_time h m)"

lemma valid_time_None [simp]: "valid_time None"
  by (simp add: valid_time_def)

lemma parse_time_valid: "parse_time s = Inr t \<Longrightarrow> valid_time t"
  by (auto simp: parse_time_def valid_time_def Let_def split: if_splits option.splits) blast

lemma fmt_time_mk: "m \<le> 59 \<Longrightarrow> h \<le> 23 \<Longrightarrow>
    fmt_time (Some (mk_time h m)) = two_digits h @ CHR '':'' # two_digits m"
proof -
  assume m: "m \<le> 59" and h: "h \<le> 23"
  have a: "mk_time h m div (60 * minute_us) = int h"
    using m by (simp add: mk_time_def algebra_simps)
  have b: "mk_time h m div minute_us = int (h * 60 + m)"
    by (simp add: mk_time_def)
  have "int (h * 60 + m) mod 60 = int m"
    using m by (simp add: zmod_int [symmetric])
  with a b show ?thesis by (simp only: fmt_time_def option.case) simp
qed

lemma time_match_two_digits:
  "h < 100 \<Longrightarrow> m < 100 \<Longrightarrow> time_match (two_digits h @ CHR '':'' # two_digits m) = Some (h, m)"
  by (simp add: two_digits_def)

lemma parse_fmt_time [simp]: "valid_time t \<Longrightarrow> parse_time (fmt_time t) = Inr t"
proof (cases t)
  case None
  then show ?thesis by (simp add: fmt_time_def parse_time_def strip_def lstrip_def)
next
  case (Some u)
  moreover assume "valid_time t"
  ultimately obtain h m where hm: "h \<le> 23" "m \<le> 59" "u = mk_time h m"
    by (auto simp: valid_time_def)
  let ?s = "two_digits h @ CHR '':'' # two_digits m"
  have "hd ?s = char_of (48 + h div 10)" "last ?s = char_of (48 + m mod 10)"
    by (simp_all add: two_digits_def)
  moreover have "\<not> is_space (char_of (48 + h div 10))" "\<not> is_space (char_of (48 + m mod 10))"
    using hm by (auto intro!: is_digit_not_space)
  ultimately have "strip ?s = ?s"
    by (intro strip_id) (simp only: simp_thms)
  moreover have "time_match ?s = Some (h, m)"
    using hm by (intro time_match_two_digits) auto
  ultimately have "parse_time ?s = Inr (Some (mk_time h m))"
    using hm by (simp only: parse_time_def Let_def) (simp add: two_digits_def)
  with hm Some fmt_time_mk [of m h] show ?thesis by simp
qed

section \<open>Normal form of a parsed schedule\<close>

definition norm_window :: "window \<Rightarrow> bool" where
  "norm_window w =
     (w_days w = filter (\<lambda>d. d \<in> set (w_days w)) DAYS \<and>
      (\<exists>f. valid_time f \<and> w_from w = fmt_time f) \<and> (\<exists>t. valid_time t \<and> w_to w = fmt_time t))"

lemma normalize_days_form: "normalize_days v = Inr ds \<Longrightarrow> ds = filter (\<lambda>d. d \<in> set ds) DAYS"
proof -
  assume "normalize_days v = Inr ds"
  then obtain items where "ds = filter (\<lambda>d. d \<in> set items) DAYS"
    by (auto simp: normalize_days_def res_bind_Inr split: if_splits)
  then show ?thesis by (auto intro: filter_cong)
qed

lemma time_field_valid: "time_field w k = Inr t \<Longrightarrow> valid_time t"
  by (auto simp: time_field_def split: option.splits json.splits if_splits intro: parse_time_valid)

lemma parse_window_norm: "parse_window j = Inr w \<Longrightarrow> norm_window w"
  by (cases j) (auto simp: parse_window_def res_bind_Inr norm_window_def
      dest: time_field_valid intro: normalize_days_form)

lemma parse_norm: "parse r = Inr ws \<Longrightarrow> w \<in> set ws \<Longrightarrow> norm_window w"
  by (auto simp: parse_def parse_windows_def map_res_Inr_iff list_all2_conv_all_nth in_set_conv_nth
      split: raw.splits option.splits json.splits dest!: parse_window_norm)

lemma DAYS_strip_lower: "d \<in> set DAYS \<Longrightarrow> strip d = d \<and> lower d = d \<and> d \<noteq> []"
proof -
  have "\<forall>d \<in> set DAYS. strip d = d \<and> lower d = d \<and> d \<noteq> []" by code_simp
  then show "d \<in> set DAYS \<Longrightarrow> ?thesis" by blast
qed

lemma normalize_days_id:
  assumes "ds = filter (\<lambda>d. d \<in> set ds) DAYS"
  shows "normalize_days (Some (JArr (map JStr ds))) = Inr ds"
proof -
  have sub: "set ds \<subseteq> set DAYS" using assms by (metis filter_is_subset)
  then have "map (\<lambda>d. lower (strip d)) (filter (\<lambda>d. strip d \<noteq> []) ds) = ds"
    using DAYS_strip_lower by (subst filter_True) (auto intro!: map_idI)
  moreover have "day_items (Some (JArr (map JStr ds))) =
      Inr (map (\<lambda>d. lower (strip d)) (filter (\<lambda>d. strip d \<noteq> []) ds))"
    by (simp add: day_items_def day_text_def filter_map comp_def)
  ultimately show ?thesis
    using sub assms by (auto simp: normalize_days_def)
qed

lemma parse_window_json: "norm_window w \<Longrightarrow> parse_window (window_json w) = Inr w"
  by (auto simp: norm_window_def window_json_def parse_window_def time_field_def normalize_days_id)

lemma parse_schedule_dict:
  assumes "\<forall>w \<in> set ws. norm_window w"
  shows "parse (RDict (schedule_dict ws)) = Inr ws"
    and "parse (RText (Some (JObj (schedule_dict ws)))) = Inr ws"
proof -
  have "map_res (\<lambda>w. parse_window (window_json w)) ws = Inr (map id ws)"
    using assms by (intro map_res_total) (simp add: parse_window_json)
  moreover have "map_res parse_window (map window_json ws) =
      map_res (\<lambda>w. parse_window (window_json w)) ws"
    by (induction ws) simp_all
  ultimately have "map_res parse_window (map window_json ws) = Inr ws" by simp
  then show "parse (RDict (schedule_dict ws)) = Inr ws"
    and "parse (RText (Some (JObj (schedule_dict ws)))) = Inr ws"
    by (simp_all add: parse_def parse_windows_def schedule_dict_def)
qed

section \<open>Abstract semantics of a window\<close>

text \<open>The module's documentation, over minutes of the day from 0 to 1439: a blank start is 00:00, a blank end is 24:00,
  the end is exclusive, and an end at or before the start wraps past midnight, so that the window is the evening from
  the start and the morning up to the end. Nothing of the code's own comparison is used.\<close>

definition doc_window_allows ::
    "string list \<Rightarrow> int option \<Rightarrow> int option \<Rightarrow> string \<Rightarrow> int \<Rightarrow> bool" where
  "doc_window_allows days f e c m =
     ((days = [] \<or> c \<in> set days) \<and>
      (let f0 = (case f of None \<Rightarrow> 0 | Some x \<Rightarrow> x);
           e0 = (case e of None \<Rightarrow> 1440 | Some x \<Rightarrow> x)
       in (f0 < e0 \<longrightarrow> f0 \<le> m \<and> m < e0) \<and>
          (e0 \<le> f0 \<longrightarrow> (f0 \<le> m \<and> m < 1440) \<or> (0 \<le> m \<and> m < e0))))"

definition bound_minutes :: "string \<Rightarrow> int option" where
  "bound_minutes s = (case parse_time s of Inr (Some u) \<Rightarrow> Some (u div minute_us) | _ \<Rightarrow> None)"

lemma mk_time_less_day: "h \<le> 23 \<Longrightarrow> m \<le> 59 \<Longrightarrow> 0 \<le> mk_time h m \<and> mk_time h m < day_us"
  by (simp add: mk_time_def)

lemma clock_at_minutes: "clock_at t = minute_us * (time_of_day t div minute_us)"
  by (simp add: clock_at_def minus_mod_eq_mult_div)

lemma clock_minute_bounds: "0 \<le> time_of_day t div minute_us" "time_of_day t div minute_us < 1440"
  using time_of_day_bounds [of t] unfolding minute_us_val day_us_val by linarith+

lemma in_clock_scale: "0 < k \<Longrightarrow> in_clock (f * k) (e * k) (m * k) = in_clock f e m"
  by (simp add: in_clock_def)

lemma in_clock_open_end:
  assumes "0 \<le> f" "f < 1440" "0 \<le> m" "m < 1440"
  shows "in_clock (f * minute_us) (day_us - 1) (m * minute_us) = in_clock f 1440 m"
  using assms by (simp add: in_clock_def)

lemma doc_window_in_clock:
  assumes "0 \<le> m" "m < 1440"
  shows "doc_window_allows days f e c m =
    ((days = [] \<or> c \<in> set days) \<and>
     in_clock (case f of None \<Rightarrow> 0 | Some x \<Rightarrow> x) (case e of None \<Rightarrow> 1440 | Some x \<Rightarrow> x) m)"
  using assms by (auto simp: doc_window_allows_def in_clock_def Let_def)

lemma valid_time_minutes:
  assumes "valid_time t"
  obtains "t = None" | k where "t = Some (k * minute_us)" "0 \<le> k" "k < 1440"
proof (cases t)
  case None
  then show ?thesis by (rule that)
next
  case (Some u)
  with assms obtain h m where "h \<le> 23" "m \<le> 59" "u = int (h * 60 + m) * minute_us"
    by (auto simp: valid_time_def mk_time_def)
  with Some show ?thesis by (intro that(2) [of "int (h * 60 + m)"]) auto
qed

lemma window_allows_doc:
  assumes "norm_window w"
  shows "window_allows w (code_at t) (clock_at t) =
    Inr (doc_window_allows (w_days w) (bound_minutes (w_from w)) (bound_minutes (w_to w))
           (code_at t) (time_of_day t div minute_us))"
proof -
  from assms obtain f e where fe: "valid_time f" "w_from w = fmt_time f" "valid_time e" "w_to w = fmt_time e"
    by (auto simp: norm_window_def)
  define m where "m = time_of_day t div minute_us"
  have mb: "0 \<le> m" "m < 1440" unfolding m_def by (rule clock_minute_bounds)+
  have c: "clock_at t = m * minute_us" by (simp add: clock_at_minutes m_def)
  have k0: "mk_time 0 0 = 0 * minute_us" by (simp add: mk_time_def)
  note doc = doc_window_in_clock [OF mb]
  note core = in_clock_scale [of minute_us] in_clock_open_end [OF _ _ mb]
  have "window_allows w (code_at t) (clock_at t) =
      Inr (doc_window_allows (w_days w) (bound_minutes (w_from w)) (bound_minutes (w_to w)) (code_at t) m)"
    using fe(1)
  proof (cases rule: valid_time_minutes)
    case 1
    from fe(3) show ?thesis
    proof (cases rule: valid_time_minutes)
      case 1
      with \<open>f = None\<close> fe mb show ?thesis
        by (simp add: window_allows_def doc_window_allows_def bound_minutes_def)
    next
      case (2 k)
      with \<open>f = None\<close> fe core(1) [of 0 k m] show ?thesis
        by (simp add: window_allows_def doc bound_minutes_def c k0)
    qed
  next
    case (2 k)
    note f = this
    from fe(3) show ?thesis
    proof (cases rule: valid_time_minutes)
      case 1
      with f fe core(2) [of k] show ?thesis
        by (simp add: window_allows_def doc bound_minutes_def c)
    next
      case (2 k')
      with f fe core(1) [of k k' m] show ?thesis
        by (simp add: window_allows_def doc bound_minutes_def c)
    qed
  qed
  then show ?thesis by (simp only: m_def)
qed

lemma window_allows_total: "norm_window w \<Longrightarrow> \<exists>b. window_allows w (code_at t) (clock_at t) = Inr b"
  by (simp add: window_allows_doc)

section \<open>Properties\<close>

lemma is_allowed_parsed:
  assumes "parse r = Inr ws"
  shows "is_allowed r t =
    Inr (ws = [] \<or> (\<exists>w \<in> set ws. doc_window_allows (w_days w) (bound_minutes (w_from w))
           (bound_minutes (w_to w)) (code_at t) (time_of_day t div minute_us)))"
proof -
  have "any_res (\<lambda>w. window_allows w (code_at t) (clock_at t)) ws =
      Inr (list_ex (\<lambda>w. doc_window_allows (w_days w) (bound_minutes (w_from w))
           (bound_minutes (w_to w)) (code_at t) (time_of_day t div minute_us)) ws)"
    using parse_norm [OF assms] by (intro any_res_total) (simp add: window_allows_doc)
  with assms show ?thesis by (simp add: is_allowed_def list_ex_iff)
qed

text \<open>C34. A schedule that parses never makes the evaluation raise, and it allows an instant exactly
  when it has no window or one of its windows does by the documented rule: the day is listed (or no day
  is), the minute is at or after the start and before the end, a blank start is 00:00, a blank end is
  24:00, and an end at or before the start wraps past midnight.\<close>

theorem is_allowed_documented:
  assumes "parse r = Inr ws"
  shows "is_allowed r t =
    Inr (ws = [] \<or> (\<exists>w \<in> set ws. doc_window_allows (w_days w) (bound_minutes (w_from w))
           (bound_minutes (w_to w)) (code_at t) (time_of_day t div minute_us)))"
  using assms by (rule is_allowed_parsed)

definition night_schedule :: raw where
  "night_schedule = RText (Some (JObj [(''windows'', JArr [JObj
     [(''days'', JArr [JStr ''Fri'', JStr ''sat'']), (''from'', JStr ''22:00''), (''to'', JStr ''4:00'')]])]))"

definition night_windows :: "window list" where
  "night_windows = [\<lparr>w_days = [''sat'', ''fri''], w_from = ''22:00'', w_to = ''04:00''\<rparr>]"

lemma parse_night: "parse night_schedule = Inr night_windows"
  by code_simp

theorem is_allowed_documented_witness:
  "is_allowed night_schedule (seconds (23 * 3600)) = Inr False \<and>
   is_allowed night_schedule (seconds (86400 + 23 * 3600 + 59)) = Inr True"
proof -
  have "night_windows = [] \<or> (\<exists>w \<in> set night_windows. doc_window_allows (w_days w)
      (bound_minutes (w_from w)) (bound_minutes (w_to w)) (code_at (seconds (23 * 3600)))
      (time_of_day (seconds (23 * 3600)) div minute_us)) \<longleftrightarrow> False"
    by code_simp
  moreover have "night_windows = [] \<or> (\<exists>w \<in> set night_windows. doc_window_allows (w_days w)
      (bound_minutes (w_from w)) (bound_minutes (w_to w)) (code_at (seconds (86400 + 23 * 3600 + 59)))
      (time_of_day (seconds (86400 + 23 * 3600 + 59)) div minute_us)) \<longleftrightarrow> True"
    by code_simp
  ultimately show ?thesis
    using is_allowed_documented [OF parse_night, of "seconds (23 * 3600)"]
      is_allowed_documented [OF parse_night, of "seconds (86400 + 23 * 3600 + 59)"]
    by (simp only: simp_thms)
qed

text \<open>Storing a schedule and reading it back gives the windows the caller passed, in normal form:
  \<open>parse(serialize(d)) == parse(d)\<close>.\<close>

theorem serialize_parse_roundtrip:
  assumes "serialize d = Inr r"
  shows "parse r = parse (RDict d)"
proof -
  from assms obtain ws where ws: "parse (RDict d) = Inr ws"
    and r: "r = (if ws = [] then REmpty else RText (Some (JObj (schedule_dict ws))))"
    by (auto simp: serialize_def res_bind_Inr)
  have "\<forall>w \<in> set ws. norm_window w" using parse_norm [OF ws] by blast
  then have "parse (RText (Some (JObj (schedule_dict ws)))) = Inr ws"
    by (rule parse_schedule_dict)
  moreover have "parse REmpty = Inr []" by (simp add: parse_def)
  ultimately show ?thesis using ws r by simp
qed

definition sample_dict :: "(string \<times> json) list" where
  "sample_dict = [(''windows'', JArr [JObj [(''days'', JStr ''fri, Sun''), (''to'', JStr ''4:30'')]])]"

theorem serialize_parse_roundtrip_witness:
  "serialize sample_dict = Inr (RText (Some (JObj (schedule_dict
     [\<lparr>w_days = [''sun'', ''fri''], w_from = [], w_to = ''04:30''\<rparr>])))) \<and>
   parse (RText (Some (JObj (schedule_dict
     [\<lparr>w_days = [''sun'', ''fri''], w_from = [], w_to = ''04:30''\<rparr>])))) = parse (RDict sample_dict)"
proof -
  have "serialize sample_dict = Inr (RText (Some (JObj (schedule_dict
     [\<lparr>w_days = [''sun'', ''fri''], w_from = [], w_to = ''04:30''\<rparr>]))))"
    by code_simp
  from this serialize_parse_roundtrip [OF this] show ?thesis ..
qed

lemma DAYS_no_comma: "d \<in> set DAYS \<Longrightarrow> CHR '','' \<notin> set d"
proof -
  have "\<forall>d \<in> set DAYS. CHR '','' \<notin> set d" by code_simp
  then show "d \<in> set DAYS \<Longrightarrow> ?thesis" by blast
qed

lemma split_derived:
  assumes "parse r = Inr ws" "derive_working_days r = Inr csv" "csv \<noteq> []"
  shows "split_on (CHR '','') csv = filter (\<lambda>d. d \<in> (\<Union>w \<in> set ws. set (w_days w))) DAYS"
    and "\<forall>w \<in> set ws. w_days w \<noteq> [] \<and> set (w_days w) \<subseteq> set (split_on (CHR '','') csv)"
proof -
  let ?ds = "filter (\<lambda>d. d \<in> (\<Union>w \<in> set ws. set (w_days w))) DAYS"
  have csv: "csv = join_with '','' ?ds" and ne: "\<forall>w \<in> set ws. w_days w \<noteq> []"
    using assms by (auto simp: derive_working_days_def split: if_splits)
  then have "?ds \<noteq> []" using assms(3) by auto
  then show sp: "split_on (CHR '','') csv = ?ds"
    unfolding csv by (rule split_on_join) (auto dest: DAYS_no_comma)
  have "set (w_days w) \<subseteq> set DAYS" if "w \<in> set ws" for w
    using parse_norm [OF assms(1) that] unfolding norm_window_def by (metis filter_is_subset)
  with ne sp show "\<forall>w \<in> set ws. w_days w \<noteq> [] \<and> set (w_days w) \<subseteq> set (split_on (CHR '','') csv)"
    by auto
qed

text \<open>The legacy \<open>working_days\<close> cache derived from a schedule is sound: when it is not blank, the
  schedule denies every instant of a day the cache does not list.\<close>

theorem derive_working_days_sound:
  assumes "derive_working_days r = Inr csv" "csv \<noteq> []" "code_at t \<notin> set (split_on (CHR '','') csv)"
  shows "is_allowed r t = Inr False"
proof -
  obtain ws where ws: "parse r = Inr ws" using assms(1) by (auto simp: derive_working_days_def res_bind_Inr)
  have "ws \<noteq> []" using assms(1,2) ws by (auto simp: derive_working_days_def)
  moreover have "\<not> doc_window_allows (w_days w) f e (code_at t) m" if "w \<in> set ws" for w f e m
    using split_derived(2) [OF ws assms(1,2)] that assms(3) by (auto simp: doc_window_allows_def)
  ultimately show ?thesis using is_allowed_parsed [OF ws] by simp
qed

theorem derive_working_days_sound_witness:
  "derive_working_days night_schedule = Inr ''sat,fri'' \<and> is_allowed night_schedule 0 = Inr False"
proof -
  have d: "derive_working_days night_schedule = Inr ''sat,fri''" by code_simp
  have c: "code_at 0 \<notin> set (split_on (CHR '','') ''sat,fri'')" by code_simp
  from d derive_working_days_sound [OF d _ c] show ?thesis by simp
qed

end
