(* ===== verification/RadiusTypes.thy ===== *)
theory RadiusTypes
  imports AccessSchedule
begin

text \<open>
  The data the authorization path reads and writes: the records of \<open>app/radius/core/types.py\<close> (with
  the columns of their tables that the dataclasses leave out), the request and the decision of
  \<open>policy_engine.py\<close>, the tables as lists of rows in insertion order, and the surroundings of a call
  (the clock, the tenant's time zone, the process settings, the external primitives).

  A record keeps the fields that some modelled operation reads or writes. An absent optional text is the
  empty text (the code tests both for truth only), a text column holding JSON is a \<open>json_text\<close>, and a
  timestamp column is the instant it denotes, \<open>None\<close> for a blank one.
\<close>

section \<open>Accounts, plans, cards\<close>

record subscriber =
  s_id :: "int option"
  s_username :: string
  s_password :: string
  s_tenant_id :: int
  s_user_type :: string
  s_service_type :: string
  s_plan_id :: "int option"
  s_login_without_password :: bool
  s_account_type :: string
  s_status :: string
  s_group :: string
  s_first_login_at :: "dt option"
  s_expire_at :: "dt option"
  s_last_login_at :: "dt option"
  s_last_seen_at :: "dt option"
  s_mac_lock :: string
  s_static_ip :: string
  s_override_concurrent :: int
  s_bandwidth_control_enabled :: bool
  s_download_speed_kbps :: int
  s_upload_speed_kbps :: int
  s_primary_dns_ppp :: string
  s_secondary_dns_ppp :: string
  s_total_connection_time_min :: int
  s_daily_connection_time_min :: int
  s_download_quota_mb :: int
  s_upload_quota_mb :: int
  s_combined_quota_mb :: int
  s_connection_time_limit_enabled :: bool
  s_quota_limit_enabled :: bool
  s_equal_share_download :: bool
  s_equal_share_upload :: bool
  s_working_days :: string
  s_connection_schedule :: json_text
  s_device_count :: int
  s_device_limit_mode :: string
  s_metadata :: json_text
  s_used_bytes_in :: int
  s_used_bytes_out :: int
  s_card_batch_id :: "int option"
  s_subscriber_group_id :: "int option"
  s_deleted :: bool

record access_plan =
  p_id :: int
  p_tenant_id :: int
  p_service_type :: string
  p_duration_minutes :: int
  p_validity_days :: int
  p_duration_value :: int
  p_duration_unit :: string
  p_max_daily_minutes :: int
  p_session_timeout_sec :: int
  p_idle_timeout_sec :: int
  p_quota_total_mb :: int
  p_quota_daily_mb :: int
  p_quota_monthly_mb :: int
  p_bandwidth_id :: "int option"
  p_speed_up_kbps :: int
  p_speed_down_kbps :: int
  p_burst_raw :: string
  p_concurrent_sessions :: int
  p_address_pool :: string
  p_framed_pool :: string
  p_allowed_days :: "string list"
  p_allowed_hours_from :: string
  p_allowed_hours_to :: string
  p_speed_unlimited :: bool
  p_monthly_download_quota_mb :: int
  p_monthly_upload_quota_mb :: int
  p_monthly_combined_quota_mb :: int
  p_daily_download_quota_mb :: int
  p_daily_upload_quota_mb :: int
  p_daily_combined_quota_mb :: int
  p_offer_hours_from :: string
  p_offer_hours_to :: string
  p_connection_schedule :: json_text
  p_deleted :: bool
  p_shared_single_session :: bool

record card_batch =
  b_id :: int
  b_tenant_id :: int
  b_total_quota_mb :: int
  b_validity_after_first_login_days :: int
  b_count_by_seconds :: bool
  b_count_from_first_connect :: bool
  b_on_quota_exhaust :: string
  b_switch_to_mac_on_connect :: bool
  b_lock_to_mac_on_close :: bool
  b_login_without_password :: bool
  b_status :: string
  b_time_value :: int
  b_time_unit :: string
  b_device_count :: int
  b_device_limit_mode :: string
  b_auto_renew_after_first_use :: bool
  b_transfer_to_student_status_on_connect :: bool
  b_close_user_session_on_disconnect :: bool
  b_deleted_at :: "dt option"

record card =
  c_id :: int
  c_batch_id :: int
  c_username :: string
  c_password :: string
  c_plan_id :: "int option"
  c_tenant_id :: int
  c_used :: bool
  c_first_used_at :: "dt option"
  c_used_by_mac :: string
  c_expire_at :: "dt option"
  c_revoked :: bool
  c_locked_mac :: string
  c_card_speed_down_kbps :: int
  c_card_speed_up_kbps :: int
  c_device_limit_mode :: string
  c_device_count :: int
  c_extra_seconds :: int
  c_usage_reset_at :: "dt option"

section \<open>Accounting sessions and the tables of the policy layers\<close>

record acct_row =
  a_radacctid :: int
  a_tenant_id :: int
  a_username :: string
  a_acctsessionid :: string
  a_callingstationid :: string
  a_start :: "dt option"
  a_update :: "dt option"
  a_stop :: "dt option"
  a_sessiontime :: int
  a_inputoctets :: int
  a_outputoctets :: int
  a_terminatecause :: string
  a_nasipaddress :: string
  a_acctinterval :: int
  a_framedipaddress :: string
  a_calledstationid :: string
  a_acctuniqueid :: string

record access_block =
  k_id :: int
  k_tenant_id :: int
  k_layer :: string
  k_block_type :: string
  k_target :: string
  k_reason :: string
  k_duration_mode :: string
  k_window_start :: string
  k_window_end :: string
  k_expires_at :: "dt option"
  k_source :: string
  k_active :: bool

record login_failure =
  f_tenant_id :: int
  f_ip :: string
  f_mac :: string
  f_username :: string
  f_created_at :: dt

record device_claim =
  cl_tenant_id :: int
  cl_username :: string
  cl_device_key :: string
  cl_claimed_at :: dt

record allow_policy =
  ap_id :: int
  ap_tenant_id :: int
  ap_scope_type :: string
  ap_scope_id :: int
  ap_mode :: string
  ap_max_devices :: int
  ap_active :: bool

record allow_device =
  ad_id :: int
  ad_policy_id :: int
  ad_username :: string
  ad_mac :: string
  ad_source :: string
  ad_last_seen_at :: "dt option"
  ad_use_count :: int

record bandwidth_profile =
  bp_id :: int
  bp_tenant_id :: int
  bp_rate_down :: int
  bp_rate_down_unit :: string
  bp_rate_up :: int
  bp_rate_up_unit :: string
  bp_burst :: string

text \<open>A speed schedule (a rule that holds in a daily window) and a subscriber group it may be aimed at.\<close>

record bandwidth_schedule =
  sc_id :: int
  sc_tenant_id :: int
  sc_target_type :: string
  sc_enabled :: bool
  sc_subscriber_username :: string
  sc_card_batch_id :: "int option"
  sc_subscriber_group_id :: "int option"
  sc_plan_id :: "int option"
  sc_priority :: int
  sc_starts_at_time :: string
  sc_ends_at_time :: string
  sc_speed_up_kbps :: int
  sc_speed_down_kbps :: int

record subscriber_group =
  g_id :: int
  g_tenant_id :: int
  g_name :: string
  g_deleted :: bool

text \<open>The quota override of a subscriber, as \<open>quota_period\<close> snapshots it.\<close>

record quota_override =
  q_combined :: int
  q_download :: int
  q_upload :: int
  q_enabled :: bool

text \<open>The top-ups of the running day or month: the local key of the window and the megabytes added per
  direction.\<close>

record window_topup =
  wt_key :: int
  wt_combined :: int
  wt_download :: int
  wt_upload :: int

record quota_state =
  qs_tenant_id :: int
  qs_subscriber_id :: int
  qs_period_start :: "dt option"
  qs_period_base_in :: int
  qs_period_base_out :: int
  qs_daily_reset_at :: "dt option"
  qs_daily_base_in :: int
  qs_daily_base_out :: int
  qs_topup_mb :: int
  qs_topup_before :: "quota_override option"
  qs_topup_after :: "quota_override option"
  qs_topup_daily :: "window_topup option"
  qs_topup_monthly :: "window_topup option"

text \<open>The snapshot of a session's counters and its baselines at the start of the local day and month.\<close>

record session_mark =
  mk_tenant_id :: int
  mk_radacctid :: int
  mk_username :: string
  mk_snap_at :: "dt option"
  mk_snap_in :: int
  mk_snap_out :: int
  mk_day_key :: "int option"
  mk_day_base_in :: int
  mk_day_base_out :: int
  mk_month_key :: "int option"
  mk_month_base_in :: int
  mk_month_base_out :: int
  mk_updated_at :: dt

record postauth_row =
  pa_tenant_id :: int
  pa_username :: string
  pa_pass :: string
  pa_accepted :: bool
  pa_authdate :: dt
  pa_reason :: string
  pa_nas_ip :: string
  pa_mac :: string

text \<open>The fingerprint of a device at a login, the binding of a device address to one, and the log of the
  anti-clone decisions.\<close>

record auth_fingerprint =
  fp_mac :: string
  fp_vendor_oui :: string
  fp_hostname :: string
  fp_dhcp_class_id :: string
  fp_os_family :: string
  fp_device_brand :: string
  fp_device_model :: string
  fp_ua_hash :: string
  fp_ua_sample :: string
  fp_nas_ip :: string
  fp_called_station :: string
  fp_nas_port :: string
  fp_nas_port_type :: string

record mac_binding =
  mb_id :: int
  mb_tenant_id :: int
  mb_username :: string
  mb_print :: auth_fingerprint
  mb_status :: string
  mb_bind_confidence :: string
  mb_first_seen_at :: dt
  mb_last_seen_at :: dt
  mb_last_verified_at :: dt
  mb_verify_count :: int
  mb_mismatch_count :: int

record clone_event =
  ce_tenant_id :: int
  ce_username :: string
  ce_mac :: string
  ce_event_type :: string
  ce_decision :: string
  ce_confidence :: string
  ce_score :: int
  ce_signals :: json_text
  ce_nas_ip :: string
  ce_called_station :: string
  ce_nas_port :: string
  ce_reason :: string
  ce_created_at :: dt

record device_print =
  dp_tenant_id :: int
  dp_mac :: string
  dp_hostname :: string
  dp_dhcp_class_id :: string
  dp_os_family :: string
  dp_device_brand :: string
  dp_device_model :: string

record db =
  tenants :: "(int \<times> string) list"
  subscribers :: "subscriber list"
  plans :: "access_plan list"
  card_batches :: "card_batch list"
  cards :: "card list"
  radacct :: "acct_row list"
  access_blocks :: "access_block list"
  login_failures :: "login_failure list"
  device_limit_claims :: "device_claim list"
  allow_policies :: "allow_policy list"
  allow_devices :: "allow_device list"
  bandwidth_profiles :: "bandwidth_profile list"
  bandwidth_schedules :: "bandwidth_schedule list"
  subscriber_groups :: "subscriber_group list"
  quota_states :: "quota_state list"
  session_marks :: "session_mark list"
  tenant_settings :: "((int \<times> string) \<times> string) list"
  radcheck :: "((int \<times> string) \<times> (string \<times> string \<times> string) list) list"
  radpostauth :: "postauth_row list"
  notifications :: "(int \<times> string \<times> string) list"
  coa_disconnects :: "(int \<times> string \<times> string) list"
  mac_clone_bindings :: "mac_binding list"
  mac_clone_events :: "clone_event list"
  device_fingerprints :: "device_print list"

section \<open>The request and the decision\<close>

record auth_request =
  r_username :: string
  r_password :: string
  r_chap_password :: string
  r_chap_challenge :: string
  r_tenant_id :: int
  r_calling_station_id :: string
  r_called_station_id :: string
  r_nas_ip :: string
  r_nas_port :: string
  r_nas_port_type :: string
  r_user_agent :: string
  r_simulate :: bool

text \<open>A message shown to the user: the key of the Arabic text in its catalogue and the text appended to
  it.\<close>

record message =
  m_key :: string
  m_extra :: string

record auth_decision =
  d_ok :: bool
  d_reason :: string
  d_message :: message
  d_reply_message :: "message option"
  d_reply_attrs :: "(string \<times> string) list"

section \<open>The surroundings of a call\<close>

text \<open>
  Each guarded block of the code (\<open>try: ... except Exception:\<close>) reads the database through a named
  site; \<open>e_fault site\<close> says that a read or write there raises. \<open>e_local\<close> and \<open>e_utc\<close> convert between
  UTC and the tenant's wall clock (the zone database), \<open>e_md5\<close> is the digest of \<open>hashlib\<close>, \<open>e_fl\<close> the rounding of a
  floating-point operation to a double. \<open>e_snapshot\<close> is the payload of the provider's latest capacity snapshot,
  \<open>e_nas_live\<close> the number of sessions a router that was just polled reports (\<open>nas_liveness\<close>, \<open>None\<close> for one that is
  not known to be reachable), \<open>e_cap_stale\<close> the variable \<open>HOBERADIUS_CAP_STALE_SEC\<close>, \<open>e_sha256\<close> the hexadecimal
  digest of \<open>hashlib\<close>, \<open>e_pystr\<close> the printing \<open>str(x)\<close> of a list or a dictionary,
  \<open>e_stamp_fault\<close> the failure of each attempt to write the login stamps (\<open>Some True\<close> for a locked database).
  \<open>e_osenv\<close> is \<open>os.environ.get\<close>, \<open>e_row_fault\<close> the failure of the transaction that closes one session row,
  \<open>e_nas_reachable\<close> says that the router of a session is known, enabled and has a secret, \<open>e_disconnect_ok\<close> that a
  disconnect of the user's session is acknowledged.
\<close>

datatype site =
    S_blocks | S_passwordless | S_auto_renew | S_subscriber_schedule | S_plan_schedule | S_offer_hours
  | S_period_usage | S_window_usage | S_exhaust_mode | S_notify | S_card_budget | S_connection_time
  | S_time_remaining | S_random_mac | S_allow_mode | S_anti_clone | S_device_limit | S_claim
  | S_provider_cap | S_batch_lookup | S_card_usage | S_plan_lookup | S_window_end | S_reply_extras
  | S_throttle | S_log | S_failed_attempt | S_budget_lookup | S_window_lookup | S_purge
  | S_first_connect | S_daily_since | S_bulk_usage | S_settings | S_force_close | S_coa | S_quota_state | S_straddle | S_marks
  | S_new_period | S_time_added | S_bind_mac | S_transfer_student | S_validity | S_card_extra
  | S_lock_mac | S_close_others | S_reset_since | S_touch | S_profile | S_device_count | S_factors
  | S_snapshot | S_count_sessions | S_liveness | S_open_session | S_window_extra
  | S_stale_query | S_shared_flag | S_shared_kick | S_quota_baseline | S_quota_interim | S_on_disconnect | S_rebalance
  | S_group_members | S_sweep_limit | S_sweep_disconnect | S_sweep_rows | S_tenants | S_local_now
  | S_acct_open | S_acct_last | S_acct_insert | S_acct_update | S_acct_reset | S_acct_reply | S_subscriber | S_card_lookup | S_speed_rules
  | S_clone_print | S_clone_eval | S_clone_sessions | S_clone_pending | S_clone_log | S_clone_delete | S_clone_bind | S_clone_alert

record env =
  e_now :: dt
  e_local :: "int \<Rightarrow> dt \<Rightarrow> dt"
  e_utc :: "int \<Rightarrow> dt \<Rightarrow> dt"
  e_md5 :: "nat list \<Rightarrow> nat list"
  e_fl :: "rat \<Rightarrow> rat"
  e_fault :: "site \<Rightarrow> bool"
  e_captive_enabled :: bool
  e_expired_pool :: string
  e_window_minutes :: int
  e_expiry_limit :: dt
  e_sha256 :: "nat list \<Rightarrow> string"
  e_snapshot :: "int \<Rightarrow> json option"
  e_nas_live :: "int \<Rightarrow> string \<Rightarrow> int option"
  e_cap_stale :: string
  e_pystr :: "json \<Rightarrow> string"
  e_stamp_fault :: "nat \<Rightarrow> bool option"
  e_osenv :: "string \<Rightarrow> string option"
  e_row_fault :: "int \<Rightarrow> bool"
  e_nas_reachable :: "acct_row \<Rightarrow> bool"
  e_disconnect_ok :: "int \<Rightarrow> string \<Rightarrow> string \<Rightarrow> bool"

text \<open>A read at a site: raises where the environment says so.\<close>

definition at_site :: "env \<Rightarrow> site \<Rightarrow> 'a res \<Rightarrow> 'a res" where
  "at_site e s r = (if e_fault e s then Inl DbError else r)"

lemma at_site_Inr: "at_site e s r = Inr x \<longleftrightarrow> \<not> e_fault e s \<and> r = Inr x"
  by (simp add: at_site_def)

lemma at_site_ok [simp]: "\<not> e_fault e s \<Longrightarrow> at_site e s r = r"
  by (simp add: at_site_def)

lemma at_site_fault [simp]: "e_fault e s \<Longrightarrow> at_site e s r = Inl DbError"
  by (simp add: at_site_def)

definition local_now :: "env \<Rightarrow> int \<Rightarrow> dt" where
  "local_now e tid = e_local e tid (e_now e)"

section \<open>Repository reads\<close>

definition get_setting :: "db \<Rightarrow> int \<Rightarrow> string \<Rightarrow> string \<Rightarrow> string" where
  "get_setting d tid key dflt = (case map_of (tenant_settings d) (tid, key) of None \<Rightarrow> dflt | Some v \<Rightarrow> v)"

definition get_subscriber :: "db \<Rightarrow> int \<Rightarrow> string \<Rightarrow> subscriber option" where
  "get_subscriber d tid u = find (\<lambda>s. s_tenant_id s = tid \<and> s_username s = u \<and> \<not> s_deleted s) (subscribers d)"

definition get_card_by_username :: "db \<Rightarrow> int \<Rightarrow> string \<Rightarrow> card option" where
  "get_card_by_username d tid u = find (\<lambda>c. c_tenant_id c = tid \<and> c_username c = u) (cards d)"

definition get_batch :: "db \<Rightarrow> int \<Rightarrow> int \<Rightarrow> card_batch option" where
  "get_batch d tid bid = find (\<lambda>b. b_tenant_id b = tid \<and> b_id b = bid) (card_batches d)"

definition get_plan :: "db \<Rightarrow> int \<Rightarrow> int \<Rightarrow> bool \<Rightarrow> access_plan option" where
  "get_plan d tid pid include_deleted =
     find (\<lambda>p. p_tenant_id p = tid \<and> p_id p = pid \<and> (include_deleted \<or> \<not> p_deleted p)) (plans d)"

definition user_rows :: "db \<Rightarrow> int \<Rightarrow> string \<Rightarrow> acct_row list" where
  "user_rows d tid u = filter (\<lambda>a. a_tenant_id a = tid \<and> a_username a = u) (radacct d)"

text \<open>\<open>bool(x)\<close> of an optional identifier.\<close>

definition truthy_id :: "int option \<Rightarrow> bool" where
  "truthy_id x = (case x of None \<Rightarrow> False | Some i \<Rightarrow> i \<noteq> 0)"

end
