(* ===== verification/ScheduleWindow.thy ===== *)
theory ScheduleWindow
  imports RadiusTypes
begin

text \<open>
  \<open>app/radius/services/schedule_window.py\<close>: the effective allowed-hours window of an account, the
  intersection of the schedule dimension (the subscriber's own schedule, else the plan's) and the offer
  hours of the plan; the test whether an instant is outside it; and the number of seconds until it
  closes, which the reply uses as a session timeout.

  The scan for the closing minute is proved once for any gate that changes on minute boundaries only
  (locale \<open>minute_gate\<close>), and the effective window is shown to be such a gate.
\<close>

section \<open>The windows of the two dimensions\<close>

text \<open>The text of a schedule column, stripped, as the argument of \<open>parse\<close>.\<close>

definition schedule_raw :: "json_text \<Rightarrow> raw" where
  "schedule_raw j = (case j of Blank \<Rightarrow> REmpty | Malformed \<Rightarrow> RText None | Decoded v \<Rightarrow> RText (Some v))"

text \<open>\<open>access_schedule.parse(raw)\<close> under \<open>except Exception: pass\<close>: the windows, or none.\<close>

definition parsed_windows :: "json_text \<Rightarrow> window list" where
  "parsed_windows j = guarded [] (parse (schedule_raw j))"

definition windows_from_days :: "string list \<Rightarrow> window list" where
  "windows_from_days codes = (if codes \<noteq> [] then [\<lparr>w_days = codes, w_from = [], w_to = []\<rparr>] else [])"

definition restricting_days :: "access_plan \<Rightarrow> string list" where
  "restricting_days plan =
     (let codes = set (map (\<lambda>d. lower (strip d)) (filter (\<lambda>d. strip d \<noteq> []) (p_allowed_days plan)))
                  \<inter> set DAYS
      in if codes = {} \<or> codes = set DAYS then [] else filter (\<lambda>d. d \<in> codes) DAYS)"

text \<open>The codes of a \<open>working_days\<close> text.\<close>

definition csv_codes :: "string \<Rightarrow> string list" where
  "csv_codes days = map (\<lambda>d. lower (strip d)) (filter (\<lambda>d. strip d \<noteq> []) (split_on (CHR '','') days))"

definition subscriber_schedule_windows :: "subscriber \<Rightarrow> window list option" where
  "subscriber_schedule_windows sub =
     (if parsed_windows (s_connection_schedule sub) \<noteq> []
      then Some (parsed_windows (s_connection_schedule sub))
      else
        let days = strip (s_working_days sub);
            codes = set (csv_codes days) \<inter> set DAYS
        in if days \<noteq> [] \<and> codes \<noteq> {} then Some (windows_from_days (filter (\<lambda>d. d \<in> codes) DAYS))
           else None)"

definition plan_schedule_windows :: "access_plan option \<Rightarrow> window list option" where
  "plan_schedule_windows plan =
     (case plan of
        None \<Rightarrow> None
      | Some p \<Rightarrow>
          if parsed_windows (p_connection_schedule p) \<noteq> []
          then Some (parsed_windows (p_connection_schedule p))
          else if restricting_days p \<noteq> [] then Some (windows_from_days (restricting_days p)) else None)"

definition schedule_dim_windows :: "subscriber \<Rightarrow> access_plan option \<Rightarrow> window list option" where
  "schedule_dim_windows sub plan =
     (case subscriber_schedule_windows sub of Some own \<Rightarrow> Some own | None \<Rightarrow> plan_schedule_windows plan)"

definition effective_plan_hours :: "access_plan \<Rightarrow> string \<times> string" where
  "effective_plan_hours p =
     (or_default (strip (p_offer_hours_from p)) (strip (p_allowed_hours_from p)),
      or_default (strip (p_offer_hours_to p)) (strip (p_allowed_hours_to p)))"

definition offer_windows :: "access_plan option \<Rightarrow> window list option" where
  "offer_windows plan =
     (case plan of
        None \<Rightarrow> None
      | Some p \<Rightarrow>
          (let (f, t) = effective_plan_hours p
           in if f = [] \<and> t = [] then None else Some [\<lparr>w_days = [], w_from = f, w_to = t\<rparr>]))"

section \<open>Evaluation\<close>

definition windows_allow :: "window list \<Rightarrow> dt \<Rightarrow> bool res" where
  "windows_allow windows when =
     (if windows = [] then Inr True
      else any_res (\<lambda>w. window_allows w (code_at when) (clock_at when)) windows)"

definition dim_allows :: "window list option \<Rightarrow> dt \<Rightarrow> bool res" where
  "dim_allows windows when = (case windows of None \<Rightarrow> Inr True | Some ws \<Rightarrow> windows_allow ws when)"

text \<open>\<open>_dim_allows(sd, dt) and _dim_allows(od, dt)\<close>, the closure \<open>allowed\<close> of the scan.\<close>

definition both_allow :: "window list option \<Rightarrow> window list option \<Rightarrow> dt \<Rightarrow> bool res" where
  "both_allow sd od when = res_bind (dim_allows sd when) (\<lambda>b. if b then dim_allows od when else Inr False)"

definition is_out_of_window :: "subscriber \<Rightarrow> access_plan option \<Rightarrow> dt \<Rightarrow> bool res" where
  "is_out_of_window sub plan when =
     (let sd = schedule_dim_windows sub plan; od = offer_windows plan in
      if sd = None \<and> od = None then Inr False
      else res_bind (both_allow sd od when) (\<lambda>b. Inr (\<not> b)))"

definition SCAN_HORIZON_MIN :: nat where "SCAN_HORIZON_MIN = 25 * 60"

fun scan_close :: "(dt \<Rightarrow> bool res) \<Rightarrow> dt \<Rightarrow> dt \<Rightarrow> nat \<Rightarrow> nat \<Rightarrow> int option res" where
  "scan_close allowed flr base i 0 = Inr None"
| "scan_close allowed flr base i (Suc n) =
     (let cand = flr + int i * minute_us in
      res_bind (allowed cand) (\<lambda>b.
        if \<not> b then Inr (Some (max 1 (total_seconds (cand - base))))
        else scan_close allowed flr base (Suc i) n))"

definition seconds_until_window_end :: "subscriber \<Rightarrow> access_plan option \<Rightarrow> dt \<Rightarrow> int option res" where
  "seconds_until_window_end sub plan when =
     (let sd = schedule_dim_windows sub plan; od = offer_windows plan in
      if sd = None \<and> od = None then Inr None
      else res_bind (both_allow sd od when) (\<lambda>b.
        if \<not> b then Inr (Some 0)
        else scan_close (both_allow sd od) (floor_minute when) when 1 SCAN_HORIZON_MIN))"

section \<open>A gate that changes on minute boundaries\<close>

locale minute_gate =
  fixes allowed :: "dt \<Rightarrow> bool res"
  assumes minute_stable: "allowed (floor_minute t) = allowed t"
begin

lemma same_minute:
  "flr mod minute_us = 0 \<Longrightarrow> flr + int i * minute_us \<le> u \<Longrightarrow> u < flr + int (Suc i) * minute_us \<Longrightarrow>
   allowed u = allowed (flr + int i * minute_us)"
  using floor_minute_same [of "flr + int i * minute_us" u] minute_stable [of u]
  by (simp add: algebra_simps mod_add_eq [symmetric])

text \<open>The scan from minute \<open>i\<close> finds the first closed minute, if there is one within \<open>n\<close> minutes.\<close>

lemma scan_close_Some:
  assumes "scan_close allowed flr base i n = Inr (Some s)" "flr mod minute_us = 0"
  shows "\<exists>k \<ge> i. k < i + n \<and> allowed (flr + int k * minute_us) = Inr False \<and>
    s = max 1 (total_seconds (flr + int k * minute_us - base)) \<and>
    (\<forall>u. flr + int i * minute_us \<le> u \<and> u < flr + int k * minute_us \<longrightarrow> allowed u = Inr True)"
  using assms(1)
proof (induction n arbitrary: i)
  case 0
  then show ?case by simp
next
  case (Suc n)
  let ?c = "flr + int i * minute_us"
  obtain b where b: "allowed ?c = Inr b" using Suc.prems by (cases "allowed ?c") simp_all
  show ?case
  proof (cases b)
    case False
    with b Suc.prems show ?thesis by (intro exI [of _ i]) auto
  next
    case True
    with b Suc.prems have "scan_close allowed flr base (Suc i) n = Inr (Some s)" by simp
    from Suc.IH [OF this] obtain k where k: "k \<ge> Suc i" "k < Suc i + n"
      "allowed (flr + int k * minute_us) = Inr False"
      "s = max 1 (total_seconds (flr + int k * minute_us - base))"
      "\<forall>u. flr + int (Suc i) * minute_us \<le> u \<and> u < flr + int k * minute_us \<longrightarrow> allowed u = Inr True"
      by blast
    have "allowed u = Inr True" if "?c \<le> u" "u < flr + int k * minute_us" for u
      using k(5) that b True same_minute [OF assms(2), of i u] by (cases "u < flr + int (Suc i) * minute_us") auto
    with k show ?thesis by (intro exI [of _ k]) auto
  qed
qed

lemma scan_close_None:
  assumes "scan_close allowed flr base i n = Inr None" "flr mod minute_us = 0"
    and "flr + int i * minute_us \<le> u" "u < flr + int (i + n) * minute_us"
  shows "allowed u = Inr True"
  using assms(1,3,4)
proof (induction n arbitrary: i)
  case 0
  then show ?case by simp
next
  case (Suc n)
  let ?c = "flr + int i * minute_us"
  obtain b where b: "allowed ?c = Inr b" using Suc.prems(1) by (cases "allowed ?c") simp_all
  with Suc.prems(1) have b: "allowed ?c = Inr True" and
    s: "scan_close allowed flr base (Suc i) n = Inr None" by (simp_all split: if_splits)
  show ?case
  proof (cases "u < flr + int (Suc i) * minute_us")
    case True
    with b Suc.prems(2) same_minute [OF assms(2)] show ?thesis by simp
  next
    case False
    with Suc.IH [OF s] Suc.prems(3) show ?thesis by simp
  qed
qed

end

section \<open>The effective window is a minute gate\<close>

lemma code_at_floor [simp]: "code_at (floor_minute t) = code_at t"
  by (simp only: code_at_def weekday_def floor_minute_day)

lemma clock_at_alt: "clock_at t = floor_minute t - day_us * (t div day_us)"
proof -
  have "time_of_day t mod minute_us = t mod minute_us"
    unfolding time_of_day_def by (rule mod_mod_cancel) (simp add: dvd_def)
  moreover have "time_of_day t = t - day_us * (t div day_us)"
    by (simp only: time_of_day_def minus_mult_div_eq_mod)
  ultimately show ?thesis by (simp only: clock_at_def floor_minute_def)
qed

lemma clock_at_floor [simp]: "clock_at (floor_minute t) = clock_at t"
  unfolding clock_at_alt floor_minute_day
  using floor_minute_same [of "floor_minute t" "floor_minute t"] by simp

lemma dim_allows_floor [simp]: "dim_allows ws (floor_minute t) = dim_allows ws t"
  by (simp add: dim_allows_def windows_allow_def split: option.split)

interpretation eff: minute_gate "both_allow sd od" for sd od
  by unfold_locales (simp add: both_allow_def cong: if_cong)

lemma is_out_of_window_both:
  "\<not> (schedule_dim_windows sub plan = None \<and> offer_windows plan = None) \<Longrightarrow>
   both_allow (schedule_dim_windows sub plan) (offer_windows plan) t = Inr b \<Longrightarrow>
   is_out_of_window sub plan t = Inr (\<not> b)"
  by (auto simp: is_out_of_window_def Let_def)

lemma floor_base_allowed:
  "both_allow sd od t = Inr True \<Longrightarrow> t \<le> u \<Longrightarrow> u < floor_minute t + minute_us \<Longrightarrow> both_allow sd od u = Inr True"
  using eff.same_minute [of "floor_minute t" 0 u sd od] eff.same_minute [of "floor_minute t" 0 t sd od]
    floor_minute_le [of t] by simp

section \<open>Properties\<close>

text \<open>C28. The session timeout computed from the window is exact: when it is positive, there is a closing
  instant after the login, outside the effective window, such that every instant from the login up to it
  is inside, and the timeout is the whole number of seconds until then (at least one).\<close>

theorem seconds_until_window_end_exact:
  assumes "seconds_until_window_end sub plan t = Inr (Some n)" "0 < n"
  shows "\<exists>close > t. is_out_of_window sub plan close = Inr True \<and>
    (\<forall>u. t \<le> u \<and> u < close \<longrightarrow> is_out_of_window sub plan u = Inr False) \<and>
    n = max 1 ((close - t) div usec)"
proof -
  let ?sd = "schedule_dim_windows sub plan" and ?od = "offer_windows plan" and ?f = "floor_minute t"
  have some: "\<not> (?sd = None \<and> ?od = None)"
  proof
    assume "?sd = None \<and> ?od = None"
    with assms show False by (simp add: seconds_until_window_end_def)
  qed
  have now: "both_allow ?sd ?od t = Inr True"
    and scan: "scan_close (both_allow ?sd ?od) ?f t 1 SCAN_HORIZON_MIN = Inr (Some n)"
    using assms some by (auto simp: seconds_until_window_end_def Let_def res_bind_Inr split: if_splits)
  from eff.scan_close_Some [OF scan floor_minute_mod] obtain k where
    k: "k \<ge> 1" "both_allow ?sd ?od (?f + int k * minute_us) = Inr False"
      "n = max 1 (total_seconds (?f + int k * minute_us - t))"
      "\<forall>u. ?f + int 1 * minute_us \<le> u \<and> u < ?f + int k * minute_us \<longrightarrow> both_allow ?sd ?od u = Inr True"
    by blast
  let ?close = "?f + int k * minute_us"
  have "1 * minute_us \<le> int k * minute_us" using k(1) by (intro mult_right_mono) auto
  then have gt: "t < ?close" using floor_minute_le(2) [of t] by linarith
  have "both_allow ?sd ?od u = Inr True" if "t \<le> u" "u < ?close" for u
    using that k(4) floor_base_allowed [OF now] by (cases "u < ?f + minute_us") auto
  then have "is_out_of_window sub plan u = Inr False" if "t \<le> u" "u < ?close" for u
    using is_out_of_window_both [OF some, of u True] that by simp
  moreover have "is_out_of_window sub plan ?close = Inr True"
    using is_out_of_window_both [OF some k(2)] by simp
  moreover have "n = max 1 ((?close - t) div usec)"
    using k(3) gt total_seconds_nonneg [of "?close - t"] by simp
  ultimately show ?thesis using gt by blast
qed

definition blank_plan :: access_plan where
  "blank_plan = \<lparr>p_id = 1, p_tenant_id = 1, p_service_type = ''Hotspot'', p_duration_minutes = 0,
     p_validity_days = 0, p_duration_value = 0, p_duration_unit = [], p_max_daily_minutes = 0, p_session_timeout_sec = 0, p_idle_timeout_sec = 0,
     p_quota_total_mb = 0, p_quota_daily_mb = 0, p_quota_monthly_mb = 0, p_bandwidth_id = None,
     p_speed_up_kbps = 0, p_speed_down_kbps = 0, p_burst_raw = [], p_concurrent_sessions = 1,
     p_address_pool = [], p_framed_pool = [], p_allowed_days = DAYS, p_allowed_hours_from = [],
     p_allowed_hours_to = [], p_speed_unlimited = False, p_monthly_download_quota_mb = 0,
     p_monthly_upload_quota_mb = 0, p_monthly_combined_quota_mb = 0, p_daily_download_quota_mb = 0,
     p_daily_upload_quota_mb = 0, p_daily_combined_quota_mb = 0, p_offer_hours_from = [],
     p_offer_hours_to = [], p_connection_schedule = Blank, p_deleted = False, p_shared_single_session = False\<rparr>"

definition blank_subscriber :: subscriber where
  "blank_subscriber = \<lparr>s_id = Some 1, s_username = ''ali'', s_password = ''pw'', s_tenant_id = 1,
     s_user_type = ''subscriber'', s_service_type = ''Hotspot'', s_plan_id = None,
     s_login_without_password = False, s_account_type = ''Personal'', s_status = ''enabled'', s_group = [],
     s_first_login_at = None, s_expire_at = None, s_last_login_at = None, s_last_seen_at = None,
     s_mac_lock = [], s_static_ip = [], s_override_concurrent = 0, s_bandwidth_control_enabled = False,
     s_download_speed_kbps = 0, s_upload_speed_kbps = 0, s_primary_dns_ppp = [], s_secondary_dns_ppp = [],
     s_total_connection_time_min = 0, s_daily_connection_time_min = 0, s_download_quota_mb = 0,
     s_upload_quota_mb = 0, s_combined_quota_mb = 0, s_connection_time_limit_enabled = False,
     s_quota_limit_enabled = False, s_equal_share_download = False, s_equal_share_upload = False,
     s_working_days = [], s_connection_schedule = Blank, s_device_count = 0, s_device_limit_mode = [],
     s_metadata = Blank, s_used_bytes_in = 0, s_used_bytes_out = 0, s_card_batch_id = None, s_subscriber_group_id = None,
     s_deleted = False\<rparr>"

definition night_plan :: access_plan where
  "night_plan = blank_plan\<lparr>p_offer_hours_to := ''04:00''\<rparr>"

theorem seconds_until_window_end_exact_witness:
  "seconds_until_window_end blank_subscriber (Some night_plan) (seconds 14280) = Inr (Some 120) \<and>
   (\<exists>close > seconds 14280. is_out_of_window blank_subscriber (Some night_plan) close = Inr True \<and>
      (\<forall>u. seconds 14280 \<le> u \<and> u < close \<longrightarrow>
        is_out_of_window blank_subscriber (Some night_plan) u = Inr False) \<and>
      120 = max 1 ((close - seconds 14280) div usec))"
proof -
  have s: "seconds_until_window_end blank_subscriber (Some night_plan) (seconds 14280) = Inr (Some 120)"
    by code_simp
  from s seconds_until_window_end_exact [OF s] show ?thesis by simp
qed

text \<open>When some window is set and the computation gives no timeout although it succeeds, the account
  stays inside its window for the whole scan horizon of 25 hours from the minute of the login.\<close>

theorem seconds_until_window_end_none:
  assumes "seconds_until_window_end sub plan t = Inr None"
    and "t \<le> u" "u < floor_minute t + (int SCAN_HORIZON_MIN + 1) * minute_us"
  shows "is_out_of_window sub plan u = Inr False"
proof -
  let ?sd = "schedule_dim_windows sub plan" and ?od = "offer_windows plan" and ?f = "floor_minute t"
  show ?thesis
  proof (cases "?sd = None \<and> ?od = None")
    case True
    then show ?thesis by (simp add: is_out_of_window_def Let_def)
  next
    case False
    have now: "both_allow ?sd ?od t = Inr True"
      and scan: "scan_close (both_allow ?sd ?od) ?f t 1 SCAN_HORIZON_MIN = Inr None"
      using assms(1) False by (auto simp: seconds_until_window_end_def Let_def res_bind_Inr split: if_splits)
    have "both_allow ?sd ?od u = Inr True"
    proof (cases "u < ?f + minute_us")
      case True
      with floor_base_allowed [OF now assms(2)] show ?thesis .
    next
      case False
      with eff.scan_close_None [OF scan floor_minute_mod, of u] assms(3) show ?thesis
        by (simp add: algebra_simps)
    qed
    with is_out_of_window_both [OF False] show ?thesis by simp
  qed
qed

theorem seconds_until_window_end_none_witness:
  "is_out_of_window blank_subscriber (Some blank_plan) (seconds 90000) = Inr False"
proof -
  have "seconds_until_window_end blank_subscriber (Some blank_plan) 0 = Inr None" by code_simp
  moreover have "seconds 90000 < floor_minute 0 + (int SCAN_HORIZON_MIN + 1) * minute_us" by code_simp
  moreover have "0 \<le> seconds 90000" by code_simp
  ultimately show ?thesis by (intro seconds_until_window_end_none [of _ _ 0])
qed

end
