(* ===== verification/CardAccounting.thy ===== *)
theory CardAccounting
  imports RadiusTypes
begin

text \<open>
  \<open>app/radius/services/card_accounting.py\<close>: the accounting mode of a card, its time budget in seconds,
  the remaining time under each mode, and the expiry stamped at the first connection. The functions are
  pure; the latest expiry the limits allow is an argument.
\<close>

section \<open>Definitions\<close>

definition MODE_FROM_FIRST_CONNECT :: string where "MODE_FROM_FIRST_CONNECT = ''from_first_connect''"
definition MODE_BY_SECONDS :: string where "MODE_BY_SECONDS = ''by_seconds''"

definition UNIT_SECONDS :: "(string \<times> int) list" where
  "UNIT_SECONDS = [(''seconds'', 1), (''minutes'', 60), (''hours'', 3600), (''days'', 86400),
     (''weeks'', 604800), (''months'', 2592000), (''years'', 31536000)]"

definition unit_to_seconds :: "int \<Rightarrow> string \<Rightarrow> int" where
  "unit_to_seconds v unit =
     (if v \<le> 0 then 0
      else v * (case map_of UNIT_SECONDS (lower (strip (if unit = [] then ''days'' else unit))) of
                  None \<Rightarrow> 86400 | Some k \<Rightarrow> k))"

definition accounting_mode :: "bool \<Rightarrow> string" where
  "accounting_mode count_from_first_connect =
     (if count_from_first_connect then MODE_FROM_FIRST_CONNECT else MODE_BY_SECONDS)"

definition budget_seconds :: "int \<Rightarrow> int \<Rightarrow> string \<Rightarrow> int \<Rightarrow> int \<Rightarrow> int" where
  "budget_seconds validity_after_first_login_days time_value time_unit duration_minutes validity_days =
     (if validity_after_first_login_days > 0 then validity_after_first_login_days * 86400
      else if unit_to_seconds time_value time_unit > 0 then unit_to_seconds time_value time_unit
      else if duration_minutes > 0 then duration_minutes * 60
      else if validity_days > 0 then validity_days * 86400
      else 0)"

definition budget_with_extra :: "int \<Rightarrow> int \<Rightarrow> int" where
  "budget_with_extra b extra = (if b \<le> 0 then 0 else max 0 (b + extra))"

definition is_exhausted :: "int \<Rightarrow> int \<Rightarrow> bool" where
  "is_exhausted b extra = (b > 0 \<and> b + extra \<le> 0)"

definition remaining_seconds ::
    "string \<Rightarrow> int \<Rightarrow> dt \<Rightarrow> dt option \<Rightarrow> int \<Rightarrow> dt option \<Rightarrow> int option" where
  "remaining_seconds mode budget now first_connection_at accounted expire_at =
     (let computed =
        (if mode = MODE_FROM_FIRST_CONNECT then
           (case first_connection_at of
              None \<Rightarrow> if budget > 0 then Some budget else None
            | Some fc \<Rightarrow>
                if budget > 0 then Some (max 0 (total_seconds (fc + seconds budget - now))) else None)
         else if budget > 0 then Some (max 0 (budget - accounted)) else None)
      in case (computed, expire_at) of
           (None, Some x) \<Rightarrow> Some (max 0 (total_seconds (x - now)))
         | _ \<Rightarrow> computed)"

definition clamp_expiry :: "dt \<Rightarrow> dt \<Rightarrow> int \<Rightarrow> dt" where
  "clamp_expiry limit start secs =
     (let last = limit - seconds 1; out = start + seconds secs
      in if out < DT_MIN \<or> DT_MAX < out then last else min out last)"

definition first_connect_expiry :: "dt \<Rightarrow> dt \<Rightarrow> int \<Rightarrow> dt option" where
  "first_connect_expiry limit first_connection_at b =
     (if b \<le> 0 then None else Some (clamp_expiry limit first_connection_at b))"

section \<open>Facts about budgets\<close>

lemma unit_to_seconds_nonneg: "0 \<le> unit_to_seconds v u"
  by (auto simp: unit_to_seconds_def UNIT_SECONDS_def split: option.splits if_splits)

lemma unit_to_seconds_pos: "0 < v \<Longrightarrow> 0 < unit_to_seconds v u"
  by (auto simp: unit_to_seconds_def UNIT_SECONDS_def split: option.splits if_splits)

lemma budget_seconds_nonneg: "0 \<le> budget_seconds vd tv tu dm pv"
  by (simp add: budget_seconds_def)

lemma budget_with_extra_nonneg: "0 \<le> budget_with_extra b x"
  by (simp add: budget_with_extra_def)

lemma clamp_expiry_bound: "clamp_expiry limit start secs < limit"
  by (simp add: clamp_expiry_def Let_def seconds_def min_def)

lemma clamp_expiry_exact:
  "DT_MIN \<le> start + seconds secs \<Longrightarrow> start + seconds secs \<le> limit - seconds 1 \<Longrightarrow> limit \<le> DT_MAX \<Longrightarrow>
   clamp_expiry limit start secs = start + seconds secs"
  by (auto simp: clamp_expiry_def Let_def seconds_def)

section \<open>Properties\<close>

text \<open>A zero budget means two different things and the code keeps them apart: for a card that has a
  time budget, the budget after the operator's deduction is zero exactly when the card is exhausted, and
  otherwise it is the positive sum; for a card without a budget no deduction ever exhausts it.\<close>

theorem budget_exhaustion:
  "(0 < b \<longrightarrow> (budget_with_extra b x = 0 \<longleftrightarrow> is_exhausted b x) \<and>
              (\<not> is_exhausted b x \<longrightarrow> budget_with_extra b x = b + x \<and> 0 < b + x)) \<and>
   (b \<le> 0 \<longrightarrow> budget_with_extra b x = 0 \<and> \<not> is_exhausted b x)"
  by (auto simp: budget_with_extra_def is_exhausted_def)

theorem budget_exhaustion_witness:
  "budget_with_extra 3600 (- 4000) = 0 \<and> is_exhausted 3600 (- 4000) \<and>
   budget_with_extra 3600 1800 = 5400 \<and> \<not> is_exhausted 0 (- 4000)"
proof -
  have "is_exhausted 3600 (- 4000)" "\<not> is_exhausted 3600 1800" by (simp_all add: is_exhausted_def)
  then show ?thesis
    using budget_exhaustion [of 3600 "- 4000"] budget_exhaustion [of 3600 1800]
      budget_exhaustion [of 0 "- 4000"] by simp
qed

text \<open>The countdown shown for a from-first-connect card and the expiry stamped on it agree: while the
  stamped expiry is at least a second ahead the remaining time is positive and no longer than that, and
  from the expiry on it is zero. The stamp never reaches the year limit.\<close>

theorem remaining_agrees_with_expiry:
  assumes "first_connect_expiry limit fc b = Some x" "x = fc + seconds b"
    and "remaining_seconds MODE_FROM_FIRST_CONNECT b now (Some fc) used xpr = Some r"
  shows "x < limit \<and> (0 < r \<longleftrightarrow> now + usec \<le> x) \<and> (0 < r \<longrightarrow> now + seconds r \<le> x) \<and> (x \<le> now \<longrightarrow> r = 0)"
proof -
  have b: "0 < b" using assms(1) by (simp add: first_connect_expiry_def split: if_splits)
  have r: "r = max 0 (total_seconds (x - now))"
    using assms(2,3) b by (simp add: remaining_seconds_def)
  have "x < limit"
    using assms(1) clamp_expiry_bound by (auto simp: first_connect_expiry_def split: if_splits)
  moreover have "0 < total_seconds (x - now) \<longleftrightarrow> now + usec \<le> x"
    unfolding total_seconds_def by (auto simp: pos_imp_zdiv_pos_iff)
  moreover have "0 < r \<Longrightarrow> now + seconds r \<le> x"
    using total_seconds_pos_le [of "x - now"] r by (auto simp: seconds_def max_def split: if_splits)
  ultimately show ?thesis using r by auto
qed

theorem remaining_agrees_with_expiry_witness:
  "first_connect_expiry (seconds 10000) 0 600 = Some (seconds 600) \<and>
   remaining_seconds MODE_FROM_FIRST_CONNECT 600 (seconds 90) (Some 0) 0 None = Some 510 \<and>
   seconds 90 + seconds 510 \<le> seconds 600"
proof -
  have a: "first_connect_expiry (seconds 10000) 0 600 = Some (seconds 600)"
    and r: "remaining_seconds MODE_FROM_FIRST_CONNECT 600 (seconds 90) (Some 0) 0 None = Some 510"
    by code_simp+
  show ?thesis using a r remaining_agrees_with_expiry [OF a _ r] by simp
qed

text \<open>In the by-seconds mode time only burns while online: the remaining time plus the accounted
  seconds is the budget until the budget is used up, and it does not depend on the wall clock.\<close>

theorem remaining_by_seconds:
  assumes "0 < b" "0 \<le> used"
  shows "\<exists>r. remaining_seconds MODE_BY_SECONDS b now fc used xpr = Some r \<and>
    remaining_seconds MODE_BY_SECONDS b now' fc used xpr = Some r \<and>
    (used \<le> b \<longrightarrow> r + used = b) \<and> (b \<le> used \<longrightarrow> r = 0)"
  using assms by (auto simp: remaining_seconds_def MODE_BY_SECONDS_def MODE_FROM_FIRST_CONNECT_def)

theorem remaining_by_seconds_witness:
  "\<exists>r. remaining_seconds MODE_BY_SECONDS 100 0 None 30 None = Some r \<and> r + 30 = 100"
  using remaining_by_seconds [of 100 30 0 None None 5] by auto

end
