(* ===== verification/SlidingWindow.thy ===== *)
theory SlidingWindow
  imports RadiusTypes
begin

text \<open>
  Counting failures in a sliding window: what the automatic block (\<open>access_control\<close>) and the login
  throttle (\<open>login_throttle\<close>) rely on. A store records an event for a key at an instant, may forget events
  older than its retention, and counts the events of a key since an instant. The locale \<open>event_store\<close>
  states the law, and shows that a run of events inside the window is counted in full.
\<close>

locale event_store =
  fixes record_event :: "'k \<Rightarrow> dt \<Rightarrow> 's \<Rightarrow> 's"
    and count_since :: "'k \<Rightarrow> dt \<Rightarrow> 's \<Rightarrow> nat"
    and retention :: int
  assumes count_record:
    "t - retention \<le> c \<Longrightarrow>
     count_since k c (record_event k' t s) = count_since k c s + (if k = k' \<and> c \<le> t then 1 else 0)"
begin

fun record_all :: "'k \<Rightarrow> dt list \<Rightarrow> 's \<Rightarrow> 's" where
  "record_all k [] s = s"
| "record_all k (t # ts) s = record_all k ts (record_event k t s)"

lemma count_record_all:
  "\<forall>t \<in> set ts. c \<le> t \<and> t - retention \<le> c \<Longrightarrow>
   count_since k c (record_all k ts s) = count_since k c s + length ts"
  by (induction ts arbitrary: s) (auto simp: count_record)

lemma count_other:
  "\<forall>t \<in> set ts. t - retention \<le> c \<Longrightarrow> k \<noteq> k' \<Longrightarrow>
   count_since k c (record_all k' ts s) = count_since k c s"
  by (induction ts arbitrary: s) (auto simp: count_record)

end

end
