(* ===== verification/Tables.thy ===== *)
theory Tables
  imports RadiusTypes
begin

text \<open>
  Tables with a uniqueness constraint. \<open>INSERT ... ON CONFLICT(key) DO UPDATE\<close> on a list of rows either
  replaces the row with the key in place or appends a new one. The locale \<open>keyed_table\<close> states what a
  component may rely on (a lookup after a write, the key stays unique, other keys are untouched); it is
  interpreted on the device claims and on the quota states.
\<close>

section \<open>Upsert on a list of rows\<close>

fun upsert :: "('r \<Rightarrow> 'k) \<Rightarrow> 'r \<Rightarrow> 'r list \<Rightarrow> 'r list" where
  "upsert keyf r [] = [r]"
| "upsert keyf r (x # xs) = (if keyf x = keyf r then r # xs else x # upsert keyf r xs)"

definition lookup_row :: "('r \<Rightarrow> 'k) \<Rightarrow> 'k \<Rightarrow> 'r list \<Rightarrow> 'r option" where
  "lookup_row keyf k t = find (\<lambda>x. keyf x = k) t"

definition unique_keys :: "('r \<Rightarrow> 'k) \<Rightarrow> 'r list \<Rightarrow> bool" where
  "unique_keys keyf t = distinct (map keyf t)"

lemma lookup_upsert:
  "lookup_row keyf k (upsert keyf r t) = (if k = keyf r then Some r else lookup_row keyf k t)"
  unfolding lookup_row_def by (induction t) auto

lemma set_upsert_keys: "keyf ` set (upsert keyf r t) = insert (keyf r) (keyf ` set t)"
  by (induction t) auto

lemma unique_upsert: "unique_keys keyf t \<Longrightarrow> unique_keys keyf (upsert keyf r t)"
  unfolding unique_keys_def
proof (induction t)
  case (Cons x t)
  then show ?case using set_upsert_keys [of keyf r t] by auto
qed simp

lemma upsert_fresh: "keyf r \<notin> keyf ` set t \<Longrightarrow> upsert keyf r t = t @ [r]"
  by (induction t) auto

lemma filter_upsert_other:
  "\<not> P r \<Longrightarrow> (\<And>x. P x \<Longrightarrow> keyf x \<noteq> keyf r) \<Longrightarrow> filter P (upsert keyf r t) = filter P t"
  by (induction t) auto

section \<open>The interface\<close>

locale keyed_table =
  fixes keyf :: "'r \<Rightarrow> 'k"
    and put :: "'r \<Rightarrow> 'r list \<Rightarrow> 'r list"
    and get :: "'k \<Rightarrow> 'r list \<Rightarrow> 'r option"
    and inv :: "'r list \<Rightarrow> bool"
  assumes get_put: "get k (put r t) = (if k = keyf r then Some r else get k t)"
    and inv_put: "inv t \<Longrightarrow> inv (put r t)"
    and inv_empty: "inv []"
    and inv_distinct: "inv t \<Longrightarrow> distinct (map keyf t)"
begin

lemma get_put_same: "get (keyf r) (put r t) = Some r"
  by (simp add: get_put)

lemma get_put_other: "k \<noteq> keyf r \<Longrightarrow> get k (put r t) = get k t"
  by (simp add: get_put)

lemma put_put_get: "keyf r = keyf r' \<Longrightarrow> get k (put r' (put r t)) = get k (put r' t)"
  by (simp add: get_put)

fun puts :: "'r list \<Rightarrow> 'r list \<Rightarrow> 'r list" where
  "puts [] t = t"
| "puts (r # rs) t = puts rs (put r t)"

lemma inv_puts: "inv t \<Longrightarrow> inv (puts rs t)"
  by (induction rs arbitrary: t) (auto intro: inv_put)

lemma get_puts_unchanged: "k \<notin> keyf ` set rs \<Longrightarrow> get k (puts rs t) = get k t"
  by (induction rs arbitrary: t) (auto simp: get_put)

end

interpretation upsert_table: keyed_table keyf "upsert keyf" "lookup_row keyf" "unique_keys keyf" for keyf
  by unfold_locales (simp_all add: lookup_upsert unique_upsert, simp_all add: unique_keys_def)

end
