(* ===== verification/SessionReconciler.thy ===== *)
theory SessionReconciler
  imports RadiusTypes
begin

text \<open>
  \<open>app/radius/services/session_reconciler.py\<close>: the canonical way to close an accounting session from the
  panel side (\<open>close_session_row\<close>), the forced close of a user's sessions, which the device limit uses
  to replace the oldest one, and the sweep over sessions that went silent.
\<close>

section \<open>Definitions\<close>

definition CAUSE_FORCE :: string where "CAUSE_FORCE = ''Admin-Force-Close''"

definition session_seconds :: "dt option \<Rightarrow> dt option \<Rightarrow> int option" where
  "session_seconds start stop =
     (case (start, stop) of
        (Some s, Some t) \<Rightarrow> Some (max 0 (total_seconds (t - s)))
      | _ \<Rightarrow> None)"

definition opt_or :: "'a option \<Rightarrow> 'a option \<Rightarrow> 'a option" where
  "opt_or a b = (case a of None \<Rightarrow> b | Some x \<Rightarrow> Some x)"

text \<open>The stop instant and the seconds written to a row that is closed.\<close>

definition closed_row :: "dt \<Rightarrow> acct_row \<Rightarrow> string \<Rightarrow> dt option \<Rightarrow> acct_row \<Rightarrow> acct_row" where
  "closed_row now row cause stop_iso target =
     (let stop = opt_or stop_iso (opt_or (a_update row) (opt_or (a_start row) (Some now)));
          existing = a_sessiontime row;
          secs = (case session_seconds (a_start row) stop of None \<Rightarrow> existing | Some c \<Rightarrow> max existing c)
      in target\<lparr>a_stop := stop, a_sessiontime := secs, a_terminatecause := cause\<rparr>)"

definition close_session_row ::
    "dt \<Rightarrow> db \<Rightarrow> acct_row \<Rightarrow> string \<Rightarrow> dt option \<Rightarrow> db \<times> nat" where
  "close_session_row now d row cause stop_iso =
     (let hit = (\<lambda>a. a_radacctid a = a_radacctid row \<and> a_stop a = None)
      in (d\<lparr>radacct := map (\<lambda>a. if hit a then closed_row now row cause stop_iso a else a) (radacct d)\<rparr>,
          length (filter hit (radacct d))))"

text \<open>One transaction per row: a row whose transaction fails is left alone and does not stop the batch.\<close>

fun close_rows :: "(int \<Rightarrow> bool) \<Rightarrow> dt \<Rightarrow> string \<Rightarrow> dt option \<Rightarrow> db \<Rightarrow> acct_row list \<Rightarrow> db \<times> nat" where
  "close_rows bad now cause stop d [] = (d, 0)"
| "close_rows bad now cause stop d (row # rows) =
     (let (d1, n) = (if bad (a_radacctid row) then (d, 0) else close_session_row now d row cause stop);
          (d2, k) = close_rows bad now cause stop d1 rows
      in (d2, if n > 0 then Suc k else k))"

definition force_close_rows :: "db \<Rightarrow> int \<Rightarrow> string \<Rightarrow> string \<Rightarrow> acct_row list" where
  "force_close_rows d tid user session_id =
     (let sid = strip session_id in
      filter (\<lambda>a. a_stop a = None \<and> (sid \<noteq> [] \<longrightarrow> a_acctsessionid a = sid)) (user_rows d tid user))"

text \<open>A blank \<open>session_id\<close> stands for \<open>None\<close>: every open session of the user.\<close>

definition force_close :: "env \<Rightarrow> db \<Rightarrow> int \<Rightarrow> string \<Rightarrow> string \<Rightarrow> string \<Rightarrow> db \<times> nat" where
  "force_close e d tid user session_id cause =
     guarded (d, 0) (at_site e S_force_close
       (Inr (close_rows (e_row_fault e) (e_now e) cause (Some (e_now e)) d (force_close_rows d tid user session_id))))"

section \<open>Sessions that went silent\<close>

definition CAUSE_INTERIM :: string where "CAUSE_INTERIM = ''Stale-Session-Timeout''"
definition CAUSE_MANUAL :: string where "CAUSE_MANUAL = ''Reconciliation-Stale''"
definition DEFAULT_STALE_MIN :: int where "DEFAULT_STALE_MIN = 20"

text \<open>A positive integer read from an environment variable.\<close>

definition env_positive :: "env \<Rightarrow> string \<Rightarrow> int option" where
  "env_positive e name =
     (let raw = strip (case e_osenv e name of None \<Rightarrow> [] | Some s \<Rightarrow> s)
      in if raw = [] then None
         else (case parse_int raw of None \<Rightarrow> None | Some v \<Rightarrow> if v > 0 then Some v else None))"

definition stale_threshold_sec :: "env \<Rightarrow> int" where
  "stale_threshold_sec e =
     (case env_positive e ''HOBERADIUS_SESSION_STALE_MINUTES'' of
        Some v \<Rightarrow> v * 60
      | None \<Rightarrow>
          (case env_positive e ''HOBERADIUS_STALE_SESSION_SEC'' of
             Some v \<Rightarrow> v
           | None \<Rightarrow> DEFAULT_STALE_MIN * 60))"

text \<open>\<open>acctupdatetime or acctstarttime\<close>, the last sign of life of a session.\<close>

definition last_seen :: "acct_row \<Rightarrow> dt option" where
  "last_seen a = opt_or (a_update a) (a_start a)"

text \<open>The rows of the query; \<open>datetime('now', ...)\<close> has whole seconds.\<close>

definition stale :: "dt \<Rightarrow> int option \<Rightarrow> acct_row \<Rightarrow> bool" where
  "stale cutoff tid a =
     ((case tid of None \<Rightarrow> True | Some t \<Rightarrow> a_tenant_id a = t) \<and> a_stop a = None \<and>
      (case last_seen a of None \<Rightarrow> True | Some t \<Rightarrow> t < cutoff))"

definition reconcile_stale_interim :: "env \<Rightarrow> db \<Rightarrow> int option \<Rightarrow> int option \<Rightarrow> string \<Rightarrow> db \<times> nat" where
  "reconcile_stale_interim e d tid threshold_sec cause =
     (let threshold = (case threshold_sec of None \<Rightarrow> stale_threshold_sec e | Some s \<Rightarrow> s);
          cutoff = floor_sec (e_now e) - seconds threshold
      in guarded (d, 0) (at_site e S_stale_query
           (Inr (close_rows (e_row_fault e) (e_now e) cause None d (filter (stale cutoff tid) (radacct d))))))"

section \<open>What closing does to the table\<close>

lemma opt_or_Some [simp]: "opt_or (Some x) b = Some x" "opt_or None b = b"
  by (simp_all add: opt_or_def)

lemma closed_row_fields [simp]:
  "a_radacctid (closed_row now row c s a) = a_radacctid a"
  "a_tenant_id (closed_row now row c s a) = a_tenant_id a"
  "a_username (closed_row now row c s a) = a_username a"
  "a_acctsessionid (closed_row now row c s a) = a_acctsessionid a"
  "a_nasipaddress (closed_row now row c s a) = a_nasipaddress a"
  "a_start (closed_row now row c s a) = a_start a"
  "a_inputoctets (closed_row now row c s a) = a_inputoctets a"
  "a_outputoctets (closed_row now row c s a) = a_outputoctets a"
  "a_terminatecause (closed_row now row c s a) = c"
  by (simp_all add: closed_row_def Let_def)

lemma closed_row_stop:
  "a_stop (closed_row now row c s a) = Some (case opt_or s (last_seen row) of None \<Rightarrow> now | Some t \<Rightarrow> t)"
  by (simp add: closed_row_def Let_def opt_or_def last_seen_def split: option.split)

lemma closed_row_stop_now [simp]: "a_stop (closed_row now row c (Some t) a) = Some t"
  by (simp add: closed_row_stop)

lemma closed_row_closed [simp]: "a_stop (closed_row now row c s a) \<noteq> None"
  by (simp add: closed_row_stop)

lemma closed_row_seconds: "a_sessiontime row \<le> a_sessiontime (closed_row now row c s a)"
  by (simp add: closed_row_def Let_def split: option.split)

text \<open>The pointwise effect of a run of closes, when row ids identify rows: the rows whose id is in the
  list and that are open are closed, the others are left alone.\<close>

definition ids_identify :: "db \<Rightarrow> bool" where
  "ids_identify d = distinct (map a_radacctid (radacct d))"

lemma ids_identify_inj:
  "ids_identify d \<Longrightarrow> a \<in> set (radacct d) \<Longrightarrow> b \<in> set (radacct d) \<Longrightarrow> a_radacctid a = a_radacctid b \<Longrightarrow> a = b"
  by (simp add: ids_identify_def distinct_map inj_on_def)

definition close_effect :: "dt \<Rightarrow> string \<Rightarrow> dt option \<Rightarrow> int set \<Rightarrow> acct_row \<Rightarrow> acct_row" where
  "close_effect now cause stop ids a =
     (if a_radacctid a \<in> ids \<and> a_stop a = None then closed_row now a cause stop a else a)"

lemma close_effect_ids [simp]: "a_radacctid (close_effect now cause stop ids a) = a_radacctid a"
  by (simp add: close_effect_def)

lemma close_effect_comp:
  "close_effect now cause stop I (close_effect now cause stop J a) = close_effect now cause stop (J \<union> I) a"
  by (auto simp: close_effect_def closed_row_stop)

lemma close_session_row_effect:
  assumes "ids_identify d" "row \<in> set (radacct d)" "a_stop row = None"
  shows "close_session_row now d row cause stop =
           (d\<lparr>radacct := map (close_effect now cause stop {a_radacctid row}) (radacct d)\<rparr>, 1)"
proof -
  have eq: "a_radacctid a = a_radacctid row \<longleftrightarrow> a = row" if "a \<in> set (radacct d)" for a
    using ids_identify_inj [OF assms(1) that assms(2)] by blast
  have "map (\<lambda>a. if a_radacctid a = a_radacctid row \<and> a_stop a = None
           then closed_row now row cause stop a else a) (radacct d) =
        map (close_effect now cause stop {a_radacctid row}) (radacct d)"
    using eq by (intro map_cong) (auto simp: close_effect_def)
  moreover have "filter (\<lambda>a. a_radacctid a = a_radacctid row \<and> a_stop a = None) (radacct d) = [row]"
  proof -
    have "filter (\<lambda>a. a_radacctid a = a_radacctid row \<and> a_stop a = None) (radacct d) =
          filter (\<lambda>a. a = row) (radacct d)"
      using eq assms(3) by (intro filter_cong) auto
    also have "\<dots> = [row]"
      using assms(1,2) by (intro filter_eq_single) (auto simp: ids_identify_def distinct_map)
    finally show ?thesis .
  qed
  ultimately show ?thesis by (simp add: close_session_row_def Let_def)
qed

lemma close_rows_effect:
  assumes "ids_identify d" "set rows \<subseteq> set (radacct d)" "distinct (map a_radacctid rows)"
    and "\<forall>r \<in> set rows. a_stop r = None"
  shows "close_rows bad now cause stop d rows =
    (let hit = filter (\<lambda>r. \<not> bad (a_radacctid r)) rows
     in (d\<lparr>radacct := map (close_effect now cause stop (a_radacctid ` set hit)) (radacct d)\<rparr>, length hit))"
  using assms
proof (induction rows arbitrary: d)
  case Nil
  then show ?case by (simp add: close_effect_def [abs_def])
next
  case (Cons row rows)
  let ?ids = "a_radacctid ` set (filter (\<lambda>r. \<not> bad (a_radacctid r)) rows)"
  show ?case
  proof (cases "bad (a_radacctid row)")
    case True
    with Cons.IH [of d] Cons.prems show ?thesis by (simp add: Let_def)
  next
    case False
    let ?d1 = "d\<lparr>radacct := map (close_effect now cause stop {a_radacctid row}) (radacct d)\<rparr>"
    have one: "close_session_row now d row cause stop = (?d1, 1)"
      using Cons.prems by (intro close_session_row_effect) auto
    have "map a_radacctid (radacct ?d1) = map a_radacctid (radacct d)" by simp
    then have id1: "ids_identify ?d1" using Cons.prems(1) by (simp only: ids_identify_def)
    have "r \<in> set (radacct ?d1)" if "r \<in> set rows" for r
    proof -
      have "a_radacctid r \<noteq> a_radacctid row" using Cons.prems(3) that by (auto simp: image_iff)
      then have "close_effect now cause stop {a_radacctid row} r = r" by (simp add: close_effect_def)
      moreover have "r \<in> set (radacct d)" using Cons.prems(2) that by auto
      ultimately show ?thesis by (auto simp: image_iff intro!: bexI [of _ r])
    qed
    then have "close_rows bad now cause stop ?d1 rows =
        (?d1\<lparr>radacct := map (close_effect now cause stop ?ids) (radacct ?d1)\<rparr>,
         length (filter (\<lambda>r. \<not> bad (a_radacctid r)) rows))"
      using Cons.prems id1 by (subst Cons.IH) (auto simp: Let_def)
    with one False show ?thesis by (simp add: comp_def close_effect_comp Let_def)
  qed
qed

text \<open>Closing every open row a selection picks: what both closing operations come to.\<close>

definition close_where :: "dt \<Rightarrow> string \<Rightarrow> dt option \<Rightarrow> (acct_row \<Rightarrow> bool) \<Rightarrow> acct_row \<Rightarrow> acct_row" where
  "close_where now cause stop P a = (if P a then closed_row now a cause stop a else a)"

lemma close_rows_where:
  assumes "ids_identify d" and open_P: "\<And>a. P a \<Longrightarrow> a_stop a = None"
  shows "close_rows bad now cause stop d (filter P (radacct d)) =
    (let Q = (\<lambda>a. P a \<and> \<not> bad (a_radacctid a))
     in (d\<lparr>radacct := map (close_where now cause stop Q) (radacct d)\<rparr>, length (filter Q (radacct d))))"
proof -
  let ?rows = "filter P (radacct d)" and ?Q = "\<lambda>a. P a \<and> \<not> bad (a_radacctid a)"
  have hit: "filter (\<lambda>r. \<not> bad (a_radacctid r)) ?rows = filter ?Q (radacct d)" by (simp add: conj_commute)
  have "distinct (map a_radacctid ?rows)" using assms(1) by (simp add: ids_identify_def distinct_map_filter)
  then have run: "close_rows bad now cause stop d ?rows =
      (d\<lparr>radacct := map (close_effect now cause stop (a_radacctid ` set (filter ?Q (radacct d)))) (radacct d)\<rparr>,
       length (filter ?Q (radacct d)))"
    using assms by (subst close_rows_effect) (auto simp: hit Let_def)
  have "close_effect now cause stop (a_radacctid ` set (filter ?Q (radacct d))) a = close_where now cause stop ?Q a"
    if "a \<in> set (radacct d)" for a
    using ids_identify_inj [OF assms(1) that] that open_P by (auto simp: close_effect_def close_where_def image_iff)
  then show ?thesis by (simp add: run Let_def cong: map_cong)
qed

text \<open>A run of closes stops the selected rows and no other, and a second run finds nothing.\<close>

lemma close_where_stopped:
  assumes "\<And>a. P a \<Longrightarrow> a_stop a = None"
  shows "\<not> P (close_where now cause stop P a)"
    "close_where now' cause' stop' P (close_where now cause stop P a) = close_where now cause stop P a"
proof -
  have "\<not> P (closed_row now a cause stop a)" for a using assms closed_row_closed by blast
  then show "\<not> P (close_where now cause stop P a)"
    "close_where now' cause' stop' P (close_where now cause stop P a) = close_where now cause stop P a"
    by (simp_all add: close_where_def)
qed

lemma close_where_spec:
  "list_all2 (\<lambda>a a'. if P a
      then a_stop a' = Some (case opt_or stop (last_seen a) of None \<Rightarrow> now | Some t \<Rightarrow> t) \<and> a_terminatecause a' = cause \<and>
           a_sessiontime a \<le> a_sessiontime a' \<and> a_radacctid a' = a_radacctid a
      else a' = a) rows (map (close_where now cause stop P) rows)"
  by (simp add: list_all2_conv_all_nth close_where_def closed_row_stop closed_row_seconds)

lemma ids_identify_close [simp]:
  "ids_identify (d\<lparr>radacct := map (close_where now cause stop P) (radacct d)\<rparr>) = ids_identify d"
proof -
  have "map a_radacctid (map (close_where now cause stop P) (radacct d)) = map a_radacctid (radacct d)"
    by (simp add: close_where_def)
  then show ?thesis by (simp del: map_map add: ids_identify_def)
qed

text \<open>The rows a forced close is meant to close.\<close>

definition targeted :: "int \<Rightarrow> string \<Rightarrow> string \<Rightarrow> acct_row \<Rightarrow> bool" where
  "targeted tid user session_id a =
     (a_tenant_id a = tid \<and> a_username a = user \<and> a_stop a = None \<and>
      (strip session_id \<noteq> [] \<longrightarrow> a_acctsessionid a = strip session_id))"

lemma force_close_rows_targeted: "force_close_rows d tid u sid = filter (targeted tid u sid) (radacct d)"
  by (auto simp: force_close_rows_def Let_def user_rows_def targeted_def intro!: filter_cong)

definition closable :: "env \<Rightarrow> int \<Rightarrow> string \<Rightarrow> string \<Rightarrow> acct_row \<Rightarrow> bool" where
  "closable e tid user session_id a = (targeted tid user session_id a \<and> \<not> e_row_fault e (a_radacctid a))"

lemma force_close_eq:
  assumes "\<not> e_fault e S_force_close" "ids_identify d"
  shows "force_close e d tid u sid cause =
    (d\<lparr>radacct := map (close_where (e_now e) cause (Some (e_now e)) (closable e tid u sid)) (radacct d)\<rparr>,
     length (filter (closable e tid u sid) (radacct d)))"
  using assms(1) close_rows_where [OF assms(2), of "targeted tid u sid"]
  by (simp add: force_close_def force_close_rows_targeted targeted_def closable_def [abs_def] Let_def)

section \<open>Properties\<close>

text \<open>A forced close touches exactly the open sessions of the user (of the given session id, or all of
  them without one) whose own transaction succeeds: those are stopped now with the given cause and keep at least
  the seconds accounted so far, every other row is unchanged, the result counts them, and a second forced close
  finds nothing.\<close>

theorem force_close_spec:
  assumes "\<not> e_fault e S_force_close" "ids_identify d" "force_close e d tid u sid cause = (d', n)"
  shows "list_all2 (\<lambda>a a'. if closable e tid u sid a
            then a_stop a' = Some (e_now e) \<and> a_terminatecause a' = cause \<and>
                 a_sessiontime a \<le> a_sessiontime a' \<and> a_radacctid a' = a_radacctid a
            else a' = a) (radacct d) (radacct d') \<and>
    n = length (filter (closable e tid u sid) (radacct d)) \<and>
    force_close e d' tid u sid cause = (d', 0)"
proof -
  let ?f = "close_where (e_now e) cause (Some (e_now e)) (closable e tid u sid)"
  have d': "d' = d\<lparr>radacct := map ?f (radacct d)\<rparr>" and n: "n = length (filter (closable e tid u sid) (radacct d))"
    using force_close_eq [OF assms(1,2)] assms(3) by auto
  have op: "closable e tid u sid a \<Longrightarrow> a_stop a = None" for a by (simp add: closable_def targeted_def)
  have "force_close e d' tid u sid cause = (d', 0)"
    using force_close_eq [OF assms(1), of d'] assms(2)
    by (simp add: d' comp_def close_where_stopped [of "closable e tid u sid", OF op])
  then show ?thesis
    using close_where_spec [where P = "closable e tid u sid" and stop = "Some (e_now e)" and now = "e_now e" and cause = cause and rows = "radacct d"] n
    by (simp add: d' cong: if_cong split del: if_split)
qed

text \<open>C35. The sweep over silent sessions closes exactly the open rows without a sign of life since the cutoff
  (or without any) whose own transaction succeeds: each is stopped at its last sign of life, so that the waiting time
  is not accounted, keeps at least the seconds the router reported, and gets the cause of the sweep; every other row
  is unchanged, the result counts the closed rows, and a second sweep at the same instant finds nothing.\<close>

theorem stale_sweep_spec:
  assumes "\<not> e_fault e S_stale_query" "ids_identify d" "reconcile_stale_interim e d tid thr cause = (d', n)"
  shows "let cutoff = floor_sec (e_now e) - seconds (case thr of None \<Rightarrow> stale_threshold_sec e | Some secs \<Rightarrow> secs);
             hit = (\<lambda>a. stale cutoff tid a \<and> \<not> e_row_fault e (a_radacctid a))
    in list_all2 (\<lambda>a a'. if hit a
            then a_stop a' = Some (case last_seen a of None \<Rightarrow> e_now e | Some t \<Rightarrow> t) \<and> a_terminatecause a' = cause \<and>
                 a_sessiontime a \<le> a_sessiontime a' \<and> a_radacctid a' = a_radacctid a
            else a' = a) (radacct d) (radacct d') \<and>
       n = length (filter hit (radacct d)) \<and>
       reconcile_stale_interim e d' tid thr cause = (d', 0)"
proof -
  let ?cut = "floor_sec (e_now e) - seconds (case thr of None \<Rightarrow> stale_threshold_sec e | Some secs \<Rightarrow> secs)"
  let ?hit = "\<lambda>a. stale ?cut tid a \<and> \<not> e_row_fault e (a_radacctid a)"
  have op: "stale ?cut tid a \<Longrightarrow> a_stop a = None" for a by (simp add: stale_def)
  then have op': "?hit a \<Longrightarrow> a_stop a = None" for a by simp
  have run: "reconcile_stale_interim e x tid thr cause =
      (x\<lparr>radacct := map (close_where (e_now e) cause None ?hit) (radacct x)\<rparr>, length (filter ?hit (radacct x)))"
    if "ids_identify x" for x
    using assms(1) close_rows_where [OF that, of "stale ?cut tid"] op
    by (simp add: reconcile_stale_interim_def Let_def)
  have d': "d' = d\<lparr>radacct := map (close_where (e_now e) cause None ?hit) (radacct d)\<rparr>"
    and n: "n = length (filter ?hit (radacct d))"
    using run [OF assms(2)] assms(3) by auto
  have "reconcile_stale_interim e d' tid thr cause = (d', 0)"
    using run [of d'] assms(2) by (simp add: d' comp_def close_where_stopped [of ?hit, OF op'])
  then show ?thesis
    using close_where_spec [where P = ?hit and stop = None and now = "e_now e" and cause = cause and rows = "radacct d"] n
    by (simp add: d' Let_def cong: if_cong split del: if_split)
qed

definition blank_db :: db where
  "blank_db = \<lparr>tenants = [(1, ''active'')], subscribers = [], plans = [], card_batches = [], cards = [], radacct = [], access_blocks = [],
     login_failures = [], device_limit_claims = [], allow_policies = [], allow_devices = [],
     bandwidth_profiles = [], bandwidth_schedules = [], subscriber_groups = [], quota_states = [], session_marks = [], tenant_settings = [], radcheck = [], radpostauth = [],
     notifications = [], coa_disconnects = [], mac_clone_bindings = [], mac_clone_events = [], device_fingerprints = []\<rparr>"

definition blank_row :: acct_row where
  "blank_row = \<lparr>a_radacctid = 1, a_tenant_id = 1, a_username = ''ali'', a_acctsessionid = ''s1'',
     a_callingstationid = ''AA:BB:CC:DD:EE:01'', a_start = Some 0, a_update = None, a_stop = None,
     a_sessiontime = 0, a_inputoctets = 0, a_outputoctets = 0, a_terminatecause = [],
     a_nasipaddress = [], a_acctinterval = 0, a_framedipaddress = [], a_calledstationid = [], a_acctuniqueid = []\<rparr>"

definition blank_env :: env where
  "blank_env = \<lparr>e_now = seconds 1000, e_local = (\<lambda>_ t. t), e_utc = (\<lambda>_ t. t), e_md5 = (\<lambda>_. []), e_fl = (\<lambda>x. x),
     e_fault = (\<lambda>_. False), e_captive_enabled = False, e_expired_pool = ''hr-pool-expired'',
     e_window_minutes = 15, e_expiry_limit = seconds 4133980800,
     e_sha256 = map (\<lambda>n. char_of (n mod 256)), e_snapshot = (\<lambda>_. None),
     e_nas_live = (\<lambda>_ _. None), e_cap_stale = [],
     e_pystr = (\<lambda>_. []), e_stamp_fault = (\<lambda>_. None), e_osenv = (\<lambda>_. None),
     e_row_fault = (\<lambda>_. False), e_nas_reachable = (\<lambda>_. True), e_disconnect_ok = (\<lambda>_ _ _. True)\<rparr>"

definition two_sessions :: db where
  "two_sessions = blank_db\<lparr>radacct := [blank_row,
     blank_row\<lparr>a_radacctid := 2, a_acctsessionid := ''s2'', a_sessiontime := 2000\<rparr>]\<rparr>"

theorem force_close_spec_witness:
  "snd (force_close blank_env two_sessions 1 ''ali'' ''s2'' CAUSE_FORCE) = 1 \<and>
   force_close blank_env (fst (force_close blank_env two_sessions 1 ''ali'' ''s2'' CAUSE_FORCE))
     1 ''ali'' ''s2'' CAUSE_FORCE =
   (fst (force_close blank_env two_sessions 1 ''ali'' ''s2'' CAUSE_FORCE), 0)"
proof -
  have i: "ids_identify two_sessions" by code_simp
  have f: "\<not> e_fault blank_env S_force_close" by (simp add: blank_env_def)
  have n: "length (filter (closable blank_env 1 ''ali'' ''s2'') (radacct two_sessions)) = 1" by code_simp
  obtain d' k where r: "force_close blank_env two_sessions 1 ''ali'' ''s2'' CAUSE_FORCE = (d', k)"
    by (cases "force_close blank_env two_sessions 1 ''ali'' ''s2'' CAUSE_FORCE")
  show ?thesis using force_close_spec [OF f i r] n r by simp
qed

definition silent_env :: env where
  "silent_env = blank_env\<lparr>e_now := seconds 10000, e_osenv := [''HOBERADIUS_STALE_SESSION_SEC'' \<mapsto> ''600''],
     e_row_fault := (\<lambda>i. i = 3)\<rparr>"

definition silent_sessions :: db where
  "silent_sessions = blank_db\<lparr>radacct := [blank_row,
     blank_row\<lparr>a_radacctid := 2, a_update := Some (seconds 9401)\<rparr>, blank_row\<lparr>a_radacctid := 3\<rparr>,
     blank_row\<lparr>a_radacctid := 4, a_start := None\<rparr>]\<rparr>"

theorem stale_sweep_spec_witness:
  "snd (reconcile_stale_interim silent_env silent_sessions (Some 1) None CAUSE_INTERIM) = 2 \<and>
   reconcile_stale_interim silent_env (fst (reconcile_stale_interim silent_env silent_sessions (Some 1) None CAUSE_INTERIM))
     (Some 1) None CAUSE_INTERIM =
   (fst (reconcile_stale_interim silent_env silent_sessions (Some 1) None CAUSE_INTERIM), 0)"
proof -
  have i: "ids_identify silent_sessions" by code_simp
  have f: "\<not> e_fault silent_env S_stale_query" by (simp add: silent_env_def blank_env_def)
  have n: "length (filter (\<lambda>a. stale (floor_sec (e_now silent_env) - seconds (stale_threshold_sec silent_env)) (Some 1) a \<and>
      \<not> e_row_fault silent_env (a_radacctid a)) (radacct silent_sessions)) = 2" by code_simp
  obtain d' k where r: "reconcile_stale_interim silent_env silent_sessions (Some 1) None CAUSE_INTERIM = (d', k)"
    by (cases "reconcile_stale_interim silent_env silent_sessions (Some 1) None CAUSE_INTERIM")
  show ?thesis using stale_sweep_spec [OF f i r] n r by (simp add: Let_def)
qed

end
