(* ===== verification/DeviceLimit.thy ===== *)
theory DeviceLimit
  imports Tables SessionReconciler
begin

text \<open>
  \<open>app/radius/services/device_limit.py\<close>: how many devices an account may have online, what happens at the
  limit (reject the newcomer or replace the oldest session), which sessions count, and the atomic
  reservation of a device seat between the accept and the first accounting record.
\<close>

section \<open>Settings\<close>

definition MODE_REJECT :: string where "MODE_REJECT = ''reject''"
definition MODE_REPLACE :: string where "MODE_REPLACE = ''replace''"
definition GLOBAL_COUNT_DEFAULT :: int where "GLOBAL_COUNT_DEFAULT = 1"
definition CAUSE_REPLACE :: string where "CAUSE_REPLACE = ''Device-Limit-Replace''"
definition CLAIM_TTL_SECONDS :: int where "CLAIM_TTL_SECONDS = 60"

definition norm_mode :: "string \<Rightarrow> string" where
  "norm_mode raw = (let v = lower (strip raw) in if v \<in> {MODE_REJECT, MODE_REPLACE} then v else [])"

definition is_card :: "subscriber \<Rightarrow> bool" where
  "is_card sub = (lower (strip (s_user_type sub)) = ''card'' \<or> truthy_id (s_card_batch_id sub))"

definition global_mode :: "env \<Rightarrow> db \<Rightarrow> int \<Rightarrow> bool \<Rightarrow> string" where
  "global_mode e d tid for_card =
     guarded MODE_REJECT (at_site e S_settings (Inr
       (let key = (if for_card then ''device_limit.cards.mode'' else ''device_limit.subscribers.mode'');
            val = norm_mode (get_setting d tid key []);
            legacy = norm_mode (get_setting d tid ''billing.device_limit_mode'' [])
        in if val \<noteq> [] then val else if legacy \<noteq> [] then legacy else MODE_REJECT)))"

definition global_count :: "env \<Rightarrow> db \<Rightarrow> int \<Rightarrow> bool \<Rightarrow> int" where
  "global_count e d tid for_card =
     guarded GLOBAL_COUNT_DEFAULT (at_site e S_settings
       (let key = (if for_card then ''device_limit.cards.count'' else ''device_limit.subscribers.count'');
            raw = strip (get_setting d tid key (str_of_int GLOBAL_COUNT_DEFAULT))
        in if raw = [] then Inr GLOBAL_COUNT_DEFAULT
           else (case parse_int raw of None \<Rightarrow> Inl ValueError | Some n \<Rightarrow> Inr (if n > 0 then n else 0))))"

definition effective_mode :: "env \<Rightarrow> db \<Rightarrow> int \<Rightarrow> subscriber \<Rightarrow> string" where
  "effective_mode e d tid sub =
     (let per_user = norm_mode (s_device_limit_mode sub)
      in if per_user \<noteq> [] then per_user else global_mode e d tid (is_card sub))"

definition effective_limit :: "env \<Rightarrow> db \<Rightarrow> subscriber \<Rightarrow> access_plan option \<Rightarrow> int \<times> bool" where
  "effective_limit e d sub plan =
     (if s_override_concurrent sub > 0 then (s_override_concurrent sub, False)
      else if s_device_count sub > 0 then (s_device_count sub, True)
      else
        let type_count = global_count e d (s_tenant_id sub) (is_card sub) in
        if type_count > 0 then (type_count, True)
        else
          let plan_limit = (case plan of None \<Rightarrow> 0 | Some p \<Rightarrow> p_concurrent_sessions p)
          in (if plan_limit > 0 then plan_limit else 0, False))"

section \<open>Counting live sessions of other devices\<close>

definition session_order :: "acct_row \<Rightarrow> dt" where
  "session_order a = (case opt_or (a_start a) (last_seen a) of None \<Rightarrow> DT_MAX | Some t \<Rightarrow> t)"

definition zombie :: "dt \<Rightarrow> acct_row \<Rightarrow> bool" where
  "zombie cutoff a = (case last_seen a of None \<Rightarrow> False | Some t \<Rightarrow> t < cutoff)"

definition active_other_devices ::
    "env \<Rightarrow> db \<Rightarrow> int \<Rightarrow> string \<Rightarrow> auth_request \<Rightarrow> bool \<Rightarrow> acct_row list" where
  "active_other_devices e d tid user req mac_aware =
     (let cutoff = e_now e - e_window_minutes e * minute_us;
          live = filter (\<lambda>a. a_stop a = None \<and> \<not> zombie cutoff a) (user_rows d tid user);
          req_mac = lower (strip (r_calling_station_id req));
          other = (if mac_aware \<and> req_mac \<noteq> []
                   then filter (\<lambda>a. lower (strip (a_callingstationid a)) \<noteq> req_mac) live else live)
      in sort_key session_order other)"

text \<open>One CoA disconnect (best effort) and the canonical close of the oldest session. The identifiers of
  the sessions asked to disconnect are kept; a blank one asks for all sessions of the user.\<close>

definition replace_oldest :: "env \<Rightarrow> db \<Rightarrow> int \<Rightarrow> string \<Rightarrow> acct_row list \<Rightarrow> db \<times> nat" where
  "replace_oldest e d tid user sessions =
     (case sessions of
        [] \<Rightarrow> (d, 0)
      | oldest # _ \<Rightarrow>
          (let sid = strip (a_acctsessionid oldest);
               d1 = (if e_fault e S_coa then d
                     else d\<lparr>coa_disconnects := coa_disconnects d @ [(tid, user, sid)]\<rparr>)
           in force_close e d1 tid user sid CAUSE_REPLACE))"

section \<open>Reserving a seat\<close>

definition mac_norm :: "string \<Rightarrow> string" where "mac_norm raw = filter is_alnum (lower raw)"

definition device_key :: "auth_request \<Rightarrow> string" where
  "device_key req =
     (let mac = mac_norm (r_calling_station_id req) in if mac \<noteq> [] then ''mac:'' @ mac else [])"

definition note_start :: "acct_row \<Rightarrow> (string \<rightharpoonup> dt) \<Rightarrow> (string \<rightharpoonup> dt)" where
  "note_start r m =
     (let mac = mac_norm (a_callingstationid r) in
      case a_start r of
        None \<Rightarrow> m
      | Some st \<Rightarrow>
          if mac \<noteq> [] \<and> (case m mac of None \<Rightarrow> True | Some old \<Rightarrow> st > old) then m(mac \<mapsto> st) else m)"

definition materialized_macs :: "db \<Rightarrow> int \<Rightarrow> string \<Rightarrow> dt \<Rightarrow> (string \<rightharpoonup> dt)" where
  "materialized_macs d tid user since =
     fold note_start
       (filter (\<lambda>a. case a_start a of None \<Rightarrow> False | Some s \<Rightarrow> since \<le> s) (user_rows d tid user)) Map.empty"

definition claim_key :: "device_claim \<Rightarrow> int \<times> string \<times> string" where
  "claim_key c = (cl_tenant_id c, cl_username c, cl_device_key c)"

definition claim_mac :: "device_claim \<Rightarrow> string" where
  "claim_mac c = (if take 4 (cl_device_key c) = ''mac:'' then drop 4 (cl_device_key c) else [])"

text \<open>A claim still waiting for its session: not counted among the live sessions, and no session of the
  device started at or after (ten seconds before) the claim.\<close>

definition claim_pending :: "string set \<Rightarrow> (string \<rightharpoonup> dt) \<Rightarrow> device_claim \<Rightarrow> bool" where
  "claim_pending live_macs started c =
     (let mac = claim_mac c in
      \<not> (mac \<noteq> [] \<and> mac \<in> live_macs) \<and>
      \<not> (mac \<noteq> [] \<and> (case started mac of None \<Rightarrow> False | Some st \<Rightarrow> cl_claimed_at c - seconds 10 \<le> st)))"

definition claim_slot ::
    "env \<Rightarrow> db \<Rightarrow> int \<Rightarrow> string \<Rightarrow> auth_request \<Rightarrow> int \<Rightarrow> bool \<Rightarrow> bool \<Rightarrow> bool \<times> db" where
  "claim_slot e d tid user req limit mac_aware replace =
     (if limit \<le> 0 then (True, d)
      else if e_fault e S_claim then (True, d)
      else
        let key = device_key req;
            now = e_now e;
            cutoff = now - seconds CLAIM_TTL_SECONDS;
            d1 = d\<lparr>device_limit_claims := filter (\<lambda>c. \<not> cl_claimed_at c < cutoff) (device_limit_claims d)\<rparr>;
            live = active_other_devices e d1 tid user req mac_aware;
            live_macs = mac_norm ` a_callingstationid ` set live;
            rows = sort_key cl_claimed_at
              (filter (\<lambda>c. cl_tenant_id c = tid \<and> cl_username c = user \<and> cl_device_key c \<noteq> key)
                 (device_limit_claims d1));
            started = (if rows = [] then Map.empty
                       else materialized_macs d1 tid user (now - seconds (CLAIM_TTL_SECONDS + 10)));
            pending = filter (claim_pending live_macs started) rows;
            used = int (length live) + int (length pending)
        in if used \<ge> limit \<and> \<not> replace then (False, d1)
           else
             let dropped = (if used \<ge> limit then take (nat (used - limit + 1)) pending else []);
                 d2 = d1\<lparr>device_limit_claims :=
                        filter (\<lambda>c. claim_key c \<notin> claim_key ` set dropped) (device_limit_claims d1)\<rparr>
             in if key = [] \<or> r_simulate req then (True, d2)
                else (True, d2\<lparr>device_limit_claims :=
                  upsert claim_key \<lparr>cl_tenant_id = tid, cl_username = user, cl_device_key = key,
                                     cl_claimed_at = now\<rparr> (device_limit_claims d2)\<rparr>))"

section \<open>Simultaneous logins\<close>

text \<open>The claims of one account, and a sequence of requests served one after the other (the claim runs in
  one write transaction, so concurrent requests are some such sequence).\<close>

definition mine :: "int \<Rightarrow> string \<Rightarrow> device_claim \<Rightarrow> bool" where
  "mine tid user c = (cl_tenant_id c = tid \<and> cl_username c = user)"

fun claim_run ::
    "env \<Rightarrow> db \<Rightarrow> int \<Rightarrow> string \<Rightarrow> int \<Rightarrow> bool \<Rightarrow> (dt \<times> auth_request) list \<Rightarrow> bool list \<times> db" where
  "claim_run e d tid user limit mac_aware [] = ([], d)"
| "claim_run e d tid user limit mac_aware ((t, req) # rest) =
     (let (ok, d1) = claim_slot (e\<lparr>e_now := t\<rparr>) d tid user req limit mac_aware False;
          (oks, d2) = claim_run e d1 tid user limit mac_aware rest
      in (ok # oks, d2))"

lemma user_rows_claims [simp]:
  "user_rows (d\<lparr>device_limit_claims := c\<rparr>) tid u = user_rows d tid u"
  by (simp add: user_rows_def)

lemma active_none [simp]: "user_rows d tid u = [] \<Longrightarrow> active_other_devices e d tid u req ma = []"
  by (simp add: active_other_devices_def Let_def)

lemma materialized_none [simp]: "user_rows d tid u = [] \<Longrightarrow> materialized_macs d tid u since = Map.empty"
  by (simp add: materialized_macs_def)

lemma claim_pending_trivial [simp]: "claim_pending {} Map.empty c"
  by (simp add: claim_pending_def Let_def)

text \<open>The claims of the account after a request, while none of its devices has a session yet and its
  claims are recent.\<close>

lemma claim_slot_fresh:
  assumes "0 < limit" "\<not> e_fault e S_claim" "user_rows d tid user = []"
    and "device_key req \<noteq> []" "\<not> r_simulate req"
    and recent: "\<forall>c \<in> set C. e_now e - seconds CLAIM_TTL_SECONDS \<le> cl_claimed_at c"
    and fresh: "\<forall>c \<in> set C. cl_device_key c \<noteq> device_key req"
    and C: "C = filter (mine tid user) (device_limit_claims d)"
    and run: "claim_slot e d tid user req limit mac_aware False = (ok, d')"
  shows "ok \<longleftrightarrow> int (length C) < limit"
    and "filter (mine tid user) (device_limit_claims d') =
      (if ok then C @ [\<lparr>cl_tenant_id = tid, cl_username = user, cl_device_key = device_key req,
                         cl_claimed_at = e_now e\<rparr>] else C)"
    and "user_rows d' tid user = []"
proof -
  let ?cut = "e_now e - seconds CLAIM_TTL_SECONDS"
  let ?kept = "filter (\<lambda>c. \<not> cl_claimed_at c < ?cut) (device_limit_claims d)"
  let ?r = "\<lparr>cl_tenant_id = tid, cl_username = user, cl_device_key = device_key req, cl_claimed_at = e_now e\<rparr>"
  have keep: "filter (mine tid user) ?kept = C"
  proof -
    have "filter (mine tid user) ?kept = filter (\<lambda>c. \<not> cl_claimed_at c < ?cut) C"
      unfolding C by (simp add: conj_commute)
    also have "\<dots> = C" using recent by (intro filter_True) (auto simp: not_less)
    finally show ?thesis .
  qed
  have rows: "filter (\<lambda>c. cl_tenant_id c = tid \<and> cl_username c = user \<and> cl_device_key c \<noteq> device_key req) ?kept = C"
  proof -
    have "filter (\<lambda>c. cl_tenant_id c = tid \<and> cl_username c = user \<and> cl_device_key c \<noteq> device_key req) ?kept =
        filter (\<lambda>c. cl_device_key c \<noteq> device_key req) (filter (mine tid user) ?kept)"
      by (auto simp: mine_def intro!: filter_cong)
    also have "\<dots> = C" unfolding keep using fresh by (intro filter_True) auto
    finally show ?thesis .
  qed
  have "claim_key ?r \<notin> claim_key ` set ?kept"
  proof
    assume "claim_key ?r \<in> claim_key ` set ?kept"
    then obtain c where c: "c \<in> set ?kept" "claim_key c = claim_key ?r" by auto
    then have "c \<in> set (filter (mine tid user) ?kept)" by (simp add: mine_def claim_key_def)
    then have "c \<in> set C" unfolding keep .
    with fresh c(2) show False by (auto simp: claim_key_def)
  qed
  then have up: "upsert claim_key ?r ?kept = ?kept @ [?r]" by (rule upsert_fresh)
  have slot: "claim_slot e d tid user req limit mac_aware False =
    (if limit \<le> int (length C) then (False, d\<lparr>device_limit_claims := ?kept\<rparr>)
     else (True, d\<lparr>device_limit_claims := upsert claim_key ?r ?kept\<rparr>))"
    using assms(1-5) by (simp add: claim_slot_def Let_def rows del: filter_filter)
  show "ok \<longleftrightarrow> int (length C) < limit"
    using slot run by (auto split: if_splits)
  show "filter (mine tid user) (device_limit_claims d') = (if ok then C @ [?r] else C)"
    using slot run keep unfolding up by (auto simp: mine_def split: if_splits)
  show "user_rows d' tid user = []"
    using slot run assms(3) by (auto split: if_splits)
qed

lemma claim_run_counts:
  assumes "0 < limit" "\<not> e_fault e S_claim" "user_rows d tid user = []"
    and "distinct (map (\<lambda>(t, req). device_key req) reqs)"
    and "\<forall>(t, req) \<in> set reqs. device_key req \<noteq> [] \<and> \<not> r_simulate req \<and>
           t0 \<le> t \<and> t \<le> t0 + seconds CLAIM_TTL_SECONDS"
    and "\<forall>c \<in> set C. t0 \<le> cl_claimed_at c"
    and "\<forall>c \<in> set C. \<forall>(t, req) \<in> set reqs. cl_device_key c \<noteq> device_key req"
    and "C = filter (mine tid user) (device_limit_claims d)"
  shows "fst (claim_run e d tid user limit mac_aware reqs) =
    replicate (min (nat limit - length C) (length reqs)) True @
    replicate (length reqs - (nat limit - length C)) False"
  using assms(3-8)
proof (induction reqs arbitrary: d C)
  case Nil
  then show ?case by simp
next
  case (Cons a reqs)
  obtain t req where a: "a = (t, req)" by (cases a)
  obtain ok d1 where run: "claim_slot (e\<lparr>e_now := t\<rparr>) d tid user req limit mac_aware False = (ok, d1)"
    by (cases "claim_slot (e\<lparr>e_now := t\<rparr>) d tid user req limit mac_aware False")
  let ?r = "\<lparr>cl_tenant_id = tid, cl_username = user, cl_device_key = device_key req, cl_claimed_at = t\<rparr>"
  let ?C = "filter (mine tid user) (device_limit_claims d1)"
  have t: "t0 \<le> t" "t \<le> t0 + seconds CLAIM_TTL_SECONDS" "device_key req \<noteq> []" "\<not> r_simulate req"
    using Cons.prems(3) a by auto
  have old: "\<forall>c \<in> set C. e_now (e\<lparr>e_now := t\<rparr>) - seconds CLAIM_TTL_SECONDS \<le> cl_claimed_at c"
    using Cons.prems(4) t(2) by force
  have new: "\<forall>c \<in> set C. cl_device_key c \<noteq> device_key req"
    using Cons.prems(5) a by auto
  have nf: "\<not> e_fault (e\<lparr>e_now := t\<rparr>) S_claim" using assms(2) by simp
  note step = claim_slot_fresh [OF assms(1) nf Cons.prems(1) t(3,4) old new Cons.prems(6) run]
  have C: "?C = (if ok then C @ [?r] else C)" using step(2) by simp
  have keys: "\<forall>(t', req') \<in> set reqs. device_key req \<noteq> device_key req'"
    using Cons.prems(2) a by (force simp: image_iff)
  have "fst (claim_run e d1 tid user limit mac_aware reqs) =
      replicate (min (nat limit - length ?C) (length reqs)) True @
      replicate (length reqs - (nat limit - length ?C)) False"
    by (rule Cons.IH [OF step(3)])
      (use Cons.prems(2-5) keys t C in \<open>auto simp: a split: if_splits\<close>)
  moreover have "fst (claim_run e d tid user limit mac_aware (a # reqs)) =
      ok # fst (claim_run e d1 tid user limit mac_aware reqs)"
    by (simp add: a run split: prod.split)
  moreover have "ok \<longleftrightarrow> length C < nat limit" using step(1) assms(1) by auto
  ultimately show ?case
  proof (cases ok)
    case True
    moreover from this step(1) assms(1) have "Suc (nat limit - Suc (length C)) = nat limit - length C" by auto
    moreover have "length ?C = Suc (length C)" using C True by simp
    ultimately show ?thesis
      using \<open>fst (claim_run e d tid user limit mac_aware (a # reqs)) = _\<close>
        \<open>fst (claim_run e d1 tid user limit mac_aware reqs) = _\<close>
      by (simp add: min_Suc_Suc [symmetric] del: min_Suc_Suc claim_run.simps)
        (metis Suc_diff_le diff_Suc_Suc min_Suc_Suc replicate_Suc append_Cons)
  next
    case False
    moreover from this step(1) assms(1) have "nat limit - length C = 0" by auto
    moreover have "length ?C = length C" using C False by simp
    ultimately show ?thesis
      using \<open>fst (claim_run e d tid user limit mac_aware (a # reqs)) = _\<close>
        \<open>fst (claim_run e d1 tid user limit mac_aware reqs) = _\<close> by (simp del: claim_run.simps)
  qed
qed

lemma ids_identify_coa [simp]: "ids_identify (d\<lparr>coa_disconnects := c\<rparr>) = ids_identify d"
  by (simp add: ids_identify_def)

section \<open>Properties\<close>


definition blank_request :: auth_request where
  "blank_request = \<lparr>r_username = ''ali'', r_password = ''pw'', r_chap_password = [], r_chap_challenge = [],
     r_tenant_id = 1, r_calling_station_id = ''AA-BB-CC-DD-EE-01'', r_called_station_id = [],
     r_nas_ip = ''10.0.0.1'', r_nas_port = [], r_nas_port_type = [], r_user_agent = [], r_simulate = False\<rparr>"

definition three_devices :: "(dt \<times> auth_request) list" where
  "three_devices =
     [(seconds 1000, blank_request),
      (seconds 1000, blank_request\<lparr>r_calling_station_id := ''AA:BB:CC:DD:EE:02''\<rparr>),
      (seconds 1003, blank_request\<lparr>r_calling_station_id := ''aabb.ccdd.ee03''\<rparr>)]"


text \<open>The sessions counted against a device limit are exactly the open sessions of the user that are
  not older than the liveness window (a session without any timestamp counts) and, when the limit counts
  devices and the request names its device, do not belong to it; they come oldest first.\<close>

theorem active_other_devices_spec:
  "set (active_other_devices e d tid user req mac_aware) =
     {a \<in> set (radacct d). a_tenant_id a = tid \<and> a_username a = user \<and> a_stop a = None \<and>
        (\<forall>t. last_seen a = Some t \<longrightarrow> e_now e - e_window_minutes e * minute_us \<le> t) \<and>
        \<not> (mac_aware \<and> lower (strip (r_calling_station_id req)) \<noteq> [] \<and>
           lower (strip (a_callingstationid a)) = lower (strip (r_calling_station_id req)))} \<and>
   sorted (map session_order (active_other_devices e d tid user req mac_aware))"
  by (auto simp: active_other_devices_def Let_def user_rows_def zombie_def split: option.splits)

theorem active_other_devices_spec_witness:
  "set (active_other_devices blank_env two_sessions 1 ''ali''
     (blank_request\<lparr>r_calling_station_id := ''AA:BB:CC:DD:EE:99''\<rparr>) True) =
   {a \<in> set (radacct two_sessions). a_tenant_id a = 1 \<and> a_username a = ''ali'' \<and> a_stop a = None \<and>
        (\<forall>t. last_seen a = Some t \<longrightarrow> e_now blank_env - e_window_minutes blank_env * minute_us \<le> t) \<and>
        \<not> (True \<and> lower (strip ''AA:BB:CC:DD:EE:99'') \<noteq> [] \<and>
           lower (strip (a_callingstationid a)) = lower (strip ''AA:BB:CC:DD:EE:99''))}"
  using active_other_devices_spec [of blank_env two_sessions 1 "''ali''"
      "blank_request\<lparr>r_calling_station_id := ''AA:BB:CC:DD:EE:99''\<rparr>" True]
  by (simp del: minute_us_val)

text \<open>When no transaction fails, replacing the oldest session closes exactly one session when the oldest session carries an
  identifier that no other open session of the user has. When it carries none, every open session of the
  user is closed, although the operation is documented to close one.\<close>

theorem replace_oldest_closes:
  assumes "\<not> e_fault e S_force_close" "ids_identify d" "\<And>i. \<not> e_row_fault e i"
    and "sessions = oldest # rest" "oldest \<in> set (radacct d)" "targeted tid user [] oldest"
  shows "(strip (a_acctsessionid oldest) \<noteq> [] \<and> strip (a_acctsessionid oldest) = a_acctsessionid oldest \<and>
          (\<forall>a \<in> set (radacct d). targeted tid user [] a \<and> a_acctsessionid a = a_acctsessionid oldest \<longrightarrow> a = oldest)
          \<longrightarrow> snd (replace_oldest e d tid user sessions) = 1) \<and>
    (strip (a_acctsessionid oldest) = [] \<longrightarrow>
       snd (replace_oldest e d tid user sessions) = length (filter (targeted tid user []) (radacct d)))"
proof -
  have closable [simp]: "closable e = targeted" using assms(3) by (simp add: closable_def [abs_def])
  let ?sid = "strip (a_acctsessionid oldest)"
  have n: "snd (replace_oldest e d tid user sessions) = length (filter (targeted tid user ?sid) (radacct d))"
    using force_close_eq [OF assms(1), of "d\<lparr>coa_disconnects := coa_disconnects d @ [(tid, user, ?sid)]\<rparr>"
        tid user ?sid CAUSE_REPLACE] force_close_eq [OF assms(1,2), of tid user ?sid CAUSE_REPLACE] assms(2,4)
    by (simp add: replace_oldest_def Let_def)
  have "snd (replace_oldest e d tid user sessions) = 1"
    if "?sid \<noteq> []" "?sid = a_acctsessionid oldest"
      "\<forall>a \<in> set (radacct d). targeted tid user [] a \<and> a_acctsessionid a = a_acctsessionid oldest \<longrightarrow> a = oldest"
  proof -
    have s: "strip ?sid = ?sid" using that(2) by simp
    have "filter (targeted tid user ?sid) (radacct d) = filter (\<lambda>a. a = oldest) (radacct d)"
      using that assms(5,6) s
      by (intro filter_cong) (auto simp: targeted_def strip_def lstrip_def)
    also have "\<dots> = [oldest]"
      using assms(2,5) by (intro filter_eq_single) (auto simp: ids_identify_def distinct_map)
    finally show ?thesis using n by simp
  qed
  moreover have "filter (targeted tid user ?sid) (radacct d) = filter (targeted tid user []) (radacct d)"
    if "?sid = []" using that by simp
  ultimately show ?thesis using n by auto
qed

definition anonymous_sessions :: db where
  "anonymous_sessions = blank_db\<lparr>radacct := [blank_row\<lparr>a_acctsessionid := []\<rparr>,
     blank_row\<lparr>a_radacctid := 2, a_acctsessionid := ''s2'', a_start := Some (seconds 5)\<rparr>]\<rparr>"

theorem replace_oldest_closes_witness:
  "snd (replace_oldest blank_env anonymous_sessions 1 ''ali'' (radacct anonymous_sessions)) = 2 \<and>
   snd (replace_oldest blank_env two_sessions 1 ''ali'' (radacct two_sessions)) = 1"
proof -
  have f: "\<not> e_fault blank_env S_force_close" and nf: "\<not> e_row_fault blank_env i" for i
    by (simp_all add: blank_env_def)
  have i: "ids_identify anonymous_sessions" "ids_identify two_sessions" by code_simp+
  have l: "length (filter (targeted 1 ''ali'' []) (radacct anonymous_sessions)) = 2" by code_simp
  have s: "strip [] = []" "strip ''s1'' = ''s1''" by code_simp+
  have t: "targeted 1 ''ali'' [] blank_row" "targeted 1 ''ali'' [] (blank_row\<lparr>a_acctsessionid := []\<rparr>)"
    by code_simp+
  show ?thesis
    using replace_oldest_closes [OF f i(1) nf, of "radacct anonymous_sessions" "blank_row\<lparr>a_acctsessionid := []\<rparr>"
        "tl (radacct anonymous_sessions)" 1 "''ali''"]
      replace_oldest_closes [OF f i(2) nf, of "radacct two_sessions" blank_row "tl (radacct two_sessions)" 1 "''ali''"]
      l s t
    by (simp add: anonymous_sessions_def two_sessions_def blank_row_def)
qed

end
