(* ===== verification/AccessControl.thy ===== *)
theory AccessControl
  imports SlidingWindow DeviceLimit
begin

text \<open>
  \<open>app/radius/services/access_control.py\<close> over \<open>app/radius/db/repos/access_blocks_repo.py\<close>: scoped
  suspensions and security blocks, when a block is in effect, which one applies to a login, the automatic
  block after repeated failures, and the validation of a block an operator enters.
\<close>

section \<open>Layers and messages\<close>

definition BLOCK_TYPES :: "string list" where
  "BLOCK_TYPES = [''subscriber'', ''group'', ''plan'', ''card_batch'', ''all_subscribers'', ''all_hotspot'',
     ''all_cards'', ''all_pppoe'', ''ip'', ''mac'']"

definition DURATION_MODES :: "string list" where
  "DURATION_MODES = [''permanent'', ''daily_window'', ''until'']"

definition LAYER_SUSPENSION :: string where "LAYER_SUSPENSION = ''suspension''"
definition LAYER_BLOCK :: string where "LAYER_BLOCK = ''block''"

definition layer_of :: "string \<Rightarrow> string" where
  "layer_of block_type = (if block_type \<in> {''ip'', ''mac''} then LAYER_BLOCK else LAYER_SUSPENSION)"

definition user_message_for :: "access_block \<Rightarrow> message" where
  "user_message_for b =
     (if layer_of (k_block_type b) = LAYER_BLOCK then \<lparr>m_key = ''MSG_BLOCKED'', m_extra = []\<rparr>
      else
        let mode = or_default (k_duration_mode b) ''permanent'';
            base = (if mode = ''daily_window'' then ''MSG_SUSPENDED_WINDOW''
                    else if mode = ''until'' then ''MSG_SUSPENDED_UNTIL'' else ''MSG_SUSPENDED'')
        in \<lparr>m_key = base, m_extra = strip (k_reason b)\<rparr>)"

section \<open>Settings of the automatic block\<close>

definition AUTOBLOCK_DEFAULTS :: "(string \<times> string) list" where
  "AUTOBLOCK_DEFAULTS = [(''security.autoblock_enabled'', ''0''), (''security.autoblock_threshold'', ''5''),
     (''security.autoblock_window_sec'', ''300''), (''security.autoblock_duration_min'', ''60''),
     (''security.autoblock_target'', ''mac'')]"

definition setting_default :: "string \<Rightarrow> string" where
  "setting_default key = (case map_of AUTOBLOCK_DEFAULTS key of None \<Rightarrow> [] | Some v \<Rightarrow> v)"

definition setting :: "db \<Rightarrow> int \<Rightarrow> string \<Rightarrow> string" where
  "setting d tid key = get_setting d tid key (setting_default key)"

definition setting_int :: "db \<Rightarrow> int \<Rightarrow> string \<Rightarrow> int" where
  "setting_int d tid key =
     (case parse_int (setting d tid key) of
        Some n \<Rightarrow> n
      | None \<Rightarrow> (case parse_int (setting_default key) of Some n \<Rightarrow> n | None \<Rightarrow> 0))"

definition autoblock_enabled :: "db \<Rightarrow> int \<Rightarrow> bool" where
  "autoblock_enabled d tid =
     (lower (strip (setting d tid ''security.autoblock_enabled'')) \<in> {''1'', ''true'', ''t'', ''on'', ''yes''})"

section \<open>When a block is in effect\<close>

definition normalize_mac :: "string \<Rightarrow> string" where
  "normalize_mac mac = replace_char (CHR ''-'') (CHR '':'') (upper (strip mac))"

definition hm_to_minutes :: "string \<Rightarrow> int option" where
  "hm_to_minutes hm =
     (case split_first (CHR '':'') (strip hm) of
        None \<Rightarrow> None
      | Some (h, m) \<Rightarrow>
          (case (parse_int h, parse_int m) of
             (Some hh, Some mm) \<Rightarrow>
               if 0 \<le> hh \<and> hh \<le> 23 \<and> 0 \<le> mm \<and> mm \<le> 59 then Some (hh * 60 + mm) else None
           | _ \<Rightarrow> None))"

definition in_daily_window :: "string \<Rightarrow> string \<Rightarrow> dt \<Rightarrow> bool" where
  "in_daily_window start fin now =
     (case (hm_to_minutes start, hm_to_minutes fin) of
        (Some s, Some e) \<Rightarrow>
          (let cur = time_of_day now div minute_us in
           if s = e then True else if s < e then s \<le> cur \<and> cur < e else s \<le> cur \<or> cur < e)
      | _ \<Rightarrow> True)"

definition is_block_in_effect :: "env \<Rightarrow> int \<Rightarrow> access_block \<Rightarrow> dt \<Rightarrow> bool" where
  "is_block_in_effect e tid b now =
     (if \<not> k_active b then False
      else
        let mode = or_default (k_duration_mode b) ''permanent'' in
        if mode = ''permanent'' then True
        else if mode = ''until'' then (case k_expires_at b of None \<Rightarrow> True | Some x \<Rightarrow> now < x)
        else if mode = ''daily_window'' then in_daily_window (k_window_start b) (k_window_end b) (e_local e tid now)
        else True)"

section \<open>Matching a login\<close>

record auth_context =
  x_source :: string
  x_username :: string
  x_group :: string
  x_plan_id :: "int option"
  x_card_batch_id :: "int option"
  x_service_type :: string
  x_nas_ip :: string
  x_mac :: string

definition id_matches :: "string \<Rightarrow> int option \<Rightarrow> bool" where
  "id_matches target i = (case i of None \<Rightarrow> False | Some n \<Rightarrow> target = str_of_int n)"

definition block_matches :: "access_block \<Rightarrow> auth_context \<Rightarrow> bool" where
  "block_matches b ctx =
     (let bt = k_block_type b; target = k_target b in
      if bt = ''subscriber'' then x_username ctx \<noteq> [] \<and> target = x_username ctx
      else if bt = ''group'' then x_group ctx \<noteq> [] \<and> target = x_group ctx
      else if bt = ''plan'' then id_matches target (x_plan_id ctx)
      else if bt = ''card_batch'' then id_matches target (x_card_batch_id ctx)
      else if bt = ''all_subscribers'' then x_source ctx = ''subscriber''
      else if bt = ''all_cards'' then x_source ctx = ''card''
      else if bt = ''all_hotspot'' then lower (x_service_type ctx) = ''hotspot''
      else if bt = ''all_pppoe'' then lower (x_service_type ctx) = ''pppoe''
      else if bt = ''ip'' then x_nas_ip ctx \<noteq> [] \<and> target = x_nas_ip ctx
      else if bt = ''mac'' then x_mac ctx \<noteq> [] \<and> normalize_mac target = normalize_mac (x_mac ctx)
      else False)"

text \<open>\<open>list_blocks(active_only=True)\<close>: newest first, at most a thousand.\<close>

definition list_active_blocks :: "db \<Rightarrow> int \<Rightarrow> access_block list" where
  "list_active_blocks d tid =
     take 1000 (rev (sort_key k_id (filter (\<lambda>b. k_tenant_id b = tid \<and> k_active b) (access_blocks d))))"

definition find_active_block :: "env \<Rightarrow> db \<Rightarrow> int \<Rightarrow> auth_context \<Rightarrow> dt \<Rightarrow> access_block option" where
  "find_active_block e d tid ctx now =
     guarded None (at_site e S_blocks (Inr
       (find (\<lambda>b. block_matches b ctx \<and> is_block_in_effect e tid b now) (list_active_blocks d tid))))"

section \<open>The automatic block\<close>

definition next_block_id :: "db \<Rightarrow> int" where
  "next_block_id d = foldr (\<lambda>b m. max (k_id b) m) (access_blocks d) 0 + 1"

definition create_block :: "db \<Rightarrow> access_block \<Rightarrow> int \<times> db" where
  "create_block d b =
     (let i = next_block_id d
      in (i, d\<lparr>access_blocks := access_blocks d @ [b\<lparr>k_id := i, k_active := True\<rparr>]\<rparr>))"

definition record_failure :: "db \<Rightarrow> int \<Rightarrow> string \<Rightarrow> string \<Rightarrow> string \<Rightarrow> dt \<Rightarrow> db" where
  "record_failure d tid ip mac username now =
     d\<lparr>login_failures := login_failures d @
        [\<lparr>f_tenant_id = tid, f_ip = ip, f_mac = mac, f_username = username, f_created_at = now\<rparr>]\<rparr>"

definition count_recent_failures :: "db \<Rightarrow> int \<Rightarrow> string \<Rightarrow> string \<Rightarrow> dt \<Rightarrow> nat" where
  "count_recent_failures d tid ip mac since =
     length (filter (\<lambda>f. f_tenant_id f = tid \<and> since \<le> f_created_at f \<and>
        (ip \<noteq> [] \<longrightarrow> f_ip f = ip) \<and> (mac \<noteq> [] \<longrightarrow> f_mac f = mac)) (login_failures d))"

definition purge_old_failures :: "db \<Rightarrow> int \<Rightarrow> dt \<Rightarrow> db" where
  "purge_old_failures d tid before =
     d\<lparr>login_failures := filter (\<lambda>f. \<not> (f_tenant_id f = tid \<and> f_created_at f < before)) (login_failures d)\<rparr>"

definition has_active_block :: "db \<Rightarrow> int \<Rightarrow> string \<Rightarrow> string \<Rightarrow> bool" where
  "has_active_block d tid bt target =
     (\<exists>b \<in> set (access_blocks d). k_tenant_id b = tid \<and> k_active b \<and> k_block_type b = bt \<and> k_target b = target)"

definition auto_reason :: "nat \<Rightarrow> int \<Rightarrow> string" where
  "auto_reason count window_sec = ''MSG_AUTO_BLOCK count='' @ str_of_int (int count) @ '' window='' @ str_of_int window_sec"

definition auto_block :: "int \<Rightarrow> string \<Rightarrow> string \<Rightarrow> string \<Rightarrow> dt \<Rightarrow> access_block" where
  "auto_block tid bt value reason expires =
     \<lparr>k_id = 0, k_tenant_id = tid, k_layer = LAYER_BLOCK, k_block_type = bt, k_target = value,
      k_reason = reason, k_duration_mode = ''until'', k_window_start = [], k_window_end = [],
      k_expires_at = Some expires, k_source = ''auto'', k_active = True\<rparr>"

text \<open>One pass of the loop over \<open>wants\<close>: \<open>(block_type, value)\<close>.\<close>

definition block_if_over ::
    "int \<Rightarrow> int \<Rightarrow> int \<Rightarrow> dt \<Rightarrow> dt \<Rightarrow> string \<times> string \<Rightarrow> int option \<times> db \<Rightarrow> int option \<times> db" where
  "block_if_over tid threshold window_sec since expires_at want acc =
     (let (bt, value) = want; (created, d) = acc;
          count = count_recent_failures d tid (if bt = ''ip'' then value else []) (if bt = ''mac'' then value else []) since
      in if int count < threshold then (created, d)
         else if has_active_block d tid bt value then (created, d)
         else (let (i, d') = create_block d (auto_block tid bt value (auto_reason count window_sec) expires_at)
               in (Some i, d'\<lparr>notifications := notifications d' @ [(tid, ''auto_block_triggered'', value)]\<rparr>)))"

definition register_failed_attempt ::
    "env \<Rightarrow> db \<Rightarrow> int \<Rightarrow> string \<Rightarrow> string \<Rightarrow> string \<Rightarrow> int option \<times> db" where
  "register_failed_attempt e d tid ip0 mac0 username =
     (if e_fault e S_failed_attempt then (None, d)
      else
        let now = e_now e; ip = strip ip0; mac = normalize_mac mac0;
            d1 = record_failure d tid ip mac username now in
        if \<not> autoblock_enabled d1 tid then (None, d1)
        else
          let threshold = max 1 (setting_int d1 tid ''security.autoblock_threshold'');
              window_sec = max 1 (setting_int d1 tid ''security.autoblock_window_sec'');
              d2 = (if e_fault e S_purge then d1 else purge_old_failures d1 tid (now - seconds (window_sec * 2)));
              duration_min = max 1 (setting_int d2 tid ''security.autoblock_duration_min'');
              target_kind = lower (strip (or_default (setting d2 tid ''security.autoblock_target'') ''ip''));
              since = now - seconds window_sec;
              expires_at = now + duration_min * minute_us;
              wants = (if target_kind \<in> {''ip'', ''both''} \<and> ip \<noteq> [] then [(''ip'', ip)] else []) @
                      (if target_kind \<in> {''mac'', ''both''} \<and> mac \<noteq> [] then [(''mac'', mac)] else [])
          in fold (block_if_over tid threshold window_sec since expires_at) wants (None, d2))"

section \<open>Lifting and expiring blocks\<close>

definition clear_block :: "db \<Rightarrow> int \<Rightarrow> int \<Rightarrow> bool \<times> db" where
  "clear_block d tid bid =
     (let hit = (\<lambda>b. k_tenant_id b = tid \<and> k_id b = bid \<and> k_active b)
      in (\<exists>b \<in> set (access_blocks d). hit b,
          d\<lparr>access_blocks := map (\<lambda>b. if hit b then b\<lparr>k_active := False\<rparr> else b) (access_blocks d)\<rparr>))"

definition deactivate_expired :: "db \<Rightarrow> int \<Rightarrow> dt \<Rightarrow> nat \<times> db" where
  "deactivate_expired d tid now =
     (let hit = (\<lambda>b. k_tenant_id b = tid \<and> k_active b \<and> k_duration_mode b = ''until'' \<and>
                     (case k_expires_at b of None \<Rightarrow> False | Some x \<Rightarrow> x \<le> now))
      in (length (filter hit (access_blocks d)),
          d\<lparr>access_blocks := map (\<lambda>b. if hit b then b\<lparr>k_active := False\<rparr> else b) (access_blocks d)\<rparr>))"

section \<open>A block an operator enters\<close>

definition SCOPES_ALL :: "string list" where
  "SCOPES_ALL = [''all_subscribers'', ''all_hotspot'', ''all_cards'', ''all_pppoe'']"

definition is_hex_upper :: "char \<Rightarrow> bool" where
  "is_hex_upper c = (is_digit c \<or> (65 \<le> code c \<and> code c \<le> 70))"

text \<open>The pattern \<open>[0-9A-F]{2}(:[0-9A-F]{2}){5}\<close>.\<close>

definition mac_match :: "string \<Rightarrow> bool" where
  "mac_match s =
     (let gs = split_on (CHR '':'') s
      in length gs = 6 \<and> list_all (\<lambda>g. length g = 2 \<and> list_all is_hex_upper g) gs)"

definition host_match :: "string \<Rightarrow> bool" where
  "host_match s =
     (s \<noteq> [] \<and> length s \<le> 253 \<and> is_alnum (hd s) \<and> is_alnum (last s) \<and>
      list_all (\<lambda>c. is_alnum c \<or> c = CHR ''-'' \<or> c = CHR ''.'') s)"

text \<open>\<open>is_ip\<close> is \<open>ipaddress.ip_address\<close> accepting its argument.\<close>

definition valid_ip_or_host :: "(string \<Rightarrow> bool) \<Rightarrow> string \<Rightarrow> bool" where
  "valid_ip_or_host is_ip value =
     (let v = strip value in
      if v = [] then False
      else if is_ip v then True
      else host_match v \<and> \<not> str_isdigit (filter (\<lambda>c. c \<noteq> CHR ''.'') v))"

definition checked_target :: "(string \<Rightarrow> bool) \<Rightarrow> string \<Rightarrow> string \<Rightarrow> string res" where
  "checked_target is_ip block_type target0 =
     (let target = strip target0 in
      if block_type \<in> set SCOPES_ALL then Inr []
      else if target = [] then Inl AccessControlError
      else if block_type = ''mac'' then
        (if mac_match (normalize_mac target) then Inr (normalize_mac target) else Inl AccessControlError)
      else if block_type = ''ip'' then
        (if valid_ip_or_host is_ip target then Inr target else Inl AccessControlError)
      else if block_type \<in> {''plan'', ''card_batch''} then
        (if str_isdigit target then Inr target else Inl AccessControlError)
      else Inr target)"

text \<open>The fields of a form: \<open>i_expires_at\<close> is what \<open>parse_dt\<close> makes of the entered local date.\<close>

record block_input =
  i_block_type :: string
  i_target :: string
  i_reason :: string
  i_duration_mode :: string
  i_window_start :: string
  i_window_end :: string
  i_expires_at :: "dt option"

definition checked_duration ::
    "env \<Rightarrow> int \<Rightarrow> string \<Rightarrow> block_input \<Rightarrow> (string \<times> string \<times> dt option) res" where
  "checked_duration e tid mode i =
     (if mode = ''daily_window'' then
        (if hm_to_minutes (i_window_start i) = None \<or> hm_to_minutes (i_window_end i) = None
         then Inl AccessControlError
         else Inr (i_window_start i, i_window_end i, i_expires_at i))
      else if mode = ''until'' then
        (case i_expires_at i of
           None \<Rightarrow> Inl AccessControlError
         | Some x \<Rightarrow> Inr (i_window_start i, i_window_end i, Some (e_utc e tid x)))
      else Inr ([], [], None))"

text \<open>The sessions a new block makes the reconciler examine.\<close>

datatype reconcile_scope =
    Scope_usernames "string list"
  | Scope_plan int
  | Scope_batch int
  | Scope_group int
  | Scope_tenant

definition reconcile_scope_of :: "(string \<Rightarrow> int option) \<Rightarrow> string \<Rightarrow> string \<Rightarrow> reconcile_scope" where
  "reconcile_scope_of group_id block_type target =
     (if block_type = ''subscriber'' \<and> target \<noteq> [] then Scope_usernames [target]
      else if block_type = ''plan'' \<and> str_isdigit target then Scope_plan (int (nat_of_digits target))
      else if block_type = ''card_batch'' \<and> str_isdigit target then Scope_batch (int (nat_of_digits target))
      else if block_type = ''group'' \<and> target \<noteq> [] then
        (case group_id target of Some g \<Rightarrow> if g \<noteq> 0 then Scope_group g else Scope_tenant | None \<Rightarrow> Scope_tenant)
      else Scope_tenant)"

definition create_block_from_input ::
    "(string \<Rightarrow> bool) \<Rightarrow> (string \<Rightarrow> int option) \<Rightarrow> env \<Rightarrow> db \<Rightarrow> int \<Rightarrow> block_input
      \<Rightarrow> (int \<times> db \<times> reconcile_scope) res" where
  "create_block_from_input is_ip group_id e d tid i =
     (let block_type = strip (i_block_type i);
          mode = strip (or_default (i_duration_mode i) ''permanent'') in
      if block_type \<notin> set BLOCK_TYPES then Inl AccessControlError
      else if mode \<notin> set DURATION_MODES then Inl AccessControlError
      else res_bind (checked_target is_ip block_type (i_target i)) (\<lambda>target.
        res_bind (checked_duration e tid mode i) (\<lambda>(ws, we, xpr).
          let (bid, d1) = create_block d
                \<lparr>k_id = 0, k_tenant_id = tid, k_layer = layer_of block_type, k_block_type = block_type,
                 k_target = target, k_reason = take 300 (strip (i_reason i)), k_duration_mode = mode,
                 k_window_start = ws, k_window_end = we, k_expires_at = xpr, k_source = ''manual'',
                 k_active = True\<rparr>;
              d2 = (if layer_of block_type = LAYER_SUSPENSION
                    then d1\<lparr>notifications := notifications d1 @ [(tid, ''access_suspended'', target)]\<rparr> else d1)
          in Inr (bid, d2, reconcile_scope_of group_id block_type target))))"

section \<open>Daily windows\<close>

lemma hm_to_minutes_bounds: "hm_to_minutes s = Some m \<Longrightarrow> 0 \<le> m \<and> m < 1440"
  by (auto simp: hm_to_minutes_def split: option.splits if_splits)

lemma minute_of_day_bounds: "0 \<le> time_of_day t div minute_us" "time_of_day t div minute_us < 1440"
  using time_of_day_bounds [of t] by (simp_all add: div_less_iff_less_mult pos_imp_zdiv_nonneg_iff)

lemma circular_interval:
  fixes s e cur :: int
  assumes "0 \<le> s" "s < n" "0 \<le> e" "e < n" "0 \<le> cur" "cur < n"
  shows "(cur - s) mod n < (e - s) mod n \<longleftrightarrow> s \<noteq> e \<and> (if s < e then s \<le> cur \<and> cur < e else s \<le> cur \<or> cur < e)"
proof -
  have m: "(a - b) mod n = (if b \<le> a then a - b else a - b + n)" if "0 \<le> a" "a < n" "0 \<le> b" "b < n" for a b
  proof (cases "b \<le> a")
    case True
    then show ?thesis using that by (simp add: mod_pos_pos_trivial)
  next
    case False
    then have "(a - b) mod n = (a - b + n) mod n" by simp
    also have "\<dots> = a - b + n" using False that by (intro mod_pos_pos_trivial) auto
    finally show ?thesis using False by simp
  qed
  show ?thesis using assms by (auto simp: m)
qed

text \<open>A daily window is the half-open arc of the 24-hour circle from its start minute to its end
  minute: the clock is inside exactly when its distance from the start, going forward, is less than the
  length of the window. Windows that cross midnight need no case of their own, equal ends mean the whole
  day, and a bound that is not \<open>HH:MM\<close> makes the block apply at all times.\<close>

theorem in_daily_window_circular:
  "in_daily_window a b now \<longleftrightarrow>
     (case (hm_to_minutes a, hm_to_minutes b) of
        (Some s, Some e) \<Rightarrow> s = e \<or> (time_of_day now div minute_us - s) mod 1440 < (e - s) mod 1440
      | _ \<Rightarrow> True)"
proof (cases "hm_to_minutes a = None \<or> hm_to_minutes b = None")
  case True
  then show ?thesis by (auto simp: in_daily_window_def split: option.splits)
next
  case False
  then obtain s e where se: "hm_to_minutes a = Some s" "hm_to_minutes b = Some e" by auto
  note bs = hm_to_minutes_bounds [OF se(1)] hm_to_minutes_bounds [OF se(2)]
  from circular_interval [of s 1440 e "time_of_day now div minute_us"] bs minute_of_day_bounds [of now]
  show ?thesis by (auto simp: in_daily_window_def se Let_def)
qed

section \<open>Enforcement\<close>

lemma find_sorted_desc:
  "sorted_wrt (\<lambda>a b. k b \<le> (k a :: 'k::linorder)) xs \<Longrightarrow> find P xs = Some x \<Longrightarrow> y \<in> set xs \<Longrightarrow> P y \<Longrightarrow> k y \<le> k x"
  by (induction xs) (auto split: if_splits)

definition active_blocks :: "db \<Rightarrow> int \<Rightarrow> access_block list" where
  "active_blocks d tid = filter (\<lambda>b. k_tenant_id b = tid \<and> k_active b) (access_blocks d)"

lemma list_active_blocks_desc: "sorted_wrt (\<lambda>a b. k_id b \<le> k_id a) (list_active_blocks d tid)"
proof -
  have "sorted_wrt (\<lambda>a b. k_id a \<le> k_id b) (sort_key k_id bs)" for bs
    using sorted_sort_key [of k_id bs] by (simp add: sorted_map)
  then show ?thesis unfolding list_active_blocks_def by (intro sorted_wrt_take) (simp add: sorted_wrt_rev)
qed

lemma list_active_blocks_set:
  "set (list_active_blocks d tid) \<subseteq> set (active_blocks d tid)"
  "length (active_blocks d tid) \<le> 1000 \<Longrightarrow> set (list_active_blocks d tid) = set (active_blocks d tid)"
  unfolding list_active_blocks_def active_blocks_def [symmetric]
  by (use set_take_subset in fastforce, simp)

definition applies :: "env \<Rightarrow> int \<Rightarrow> auth_context \<Rightarrow> dt \<Rightarrow> access_block \<Rightarrow> bool" where
  "applies e tid ctx now b = (block_matches b ctx \<and> is_block_in_effect e tid b now)"

lemma find_active_block_eq:
  "\<not> e_fault e S_blocks \<Longrightarrow> find_active_block e d tid ctx now = find (applies e tid ctx now) (list_active_blocks d tid)"
  by (simp add: find_active_block_def applies_def [abs_def])

text \<open>As long as a tenant has at most a thousand active rows and the block tables can be read, a login
  is refused exactly when some active row of the tenant matches it and is in effect, and the row reported
  is the newest such row.\<close>

theorem find_active_block_complete:
  assumes "\<not> e_fault e S_blocks" "length (active_blocks d tid) \<le> 1000"
  shows "case find_active_block e d tid ctx now of
           None \<Rightarrow> \<forall>b \<in> set (active_blocks d tid). \<not> applies e tid ctx now b
         | Some b \<Rightarrow> b \<in> set (active_blocks d tid) \<and> applies e tid ctx now b \<and>
             (\<forall>b' \<in> set (active_blocks d tid). applies e tid ctx now b' \<longrightarrow> k_id b' \<le> k_id b)"
proof (cases "find (applies e tid ctx now) (list_active_blocks d tid)")
  case None
  moreover have "\<forall>b \<in> set (active_blocks d tid). \<not> applies e tid ctx now b"
    using None assms(2) by (auto simp: find_None_iff list_active_blocks_set(2))
  ultimately show ?thesis using assms(1) by (simp add: find_active_block_eq)
next
  case (Some b)
  with find_Some_first [OF Some] find_sorted_desc [OF list_active_blocks_desc Some] assms
  show ?thesis by (auto simp: find_active_block_eq list_active_blocks_set(2))
qed

lemma block_found_if_applies:
  "\<not> e_fault e S_blocks \<Longrightarrow> length (active_blocks d tid) \<le> 1000 \<Longrightarrow> b \<in> set (active_blocks d tid) \<Longrightarrow>
   applies e tid ctx now b \<Longrightarrow> find_active_block e d tid ctx now \<noteq> None"
  by (auto simp: find_active_block_eq find_None_iff list_active_blocks_set(2))

section \<open>The automatic block over a run of failures\<close>

definition mac_failures :: "int \<times> string \<Rightarrow> dt \<Rightarrow> db \<Rightarrow> nat" where
  "mac_failures k since d =
     length (filter (\<lambda>f. f_tenant_id f = fst k \<and> f_mac f = snd k \<and> since \<le> f_created_at f) (login_failures d))"

lemma count_recent_failures_mac: "m \<noteq> [] \<Longrightarrow> count_recent_failures d tid [] m since = mac_failures (tid, m) since d"
  by (simp add: count_recent_failures_def mac_failures_def conj_commute conj_left_commute)

text \<open>What one attempt does to the failure table: record the failure, then prune what is older than twice
  the window.\<close>

definition track_failure :: "string \<Rightarrow> string \<Rightarrow> int \<Rightarrow> int \<times> string \<Rightarrow> dt \<Rightarrow> db \<Rightarrow> db" where
  "track_failure ip u w k t d =
     purge_old_failures (record_failure d (fst k) ip (snd k) u t) (fst k) (t - seconds (w * 2))"

lemma mac_failures_purge:
  "before \<le> since \<Longrightarrow> mac_failures k since (purge_old_failures d tid before) = mac_failures k since d"
  by (auto simp: mac_failures_def purge_old_failures_def intro!: arg_cong [where f = length] filter_cong)

lemma mac_failures_record:
  "mac_failures k since (record_failure d tid ip m u t) =
   mac_failures k since d + (if k = (tid, m) \<and> since \<le> t then 1 else 0)"
  by (cases k) (auto simp: mac_failures_def record_failure_def)

interpretation mac_events: event_store "track_failure ip u w" mac_failures "seconds (w * 2)" for ip u w
  by unfold_locales (simp add: track_failure_def mac_failures_purge mac_failures_record)

text \<open>The configuration under which failures are counted per MAC.\<close>

definition autoblock_mac :: "env \<Rightarrow> db \<Rightarrow> int \<Rightarrow> bool" where
  "autoblock_mac e d tid =
     (\<not> e_fault e S_failed_attempt \<and> \<not> e_fault e S_purge \<and> autoblock_enabled d tid \<and>
      lower (strip (or_default (setting d tid ''security.autoblock_target'') ''ip'')) = ''mac'')"

definition autoblock_threshold :: "db \<Rightarrow> int \<Rightarrow> int" where
  "autoblock_threshold d tid = max 1 (setting_int d tid ''security.autoblock_threshold'')"

definition autoblock_window :: "db \<Rightarrow> int \<Rightarrow> int" where
  "autoblock_window d tid = max 1 (setting_int d tid ''security.autoblock_window_sec'')"

definition autoblock_minutes :: "db \<Rightarrow> int \<Rightarrow> int" where
  "autoblock_minutes d tid = max 1 (setting_int d tid ''security.autoblock_duration_min'')"

lemma track_failure_keeps [simp]:
  "tenant_settings (track_failure ip u w k t d) = tenant_settings d"
  "access_blocks (track_failure ip u w k t d) = access_blocks d"
  by (simp_all add: track_failure_def purge_old_failures_def record_failure_def)

lemma setting_cong: "tenant_settings d = tenant_settings d' \<Longrightarrow> setting d tid key = setting d' tid key"
  by (simp add: setting_def get_setting_def)

lemma settings_cong:
  assumes "tenant_settings d' = tenant_settings d"
  shows "autoblock_mac e d' tid = autoblock_mac e d tid"
    "autoblock_threshold d' tid = autoblock_threshold d tid"
    "autoblock_window d' tid = autoblock_window d tid"
    "autoblock_minutes d' tid = autoblock_minutes d tid"
  using setting_cong [OF assms]
  by (simp_all add: autoblock_mac_def autoblock_enabled_def autoblock_threshold_def autoblock_window_def
      autoblock_minutes_def setting_int_def)

lemmas track_settings [simp] = settings_cong [OF track_failure_keeps(1)]

lemma setting_record [simp]:
  "setting (record_failure d t ip m u n) tid key = setting d tid key"
  "setting (purge_old_failures d t b) tid key = setting d tid key"
  by (simp_all add: setting_def get_setting_def record_failure_def purge_old_failures_def)

lemma autoblock_enabled_record [simp]:
  "autoblock_enabled (record_failure d t ip m u n) tid = autoblock_enabled d tid"
  by (simp add: autoblock_enabled_def)

lemma setting_int_record [simp]:
  "setting_int (record_failure d t ip m u n) tid key = setting_int d tid key"
  "setting_int (purge_old_failures d t b) tid key = setting_int d tid key"
  by (simp_all add: setting_int_def)

lemma register_failed_attempt_mac:
  assumes "autoblock_mac e d tid" "normalize_mac mac = m" "m \<noteq> []"
  shows "register_failed_attempt e d tid ip mac u =
     block_if_over tid (autoblock_threshold d tid) (autoblock_window d tid)
       (e_now e - seconds (autoblock_window d tid)) (e_now e + autoblock_minutes d tid * minute_us) (''mac'', m)
       (None, track_failure (strip ip) u (autoblock_window d tid) (tid, m) (e_now e) d)"
  using assms
  by (simp add: register_failed_attempt_def autoblock_mac_def Let_def track_failure_def
      autoblock_threshold_def autoblock_window_def autoblock_minutes_def del: minute_us_val)

lemma register_below:
  assumes "autoblock_mac e d tid" "normalize_mac mac = m" "m \<noteq> []"
    "int (mac_failures (tid, m) (e_now e - seconds (autoblock_window d tid)) d) + 1 < autoblock_threshold d tid"
  shows "register_failed_attempt e d tid ip mac u =
    (None, track_failure (strip ip) u (autoblock_window d tid) (tid, m) (e_now e) d)"
proof -
  let ?w = "autoblock_window d tid"
  have "0 < ?w" by (simp add: autoblock_window_def)
  then have "mac_failures (tid, m) (e_now e - seconds ?w) (track_failure (strip ip) u ?w (tid, m) (e_now e) d) =
        mac_failures (tid, m) (e_now e - seconds ?w) d + 1"
    by (subst mac_events.count_record) (simp_all add: seconds_def)
  then show ?thesis using assms
    by (simp add: register_failed_attempt_mac block_if_over_def count_recent_failures_mac)
qed

lemma mac_failures_antimono: "c \<le> c' \<Longrightarrow> mac_failures k c' d \<le> mac_failures k c d"
proof -
  assume c: "c \<le> c'"
  have "filter (\<lambda>f. f_tenant_id f = fst k \<and> f_mac f = snd k \<and> c' \<le> f_created_at f) fs =
     filter (\<lambda>f. c' \<le> f_created_at f) (filter (\<lambda>f. f_tenant_id f = fst k \<and> f_mac f = snd k \<and> c \<le> f_created_at f) fs)" for fs
    using c by (auto intro!: filter_cong)
  from this [of "login_failures d"] show ?thesis by (simp only: mac_failures_def length_filter_le)
qed

text \<open>A run of failed logins from one device, at the given instants.\<close>

fun attempts :: "env \<Rightarrow> int \<Rightarrow> string \<Rightarrow> string \<Rightarrow> string \<Rightarrow> dt list \<Rightarrow> db \<Rightarrow> int option list \<times> db" where
  "attempts e tid ip mac u [] d = ([], d)"
| "attempts e tid ip mac u (t # ts) d =
     (let (r, d1) = register_failed_attempt (e\<lparr>e_now := t\<rparr>) d tid ip mac u;
          (rs, d2) = attempts e tid ip mac u ts d1
      in (r # rs, d2))"

lemma autoblock_mac_now [simp]: "autoblock_mac (e\<lparr>e_now := t\<rparr>) d tid = autoblock_mac e d tid"
  by (simp add: autoblock_mac_def)

lemma record_all_keeps [simp]:
  "tenant_settings (mac_events.record_all ip u w k ts d) = tenant_settings d"
  "access_blocks (mac_events.record_all ip u w k ts d) = access_blocks d"
  by (induction ts arbitrary: d) simp_all

lemma attempts_below:
  assumes "autoblock_mac e d tid" "normalize_mac mac = m" "m \<noteq> []" "w = autoblock_window d tid"
    "\<forall>t \<in> set ts. c0 + seconds w \<le> t \<and> t \<le> c0 + seconds (w * 2)"
    "int (mac_failures (tid, m) c0 d) + int (length ts) < autoblock_threshold d tid"
  shows "attempts e tid ip mac u (ts @ ts') d =
    (let (rs, d') = attempts e tid ip mac u ts' (mac_events.record_all (strip ip) u w (tid, m) ts d)
     in (replicate (length ts) None @ rs, d'))"
  using assms
proof (induction ts arbitrary: d)
  case Nil
  then show ?case by (simp add: Let_def)
next
  case (Cons t ts)
  let ?d1 = "track_failure (strip ip) u w (tid, m) t d"
  have w: "0 < w" using Cons.prems(4) by (simp add: autoblock_window_def)
  have "mac_failures (tid, m) (t - seconds w) d \<le> mac_failures (tid, m) c0 d"
    using Cons.prems(5) by (intro mac_failures_antimono) simp
  then have step: "register_failed_attempt (e\<lparr>e_now := t\<rparr>) d tid ip mac u = (None, ?d1)"
    using Cons.prems by (subst register_below [where m = m]) auto
  have "mac_failures (tid, m) c0 ?d1 = mac_failures (tid, m) c0 d + 1"
    using Cons.prems(5) w by (subst mac_events.count_record) (auto simp: seconds_def)
  then have IH: "attempts e tid ip mac u (ts @ ts') ?d1 =
    (let (rs, d') = attempts e tid ip mac u ts' (mac_events.record_all (strip ip) u w (tid, m) ts ?d1)
     in (replicate (length ts) None @ rs, d'))"
    using Cons.prems by (intro Cons.IH) simp_all
  show ?case by (simp add: step IH split: prod.splits)
qed

lemma register_at_threshold:
  assumes "autoblock_mac e d tid" "normalize_mac mac = m" "m \<noteq> []"
    "autoblock_threshold d tid \<le> int (mac_failures (tid, m) (e_now e - seconds (autoblock_window d tid)) d) + 1"
    "\<not> has_active_block d tid ''mac'' m"
  obtains d' reason where "register_failed_attempt e d tid ip mac u = (Some (next_block_id d), d')"
    "access_blocks d' = access_blocks d @
       [auto_block tid ''mac'' m reason (e_now e + autoblock_minutes d tid * minute_us) \<lparr>k_id := next_block_id d\<rparr>]"
proof -
  let ?w = "autoblock_window d tid"
  let ?d1 = "track_failure (strip ip) u ?w (tid, m) (e_now e) d"
  have "0 < ?w" by (simp add: autoblock_window_def)
  then have c: "mac_failures (tid, m) (e_now e - seconds ?w) ?d1 =
        mac_failures (tid, m) (e_now e - seconds ?w) d + 1"
    by (subst mac_events.count_record) (simp_all add: seconds_def)
  have n: "next_block_id ?d1 = next_block_id d" "has_active_block ?d1 tid ''mac'' m = has_active_block d tid ''mac'' m"
    by (simp_all add: next_block_id_def has_active_block_def)
  let ?b = "auto_block tid ''mac'' m (auto_reason (mac_failures (tid, m) (e_now e - seconds ?w) d + 1) ?w)
    (e_now e + autoblock_minutes d tid * minute_us)"
  let ?d2 = "snd (create_block ?d1 ?b)"
  have "register_failed_attempt e d tid ip mac u =
      (Some (next_block_id d), ?d2\<lparr>notifications := notifications ?d2 @ [(tid, ''auto_block_triggered'', m)]\<rparr>)"
    using assms(4,5) c n
    by (simp add: register_failed_attempt_mac [OF assms(1-3)] block_if_over_def count_recent_failures_mac assms(3)
        create_block_def Let_def)
  then show ?thesis by (rule that) (simp add: create_block_def n Let_def auto_block_def)
qed

lemma auto_block_applies:
  "x_mac ctx \<noteq> [] \<Longrightarrow> normalize_mac (x_mac ctx) = normalize_mac m \<Longrightarrow> now < x \<Longrightarrow>
   applies e tid ctx now ((auto_block tid ''mac'' m reason x)\<lparr>k_id := i\<rparr>)"
  by (simp add: applies_def block_matches_def is_block_in_effect_def auto_block_def Let_def)

text \<open>C25. The automatic block end to end. Take a tenant that counts per MAC, and a device with no failure
  on record inside the window and no row whose active flag is set, be it in force or run out (a row that ran out keeps
  its flag and keeps the counter from creating another), and fewer than a thousand flagged rows. When the device fails as often as the threshold says,
  all within one window, the attempts before the last create nothing, the last one creates a row, and from
  then on until the configured minutes have passed every login presenting that MAC, in whatever notation,
  finds an active block.\<close>

theorem auto_block_after_threshold:
  assumes cfg: "autoblock_mac e d tid" and m: "normalize_mac mac = m" "m \<noteq> []" "normalize_mac m = m"
    and w: "w = autoblock_window d tid"
    and n: "int (length ts) + 1 = autoblock_threshold d tid"
    and ts: "\<forall>t \<in> set ts. c0 + seconds w \<le> t \<and> t \<le> t1" and t1: "c0 + seconds w \<le> t1" "t1 \<le> c0 + seconds (w * 2)"
    and none: "mac_failures (tid, m) c0 d = 0" and free: "\<not> has_active_block d tid ''mac'' m"
    and small: "length (active_blocks d tid) < 1000" and nf: "\<not> e_fault e S_blocks"
    and run: "attempts e tid ip mac u (ts @ [t1]) d = (rs, d')"
    and ctx: "x_mac ctx \<noteq> []" "normalize_mac (x_mac ctx) = m"
    and now: "now < t1 + autoblock_minutes d tid * minute_us"
  shows "rs = replicate (length ts) None @ [Some (next_block_id d)] \<and> find_active_block e d' tid ctx now \<noteq> None"
proof -
  let ?d1 = "mac_events.record_all (strip ip) u w (tid, m) ts d"
  note same = settings_cong [of ?d1 d, OF record_all_keeps(1)]
  have below: "attempts e tid ip mac u (ts @ [t1]) d =
    (let (rs, d') = attempts e tid ip mac u [t1] ?d1 in (replicate (length ts) None @ rs, d'))"
    using ts t1 n none by (intro attempts_below [OF cfg m(1,2) w, of ts c0]) auto
  have "mac_failures (tid, m) (t1 - seconds w) ?d1 = mac_failures (tid, m) (t1 - seconds w) d + length ts"
    using ts t1 by (intro mac_events.count_record_all) (auto simp: seconds_def)
  then have over: "autoblock_threshold ?d1 tid \<le>
      int (mac_failures (tid, m) (e_now (e\<lparr>e_now := t1\<rparr>) - seconds (autoblock_window ?d1 tid)) ?d1) + 1"
    using n by (simp add: same flip: w)
  have free1: "\<not> has_active_block ?d1 tid ''mac'' m" and id1: "next_block_id ?d1 = next_block_id d"
    using free by (simp_all add: has_active_block_def next_block_id_def)
  have cfg1: "autoblock_mac (e\<lparr>e_now := t1\<rparr>) ?d1 tid" using cfg by (simp add: same)
  obtain d2 reason where r: "register_failed_attempt (e\<lparr>e_now := t1\<rparr>) ?d1 tid ip mac u = (Some (next_block_id d), d2)"
    and b: "access_blocks d2 = access_blocks d @
       [(auto_block tid ''mac'' m reason (t1 + autoblock_minutes d tid * minute_us))\<lparr>k_id := next_block_id d\<rparr>]"
    using register_at_threshold [OF cfg1 m(1,2) over free1, of ip u] by (auto simp: same id1)
  have res: "rs = replicate (length ts) None @ [Some (next_block_id d)]" "d' = d2"
    using run below r by (simp_all add: Let_def)
  let ?b = "(auto_block tid ''mac'' m reason (t1 + autoblock_minutes d tid * minute_us))\<lparr>k_id := next_block_id d\<rparr>"
  have "?b \<in> set (active_blocks d2 tid)" "length (active_blocks d2 tid) \<le> 1000"
    using b small by (simp_all add: active_blocks_def auto_block_def)
  with auto_block_applies [OF ctx(1) _ now, of m] ctx(2) m(3)
  have "find_active_block e d2 tid ctx now \<noteq> None"
    by (intro block_found_if_applies [OF nf, of d2 tid ?b]) auto
  with res show ?thesis by simp
qed

lemma register_with_active_row:
  assumes "autoblock_mac e d tid" "normalize_mac mac = m" "m \<noteq> []" "has_active_block d tid ''mac'' m"
  shows "register_failed_attempt e d tid ip mac u =
    (None, track_failure (strip ip) u (autoblock_window d tid) (tid, m) (e_now e) d)"
  using assms by (simp add: register_failed_attempt_mac block_if_over_def has_active_block_def Let_def)

text \<open>A row that is still marked active but whose expiry has passed disarms the automatic block. The
  duplicate test looks only at the \<open>active\<close> flag, and the flag of an expired row is cleared only when an
  operator opens the management page; until then the device may fail any number of times: no attempt
  creates a row, the rows stay as they are, and if none of them applies to a login beforehand, none does
  afterwards.\<close>

theorem expired_row_disarms_auto_block:
  assumes "autoblock_mac e d tid" "normalize_mac mac = m" "m \<noteq> []" "has_active_block d tid ''mac'' m"
    and "attempts e tid ip mac u ts d = (rs, d')"
  shows "rs = replicate (length ts) None \<and> access_blocks d' = access_blocks d \<and>
    find_active_block e d' tid ctx now = find_active_block e d tid ctx now"
proof -
  have "rs = replicate (length ts) None \<and> access_blocks d' = access_blocks d"
    using assms
  proof (induction ts arbitrary: d rs)
    case (Cons t ts)
    let ?d1 = "track_failure (strip ip) u (autoblock_window d tid) (tid, m) t d"
    have reg: "register_failed_attempt (e\<lparr>e_now := t\<rparr>) d tid ip mac u = (None, ?d1)"
      using Cons.prems by (subst register_with_active_row [where m = m]) simp_all
    obtain rs1 where r: "attempts e tid ip mac u ts ?d1 = (rs1, d')" "rs = None # rs1"
      using Cons.prems(5) by (auto simp: reg split: prod.splits)
    have "rs1 = replicate (length ts) None \<and> access_blocks d' = access_blocks ?d1"
      using Cons.prems r(1) by (intro Cons.IH) (simp_all add: has_active_block_def)
    with r show ?case by simp
  qed simp
  then show ?thesis by (simp add: find_active_block_def list_active_blocks_def)
qed

section \<open>What an entered block satisfies\<close>

text \<open>The rows the enforcement relies on: a known scope and mode, the layer the scope dictates, a target of
  the right shape, and the fields of the mode filled in so that none of the fail-safe branches of
  \<open>is_block_in_effect\<close> is taken.\<close>

definition wf_block :: "access_block \<Rightarrow> bool" where
  "wf_block b \<longleftrightarrow>
     k_block_type b \<in> set BLOCK_TYPES \<and> k_duration_mode b \<in> set DURATION_MODES \<and>
     k_layer b = layer_of (k_block_type b) \<and> k_active b \<and>
     (k_target b = [] \<longleftrightarrow> k_block_type b \<in> set SCOPES_ALL) \<and>
     (k_block_type b = ''mac'' \<longrightarrow> mac_match (k_target b)) \<and>
     (k_block_type b \<in> {''plan'', ''card_batch''} \<longrightarrow> str_isdigit (k_target b)) \<and>
     (k_duration_mode b = ''daily_window'' \<longrightarrow>
        hm_to_minutes (k_window_start b) \<noteq> None \<and> hm_to_minutes (k_window_end b) \<noteq> None) \<and>
     (k_duration_mode b = ''until'' \<longrightarrow> k_expires_at b \<noteq> None)"

lemma next_block_id_fresh: "b \<in> set (access_blocks d) \<Longrightarrow> k_id b < next_block_id d"
proof -
  have "b \<in> set bs \<Longrightarrow> k_id b \<le> foldr (\<lambda>b m. max (k_id b) m) bs 0" for bs
    by (induction bs) auto
  then show "b \<in> set (access_blocks d) \<Longrightarrow> k_id b < next_block_id d" by (fastforce simp: next_block_id_def)
qed

lemma checked_target_shape:
  assumes "checked_target is_ip bt t0 = Inr target"
  shows "target = [] \<longleftrightarrow> bt \<in> set SCOPES_ALL"
    and "bt = ''mac'' \<Longrightarrow> mac_match target"
    and "bt \<in> {''plan'', ''card_batch''} \<Longrightarrow> str_isdigit target"
  using assms
  by (auto simp: checked_target_def Let_def SCOPES_ALL_def mac_match_def split: if_splits)

lemma checked_duration_shape:
  assumes "checked_duration e tid mode i = Inr (ws, we, xpr)"
  shows "mode = ''daily_window'' \<Longrightarrow> hm_to_minutes ws \<noteq> None \<and> hm_to_minutes we \<noteq> None"
    and "mode = ''until'' \<Longrightarrow> xpr \<noteq> None"
  using assms by (auto simp: checked_duration_def split: if_splits option.splits)

text \<open>C36. An accepted form adds exactly one row at the end of the table, under an identifier no other row
  has, and the row is well-formed: its scope, mode, layer and target agree with each other and the fields of
  its mode are present.\<close>

theorem create_block_from_input_wf:
  assumes "create_block_from_input is_ip group_id e d tid i = Inr (bid, d', scope)"
  shows "\<exists>b. access_blocks d' = access_blocks d @ [b] \<and> k_id b = bid \<and> k_tenant_id b = tid \<and> wf_block b \<and>
    (\<forall>b' \<in> set (access_blocks d). k_id b' \<noteq> bid)"
proof -
  define bt mode where "bt = strip (i_block_type i)" and "mode = strip (or_default (i_duration_mode i) ''permanent'')"
  from assms obtain target ws we xpr where
      known: "bt \<in> set BLOCK_TYPES" "mode \<in> set DURATION_MODES"
    and t: "checked_target is_ip bt (i_target i) = Inr target"
    and dur: "checked_duration e tid mode i = Inr (ws, we, xpr)"
    and bid: "bid = next_block_id d"
    and rows: "access_blocks d' = access_blocks d @
      [\<lparr>k_id = bid, k_tenant_id = tid, k_layer = layer_of bt, k_block_type = bt, k_target = target,
        k_reason = take 300 (strip (i_reason i)), k_duration_mode = mode, k_window_start = ws, k_window_end = we,
        k_expires_at = xpr, k_source = ''manual'', k_active = True\<rparr>]"
    by (fastforce simp: create_block_from_input_def create_block_def Let_def bt_def mode_def res_bind_Inr
        split: if_splits prod.splits)
  have "\<forall>b' \<in> set (access_blocks d). k_id b' \<noteq> bid" using next_block_id_fresh [of _ d] by (fastforce simp: bid)
  then show ?thesis using known checked_target_shape [OF t] checked_duration_shape [OF dur]
    by (auto simp: rows wf_block_def)
qed

section \<open>Instances\<close>

definition guarded_db :: db where
  "guarded_db = blank_db\<lparr>tenant_settings := [((1, ''security.autoblock_enabled''), ''1'')]\<rparr>"

definition old_row :: access_block where
  "old_row = auto_block 1 ''mac'' ''AA:BB:CC:DD:EE:01'' [] (seconds 500)\<lparr>k_id := 7\<rparr>"

definition rogue :: auth_context where
  "rogue = \<lparr>x_source = ''subscriber'', x_username = ''ali'', x_group = [], x_plan_id = None, x_card_batch_id = None,
     x_service_type = ''PPPoE'', x_nas_ip = ''10.0.0.1'', x_mac = ''aa-bb-cc-dd-ee-01''\<rparr>"

definition night_block :: access_block where
  "night_block = old_row\<lparr>k_id := 3, k_block_type := ''all_pppoe'', k_duration_mode := ''daily_window'',
     k_window_start := ''22:00'', k_window_end := ''06:00''\<rparr>"

definition blocked_db :: db where
  "blocked_db = guarded_db\<lparr>access_blocks := [night_block, old_row]\<rparr>"

theorem find_active_block_complete_witness:
  "find_active_block blank_env blocked_db 1 rogue (seconds 1000) = Some night_block"
proof -
  have f: "\<not> e_fault blank_env S_blocks" by (simp add: blank_env_def)
  have l: "length (active_blocks blocked_db 1) \<le> 1000" by code_simp
  have a: "applies blank_env 1 rogue (seconds 1000) night_block" "\<not> applies blank_env 1 rogue (seconds 1000) old_row"
    by code_simp+
  have s: "set (active_blocks blocked_db 1) = {night_block, old_row}"
    by (simp add: active_blocks_def blocked_db_def night_block_def old_row_def auto_block_def)
  show ?thesis using find_active_block_complete [OF f l, of rogue "seconds 1000"] a
    by (auto simp: s split: option.splits)
qed

theorem auto_block_after_threshold_witness:
  "fst (attempts blank_env 1 ''10.0.0.1'' ''aa-bb-cc-dd-ee-01'' ''ali''
      [seconds 1000, seconds 1010, seconds 1020, seconds 1100, seconds 1200] guarded_db) =
     [None, None, None, None, Some 1] \<and>
   find_active_block blank_env (snd (attempts blank_env 1 ''10.0.0.1'' ''aa-bb-cc-dd-ee-01'' ''ali''
      [seconds 1000, seconds 1010, seconds 1020, seconds 1100, seconds 1200] guarded_db)) 1 rogue (seconds 4799) \<noteq> None"
proof -
  let ?ts = "[seconds 1000, seconds 1010, seconds 1020, seconds 1100]"
  let ?m = "''AA:BB:CC:DD:EE:01''"
  have cfg: "autoblock_mac blank_env guarded_db 1" by code_simp
  have m: "normalize_mac ''aa-bb-cc-dd-ee-01'' = ?m" "?m \<noteq> []" "normalize_mac ?m = ?m" by code_simp+
  have w: "300 = autoblock_window guarded_db 1" by code_simp
  have n: "int (length ?ts) + 1 = autoblock_threshold guarded_db 1" by code_simp
  have ts: "\<forall>t \<in> set ?ts. seconds 700 + seconds 300 \<le> t \<and> t \<le> seconds 1200" by code_simp
  have t1: "seconds 700 + seconds 300 \<le> seconds 1200" "seconds 1200 \<le> seconds 700 + seconds (300 * 2)" by code_simp+
  have none: "mac_failures (1, ?m) (seconds 700) guarded_db = 0" by code_simp
  have free: "\<not> has_active_block guarded_db 1 ''mac'' ?m" by code_simp
  have small: "length (active_blocks guarded_db 1) < 1000" by code_simp
  have nf: "\<not> e_fault blank_env S_blocks" by (simp add: blank_env_def)
  have ctx: "x_mac rogue \<noteq> []" "normalize_mac (x_mac rogue) = ?m" by code_simp+
  have now: "seconds 4799 < seconds 1200 + autoblock_minutes guarded_db 1 * minute_us" by code_simp
  have i: "next_block_id guarded_db = 1" by code_simp
  show ?thesis
    using auto_block_after_threshold [OF cfg m w n ts t1 none free small nf surjective_pairing ctx now, of "''10.0.0.1''" "''ali''"]
    by (simp add: i)
qed

theorem expired_row_disarms_auto_block_witness:
  "let (rs, d') = attempts blank_env 1 ''10.0.0.1'' ''aa-bb-cc-dd-ee-01'' ''ali''
         (map (\<lambda>i. seconds (1000 + int i)) [0..<50]) (guarded_db\<lparr>access_blocks := [old_row]\<rparr>)
   in rs = replicate 50 None \<and> find_active_block blank_env d' 1 rogue (seconds 1050) = None"
proof -
  let ?d = "guarded_db\<lparr>access_blocks := [old_row]\<rparr>"
  let ?m = "''AA:BB:CC:DD:EE:01''"
  have cfg: "autoblock_mac blank_env ?d 1" by code_simp
  have m: "normalize_mac ''aa-bb-cc-dd-ee-01'' = ?m" "?m \<noteq> []" by code_simp+
  have h: "has_active_block ?d 1 ''mac'' ?m" by code_simp
  have "find_active_block blank_env ?d 1 rogue (seconds 1050) = None" by code_simp
  then show ?thesis
    using expired_row_disarms_auto_block [OF cfg m h surjective_pairing, of "''10.0.0.1''" "''ali''"
        "map (\<lambda>i. seconds (1000 + int i)) [0..<50]" rogue "seconds 1050"]
    by (simp add: case_prod_beta Let_def del: upt_rec_numeral)
qed

definition night_input :: block_input where
  "night_input = \<lparr>i_block_type = '' mac '', i_target = ''aa-bb-cc-dd-ee-01'', i_reason = ''abuse'',
     i_duration_mode = ''daily_window'', i_window_start = ''22:00'', i_window_end = ''06:00'', i_expires_at = None\<rparr>"

theorem create_block_from_input_wf_witness:
  "\<exists>d' scope b. create_block_from_input (\<lambda>_. False) (\<lambda>_. None) blank_env blocked_db 1 night_input =
       Inr (8, d', scope) \<and> access_blocks d' = access_blocks blocked_db @ [b] \<and> wf_block b"
proof -
  have "isl (create_block_from_input (\<lambda>_. False) (\<lambda>_. None) blank_env blocked_db 1 night_input) = False"
    "fst (projr (create_block_from_input (\<lambda>_. False) (\<lambda>_. None) blank_env blocked_db 1 night_input)) = 8"
    by code_simp+
  then obtain d' scope where
      "create_block_from_input (\<lambda>_. False) (\<lambda>_. None) blank_env blocked_db 1 night_input = Inr (8, d', scope)"
    by (cases "create_block_from_input (\<lambda>_. False) (\<lambda>_. None) blank_env blocked_db 1 night_input") auto
  with create_block_from_input_wf [OF this] show ?thesis by blast
qed

end
