(* ===== verification/QuotaPeriod.thy ===== *)
theory QuotaPeriod
  imports Tables SessionReconciler ScheduleWindow
begin

text \<open>
  \<open>app/radius/services/quota_period.py\<close>: the quota period of a subscriber (its start, the byte baselines
  taken there, the top-ups that end with it), the daily and monthly windows in the tenant's wall clock, the
  baseline of a session that crosses the start of a window, and what is exhausted. A timestamp the code
  keeps as text of whole seconds is the instant truncated to its second.
\<close>

section \<open>Local days and months\<close>

definition MIB :: int where "MIB = 1048576"


text \<open>Year, month and day of a day number (days since 1970-01-01), in the proleptic Gregorian calendar of
  \<open>datetime\<close>; years are counted from March inside an era of 400 years.\<close>

definition civil :: "int \<Rightarrow> int \<times> int \<times> int" where
  "civil n =
     (let z = n + 719468;
          era = z div 146097;
          doe = z mod 146097;
          yoe = (doe - doe div 1460 + doe div 36524 - doe div 146096) div 365;
          doy = doe - (365 * yoe + yoe div 4 - yoe div 100);
          mp = (5 * doy + 2) div 153;
          d = doy - (153 * mp + 2) div 5 + 1;
          m = (if mp < 10 then mp + 3 else mp - 9)
      in (yoe + era * 400 + (if m \<le> 2 then 1 else 0), m, d))"

record local_bounds_rec =
  lb_day_start :: dt
  lb_month_start :: dt
  lb_day_key :: int
  lb_month_key :: int

definition local_bounds :: "env \<Rightarrow> int \<Rightarrow> local_bounds_rec" where
  "local_bounds e tid =
     (let local = local_now e tid;
          day = local div day_us;
          (y, m, d) = civil day
      in \<lparr>lb_day_start = floor_sec (e_utc e tid (day * day_us)),
          lb_month_start = floor_sec (e_utc e tid ((day - (d - 1)) * day_us)),
          lb_day_key = day, lb_month_key = y * 12 + (m - 1)\<rparr>)"

section \<open>The state of a subscriber\<close>

definition qs_key :: "quota_state \<Rightarrow> int \<times> int" where
  "qs_key s = (qs_tenant_id s, qs_subscriber_id s)"

definition get_state :: "env \<Rightarrow> db \<Rightarrow> int \<Rightarrow> int option \<Rightarrow> quota_state option" where
  "get_state e d tid sid =
     (case sid of
        None \<Rightarrow> None
      | Some i \<Rightarrow>
          if i = 0 then None
          else guarded None (at_site e S_quota_state (Inr (lookup_row qs_key (tid, i) (quota_states d)))))"

definition blank_quota_state :: "int \<Rightarrow> int \<Rightarrow> quota_state" where
  "blank_quota_state tid sid =
     \<lparr>qs_tenant_id = tid, qs_subscriber_id = sid, qs_period_start = None, qs_period_base_in = 0,
      qs_period_base_out = 0, qs_daily_reset_at = None, qs_daily_base_in = 0, qs_daily_base_out = 0,
      qs_topup_mb = 0, qs_topup_before = None, qs_topup_after = None, qs_topup_daily = None,
      qs_topup_monthly = None\<rparr>"

text \<open>\<open>upd\<close> sets the columns named in the dictionary and keeps the others.\<close>

definition save_state :: "env \<Rightarrow> db \<Rightarrow> int \<Rightarrow> int \<Rightarrow> (quota_state \<Rightarrow> quota_state) \<Rightarrow> db" where
  "save_state e d tid sid upd =
     (let old = (case get_state e d tid (Some sid) of None \<Rightarrow> blank_quota_state tid sid | Some s \<Rightarrow> s)
      in d\<lparr>quota_states := upsert qs_key (upd old) (quota_states d)\<rparr>)"

definition override_snapshot :: "subscriber \<Rightarrow> quota_override" where
  "override_snapshot s =
     \<lparr>q_combined = s_combined_quota_mb s, q_download = s_download_quota_mb s, q_upload = s_upload_quota_mb s,
      q_enabled = s_quota_limit_enabled s\<rparr>"

definition restore_override :: "quota_override \<Rightarrow> subscriber \<Rightarrow> subscriber" where
  "restore_override q s =
     s\<lparr>s_combined_quota_mb := q_combined q, s_download_quota_mb := q_download q, s_upload_quota_mb := q_upload q,
       s_quota_limit_enabled := q_enabled q\<rparr>"

definition alltime_bytes :: "db \<Rightarrow> int \<Rightarrow> string \<Rightarrow> int \<times> int" where
  "alltime_bytes d tid u =
     (sum_list (map a_inputoctets (user_rows d tid u)), sum_list (map a_outputoctets (user_rows d tid u)))"

section \<open>Events: a new period, a daily reset, a top-up\<close>

definition subscriber_row :: "db \<Rightarrow> int \<Rightarrow> int \<Rightarrow> subscriber option" where
  "subscriber_row d tid sid = find (\<lambda>s. s_tenant_id s = tid \<and> s_id s = Some sid) (subscribers d)"

definition restorable :: "env \<Rightarrow> db \<Rightarrow> int \<Rightarrow> int \<Rightarrow> quota_override option" where
  "restorable e d tid sid =
     (case get_state e d tid (Some sid) of
        None \<Rightarrow> None
      | Some st \<Rightarrow>
          (case (qs_topup_after st, qs_topup_before st, map_option override_snapshot (subscriber_row d tid sid)) of
             (Some after, Some before, Some current) \<Rightarrow> if current = after then Some before else None
           | _ \<Rightarrow> None))"

definition start_new_period :: "env \<Rightarrow> db \<Rightarrow> subscriber \<Rightarrow> quota_override option \<times> db" where
  "start_new_period e d sub =
     (case s_id sub of
        None \<Rightarrow> (None, d)
      | Some sid \<Rightarrow>
          if sid = 0 \<or> e_fault e S_new_period then (None, d)
          else
            let tid = s_tenant_id sub;
                restored = restorable e d tid sid;
                d1 = (case restored of
                        None \<Rightarrow> d
                      | Some before \<Rightarrow>
                          d\<lparr>subscribers := map (\<lambda>s. if s_tenant_id s = tid \<and> s_id s = Some sid
                                                   then restore_override before s else s) (subscribers d)\<rparr>);
                (b_in, b_out) = alltime_bytes d1 tid (s_username sub);
                now = floor_sec (e_now e)
            in (restored, save_state e d1 tid sid (\<lambda>st. st\<lparr>
                  qs_period_start := Some now, qs_period_base_in := b_in, qs_period_base_out := b_out,
                  qs_daily_reset_at := Some now, qs_daily_base_in := b_in, qs_daily_base_out := b_out,
                  qs_topup_mb := 0, qs_topup_before := None, qs_topup_after := None,
                  qs_topup_daily := None, qs_topup_monthly := None\<rparr>)))"

definition reset_daily :: "env \<Rightarrow> db \<Rightarrow> subscriber \<Rightarrow> db" where
  "reset_daily e d sub =
     (case s_id sub of
        None \<Rightarrow> d
      | Some sid \<Rightarrow>
          if sid = 0 \<or> e_fault e S_new_period then d
          else
            let tid = s_tenant_id sub; (b_in, b_out) = alltime_bytes d tid (s_username sub)
            in save_state e d tid sid (\<lambda>st. st\<lparr>qs_daily_reset_at := Some (floor_sec (e_now e)),
                 qs_daily_base_in := b_in, qs_daily_base_out := b_out\<rparr>))"

definition record_total_topup :: "env \<Rightarrow> db \<Rightarrow> subscriber \<Rightarrow> subscriber \<Rightarrow> int \<Rightarrow> db" where
  "record_total_topup e d before_sub after_sub quota_mb =
     (case s_id after_sub of
        None \<Rightarrow> d
      | Some sid \<Rightarrow>
          if sid = 0 then d
          else save_state e d (s_tenant_id after_sub) sid (\<lambda>st. st\<lparr>
                 qs_topup_mb := qs_topup_mb st + quota_mb,
                 qs_topup_after := Some (override_snapshot after_sub),
                 qs_topup_before := (case qs_topup_before st of None \<Rightarrow> Some (override_snapshot before_sub) | Some b \<Rightarrow> Some b)\<rparr>))"

datatype quota_dir = Combined | Download | Upload
datatype quota_window = Daily | Monthly

definition topup_of :: "quota_window \<Rightarrow> quota_state \<Rightarrow> window_topup option" where
  "topup_of w st = (case w of Daily \<Rightarrow> qs_topup_daily st | Monthly \<Rightarrow> qs_topup_monthly st)"

definition set_topup :: "quota_window \<Rightarrow> window_topup \<Rightarrow> quota_state \<Rightarrow> quota_state" where
  "set_topup w t st = (case w of Daily \<Rightarrow> st\<lparr>qs_topup_daily := Some t\<rparr> | Monthly \<Rightarrow> st\<lparr>qs_topup_monthly := Some t\<rparr>)"

definition wt_get :: "quota_dir \<Rightarrow> window_topup \<Rightarrow> int" where
  "wt_get t = (case t of Combined \<Rightarrow> wt_combined | Download \<Rightarrow> wt_download | Upload \<Rightarrow> wt_upload)"

definition wt_add :: "quota_dir \<Rightarrow> int \<Rightarrow> window_topup \<Rightarrow> window_topup" where
  "wt_add t n w = (case t of
      Combined \<Rightarrow> w\<lparr>wt_combined := wt_combined w + n\<rparr>
    | Download \<Rightarrow> w\<lparr>wt_download := wt_download w + n\<rparr>
    | Upload \<Rightarrow> w\<lparr>wt_upload := wt_upload w + n\<rparr>)"

definition fresh_topup :: "int \<Rightarrow> window_topup" where
  "fresh_topup key = \<lparr>wt_key = key, wt_combined = 0, wt_download = 0, wt_upload = 0\<rparr>"

definition window_key :: "quota_window \<Rightarrow> local_bounds_rec \<Rightarrow> int" where
  "window_key w b = (case w of Daily \<Rightarrow> lb_day_key b | Monthly \<Rightarrow> lb_month_key b)"

definition current_topup :: "int \<Rightarrow> window_topup option \<Rightarrow> window_topup" where
  "current_topup key t = (case t of None \<Rightarrow> fresh_topup key | Some x \<Rightarrow> if wt_key x = key then x else fresh_topup key)"

definition record_window_topup ::
    "env \<Rightarrow> db \<Rightarrow> subscriber \<Rightarrow> quota_window \<Rightarrow> quota_dir \<Rightarrow> int \<Rightarrow> (window_topup \<times> db) res" where
  "record_window_topup e d sub window target quota_mb =
     (case s_id sub of
        None \<Rightarrow> Inl RadiusValidationError
      | Some sid \<Rightarrow>
          if sid = 0 then Inl RadiusValidationError
          else
            let tid = s_tenant_id sub;
                key = window_key window (local_bounds e tid);
                old = (case get_state e d tid (Some sid) of None \<Rightarrow> None | Some st \<Rightarrow> topup_of window st);
                cur = wt_add target quota_mb (current_topup key old)
            in Inr (cur, save_state e d tid sid (set_topup window cur)))"

section \<open>Caps\<close>

record dir_caps =
  dc_combined :: int
  dc_download :: int
  dc_upload :: int

definition plan_int :: "access_plan option \<Rightarrow> (access_plan \<Rightarrow> int) \<Rightarrow> int" where
  "plan_int plan f = (case plan of None \<Rightarrow> 0 | Some p \<Rightarrow> max 0 (f p))"

definition plan_window_caps :: "access_plan option \<Rightarrow> quota_window \<Rightarrow> dir_caps" where
  "plan_window_caps plan w =
     (case w of
        Daily \<Rightarrow> \<lparr>dc_combined = or_int (plan_int plan p_daily_combined_quota_mb) (plan_int plan p_quota_daily_mb),
                  dc_download = plan_int plan p_daily_download_quota_mb,
                  dc_upload = plan_int plan p_daily_upload_quota_mb\<rparr>
      | Monthly \<Rightarrow> \<lparr>dc_combined = or_int (plan_int plan p_monthly_combined_quota_mb) (plan_int plan p_quota_monthly_mb),
                  dc_download = plan_int plan p_monthly_download_quota_mb,
                  dc_upload = plan_int plan p_monthly_upload_quota_mb\<rparr>)"

text \<open>\<open>if add and caps[window][d]: caps[window][d] += add\<close>.\<close>

definition raise_cap :: "int \<Rightarrow> int \<Rightarrow> int" where
  "raise_cap cap add = (if add \<noteq> 0 \<and> cap \<noteq> 0 then cap + add else cap)"

definition window_caps ::
    "env \<Rightarrow> db \<Rightarrow> subscriber \<Rightarrow> access_plan option \<Rightarrow> quota_state option \<Rightarrow> quota_window \<Rightarrow> dir_caps" where
  "window_caps e d sub plan st w =
     (let caps = plan_window_caps plan w in
      case (case st of None \<Rightarrow> None | Some s \<Rightarrow> topup_of w s) of
        None \<Rightarrow> caps
      | Some t \<Rightarrow>
          if wt_key t \<noteq> window_key w (local_bounds e (s_tenant_id sub)) then caps
          else \<lparr>dc_combined = raise_cap (dc_combined caps) (wt_combined t),
                dc_download = raise_cap (dc_download caps) (wt_download t),
                dc_upload = raise_cap (dc_upload caps) (wt_upload t)\<rparr>)"

definition has_caps :: "dir_caps \<Rightarrow> bool" where
  "has_caps c = (dc_combined c \<noteq> 0 \<or> dc_download c \<noteq> 0 \<or> dc_upload c \<noteq> 0)"

definition has_window_caps :: "(quota_window \<Rightarrow> dir_caps) \<Rightarrow> bool" where
  "has_window_caps caps = (has_caps (caps Daily) \<or> has_caps (caps Monthly))"

section \<open>Sessions that cross the start of a window\<close>

text \<open>\<open>round\<close>: to the nearest integer, ties to even.\<close>

definition round_even :: "rat \<Rightarrow> int" where
  "round_even x =
     (let f = floor x; r = x - of_int f in
      if r < 1 / 2 then f else if 1 / 2 < r then f + 1 else if even f then f else f + 1)"

text \<open>One component of \<open>_interpolate\<close>; the instants are whole seconds, so their differences are exact, and
  each floating-point operation is rounded by \<open>fl\<close>.\<close>

definition interpolate1 :: "(rat \<Rightarrow> rat) \<Rightarrow> dt \<Rightarrow> int \<Rightarrow> dt \<Rightarrow> int \<Rightarrow> dt \<Rightarrow> int" where
  "interpolate1 fl pre_t p cur_t c tb =
     (let span = total_seconds (cur_t - pre_t);
          v = (if span \<le> 0 then of_int p
               else let frac = min 1 (max 0 (fl (of_int (total_seconds (tb - pre_t)) / of_int span)))
                    in fl (of_int p + fl (of_int (c - p) * frac)))
      in round_even (min (max v 0) (of_int (max c 0))))"

definition interpolate :: "(rat \<Rightarrow> rat) \<Rightarrow> dt \<Rightarrow> int \<times> int \<Rightarrow> dt \<Rightarrow> int \<times> int \<Rightarrow> dt \<Rightarrow> int \<times> int" where
  "interpolate fl pre_t pre_v cur_t cur_v tb =
     (interpolate1 fl pre_t (fst pre_v) cur_t (fst cur_v) tb, interpolate1 fl pre_t (snd pre_v) cur_t (snd cur_v) tb)"

definition mk_key :: "session_mark \<Rightarrow> int \<times> int" where
  "mk_key m = (mk_tenant_id m, mk_radacctid m)"

definition blank_mark :: "int \<Rightarrow> int \<Rightarrow> session_mark" where
  "blank_mark tid rid =
     \<lparr>mk_tenant_id = tid, mk_radacctid = rid, mk_username = [], mk_snap_at = None, mk_snap_in = 0, mk_snap_out = 0,
      mk_day_key = None, mk_day_base_in = 0, mk_day_base_out = 0, mk_month_key = None, mk_month_base_in = 0,
      mk_month_base_out = 0, mk_updated_at = 0\<rparr>"

definition mark_key :: "quota_window \<Rightarrow> session_mark \<Rightarrow> int option" where
  "mark_key w = (case w of Daily \<Rightarrow> mk_day_key | Monthly \<Rightarrow> mk_month_key)"

definition mark_base :: "quota_window \<Rightarrow> session_mark \<Rightarrow> int \<times> int" where
  "mark_base w m = (case w of Daily \<Rightarrow> (mk_day_base_in m, mk_day_base_out m) | Monthly \<Rightarrow> (mk_month_base_in m, mk_month_base_out m))"

definition set_mark_base :: "quota_window \<Rightarrow> int \<Rightarrow> int \<times> int \<Rightarrow> session_mark \<Rightarrow> session_mark" where
  "set_mark_base w key b m =
     (case w of
        Daily \<Rightarrow> m\<lparr>mk_day_key := Some key, mk_day_base_in := fst b, mk_day_base_out := snd b\<rparr>
      | Monthly \<Rightarrow> m\<lparr>mk_month_key := Some key, mk_month_base_in := fst b, mk_month_base_out := snd b\<rparr>)"

definition window_start :: "quota_window \<Rightarrow> local_bounds_rec \<Rightarrow> dt" where
  "window_start w b = (case w of Daily \<Rightarrow> lb_day_start b | Monthly \<Rightarrow> lb_month_start b)"

text \<open>The rows of \<open>_straddle_usage\<close>: open, or closed after a boundary they started before.\<close>

definition crosses :: "dt \<Rightarrow> acct_row \<Rightarrow> bool" where
  "crosses t a = (case (a_start a, a_stop a) of (Some s, Some x) \<Rightarrow> s < t \<and> t < x | _ \<Rightarrow> False)"

definition straddle_rows :: "db \<Rightarrow> int \<Rightarrow> string \<Rightarrow> local_bounds_rec \<Rightarrow> acct_row list" where
  "straddle_rows d tid u b =
     filter (\<lambda>a. a_stop a = None \<or> crosses (lb_day_start b) a \<or> crosses (lb_month_start b) a) (user_rows d tid u)"

definition row_start :: "acct_row \<Rightarrow> dt option" where "row_start a = map_option floor_sec (a_start a)"
definition row_stop :: "acct_row \<Rightarrow> dt option" where "row_stop a = map_option floor_sec (a_stop a)"

text \<open>\<open>stop or update or start\<close>, and not before the start.\<close>

definition row_update :: "acct_row \<Rightarrow> dt option" where
  "row_update a =
     (let upd = opt_or (row_stop a) (opt_or (map_option floor_sec (a_update a)) (row_start a)) in
      case (upd, row_start a) of (Some t, Some s) \<Rightarrow> Some (max t s) | _ \<Rightarrow> upd)"

definition row_bytes :: "acct_row \<Rightarrow> int \<times> int" where
  "row_bytes a = (max 0 (a_inputoctets a), max 0 (a_outputoctets a))"

text \<open>The last reading before the boundary: the snapshot if it lies between the start and the boundary,
  otherwise the start with nothing transferred.\<close>

definition pre_reading :: "session_mark \<Rightarrow> dt \<Rightarrow> dt \<Rightarrow> dt \<times> int \<times> int" where
  "pre_reading m start ws =
     (case map_option floor_sec (mk_snap_at m) of
        Some t \<Rightarrow> if start \<le> t \<and> t \<le> ws then (t, mk_snap_in m, mk_snap_out m) else (start, 0, 0)
      | None \<Rightarrow> (start, 0, 0))"

text \<open>The pass of the inner loop for one window: the bytes it adds, and the mark it leaves.\<close>

definition straddle_window ::
    "(rat \<Rightarrow> rat) \<Rightarrow> local_bounds_rec \<Rightarrow> session_mark \<Rightarrow> acct_row \<Rightarrow> quota_window \<Rightarrow> (int \<times> int) \<times> (session_mark \<Rightarrow> session_mark) option" where
  "straddle_window fl b m a w =
     (let ws = window_start w b; key = window_key w b; cur = row_bytes a in
      case (row_start a, row_update a) of
        (Some start, Some upd) \<Rightarrow>
          if ws \<le> start \<or> upd \<le> ws then ((0, 0), None)
          else
            let grown = (\<lambda>base. (max 0 (fst cur - fst base), max 0 (snd cur - snd base))) in
            if mark_key w m = Some key then (grown (mark_base w m), None)
            else
              let (pre_t, pre_v) = pre_reading m start ws;
                  base = interpolate fl pre_t pre_v upd cur ws
              in (grown base, Some (set_mark_base w key base))
      | _ \<Rightarrow> ((0, 0), None))"

definition later :: "dt \<Rightarrow> dt option \<Rightarrow> bool" where
  "later t x = (case x of None \<Rightarrow> True | Some y \<Rightarrow> y < t)"

text \<open>The snapshot of an open session.\<close>

definition straddle_snap :: "session_mark \<Rightarrow> acct_row \<Rightarrow> (session_mark \<Rightarrow> session_mark) option" where
  "straddle_snap m a =
     (case (row_stop a, row_update a) of
        (None, Some upd) \<Rightarrow>
          if later upd (map_option floor_sec (mk_snap_at m))
          then Some (\<lambda>m. m\<lparr>mk_snap_at := Some upd, mk_snap_in := fst (row_bytes a), mk_snap_out := snd (row_bytes a)\<rparr>)
          else None
      | _ \<Rightarrow> None)"

definition lookup_mark :: "env \<Rightarrow> db \<Rightarrow> int \<Rightarrow> int \<Rightarrow> session_mark" where
  "lookup_mark e d tid rid =
     (case guarded None (at_site e S_marks (Inr (lookup_row mk_key (tid, rid) (session_marks d)))) of
        None \<Rightarrow> blank_mark tid rid
      | Some m \<Rightarrow> m)"

definition save_mark :: "dt \<Rightarrow> int \<Rightarrow> string \<Rightarrow> int \<times> (session_mark \<Rightarrow> session_mark) \<Rightarrow> db \<Rightarrow> db" where
  "save_mark now tid u w d =
     (let (rid, upd) = w;
          old = (case lookup_row mk_key (tid, rid) (session_marks d) of None \<Rightarrow> blank_mark tid rid | Some m \<Rightarrow> m)
      in d\<lparr>session_marks := upsert mk_key ((upd old)\<lparr>mk_username := u, mk_updated_at := floor_sec now\<rparr>) (session_marks d)\<rparr>)"

definition save_marks :: "env \<Rightarrow> db \<Rightarrow> int \<Rightarrow> string \<Rightarrow> (int \<times> (session_mark \<Rightarrow> session_mark)) list \<Rightarrow> db" where
  "save_marks e d tid u writes = (if e_fault e S_marks then d else fold (save_mark (e_now e) tid u) writes d)"

definition opt_list :: "'a option \<Rightarrow> 'a list" where
  "opt_list x = (case x of None \<Rightarrow> [] | Some y \<Rightarrow> [y])"

text \<open>The columns one row changes, in the order they are set.\<close>

definition straddle_writes ::
    "env \<Rightarrow> db \<Rightarrow> int \<Rightarrow> local_bounds_rec \<Rightarrow> acct_row \<Rightarrow> (int \<times> (session_mark \<Rightarrow> session_mark)) list" where
  "straddle_writes e d tid b a =
     (let m = lookup_mark e d tid (a_radacctid a);
          upds = opt_list (snd (straddle_window (e_fl e) b m a Daily)) @
                 opt_list (snd (straddle_window (e_fl e) b m a Monthly)) @ opt_list (straddle_snap m a)
      in if upds = [] then [] else [(a_radacctid a, fold (\<lambda>f. f) upds)])"

definition straddle_bytes ::
    "env \<Rightarrow> db \<Rightarrow> int \<Rightarrow> local_bounds_rec \<Rightarrow> quota_window \<Rightarrow> acct_row \<Rightarrow> int \<times> int" where
  "straddle_bytes e d tid b w a = fst (straddle_window (e_fl e) b (lookup_mark e d tid (a_radacctid a)) a w)"

definition straddle_usage ::
    "env \<Rightarrow> db \<Rightarrow> int \<Rightarrow> string \<Rightarrow> local_bounds_rec \<Rightarrow> (quota_window \<Rightarrow> int \<times> int) \<times> db" where
  "straddle_usage e d tid u b =
     (let rows = straddle_rows d tid u b;
          total = (\<lambda>w. (sum_list (map (fst \<circ> straddle_bytes e d tid b w) rows),
                         sum_list (map (snd \<circ> straddle_bytes e d tid b w) rows)));
          writes = concat (map (straddle_writes e d tid b) rows)
      in (total, if writes = [] then d else save_marks e d tid u writes))"

definition note_pre_interim :: "env \<Rightarrow> db \<Rightarrow> int \<Rightarrow> acct_row option \<Rightarrow> db" where
  "note_pre_interim e d tid row =
     (case row of
        None \<Rightarrow> d
      | Some a \<Rightarrow>
          let b = local_bounds e tid in
          (case (row_start a, opt_or (map_option floor_sec (a_update a)) (row_start a)) of
             (Some start, Some upd) \<Rightarrow>
               if lb_day_start b < upd \<or> lb_day_start b \<le> start then d
               else save_marks e d tid (a_username a)
                      [(a_radacctid a, \<lambda>m. m\<lparr>mk_snap_at := Some upd, mk_snap_in := max 0 (a_inputoctets a),
                                             mk_snap_out := max 0 (a_outputoctets a)\<rparr>)]
           | _ \<Rightarrow> d))"

definition prune_session_marks :: "env \<Rightarrow> db \<Rightarrow> int \<Rightarrow> nat \<times> db" where
  "prune_session_marks e d days =
     (if e_fault e S_marks then (0, d)
      else
        let cutoff = floor_sec (e_now e - days * day_us)
        in (length (filter (\<lambda>m. mk_updated_at m < cutoff) (session_marks d)),
            d\<lparr>session_marks := filter (\<lambda>m. \<not> mk_updated_at m < cutoff) (session_marks d)\<rparr>))"

section \<open>Usage\<close>

record usage_rec =
  u_period :: "int \<times> int"
  u_daily :: "int \<times> int"
  u_monthly :: "int \<times> int"

definition sum_when :: "(dt \<Rightarrow> bool) \<Rightarrow> acct_row list \<Rightarrow> int \<times> int" where
  "sum_when P rows =
     (let hit = filter (\<lambda>a. case a_start a of None \<Rightarrow> False | Some t \<Rightarrow> P t) rows
      in (sum_list (map a_inputoctets hit), sum_list (map a_outputoctets hit)))"

definition since_event :: "int \<times> int \<Rightarrow> int \<times> int \<Rightarrow> int \<times> int \<Rightarrow> int \<times> int" where
  "since_event all post base =
     (fst post + max 0 (fst all - fst post - fst base), snd post + max 0 (snd all - snd post - snd base))"

definition add_pair :: "int \<times> int \<Rightarrow> int \<times> int \<Rightarrow> int \<times> int" where
  "add_pair a b = (fst a + fst b, snd a + snd b)"

definition usage :: "env \<Rightarrow> db \<Rightarrow> subscriber \<Rightarrow> quota_state option \<Rightarrow> bool \<Rightarrow> usage_rec \<times> db" where
  "usage e d sub st windows =
     (let tid = s_tenant_id sub; u = s_username sub;
          b = local_bounds e tid;
          rows = user_rows d tid u;
          all = alltime_bytes d tid u;
          p = (case st of None \<Rightarrow> None | Some s \<Rightarrow> map_option floor_sec (qs_period_start s));
          r = (case st of None \<Rightarrow> None | Some s \<Rightarrow> map_option floor_sec (qs_daily_reset_at s));
          period = (case (p, st) of
                      (Some t, Some s) \<Rightarrow> since_event all (sum_when (\<lambda>x. t < x) rows) (qs_period_base_in s, qs_period_base_out s)
                    | _ \<Rightarrow> all);
          day_by_reset = (case r of None \<Rightarrow> False | Some t \<Rightarrow> lb_day_start b \<le> t);
          month_by_period = (case p of None \<Rightarrow> False | Some t \<Rightarrow> lb_month_start b \<le> t);
          (straddle, d1) = (if windows \<and> \<not> (day_by_reset \<and> month_by_period) \<and> \<not> e_fault e S_straddle
                            then straddle_usage e d tid u b else (\<lambda>_. (0, 0), d));
          daily = (case (day_by_reset, r, st) of
                     (True, Some t, Some s) \<Rightarrow> since_event all (sum_when (\<lambda>x. t < x) rows) (qs_daily_base_in s, qs_daily_base_out s)
                   | _ \<Rightarrow> add_pair (sum_when (\<lambda>x. lb_day_start b \<le> x) rows) (straddle Daily));
          monthly = (if month_by_period then period
                     else add_pair (sum_when (\<lambda>x. lb_month_start b \<le> x) rows) (straddle Monthly))
      in (\<lparr>u_period = period, u_daily = daily, u_monthly = monthly\<rparr>, d1))"

definition period_used_bytes :: "env \<Rightarrow> db \<Rightarrow> subscriber \<Rightarrow> int" where
  "period_used_bytes e d sub =
     (let (i, out) = u_period (fst (usage e d sub (get_state e d (s_tenant_id sub) (s_id sub)) False)) in i + out)"

definition over_caps :: "dir_caps \<Rightarrow> int \<times> int \<Rightarrow> bool" where
  "over_caps c used =
     (let (up, down) = used in
      (dc_combined c \<noteq> 0 \<and> dc_combined c * MIB \<le> up + down) \<or>
      (dc_download c \<noteq> 0 \<and> dc_download c * MIB \<le> down) \<or>
      (dc_upload c \<noteq> 0 \<and> dc_upload c * MIB \<le> up))"

definition window_exhaustion :: "env \<Rightarrow> db \<Rightarrow> subscriber \<Rightarrow> access_plan option \<Rightarrow> quota_window option \<times> db" where
  "window_exhaustion e d sub plan =
     (let st = get_state e d (s_tenant_id sub) (s_id sub);
          caps = window_caps e d sub plan st in
      if \<not> has_window_caps caps then (None, d)
      else
        let (used, d1) = usage e d sub st True in
        (if over_caps (caps Monthly) (u_monthly used) then Some Monthly
         else if over_caps (caps Daily) (u_daily used) then Some Daily else None, d1))"

section \<open>Renewal\<close>

text \<open>\<open>_plan_minutes\<close> and \<open>plan_period_minutes\<close> of \<open>services/users.py\<close>.\<close>

definition plan_minutes :: "access_plan \<Rightarrow> int" where
  "plan_minutes p =
     (if 0 < p_duration_minutes p then p_duration_minutes p
      else if 0 < p_validity_days p then p_validity_days p * 24 * 60
      else
        let v = p_duration_value p; unit = lower (p_duration_unit p) in
        if v \<le> 0 then 0
        else if unit \<in> {''mins'', ''min'', ''minute'', ''minutes''} then v
        else if unit \<in> {''hrs'', ''hr'', ''hour'', ''hours''} then v * 60
        else if unit \<in> {''days'', ''day''} then v * 24 * 60
        else if unit \<in> {''months'', ''month''} then v * 30 * 24 * 60
        else 0)"

definition PLAN_PERIOD_FALLBACK_MINUTES :: int where "PLAN_PERIOD_FALLBACK_MINUTES = 43200"

definition plan_period_minutes :: "access_plan option \<Rightarrow> int" where
  "plan_period_minutes plan =
     (case plan of None \<Rightarrow> 0 | Some p \<Rightarrow> or_int (plan_minutes p) PLAN_PERIOD_FALLBACK_MINUTES)"

definition is_renewal :: "dt \<Rightarrow> dt option \<Rightarrow> dt option \<Rightarrow> int \<Rightarrow> access_plan option \<Rightarrow> bool" where
  "is_renewal now old_expire new_expire minutes plan =
     (case new_expire of
        None \<Rightarrow> False
      | Some n \<Rightarrow>
          if n \<le> now then False
          else (case old_expire of
                  None \<Rightarrow> True
                | Some x \<Rightarrow> if x \<le> now then True
                            else plan_period_minutes plan \<noteq> 0 \<and> plan_period_minutes plan \<le> minutes))"

definition on_time_added :: "env \<Rightarrow> db \<Rightarrow> subscriber \<Rightarrow> dt option \<Rightarrow> int \<Rightarrow> db" where
  "on_time_added e d sub new_expire minutes =
     (if e_fault e S_time_added then d
      else if s_user_type sub = ''card'' \<or> truthy_id (s_card_batch_id sub) then d
      else
        let plan = (if truthy_id (s_plan_id sub) then get_plan d (s_tenant_id sub) (the (s_plan_id sub)) True else None)
        in if is_renewal (e_now e) (s_expire_at sub) new_expire minutes plan then snd (start_new_period e d sub) else d)"

section \<open>Reading back a saved state\<close>

text \<open>The tables this component writes are keyed tables (\<open>upsert_table\<close>): the states by tenant and
  subscriber, the marks by tenant and accounting row.\<close>

lemma lookup_row_key: "lookup_row keyf k t = Some r \<Longrightarrow> keyf r = k"
  unfolding lookup_row_def by (induction t) (auto split: if_splits)

lemma get_state_key: "get_state e d tid sid = Some st \<Longrightarrow> sid = Some (qs_subscriber_id st) \<and> tid = qs_tenant_id st"
  by (auto simp: get_state_def guarded_def at_site_def qs_key_def split: option.splits if_splits sum.splits
      dest!: lookup_row_key)

definition state_or_blank :: "env \<Rightarrow> db \<Rightarrow> int \<Rightarrow> int \<Rightarrow> quota_state" where
  "state_or_blank e d tid sid = (case get_state e d tid (Some sid) of None \<Rightarrow> blank_quota_state tid sid | Some s \<Rightarrow> s)"

lemma state_or_blank_key [simp]: "qs_key (state_or_blank e d tid sid) = (tid, sid)"
  by (auto simp: state_or_blank_def blank_quota_state_def qs_key_def dest: get_state_key split: option.splits)

lemma get_state_save_state:
  assumes "\<not> e_fault e S_quota_state" "sid \<noteq> 0" "\<And>s. qs_key (upd s) = qs_key s"
  shows "get_state e (save_state e0 d tid sid upd) tid (Some sid) = Some (upd (state_or_blank e0 d tid sid))"
proof -
  have "quota_states (save_state e0 d tid sid upd) = upsert qs_key (upd (state_or_blank e0 d tid sid)) (quota_states d)"
    by (simp add: save_state_def state_or_blank_def Let_def)
  with assms upsert_table.get_put_same [of qs_key "upd (state_or_blank e0 d tid sid)" "quota_states d"]
  show ?thesis by (simp add: get_state_def)
qed

lemma save_state_keeps [simp]:
  "radacct (save_state e d tid sid upd) = radacct d"
  "subscribers (save_state e d tid sid upd) = subscribers d"
  by (simp_all add: save_state_def Let_def)

lemma get_state_cong: "quota_states d = quota_states d' \<Longrightarrow> get_state e d tid sid = get_state e d' tid sid"
  by (simp add: get_state_def split: option.splits)

section \<open>A period counts exactly what was transferred since it began\<close>

lemma floor_sec_idem [simp]: "floor_sec (floor_sec t) = floor_sec t"
  by (simp add: floor_sec_def)

lemma start_new_period_state:
  assumes "s_id sub = Some sid" "sid \<noteq> 0" "\<not> e_fault e S_new_period" "\<not> e_fault e' S_quota_state"
    "s_tenant_id sub = tid" "start_new_period e d sub = (q, d1)"
  obtains st where "get_state e' d1 tid (Some sid) = Some st" "qs_period_start st = Some (floor_sec (e_now e))"
    "(qs_period_base_in st, qs_period_base_out st) = alltime_bytes d tid (s_username sub)"
    "qs_daily_reset_at st = Some (floor_sec (e_now e))"
    "(qs_daily_base_in st, qs_daily_base_out st) = alltime_bytes d tid (s_username sub)"
    "qs_topup_before st = None" "qs_topup_after st = None" "topup_of Daily st = None" "topup_of Monthly st = None"
proof -
  let ?upd = "\<lambda>st. st\<lparr>qs_period_start := Some (floor_sec (e_now e)),
      qs_period_base_in := fst (alltime_bytes d tid (s_username sub)),
      qs_period_base_out := snd (alltime_bytes d tid (s_username sub)),
      qs_daily_reset_at := Some (floor_sec (e_now e)),
      qs_daily_base_in := fst (alltime_bytes d tid (s_username sub)),
      qs_daily_base_out := snd (alltime_bytes d tid (s_username sub)), qs_topup_mb := 0,
      qs_topup_before := None, qs_topup_after := None, qs_topup_daily := None, qs_topup_monthly := None\<rparr>"
  have "alltime_bytes (d\<lparr>subscribers := ss\<rparr>) t u = alltime_bytes d t u" for ss t u
    by (simp add: alltime_bytes_def user_rows_def)
  then have "\<exists>d0. d1 = save_state e d0 tid sid ?upd"
    using assms by (auto simp: start_new_period_def Let_def case_prod_unfold split: option.splits)
  then obtain d0 where "d1 = save_state e d0 tid sid ?upd" ..
  then have "get_state e' d1 tid (Some sid) = Some (?upd (state_or_blank e d0 tid sid))"
    using assms(2,4) by (simp add: get_state_save_state qs_key_def)
  then show ?thesis by (rule that) (simp_all add: topup_of_def)
qed

text \<open>Accounting rows only grow, and new rows start later.\<close>

definition grew :: "acct_row \<Rightarrow> acct_row \<Rightarrow> bool" where
  "grew a a' \<longleftrightarrow> a_start a' = a_start a \<and> a_inputoctets a \<le> a_inputoctets a' \<and> a_outputoctets a \<le> a_outputoctets a'"

lemma grew_sums:
  "list_all2 grew xs ys \<Longrightarrow> sum_list (map a_inputoctets xs) \<le> sum_list (map a_inputoctets ys) \<and>
     sum_list (map a_outputoctets xs) \<le> sum_list (map a_outputoctets ys)"
  by (induction rule: list_all2_induct) (auto simp: grew_def)

lemma filter_started:
  "\<forall>a \<in> set ys. case a_start a of None \<Rightarrow> True | Some t \<Rightarrow> \<not> P t \<Longrightarrow>
   \<forall>a \<in> set zs. case a_start a of None \<Rightarrow> False | Some t \<Rightarrow> P t \<Longrightarrow>
   filter (\<lambda>a. case a_start a of None \<Rightarrow> False | Some t \<Rightarrow> P t) (ys @ zs) = zs"
  by (auto simp: filter_empty_conv filter_id_conv split: option.splits)

text \<open>C26. From the start of a quota period on, the usage charged to the period is exactly the traffic of the
  account since then: the growth of the sessions that already existed plus everything the later sessions
  carried. Nothing of the previous period is counted, nothing since is lost, and right after the start the
  usage is zero.\<close>

theorem new_period_counts_growth:
  assumes sid: "s_id sub = Some sid" "sid \<noteq> 0" and ok: "\<not> e_fault e S_new_period" "\<not> e_fault e' S_quota_state"
    and start: "start_new_period e d sub = (q, d1)"
    and later: "quota_states d2 = quota_states d1"
    and rows: "user_rows d2 (s_tenant_id sub) (s_username sub) = ys @ zs"
    and old: "list_all2 grew (user_rows d (s_tenant_id sub) (s_username sub)) ys"
      "\<forall>a \<in> set ys. case a_start a of None \<Rightarrow> True | Some t \<Rightarrow> t \<le> floor_sec (e_now e)"
    and new: "\<forall>a \<in> set zs. case a_start a of None \<Rightarrow> False | Some t \<Rightarrow> floor_sec (e_now e) < t"
  shows "u_period (fst (usage e' d2 sub (get_state e' d2 (s_tenant_id sub) (s_id sub)) windows)) =
    (fst (alltime_bytes d2 (s_tenant_id sub) (s_username sub)) - fst (alltime_bytes d (s_tenant_id sub) (s_username sub)),
     snd (alltime_bytes d2 (s_tenant_id sub) (s_username sub)) - snd (alltime_bytes d (s_tenant_id sub) (s_username sub)))"
proof -
  let ?tid = "s_tenant_id sub" and ?u = "s_username sub" and ?p = "floor_sec (e_now e)"
  obtain st where st: "get_state e' d1 ?tid (Some sid) = Some st" "qs_period_start st = Some ?p"
    and base: "(qs_period_base_in st, qs_period_base_out st) = alltime_bytes d ?tid ?u"
    by (rule start_new_period_state [OF sid ok refl start])
  have st2: "get_state e' d2 ?tid (Some sid) = Some st" using st get_state_cong [OF later] by simp
  have "sum_when (\<lambda>x. ?p < x) (ys @ zs) = (sum_list (map a_inputoctets zs), sum_list (map a_outputoctets zs))"
    unfolding sum_when_def
    by (subst filter_started) (use old(2) new in \<open>auto simp: not_less split: option.splits\<close>)
  moreover have "fst (alltime_bytes d ?tid ?u) \<le> sum_list (map a_inputoctets ys)"
    "snd (alltime_bytes d ?tid ?u) \<le> sum_list (map a_outputoctets ys)"
    using grew_sums [OF old(1)] by (simp_all add: alltime_bytes_def)
  moreover have "u_period (fst (usage e' d2 sub (Some st) windows)) =
      since_event (alltime_bytes d2 ?tid ?u) (sum_when (\<lambda>x. ?p < x) (ys @ zs)) (alltime_bytes d ?tid ?u)"
    using st(2) rows base by (simp add: usage_def Let_def split: prod.splits)
  ultimately show ?thesis using st2 sid rows by (simp add: since_event_def alltime_bytes_def)
qed

section \<open>Top-ups end with their period\<close>

text \<open>The history of an override inside a period: a top-up writes an override and is recorded; an edit
  writes one without being recorded.\<close>

datatype override_step = TopUp quota_override int | Edit quota_override

definition write_override :: "db \<Rightarrow> int \<Rightarrow> int \<Rightarrow> quota_override \<Rightarrow> db" where
  "write_override d tid sid q =
     d\<lparr>subscribers := map (\<lambda>s. if s_tenant_id s = tid \<and> s_id s = Some sid then restore_override q s else s) (subscribers d)\<rparr>"

fun do_override :: "env \<Rightarrow> int \<Rightarrow> int \<Rightarrow> db \<Rightarrow> override_step \<Rightarrow> db" where
  "do_override e tid sid d (Edit q) = write_override d tid sid q"
| "do_override e tid sid d (TopUp q mb) =
     (case subscriber_row d tid sid of
        None \<Rightarrow> d
      | Some s \<Rightarrow> record_total_topup e (write_override d tid sid q) s (restore_override q s) mb)"

text \<open>The abstract account: the override in force, the one before the first top-up, the one after the last.\<close>

fun override_ghost ::
    "quota_override \<times> quota_override option \<times> quota_override option \<Rightarrow> override_step
      \<Rightarrow> quota_override \<times> quota_override option \<times> quota_override option" where
  "override_ghost (cur, first, lst) (Edit q) = (q, first, lst)"
| "override_ghost (cur, first, lst) (TopUp q mb) = (q, Some (case first of None \<Rightarrow> cur | Some f \<Rightarrow> f), Some q)"

definition override_inv ::
    "env \<Rightarrow> int \<Rightarrow> int \<Rightarrow> subscriber \<Rightarrow> db \<Rightarrow> quota_override \<times> quota_override option \<times> quota_override option \<Rightarrow> bool" where
  "override_inv e tid sid s0 d g \<longleftrightarrow>
     subscriber_row d tid sid = Some (restore_override (fst g) s0) \<and>
     qs_topup_before (state_or_blank e d tid sid) = fst (snd g) \<and>
     qs_topup_after (state_or_blank e d tid sid) = snd (snd g)"

lemma restore_override_simps [simp]:
  "override_snapshot (restore_override q s) = q"
  "restore_override q (restore_override q' s) = restore_override q s"
  "s_id (restore_override q s) = s_id s" "s_tenant_id (restore_override q s) = s_tenant_id s"
  "s_username (restore_override q s) = s_username s"
  by (simp_all add: override_snapshot_def restore_override_def)

lemma restore_override_snapshot [simp]: "restore_override (override_snapshot s) s = s"
  by (simp add: override_snapshot_def restore_override_def)

lemma subscriber_row_write:
  "subscriber_row (write_override d tid sid q) tid sid = map_option (restore_override q) (subscriber_row d tid sid)"
proof -
  have "find (\<lambda>s. s_tenant_id s = tid \<and> s_id s = Some sid)
      (map (\<lambda>s. if s_tenant_id s = tid \<and> s_id s = Some sid then restore_override q s else s) ss) =
    map_option (restore_override q) (find (\<lambda>s. s_tenant_id s = tid \<and> s_id s = Some sid) ss)" for ss
    by (induction ss) auto
  then show ?thesis by (simp add: subscriber_row_def write_override_def)
qed

lemma subscriber_row_keys: "subscriber_row d tid sid = Some s \<Longrightarrow> s_tenant_id s = tid \<and> s_id s = Some sid"
  by (auto simp: subscriber_row_def find_Some_iff)

lemma state_or_blank_cong: "quota_states d = quota_states d' \<Longrightarrow> state_or_blank e d tid sid = state_or_blank e d' tid sid"
  by (simp add: state_or_blank_def get_state_cong [of d d'])

lemma state_or_blank_save:
  "\<not> e_fault e S_quota_state \<Longrightarrow> sid \<noteq> 0 \<Longrightarrow> (\<And>s. qs_key (upd s) = qs_key s) \<Longrightarrow>
   state_or_blank e (save_state e d tid sid upd) tid sid = upd (state_or_blank e d tid sid)"
  by (simp add: state_or_blank_def [of e "save_state e d tid sid upd"] get_state_save_state)

lemma override_step_refines:
  assumes "override_inv e tid sid s0 d g" "\<not> e_fault e S_quota_state" "sid \<noteq> 0" "s_id s0 = Some sid" "s_tenant_id s0 = tid"
  shows "override_inv e tid sid s0 (do_override e tid sid d st) (override_ghost g st)"
proof (cases st)
  case (Edit q)
  have "state_or_blank e (write_override d tid sid q) tid sid = state_or_blank e d tid sid"
    by (rule state_or_blank_cong) (simp add: write_override_def)
  with Edit assms(1) show ?thesis by (cases g) (simp add: override_inv_def subscriber_row_write)
next
  case (TopUp q mb)
  let ?d1 = "write_override d tid sid q"
  obtain cur first lst where g: "g = (cur, first, lst)" by (cases g)
  have row: "subscriber_row d tid sid = Some (restore_override cur s0)"
    and b: "qs_topup_before (state_or_blank e d tid sid) = first"
    using assms(1) by (simp_all add: override_inv_def g)
  have w: "state_or_blank e ?d1 tid sid = state_or_blank e d tid sid"
    by (rule state_or_blank_cong) (simp add: write_override_def)
  let ?upd = "\<lambda>st. st\<lparr>qs_topup_mb := qs_topup_mb st + mb, qs_topup_after := Some q,
     qs_topup_before := (case qs_topup_before st of None \<Rightarrow> Some cur | Some b \<Rightarrow> Some b)\<rparr>"
  have step: "do_override e tid sid d st = save_state e ?d1 tid sid ?upd"
    using assms(3-5) by (simp add: TopUp row record_total_topup_def cong: option.case_cong)
  have "subscriber_row (save_state e ?d1 tid sid ?upd) tid sid = subscriber_row ?d1 tid sid"
    by (simp add: subscriber_row_def)
  moreover have "state_or_blank e (save_state e ?d1 tid sid ?upd) tid sid = ?upd (state_or_blank e d tid sid)"
    using assms(2,3) by (subst state_or_blank_save) (simp_all add: qs_key_def w)
  ultimately show ?thesis unfolding override_inv_def step
    by (simp add: g TopUp subscriber_row_write row b split: option.splits)
qed

lemma override_steps_refine:
  assumes "override_inv e tid sid s0 d g" "\<not> e_fault e S_quota_state" "sid \<noteq> 0" "s_id s0 = Some sid" "s_tenant_id s0 = tid"
  shows "override_inv e tid sid s0 (foldl (do_override e tid sid) d sts) (foldl override_ghost g sts)"
  using assms(1) by (induction sts arbitrary: d g) (simp_all add: override_step_refines assms(2-5))

lemma restorable_state:
  assumes "subscriber_row d tid sid = Some s"
  shows "restorable e d tid sid =
    (case (qs_topup_after (state_or_blank e d tid sid), qs_topup_before (state_or_blank e d tid sid)) of
       (Some after, Some before) \<Rightarrow> if override_snapshot s = after then Some before else None
     | _ \<Rightarrow> None)"
  using assms
  by (auto simp: restorable_def state_or_blank_def blank_quota_state_def split: option.splits)

text \<open>What a new period makes of the quota override, whatever sequence of top-ups and edits came before
  it: the override returns to its value before the first top-up of the period exactly when the override in
  force is the one the last top-up wrote; otherwise (no top-up, or an edit that differs from it) it stays as
  it is. In particular an operator's edit between two top-ups is discarded together with them.\<close>

theorem override_after_new_period:
  assumes ok: "\<not> e_fault e S_quota_state" "\<not> e_fault e S_new_period" and sid: "sid \<noteq> 0"
    and row: "subscriber_row d tid sid = Some s0"
    and none: "qs_topup_before (state_or_blank e d tid sid) = None" "qs_topup_after (state_or_blank e d tid sid) = None"
    and ghost: "foldl override_ghost (override_snapshot s0, None, None) sts = (cur, first, lst)"
  shows "subscriber_row (snd (start_new_period e (foldl (do_override e tid sid) d sts) s0)) tid sid =
    Some (restore_override (if first \<noteq> None \<and> lst = Some cur then the first else cur) s0)"
proof -
  let ?d = "foldl (do_override e tid sid) d sts"
  note keys = subscriber_row_keys [OF row]
  have "override_inv e tid sid s0 d (override_snapshot s0, None, None)"
    using row none by (simp add: override_inv_def)
  from override_steps_refine [OF this ok(1) sid, of sts] keys
  have inv: "override_inv e tid sid s0 ?d (cur, first, lst)" by (simp add: ghost)
  have r: "subscriber_row ?d tid sid = Some (restore_override cur s0)" using inv by (simp add: override_inv_def)
  have "restorable e ?d tid sid = (if first \<noteq> None \<and> lst = Some cur then first else None)"
    using inv by (auto simp: restorable_state [OF r] override_inv_def split: option.splits)
  then show ?thesis
    using keys sid ok subscriber_row_write [of ?d tid sid] r
    by (auto simp: start_new_period_def Let_def case_prod_unfold write_override_def subscriber_row_def split: option.splits)
qed

section \<open>Baselines of crossing sessions\<close>

lemma round_even_bounds: "of_int a \<le> x \<Longrightarrow> x \<le> of_int b \<Longrightarrow> a \<le> round_even x \<and> round_even x \<le> b"
proof -
  assume a: "of_int a \<le> x" and b: "x \<le> of_int b"
  have "a \<le> floor x" using a by (simp add: le_floor_iff)
  moreover have "floor x + 1 \<le> b" if "x - of_int (floor x) \<noteq> 0"
  proof -
    have "of_int (floor x) < x" using that of_int_floor_le [of x] by linarith
    with b have "of_int (floor x) < (of_int b :: rat)" by linarith
    then show ?thesis by simp
  qed
  moreover have "floor x \<le> b" using b by (simp add: floor_le_iff)
  ultimately show ?thesis by (auto simp: round_even_def Let_def)
qed

text \<open>Whatever the rounding of floating-point operations does, an interpolated reading stays between zero
  and the current one.\<close>

lemma interpolate1_bounds: "0 \<le> interpolate1 fl t p u c w \<and> interpolate1 fl t p u c w \<le> max c 0"
  unfolding interpolate1_def Let_def by (rule round_even_bounds) (auto simp: min_def max_def)

lemma interpolate_le_bytes:
  "0 \<le> fst (interpolate fl t p u (row_bytes a) w)" "fst (interpolate fl t p u (row_bytes a) w) \<le> fst (row_bytes a)"
  "0 \<le> snd (interpolate fl t p u (row_bytes a) w)" "snd (interpolate fl t p u (row_bytes a) w) \<le> snd (row_bytes a)"
  using interpolate1_bounds [of fl t "fst p" u "fst (row_bytes a)" w] interpolate1_bounds [of fl t "snd p" u "snd (row_bytes a)" w]
  by (simp_all add: interpolate_def row_bytes_def)

definition crossing :: "quota_window \<Rightarrow> local_bounds_rec \<Rightarrow> acct_row \<Rightarrow> bool" where
  "crossing w b a =
     (case (row_start a, row_update a) of
        (Some s, Some t) \<Rightarrow> s < window_start w b \<and> window_start w b < t
      | _ \<Rightarrow> False)"

text \<open>The baseline a reading uses, stored or fixed by this very reading.\<close>

definition reading_base :: "(rat \<Rightarrow> rat) \<Rightarrow> local_bounds_rec \<Rightarrow> session_mark \<Rightarrow> acct_row \<Rightarrow> quota_window \<Rightarrow> int \<times> int" where
  "reading_base fl b m a w =
     (if mark_key w m = Some (window_key w b) then mark_base w m
      else let (t, v) = pre_reading m (the (row_start a)) (window_start w b)
           in interpolate fl t v (the (row_update a)) (row_bytes a) (window_start w b))"

definition pair_sub0 :: "int \<times> int \<Rightarrow> int \<times> int \<Rightarrow> int \<times> int" where
  "pair_sub0 a b = (max 0 (fst a - fst b), max 0 (snd a - snd b))"

lemma straddle_window_crossing:
  "crossing w b a \<Longrightarrow> straddle_window fl b m a w =
    (pair_sub0 (row_bytes a) (reading_base fl b m a w),
     if mark_key w m = Some (window_key w b) then None
     else Some (set_mark_base w (window_key w b) (reading_base fl b m a w)))"
  by (auto simp: crossing_def straddle_window_def reading_base_def pair_sub0_def Let_def split: option.splits prod.splits)

lemma straddle_window_not_crossing: "\<not> crossing w b a \<Longrightarrow> straddle_window fl b m a w = ((0, 0), None)"
  by (auto simp: crossing_def straddle_window_def Let_def not_less split: option.splits)

lemma straddle_window_bounds:
  assumes "mark_key w m \<noteq> Some (window_key w b)"
  shows "0 \<le> fst (fst (straddle_window fl b m a w))" "fst (fst (straddle_window fl b m a w)) \<le> fst (row_bytes a)"
    "0 \<le> snd (fst (straddle_window fl b m a w))" "snd (fst (straddle_window fl b m a w)) \<le> snd (row_bytes a)"
  using assms interpolate_le_bytes [of fl]
  by (cases "crossing w b a"; auto simp: straddle_window_crossing straddle_window_not_crossing pair_sub0_def
      reading_base_def row_bytes_def split: prod.splits)+

definition mark_or_blank :: "db \<Rightarrow> int \<Rightarrow> int \<Rightarrow> session_mark" where
  "mark_or_blank d tid rid = (case lookup_row mk_key (tid, rid) (session_marks d) of None \<Rightarrow> blank_mark tid rid | Some m \<Rightarrow> m)"

definition keeps_key :: "(session_mark \<Rightarrow> session_mark) \<Rightarrow> bool" where
  "keeps_key f \<longleftrightarrow> (\<forall>m. mk_key (f m) = mk_key m)"

lemma mark_or_blank_key [simp]: "mk_key (mark_or_blank d tid rid) = (tid, rid)"
  by (auto simp: mark_or_blank_def blank_mark_def mk_key_def dest: lookup_row_key split: option.splits)

lemma lookup_mark_ok: "\<not> e_fault e S_marks \<Longrightarrow> lookup_mark e d tid rid = mark_or_blank d tid rid"
  by (simp add: lookup_mark_def mark_or_blank_def)

lemma lookup_save_mark:
  assumes "keeps_key f"
  shows "lookup_row mk_key (tid, r) (session_marks (save_mark now tid u (rid, f) d)) =
    (if r = rid then Some ((f (mark_or_blank d tid rid))\<lparr>mk_username := u, mk_updated_at := floor_sec now\<rparr>)
     else lookup_row mk_key (tid, r) (session_marks d))"
proof -
  let ?m = "(f (mark_or_blank d tid rid))\<lparr>mk_username := u, mk_updated_at := floor_sec now\<rparr>"
  have "mk_key ?m = mk_key (f (mark_or_blank d tid rid))" by (simp add: mk_key_def)
  then have "mk_key ?m = (tid, rid)" using assms by (simp add: keeps_key_def)
  then show ?thesis
    using upsert_table.get_put [of mk_key "(tid, r)" ?m "session_marks d"]
    by (simp add: save_mark_def mark_or_blank_def Let_def)
qed

lemma lookup_save_marks:
  assumes "distinct (map fst ws)" "\<forall>w \<in> set ws. keeps_key (snd w)"
  shows "lookup_row mk_key (tid, r) (session_marks (fold (save_mark now tid u) ws d)) =
    (case map_of ws r of
       None \<Rightarrow> lookup_row mk_key (tid, r) (session_marks d)
     | Some f \<Rightarrow> Some ((f (mark_or_blank d tid r))\<lparr>mk_username := u, mk_updated_at := floor_sec now\<rparr>))"
  using assms
proof (induction ws arbitrary: d)
  case (Cons w ws)
  obtain rid f where w: "w = (rid, f)" by (cases w)
  have f: "keeps_key f" using Cons.prems(2) w by simp
  have "map_of ws rid = None" using Cons.prems(1) w by (simp add: map_of_eq_None_iff)
  moreover have "mark_or_blank (save_mark now tid u (rid, f) d) tid r = mark_or_blank d tid r" if "r \<noteq> rid"
    using that by (simp add: mark_or_blank_def lookup_save_mark [OF f])
  ultimately show ?case using Cons w by (auto simp: lookup_save_mark [OF f] split: option.splits)
qed simp

lemma keeps_key_updates:
  "keeps_key (set_mark_base w k v)" "straddle_snap m a = Some f \<Longrightarrow> keeps_key f"
  "snd (straddle_window fl b m a w) = Some f \<Longrightarrow> keeps_key f"
  by (cases "crossing w b a";
      auto simp: keeps_key_def set_mark_base_def mk_key_def straddle_snap_def straddle_window_crossing
        straddle_window_not_crossing split: quota_window.splits option.splits if_splits)+

lemma keeps_key_fold: "\<forall>f \<in> set fs. keeps_key f \<Longrightarrow> keeps_key (fold (\<lambda>f. f) fs)"
  by (induction fs) (auto simp: keeps_key_def)

lemma opt_list_simps [simp]: "opt_list None = []" "opt_list (Some x) = [x]" "x \<in> set (opt_list y) \<longleftrightarrow> y = Some x"
  by (auto simp: opt_list_def split: option.splits)

lemma straddle_writes_keep: "\<forall>w \<in> set (straddle_writes e d tid b a). fst w = a_radacctid a \<and> keeps_key (snd w)"
proof -
  let ?m = "lookup_mark e d tid (a_radacctid a)"
  have "keeps_key (fold (\<lambda>f. f) (opt_list (snd (straddle_window (e_fl e) b ?m a Daily)) @
      opt_list (snd (straddle_window (e_fl e) b ?m a Monthly)) @ opt_list (straddle_snap ?m a)))"
    by (intro keeps_key_fold) (auto dest: keeps_key_updates(2,3))
  then show ?thesis by (simp add: straddle_writes_def Let_def)
qed

lemma map_of_concat_writes:
  assumes "distinct (map a_radacctid rows)" "a \<in> set rows"
  shows "map_of (concat (map (straddle_writes e d tid b) rows)) (a_radacctid a) =
      map_of (straddle_writes e d tid b a) (a_radacctid a)"
  using assms
proof (induction rows)
  case (Cons x rows)
  have other: "map_of (straddle_writes e d tid b y) r = None" if "a_radacctid y \<noteq> r" for y r
    using straddle_writes_keep [of e d tid b y] that by (auto simp: map_of_eq_None_iff)
  have none: "map_of (concat (map (straddle_writes e d tid b) rows)) r = None" if "r \<notin> a_radacctid ` set rows" for r
    using straddle_writes_keep [of e d tid b] that by (fastforce simp: map_of_eq_None_iff)
  show ?case
  proof (cases "a = x")
    case True
    with Cons.prems(1) none [of "a_radacctid x"] show ?thesis by (simp add: map_add_def split: option.splits)
  next
    case False
    with Cons.prems have "a \<in> set rows" "a_radacctid x \<noteq> a_radacctid a" by auto
    with Cons other [of x "a_radacctid a"] show ?thesis by (simp add: map_add_def)
  qed
qed simp

lemma distinct_concat_writes:
  "distinct (map a_radacctid rows) \<Longrightarrow> distinct (map fst (concat (map (straddle_writes e d tid b) rows)))"
proof (induction rows)
  case (Cons x rows)
  have "distinct (map fst (straddle_writes e d tid b x))" by (simp add: straddle_writes_def Let_def)
  with Cons show ?case using straddle_writes_keep [of e d tid b] by fastforce
qed simp

lemma mark_key_set_base: "mark_key w' (set_mark_base w k v x) = (if w = w' then Some k else mark_key w' x)"
  and mark_base_set_base: "mark_base w' (set_mark_base w k v x) = (if w = w' then v else mark_base w' x)"
  by (auto simp: set_mark_base_def mark_key_def mark_base_def split: quota_window.splits)

lemma mark_snap:
  "mark_key w (fold (\<lambda>f. f) (opt_list (straddle_snap m a)) x) = mark_key w x"
  "mark_base w (fold (\<lambda>f. f) (opt_list (straddle_snap m a)) x) = mark_base w x"
  by (auto simp: opt_list_def straddle_snap_def mark_key_def mark_base_def split: option.splits quota_window.splits)

lemma mark_touch:
  "mark_key w (x\<lparr>mk_username := n, mk_updated_at := t\<rparr>) = mark_key w x"
  "mark_base w (x\<lparr>mk_username := n, mk_updated_at := t\<rparr>) = mark_base w x"
  by (simp_all add: mark_key_def mark_base_def split: quota_window.splits)

text \<open>What the mark of a crossing session holds after a reading: the key of the window and the baseline the
  reading used.\<close>

lemma mark_after_reading:
  assumes "distinct (map a_radacctid (straddle_rows d tid u b))" "a \<in> set (straddle_rows d tid u b)"
    "\<not> e_fault e S_marks" "crossing w b a"
  defines "m \<equiv> mark_or_blank (snd (straddle_usage e d tid u b)) tid (a_radacctid a)"
  shows "mark_key w m = Some (window_key w b) \<and>
    mark_base w m = reading_base (e_fl e) b (mark_or_blank d tid (a_radacctid a)) a w"
proof -
  let ?ws = "concat (map (straddle_writes e d tid b) (straddle_rows d tid u b))"
  let ?m0 = "mark_or_blank d tid (a_radacctid a)"
  let ?upds = "opt_list (snd (straddle_window (e_fl e) b ?m0 a Daily)) @
     opt_list (snd (straddle_window (e_fl e) b ?m0 a Monthly)) @ opt_list (straddle_snap ?m0 a)"
  have d1: "snd (straddle_usage e d tid u b) = fold (save_mark (e_now e) tid u) ?ws d"
    using assms(3) by (cases "?ws = []") (simp_all add: straddle_usage_def save_marks_def Let_def del: concat_eq_Nil_conv)
  have "lookup_row mk_key (tid, a_radacctid a) (session_marks (snd (straddle_usage e d tid u b))) =
    (case map_of (straddle_writes e d tid b a) (a_radacctid a) of
       None \<Rightarrow> lookup_row mk_key (tid, a_radacctid a) (session_marks d)
     | Some f \<Rightarrow> Some ((f ?m0)\<lparr>mk_username := u, mk_updated_at := floor_sec (e_now e)\<rparr>))"
    using straddle_writes_keep [of e d tid b] unfolding d1
    by (subst lookup_save_marks [OF distinct_concat_writes [OF assms(1)]])
      (auto simp: map_of_concat_writes [OF assms(1,2)])
  then have m: "m = (if ?upds = [] then ?m0 else (fold (\<lambda>f. f) ?upds ?m0)\<lparr>mk_username := u, mk_updated_at := floor_sec (e_now e)\<rparr>)"
    unfolding m_def mark_or_blank_def [of "snd (straddle_usage e d tid u b)"]
    by (auto simp: straddle_writes_def lookup_mark_ok [OF assms(3)] Let_def mark_or_blank_def)
  have w: "w = Daily \<or> w = Monthly" by (cases w) simp_all
  let ?set = "\<lambda>w'. crossing w' b a \<and> mark_key w' ?m0 \<noteq> Some (window_key w' b)"
  have win: "snd (straddle_window (e_fl e) b ?m0 a w') =
     (if ?set w' then Some (set_mark_base w' (window_key w' b) (reading_base (e_fl e) b ?m0 a w')) else None)" for w'
    by (cases "crossing w' b a") (simp_all add: straddle_window_crossing straddle_window_not_crossing)
  have fold_win: "mark_key w (fold (\<lambda>f. f) (opt_list (snd (straddle_window (e_fl e) b ?m0 a w'))) x) =
      (if w = w' \<and> ?set w' then Some (window_key w b) else mark_key w x)"
    "mark_base w (fold (\<lambda>f. f) (opt_list (snd (straddle_window (e_fl e) b ?m0 a w'))) x) =
      (if w = w' \<and> ?set w' then reading_base (e_fl e) b ?m0 a w else mark_base w x)" for w' x
    unfolding win by (auto simp: mark_key_set_base mark_base_set_base)
  have "mark_key w m = mark_key w (fold (\<lambda>f. f) ?upds ?m0) \<and> mark_base w m = mark_base w (fold (\<lambda>f. f) ?upds ?m0)"
    by (cases "?upds = []") (simp_all add: m mark_touch)
  moreover have "mark_base w ?m0 = reading_base (e_fl e) b ?m0 a w" if "mark_key w ?m0 = Some (window_key w b)"
    using that by (simp add: reading_base_def)
  moreover have "mark_key w (fold (\<lambda>f. f) ?upds ?m0) = (if ?set w then Some (window_key w b) else mark_key w ?m0)"
    "mark_base w (fold (\<lambda>f. f) ?upds ?m0) = (if ?set w then reading_base (e_fl e) b ?m0 a w else mark_base w ?m0)"
    unfolding fold_append comp_apply mark_snap fold_win using w by auto
  ultimately show ?thesis using assms(4) by simp
qed

text \<open>A session that crosses the start of the local day or month is charged to the window from a
  baseline that the first reading after the boundary fixes. That reading charges between nothing and what
  the session has carried, however the interpolation rounds; and every later reading in the same window
  charges exactly the growth of the counters on top of it.\<close>

theorem straddle_second_read:
  assumes ok: "\<not> e_fault e S_marks" "\<not> e_fault e' S_marks"
    and ids: "distinct (map a_radacctid (straddle_rows d tid u b))" and a: "a \<in> set (straddle_rows d tid u b)"
    and first: "crossing w b a" "mark_key w (lookup_mark e d tid (a_radacctid a)) \<noteq> Some (window_key w b)"
    and d2: "session_marks d2 = session_marks (snd (straddle_usage e d tid u b))"
    and a': "a_radacctid a' = a_radacctid a" "grew a a'" "crossing w b a'"
  shows "straddle_bytes e' d2 tid b w a' =
    (fst (straddle_bytes e d tid b w a) + (fst (row_bytes a') - fst (row_bytes a)),
     snd (straddle_bytes e d tid b w a) + (snd (row_bytes a') - snd (row_bytes a))) \<and>
    0 \<le> fst (straddle_bytes e d tid b w a) \<and> fst (straddle_bytes e d tid b w a) \<le> fst (row_bytes a) \<and>
    0 \<le> snd (straddle_bytes e d tid b w a) \<and> snd (straddle_bytes e d tid b w a) \<le> snd (row_bytes a)"
proof -
  let ?m0 = "mark_or_blank d tid (a_radacctid a)" and ?m1 = "lookup_mark e' d2 tid (a_radacctid a')"
  let ?base = "reading_base (e_fl e) b ?m0 a w"
  have "?m1 = mark_or_blank (snd (straddle_usage e d tid u b)) tid (a_radacctid a)"
    using ok(2) a'(1) d2 by (simp add: lookup_mark_ok mark_or_blank_def)
  then have m1: "mark_key w ?m1 = Some (window_key w b)" "mark_base w ?m1 = ?base"
    using mark_after_reading [OF ids a ok(1) first(1)] by simp_all
  have m0: "lookup_mark e d tid (a_radacctid a) = ?m0" by (rule lookup_mark_ok [OF ok(1)])
  have read: "straddle_bytes e d tid b w a = pair_sub0 (row_bytes a) ?base"
    "straddle_bytes e' d2 tid b w a' = pair_sub0 (row_bytes a') ?base"
    using m1 first(1) a'(3) by (simp_all add: straddle_bytes_def straddle_window_crossing m0 reading_base_def)
  have le: "fst ?base \<le> fst (row_bytes a)" "snd ?base \<le> snd (row_bytes a)"
    using first(2) interpolate_le_bytes by (simp_all add: m0 reading_base_def split: prod.splits)
  have mono: "fst (row_bytes a) \<le> fst (row_bytes a')" "snd (row_bytes a) \<le> snd (row_bytes a')"
    using a'(2) by (auto simp: grew_def row_bytes_def)
  note straddle_window_bounds [OF first(2), of "e_fl e" a]
  then show ?thesis using le mono by (simp add: straddle_bytes_def [symmetric] read pair_sub0_def)
qed

section \<open>Top-ups of a window\<close>

lemma local_bounds_key: "window_key w (local_bounds e tid) =
   (case w of Daily \<Rightarrow> local_now e tid div day_us
    | Monthly \<Rightarrow> (case civil (local_now e tid div day_us) of (y, m, d) \<Rightarrow> y * 12 + (m - 1)))"
  by (simp add: local_bounds_def window_key_def Let_def split: quota_window.splits prod.splits)

text \<open>A daily or monthly top-up raises the cap of its direction for the rest of the running local day or
  month and for no longer: a later reading in the same window sees the plan's cap plus everything added in
  that window, a reading in any other window sees the plan's cap.\<close>

theorem window_topup_lasts_its_window:
  assumes "record_window_topup e d sub w t mb = Inr (cur, d')" "\<not> e_fault e' S_quota_state"
  defines "same \<equiv> window_key w (local_bounds e' (s_tenant_id sub)) = window_key w (local_bounds e (s_tenant_id sub))"
  shows "window_caps e' d' sub plan (get_state e' d' (s_tenant_id sub) (s_id sub)) w =
    (if same
     then \<lparr>dc_combined = raise_cap (dc_combined (plan_window_caps plan w)) (wt_combined cur),
           dc_download = raise_cap (dc_download (plan_window_caps plan w)) (wt_download cur),
           dc_upload = raise_cap (dc_upload (plan_window_caps plan w)) (wt_upload cur)\<rparr>
     else plan_window_caps plan w) \<and>
    wt_get t cur = mb +
      (case get_state e d (s_tenant_id sub) (s_id sub) of
         None \<Rightarrow> 0
       | Some st \<Rightarrow> wt_get t (current_topup (window_key w (local_bounds e (s_tenant_id sub))) (topup_of w st)))"
proof -
  have total: "wt_get t cur = mb +
      (case get_state e d (s_tenant_id sub) (s_id sub) of
         None \<Rightarrow> 0
       | Some st \<Rightarrow> wt_get t (current_topup (window_key w (local_bounds e (s_tenant_id sub))) (topup_of w st)))"
    using assms(1)
    by (cases t) (auto simp: record_window_topup_def Let_def wt_add_def wt_get_def current_topup_def fresh_topup_def
        split: option.splits if_splits)
  obtain sid where sid: "s_id sub = Some sid" "sid \<noteq> 0"
    and d': "d' = save_state e d (s_tenant_id sub) sid (set_topup w cur)"
    and key: "wt_key cur = window_key w (local_bounds e (s_tenant_id sub))"
    using assms(1)
    by (auto simp: record_window_topup_def Let_def wt_add_def current_topup_def fresh_topup_def
        split: option.splits if_splits quota_dir.splits)
  have "qs_key (set_topup w cur s) = qs_key s" for s
    by (simp add: qs_key_def set_topup_def split: quota_window.splits)
  then have "get_state e' d' (s_tenant_id sub) (s_id sub) =
      Some (set_topup w cur (state_or_blank e d (s_tenant_id sub) sid))"
    using assms(2) sid by (simp add: d' get_state_save_state)
  moreover have "topup_of w (set_topup w cur s) = Some cur" for s
    by (simp add: topup_of_def set_topup_def split: quota_window.splits)
  ultimately show ?thesis by (auto simp: window_caps_def same_def key total Let_def)
qed

section \<open>Instances\<close>

definition metered_row :: acct_row where
  "metered_row = blank_row\<lparr>a_inputoctets := 300, a_outputoctets := 700\<rparr>"

definition metered_db :: db where
  "metered_db = blank_db\<lparr>subscribers := [blank_subscriber], radacct := [metered_row]\<rparr>"

definition metered_later :: "acct_row list" where
  "metered_later = [metered_row\<lparr>a_inputoctets := 310\<rparr>,
     metered_row\<lparr>a_radacctid := 2, a_start := Some (seconds 2000), a_outputoctets := 40\<rparr>]"

theorem new_period_counts_growth_witness:
  "u_period (fst (usage blank_env (snd (start_new_period blank_env metered_db blank_subscriber)\<lparr>radacct := metered_later\<rparr>)
      blank_subscriber (get_state blank_env (snd (start_new_period blank_env metered_db blank_subscriber)\<lparr>radacct := metered_later\<rparr>)
        (s_tenant_id blank_subscriber) (s_id blank_subscriber)) True)) = (310, 40)"
proof -
  let ?d2 = "snd (start_new_period blank_env metered_db blank_subscriber)\<lparr>radacct := metered_later\<rparr>"
  let ?ys = "[metered_row\<lparr>a_inputoctets := 310\<rparr>]"
  let ?zs = "[metered_row\<lparr>a_radacctid := 2, a_start := Some (seconds 2000), a_outputoctets := 40\<rparr>]"
  have sid: "s_id blank_subscriber = Some 1" "(1::int) \<noteq> 0" by (simp_all add: blank_subscriber_def)
  have ok: "\<not> e_fault blank_env S_new_period" "\<not> e_fault blank_env S_quota_state" by (simp_all add: blank_env_def)
  have rows: "user_rows ?d2 (s_tenant_id blank_subscriber) (s_username blank_subscriber) = ?ys @ ?zs" by code_simp
  have old: "list_all2 grew (user_rows metered_db (s_tenant_id blank_subscriber) (s_username blank_subscriber)) ?ys"
    "\<forall>a \<in> set ?ys. case a_start a of None \<Rightarrow> True | Some t \<Rightarrow> t \<le> floor_sec (e_now blank_env)"
    "\<forall>a \<in> set ?zs. case a_start a of None \<Rightarrow> False | Some t \<Rightarrow> floor_sec (e_now blank_env) < t"
    by code_simp+
  have sums: "alltime_bytes ?d2 (s_tenant_id blank_subscriber) (s_username blank_subscriber) = (610, 740)"
    "alltime_bytes metered_db (s_tenant_id blank_subscriber) (s_username blank_subscriber) = (300, 700)"
    by code_simp+
  show ?thesis
    using new_period_counts_growth [OF sid ok surjective_pairing _ rows old, of True] sums by simp
qed

definition override_of :: "int \<Rightarrow> quota_override" where
  "override_of mb = \<lparr>q_combined = mb, q_download = 0, q_upload = 0, q_enabled = True\<rparr>"

text \<open>A top-up to 1124 MB, an operator's edit to 5000 MB, a top-up to 5100 MB: the new period returns to the
  override before all three.\<close>

theorem override_after_new_period_witness:
  "subscriber_row (snd (start_new_period blank_env
      (foldl (do_override blank_env 1 1) metered_db
        [TopUp (override_of 1124) 100, Edit (override_of 5000), TopUp (override_of 5100) 100]) blank_subscriber)) 1 1 =
   Some blank_subscriber"
proof -
  let ?sts = "[TopUp (override_of 1124) 100, Edit (override_of 5000), TopUp (override_of 5100) 100]"
  have ok: "\<not> e_fault blank_env S_quota_state" "\<not> e_fault blank_env S_new_period" by (simp_all add: blank_env_def)
  have row: "subscriber_row metered_db 1 1 = Some blank_subscriber"
    by (simp add: subscriber_row_def metered_db_def blank_subscriber_def)
  have none: "qs_topup_before (state_or_blank blank_env metered_db 1 1) = None"
    "qs_topup_after (state_or_blank blank_env metered_db 1 1) = None" by code_simp+
  have g: "foldl override_ghost (override_snapshot blank_subscriber, None, None) ?sts =
     (override_of 5100, Some (override_snapshot blank_subscriber), Some (override_of 5100))" by simp
  show ?thesis using override_after_new_period [OF ok _ row none g] by simp
qed

definition midnight_env :: env where
  "midnight_env = blank_env\<lparr>e_now := 86400000000 + seconds 600\<rparr>"

definition night_row :: acct_row where
  "night_row = blank_row\<lparr>a_start := Some (86400000000 - seconds 600), a_update := Some (86400000000 + seconds 200),
     a_inputoctets := 800, a_outputoctets := 4000\<rparr>"

definition night_db :: db where
  "night_db = blank_db\<lparr>radacct := [night_row]\<rparr>"

definition night_row_later :: acct_row where
  "night_row_later = night_row\<lparr>a_update := Some (86400000000 + seconds 500), a_inputoctets := 1000, a_outputoctets := 4500\<rparr>"

theorem straddle_second_read_witness:
  "straddle_bytes midnight_env night_db 1 (local_bounds midnight_env 1) Daily night_row = (200, 1000) \<and>
   straddle_bytes midnight_env (snd (straddle_usage midnight_env night_db 1 ''ali'' (local_bounds midnight_env 1)))
     1 (local_bounds midnight_env 1) Daily night_row_later = (400, 1500)"
proof -
  let ?b = "local_bounds midnight_env 1"
  have ok: "\<not> e_fault midnight_env S_marks" by (simp add: midnight_env_def blank_env_def)
  have ids: "distinct (map a_radacctid (straddle_rows night_db 1 ''ali'' ?b))" by code_simp
  have a: "night_row \<in> set (straddle_rows night_db 1 ''ali'' ?b)"
    by (simp add: straddle_rows_def user_rows_def night_db_def night_row_def blank_row_def)
  have c: "crossing Daily ?b night_row" "crossing Daily ?b night_row_later"
    "mark_key Daily (lookup_mark midnight_env night_db 1 (a_radacctid night_row)) \<noteq> Some (window_key Daily ?b)"
    "a_radacctid night_row_later = a_radacctid night_row" "grew night_row night_row_later"
    by code_simp+
  have first: "straddle_bytes midnight_env night_db 1 ?b Daily night_row = (200, 1000)" by code_simp
  have bytes: "row_bytes night_row = (800, 4000)" "row_bytes night_row_later = (1000, 4500)" by code_simp+
  show ?thesis
    using straddle_second_read [OF ok ok ids a c(1,3) refl c(4,5,2)] by (simp add: first bytes)
qed

definition daily_plan :: access_plan where
  "daily_plan = blank_plan\<lparr>p_daily_combined_quota_mb := 500\<rparr>"

theorem window_topup_lasts_its_window_witness:
  "\<exists>cur d'. record_window_topup blank_env metered_db blank_subscriber Daily Combined 200 = Inr (cur, d') \<and>
     dc_combined (window_caps blank_env d' blank_subscriber (Some daily_plan) (get_state blank_env d' 1 (Some 1)) Daily) = 700 \<and>
     dc_combined (window_caps midnight_env d' blank_subscriber (Some daily_plan) (get_state midnight_env d' 1 (Some 1)) Daily) = 500"
proof -
  obtain cur d' where r: "record_window_topup blank_env metered_db blank_subscriber Daily Combined 200 = Inr (cur, d')"
    by (simp add: record_window_topup_def blank_subscriber_def Let_def)
  have f: "\<not> e_fault blank_env S_quota_state" "\<not> e_fault midnight_env S_quota_state"
    by (simp_all add: midnight_env_def blank_env_def)
  have k: "window_key Daily (local_bounds midnight_env 1) \<noteq> window_key Daily (local_bounds blank_env 1)" by code_simp
  have id: "s_tenant_id blank_subscriber = 1" "s_id blank_subscriber = Some 1" by (simp_all add: blank_subscriber_def)
  have cap: "dc_combined (plan_window_caps (Some daily_plan) Daily) = 500"
    and none: "get_state blank_env metered_db 1 (Some 1) = None" by code_simp+
  show ?thesis
    using window_topup_lasts_its_window [OF r f(1), of "Some daily_plan"]
      window_topup_lasts_its_window [OF r f(2), of "Some daily_plan"] r k cap none
    by (auto simp: id raise_cap_def wt_get_def)
qed

end
