(* ===== verification/CardBatchFlags.thy ===== *)
theory CardBatchFlags
  imports CardAccounting AccessControl ScheduleWindow
begin

text \<open>
  \<open>app/radius/services/card_batch_flags.py\<close>: the behaviour flags of a card batch. What a card may use
  (the time budget counted in seconds, the reaction to an exhausted quota), what the first connection does
  (binding to the device, the student status, the expiry), the automatic renewal, and what a disconnection
  does. \<open>card_reset_since\<close> comes from \<open>device_limit.py\<close>.
\<close>

section \<open>Reads\<close>

definition get_card_and_batch :: "env \<Rightarrow> db \<Rightarrow> int \<Rightarrow> string \<Rightarrow> card option \<times> card_batch option" where
  "get_card_and_batch e d tid u =
     guarded (None, None) (at_site e S_batch_lookup (Inr
       (case get_card_by_username d tid u of
          None \<Rightarrow> (None, None)
        | Some c \<Rightarrow> (Some c, get_batch d tid (c_batch_id c)))))"

definition card_reset_since :: "env \<Rightarrow> db \<Rightarrow> int \<Rightarrow> string \<Rightarrow> dt option" where
  "card_reset_since e d tid u =
     guarded None (at_site e S_reset_since (Inr
       (case get_card_by_username d tid u of None \<Rightarrow> None | Some c \<Rightarrow> c_usage_reset_at c)))"

text \<open>The rows that started at or after the reset of the card's usage; a row without a start never
  compares.\<close>

definition counted_rows :: "env \<Rightarrow> db \<Rightarrow> int \<Rightarrow> string \<Rightarrow> acct_row list" where
  "counted_rows e d tid u =
     filter (\<lambda>a. case a_start a of
                   None \<Rightarrow> False
                 | Some t \<Rightarrow> (case card_reset_since e d tid u of None \<Rightarrow> True | Some r \<Rightarrow> r \<le> t))
       (user_rows d tid u)"

definition accounted_seconds :: "env \<Rightarrow> db \<Rightarrow> int \<Rightarrow> string \<Rightarrow> int" where
  "accounted_seconds e d tid u = sum_list (map a_sessiontime (counted_rows e d tid u))"

definition card_extra_seconds :: "env \<Rightarrow> db \<Rightarrow> int \<Rightarrow> string \<Rightarrow> int" where
  "card_extra_seconds e d tid u =
     guarded 0 (at_site e S_card_extra (Inr
       (case get_card_by_username d tid u of None \<Rightarrow> 0 | Some c \<Rightarrow> c_extra_seconds c)))"

definition budget_unit_seconds :: "string \<Rightarrow> int" where
  "budget_unit_seconds unit =
     (let u = lower (or_default unit ''days'') in
      if u = ''minutes'' then 60 else if u = ''hours'' then 3600 else 86400)"

definition card_budget_seconds :: "card_batch option \<Rightarrow> access_plan option \<Rightarrow> int" where
  "card_budget_seconds batch plan =
     (if (case plan of None \<Rightarrow> False | Some p \<Rightarrow> 0 < p_duration_minutes p) then p_duration_minutes (the plan) * 60
      else (case batch of
              None \<Rightarrow> 0
            | Some b \<Rightarrow> if 0 < b_time_value b then b_time_value b * budget_unit_seconds (b_time_unit b) else 0))"

section \<open>Exhausted quota\<close>

definition quota_exhaust_mode :: "env \<Rightarrow> db \<Rightarrow> int \<Rightarrow> string \<Rightarrow> string" where
  "quota_exhaust_mode e d tid u =
     (case snd (get_card_and_batch e d tid u) of
        None \<Rightarrow> ''stop''
      | Some b \<Rightarrow> or_default (lower (strip (or_default (b_on_quota_exhaust b) ''stop''))) ''stop'')"

definition DEFAULT_THROTTLE_RATE :: string where "DEFAULT_THROTTLE_RATE = ''128k/128k''"

definition quota_throttle_rate :: "env \<Rightarrow> db \<Rightarrow> int \<Rightarrow> string" where
  "quota_throttle_rate e d tid =
     guarded DEFAULT_THROTTLE_RATE (at_site e S_settings (Inr
       (or_default (strip (or_default (get_setting d tid ''cards.quota_throttle_rate'' DEFAULT_THROTTLE_RATE)
          DEFAULT_THROTTLE_RATE)) DEFAULT_THROTTLE_RATE)))"

definition fire_quota_exhaust_notify :: "env \<Rightarrow> db \<Rightarrow> int \<Rightarrow> string \<Rightarrow> db" where
  "fire_quota_exhaust_notify e d tid u =
     (if e_fault e S_notify then d else d\<lparr>notifications := notifications d @ [(tid, ''quota_exhausted'', u)]\<rparr>)"

section \<open>The time budget\<close>

definition batch_budget :: "card_batch \<Rightarrow> access_plan option \<Rightarrow> int" where
  "batch_budget b plan =
     budget_seconds (b_validity_after_first_login_days b) (b_time_value b) (or_default (b_time_unit b) ''days'')
       (case plan of None \<Rightarrow> 0 | Some p \<Rightarrow> p_duration_minutes p) (case plan of None \<Rightarrow> 0 | Some p \<Rightarrow> p_validity_days p)"

text \<open>\<open>True\<close> is \<open>'card_time_exhausted'\<close>.\<close>

definition check_card_time_budget :: "env \<Rightarrow> db \<Rightarrow> int \<Rightarrow> string \<Rightarrow> access_plan option \<Rightarrow> bool" where
  "check_card_time_budget e d tid u plan =
     guarded False (at_site e S_card_budget (Inr
       (case snd (get_card_and_batch e d tid u) of
          None \<Rightarrow> False
        | Some batch \<Rightarrow>
            let extra = card_extra_seconds e d tid u in
            if extra < 0 \<and> is_exhausted (batch_budget batch plan) extra then True
            else if \<not> b_count_by_seconds batch then False
            else
              let budget = card_budget_seconds (Some batch) plan in
              if budget \<le> 0 then False
              else if budget + extra \<le> 0 then True
              else budget + extra \<le> accounted_seconds e d tid u)))"

section \<open>Binding to a device\<close>

definition norm_mac :: "string \<Rightarrow> string" where
  "norm_mac mac = replace_char (CHR ''-'') (CHR '':'') (upper (strip mac))"

definition is_mac_check :: "string \<times> string \<times> string \<Rightarrow> bool" where
  "is_mac_check r = (lower (fst r) = ''calling-station-id'')"

definition merge_mac_check :: "(string \<times> string \<times> string) list \<Rightarrow> string \<Rightarrow> (string \<times> string \<times> string) list" where
  "merge_mac_check existing mac =
     filter (\<lambda>r. \<not> is_mac_check r) existing @ [(''Calling-Station-Id'', ''=='', mac)]"

definition list_user_check :: "db \<Rightarrow> int \<Rightarrow> string \<Rightarrow> (string \<times> string \<times> string) list" where
  "list_user_check d tid u = (case map_of (radcheck d) (tid, u) of None \<Rightarrow> [] | Some rows \<Rightarrow> rows)"

definition replace_user_check :: "db \<Rightarrow> int \<Rightarrow> string \<Rightarrow> (string \<times> string \<times> string) list \<Rightarrow> db" where
  "replace_user_check d tid u attrs =
     d\<lparr>radcheck := ((tid, u), attrs) # filter (\<lambda>r. fst r \<noteq> (tid, u)) (radcheck d)\<rparr>"

definition set_card_locked_mac :: "db \<Rightarrow> int \<Rightarrow> int \<Rightarrow> string \<Rightarrow> db" where
  "set_card_locked_mac d tid cid mac =
     d\<lparr>cards := map (\<lambda>c. if c_tenant_id c = tid \<and> c_id c = cid then c\<lparr>c_locked_mac := strip mac\<rparr> else c) (cards d)\<rparr>"

definition bind_card_to_mac :: "db \<Rightarrow> int \<Rightarrow> string \<Rightarrow> int \<Rightarrow> string \<Rightarrow> db" where
  "bind_card_to_mac d tid u cid mac =
     (let d1 = set_card_locked_mac d tid cid mac
      in replace_user_check d1 tid u (merge_mac_check (list_user_check d1 tid u) mac))"

section \<open>The first connection\<close>

definition set_expiry :: "db \<Rightarrow> int \<Rightarrow> int \<Rightarrow> string \<Rightarrow> dt \<Rightarrow> db" where
  "set_expiry d tid cid u x =
     d\<lparr>cards := map (\<lambda>c. if c_tenant_id c = tid \<and> c_id c = cid then c\<lparr>c_expire_at := Some x\<rparr> else c) (cards d),
       subscribers := map (\<lambda>s. if s_tenant_id s = tid \<and> s_username s = u then s\<lparr>s_expire_at := Some x\<rparr> else s)
         (subscribers d)\<rparr>"

definition card_plan :: "env \<Rightarrow> db \<Rightarrow> int \<Rightarrow> card \<Rightarrow> access_plan option" where
  "card_plan e d tid c =
     (if truthy_id (c_plan_id c)
      then guarded None (at_site e S_plan_lookup (Inr (get_plan d tid (the (c_plan_id c)) False))) else None)"

definition first_login_expiry :: "env \<Rightarrow> db \<Rightarrow> int \<Rightarrow> string \<Rightarrow> card \<Rightarrow> card_batch \<Rightarrow> dt \<Rightarrow> dt option" where
  "first_login_expiry e d tid u c batch now =
     (if \<not> b_count_from_first_connect batch then None
      else if c_expire_at c \<noteq> None then None
      else first_connect_expiry (e_expiry_limit e) now
             (budget_with_extra (batch_budget batch (card_plan e d tid c)) (card_extra_seconds e d tid u)))"

definition materialize_first_login_validity ::
    "env \<Rightarrow> db \<Rightarrow> int \<Rightarrow> string \<Rightarrow> card \<Rightarrow> card_batch \<Rightarrow> dt \<Rightarrow> db" where
  "materialize_first_login_validity e d tid u c batch now =
     (case first_login_expiry e d tid u c batch now of None \<Rightarrow> d | Some x \<Rightarrow> set_expiry d tid (c_id c) u x)"

definition bind_on_flag :: "env \<Rightarrow> site \<Rightarrow> bool \<Rightarrow> db \<Rightarrow> int \<Rightarrow> string \<Rightarrow> card \<Rightarrow> string \<Rightarrow> db" where
  "bind_on_flag e s flag d tid u c mac0 =
     (if e_fault e s \<or> \<not> flag \<or> c_locked_mac c \<noteq> [] \<or> norm_mac mac0 = [] then d
      else bind_card_to_mac d tid u (c_id c) (norm_mac mac0))"

definition on_first_connect :: "env \<Rightarrow> db \<Rightarrow> int \<Rightarrow> string \<Rightarrow> string \<Rightarrow> db" where
  "on_first_connect e d tid u mac =
     (case get_card_and_batch e d tid u of
        (Some c, Some batch) \<Rightarrow>
          let d1 = bind_on_flag e S_bind_mac (b_switch_to_mac_on_connect batch) d tid u c mac;
              d2 = (if e_fault e S_transfer_student \<or> \<not> b_transfer_to_student_status_on_connect batch then d1
                    else d1\<lparr>subscribers := map (\<lambda>s. if s_tenant_id s = tid \<and> s_username s = u
                              then s\<lparr>s_account_type := ''student''\<rparr> else s) (subscribers d1)\<rparr>)
          in if e_fault e S_validity then d2
             else materialize_first_login_validity e d2 tid u c batch (e_now e)
      | _ \<Rightarrow> d)"

section \<open>Automatic renewal\<close>

definition renewal_days :: "env \<Rightarrow> db \<Rightarrow> int \<Rightarrow> card \<Rightarrow> card_batch \<Rightarrow> int" where
  "renewal_days e d tid c batch =
     (if 0 < b_validity_after_first_login_days batch then b_validity_after_first_login_days batch
      else (case card_plan e d tid c of
              None \<Rightarrow> if truthy_id (c_plan_id c) then 0 else b_validity_after_first_login_days batch
            | Some p \<Rightarrow> p_validity_days p))"

definition mark_used :: "db \<Rightarrow> int \<Rightarrow> int \<Rightarrow> db" where
  "mark_used d tid cid =
     d\<lparr>cards := map (\<lambda>c. if c_tenant_id c = tid \<and> c_id c = cid then c\<lparr>c_used := True\<rparr> else c) (cards d)\<rparr>"

definition maybe_auto_renew :: "env \<Rightarrow> db \<Rightarrow> subscriber \<Rightarrow> string \<Rightarrow> subscriber \<times> db" where
  "maybe_auto_renew e d sub source =
     (if source \<noteq> ''card'' \<or> e_fault e S_auto_renew then (sub, d)
      else
        let tid = s_tenant_id sub; u = s_username sub; now = e_now e in
        case get_card_and_batch e d tid u of
          (Some c, Some batch) \<Rightarrow>
            let days = renewal_days e d tid c batch; x = now + days * day_us in
            if \<not> b_auto_renew_after_first_use batch \<or> c_first_used_at c = None then (sub, d)
            else if (case c_expire_at c of None \<Rightarrow> False | Some y \<Rightarrow> now < y) then (sub, d)
            else if days \<le> 0 \<or> DT_MAX < x then (sub, d)
            else (sub\<lparr>s_expire_at := Some x, s_status := ''enabled''\<rparr>, mark_used (set_expiry d tid (c_id c) u x) tid (c_id c))
        | _ \<Rightarrow> (sub, d))"

section \<open>Disconnection\<close>

text \<open>\<open>reachable\<close> says that the router of a session is known, enabled and has a secret.\<close>

definition other_sessions :: "(acct_row \<Rightarrow> bool) \<Rightarrow> db \<Rightarrow> int \<Rightarrow> string \<Rightarrow> string \<Rightarrow> string list" where
  "other_sessions reachable d tid u sid =
     map a_acctsessionid (filter (\<lambda>a. a_stop a = None \<and> reachable a \<and> a_acctsessionid a \<noteq> [] \<and> a_acctsessionid a \<noteq> sid)
       (rev (sort_key a_radacctid (user_rows d tid u))))"

definition on_disconnect :: "(acct_row \<Rightarrow> bool) \<Rightarrow> env \<Rightarrow> db \<Rightarrow> int \<Rightarrow> string \<Rightarrow> string \<Rightarrow> string \<Rightarrow> db" where
  "on_disconnect reachable e d tid u mac sid =
     (case get_card_and_batch e d tid u of
        (Some c, Some batch) \<Rightarrow>
          let d1 = bind_on_flag e S_lock_mac (b_lock_to_mac_on_close batch) d tid u c mac in
          if e_fault e S_close_others \<or> \<not> b_close_user_session_on_disconnect batch then d1
          else d1\<lparr>coa_disconnects := coa_disconnects d1 @ map (\<lambda>s. (tid, u, s)) (other_sessions reachable d1 tid u sid)\<rparr>
      | _ \<Rightarrow> d)"

section \<open>Reading a card back\<close>

lemma find_map_cards:
  assumes "\<And>c. c_tenant_id (f c) = c_tenant_id c \<and> c_username (f c) = c_username c"
  shows "get_card_by_username (d\<lparr>cards := map f (cards d)\<rparr>) tid u = map_option f (get_card_by_username d tid u)"
  using assms by (simp add: get_card_by_username_def find_map_preserving)

lemma get_card_cong: "cards d = cards d' \<Longrightarrow> get_card_by_username d tid u = get_card_by_username d' tid u"
  by (simp add: get_card_by_username_def)

lemma get_card_set_expiry:
  "get_card_by_username (set_expiry d tid cid u' x) tid u =
   map_option (\<lambda>c. if c_tenant_id c = tid \<and> c_id c = cid then c\<lparr>c_expire_at := Some x\<rparr> else c)
     (get_card_by_username d tid u)"
  using find_map_cards [of "\<lambda>c. if c_tenant_id c = tid \<and> c_id c = cid then c\<lparr>c_expire_at := Some x\<rparr> else c" d tid u]
  by (simp add: set_expiry_def get_card_by_username_def)

lemma get_card_locked:
  "get_card_by_username (set_card_locked_mac d tid cid mac) tid u =
   map_option (\<lambda>c. if c_tenant_id c = tid \<and> c_id c = cid then c\<lparr>c_locked_mac := strip mac\<rparr> else c)
     (get_card_by_username d tid u)"
  unfolding set_card_locked_mac_def by (rule find_map_cards) simp

lemma get_card_bind:
  "get_card_by_username (bind_on_flag e s flag d tid u c mac) tid u =
   map_option (\<lambda>c'. if e_fault e s \<or> \<not> flag \<or> c_locked_mac c \<noteq> [] \<or> norm_mac mac = [] then c'
       else if c_tenant_id c' = tid \<and> c_id c' = c_id c then c'\<lparr>c_locked_mac := strip (norm_mac mac)\<rparr> else c')
     (get_card_by_username d tid u)"
proof -
  have "get_card_by_username (replace_user_check x t v as) tid u = get_card_by_username x tid u" for x t v as
    by (rule get_card_cong) (simp add: replace_user_check_def)
  then show ?thesis by (simp add: bind_on_flag_def bind_card_to_mac_def Let_def get_card_locked option.map_ident)
qed

lemma get_card_tenant: "get_card_by_username d tid u = Some c \<Longrightarrow> c_tenant_id c = tid \<and> c_username c = u"
  by (auto simp: get_card_by_username_def find_Some_iff)

text \<open>The card after the first-connection hook: the expiry is the old one or the stamped one.\<close>

lemma on_first_connect_card:
  assumes "get_card_by_username d tid u = Some c"
  obtains c' where "get_card_by_username (on_first_connect e d tid u mac) tid u = Some c'"
    "c_expire_at c \<noteq> None \<Longrightarrow> c_expire_at c' = c_expire_at c"
    "\<And>b. \<not> e_fault e S_batch_lookup \<Longrightarrow> get_batch d tid (c_batch_id c) = Some b \<Longrightarrow> \<not> e_fault e S_validity \<Longrightarrow>
       c_expire_at c = None \<Longrightarrow> c_expire_at c' = first_login_expiry e d tid u c b (e_now e)"
proof (cases "get_card_and_batch e d tid u")
  case (Pair co bo)
  show ?thesis
  proof (cases "co = None \<or> bo = None")
    case True
    then have "on_first_connect e d tid u mac = d" by (auto simp: on_first_connect_def Pair split: option.splits)
    with assms True Pair show ?thesis
      by (intro that [of c]) (auto simp: get_card_and_batch_def)
  next
    case False
    then obtain b where b: "co = Some c" "bo = Some b" "get_batch d tid (c_batch_id c) = Some b"
      using Pair assms by (cases "e_fault e S_batch_lookup") (auto simp: get_card_and_batch_def)
    define d1 where "d1 = bind_on_flag e S_bind_mac (b_switch_to_mac_on_connect b) d tid u c mac"
    define d2 where "d2 = (if e_fault e S_transfer_student \<or> \<not> b_transfer_to_student_status_on_connect b then d1
        else d1\<lparr>subscribers := map (\<lambda>s. if s_tenant_id s = tid \<and> s_username s = u
                              then s\<lparr>s_account_type := ''student''\<rparr> else s) (subscribers d1)\<rparr>)"
    have run: "on_first_connect e d tid u mac =
        (if e_fault e S_validity then d2 else materialize_first_login_validity e d2 tid u c b (e_now e))"
      by (simp add: on_first_connect_def Pair b d1_def d2_def Let_def)
    have "get_card_by_username d2 tid u = get_card_by_username d1 tid u"
      by (rule get_card_cong) (simp add: d2_def)
    then obtain c2 where c2: "get_card_by_username d2 tid u = Some c2"
        "c_expire_at c2 = c_expire_at c" "c_id c2 = c_id c" "c_tenant_id c2 = tid" "c_extra_seconds c2 = c_extra_seconds c"
      using assms get_card_tenant [OF assms] by (auto simp: d1_def get_card_bind)
    have plans: "plans d2 = plans d"
      by (simp add: d2_def d1_def bind_on_flag_def bind_card_to_mac_def set_card_locked_mac_def replace_user_check_def Let_def)
    have extra: "card_extra_seconds e d2 tid u = card_extra_seconds e d tid u"
      using assms c2 by (cases "e_fault e S_card_extra") (simp_all add: card_extra_seconds_def)
    show ?thesis
    proof (cases "e_fault e S_validity")
      case True
      then show ?thesis using c2 by (intro that [of c2]) (auto simp: run)
    next
      case ok: False
      let ?x = "first_login_expiry e d2 tid u c b (e_now e)"
      have old: "?x = None" if "c_expire_at c \<noteq> None" using that by (simp add: first_login_expiry_def)
      have "get_card_by_username (on_first_connect e d tid u mac) tid u =
          Some (case ?x of None \<Rightarrow> c2 | Some x \<Rightarrow> c2\<lparr>c_expire_at := Some x\<rparr>)"
        using ok c2 by (simp add: run materialize_first_login_validity_def get_card_set_expiry split: option.splits)
      moreover have "?x = first_login_expiry e d tid u c b (e_now e)"
        using plans extra by (simp add: first_login_expiry_def card_plan_def get_plan_def)
      ultimately show ?thesis
        using old c2 b
        by (intro that [of "case ?x of None \<Rightarrow> c2 | Some x \<Rightarrow> c2\<lparr>c_expire_at := Some x\<rparr>"]) (auto split: option.splits)
    qed
  qed
qed

text \<open>The validity of a card is fixed by its first connection and by nothing later. If the card has no
  expiry, counts from the first connection and has a budget, the hook stamps it; after that, whatever
  further first-connection events arrive, at any time, from any device and with any failures, the expiry
  stays the stamped one.\<close>

theorem first_connect_stamps_once:
  assumes card: "get_card_by_username d tid u = Some c" "c_expire_at c = None"
    and batch: "get_batch d tid (c_batch_id c) = Some b" and ok: "\<not> e_fault e S_batch_lookup" "\<not> e_fault e S_validity"
    and stamp: "first_login_expiry e d tid u c b (e_now e) = Some x"
  shows "\<exists>c'. get_card_by_username
      (foldl (\<lambda>d (e', mac'). on_first_connect e' d tid u mac') (on_first_connect e d tid u mac) evs) tid u = Some c' \<and>
    c_expire_at c' = Some x"
proof -
  have keep: "\<exists>c'. get_card_by_username (foldl (\<lambda>d (e', mac'). on_first_connect e' d tid u mac') d evs) tid u = Some c' \<and>
      c_expire_at c' = Some x" if "\<exists>c. get_card_by_username d tid u = Some c \<and> c_expire_at c = Some x" for d
    using that
  proof (induction evs arbitrary: d)
    case (Cons ev evs)
    then obtain c where c: "get_card_by_username d tid u = Some c" "c_expire_at c = Some x" by blast
    obtain c' where "get_card_by_username (on_first_connect (fst ev) d tid u (snd ev)) tid u = Some c'" "c_expire_at c' = Some x"
      by (rule on_first_connect_card [OF c(1), of "fst ev" "snd ev"]) (use c(2) in auto)
    with Cons.IH show ?case by (auto simp: case_prod_unfold)
  qed simp
  obtain c' where "get_card_by_username (on_first_connect e d tid u mac) tid u = Some c'" "c_expire_at c' = Some x"
    by (rule on_first_connect_card [OF card(1), of e mac]) (use card(2) batch ok stamp in auto)
  then show ?thesis by (intro keep) blast
qed

text \<open>Automatic renewal touches only a used card whose expiry has passed (or is missing): it then gives
  the account and the card the same new expiry, strictly in the future, and enables the account. In every
  other case, and whenever a read fails, account and tables stay as they are.\<close>

theorem auto_renew_spec:
  assumes "maybe_auto_renew e d sub source = (sub', d')"
  shows "(sub' = sub \<and> d' = d) \<or>
    (source = ''card'' \<and> (\<exists>c x. get_card_by_username d (s_tenant_id sub) (s_username sub) = Some c \<and>
       c_first_used_at c \<noteq> None \<and> (\<forall>y. c_expire_at c = Some y \<longrightarrow> y \<le> e_now e) \<and> e_now e < x \<and>
       sub' = sub\<lparr>s_expire_at := Some x, s_status := ''enabled''\<rparr> \<and>
       get_card_by_username d' (s_tenant_id sub) (s_username sub) = Some (c\<lparr>c_expire_at := Some x, c_used := True\<rparr>)))"
proof (cases "sub' = sub \<and> d' = d")
  case False
  let ?tid = "s_tenant_id sub" and ?u = "s_username sub"
  obtain c b where cb: "get_card_and_batch e d ?tid ?u = (Some c, Some b)"
    using assms False
    by (cases "get_card_and_batch e d ?tid ?u")
      (auto simp: maybe_auto_renew_def Let_def split: if_splits option.splits)
  define x where "x = e_now e + renewal_days e d ?tid c b * day_us"
  have src: "source = ''card''" and used: "c_first_used_at c \<noteq> None"
    and exp: "\<forall>y. c_expire_at c = Some y \<longrightarrow> y \<le> e_now e" and pos: "0 < renewal_days e d ?tid c b"
    and res: "sub' = sub\<lparr>s_expire_at := Some x, s_status := ''enabled''\<rparr>"
      "d' = mark_used (set_expiry d ?tid (c_id c) ?u x) ?tid (c_id c)"
    using assms False cb by (auto simp: maybe_auto_renew_def Let_def x_def split: if_splits option.splits)
  have c: "get_card_by_username d ?tid ?u = Some c"
    using cb by (cases "e_fault e S_batch_lookup") (auto simp: get_card_and_batch_def split: option.splits)
  have "e_now e < x" using pos by (simp add: x_def)
  moreover have "get_card_by_username d' ?tid ?u = Some (c\<lparr>c_expire_at := Some x, c_used := True\<rparr>)"
    unfolding res mark_used_def using c get_card_tenant [OF c]
    by (subst find_map_cards) (auto simp: get_card_set_expiry)
  ultimately show ?thesis using src used exp res c by blast
qed simp

text \<open>Binding a card to a device leaves exactly one device check for the user, on that device, and keeps
  every other check in its order; binding again replaces the device.\<close>

theorem bind_card_to_mac_checks:
  "filter is_mac_check (list_user_check (bind_card_to_mac d tid u cid mac) tid u) = [(''Calling-Station-Id'', ''=='', mac)] \<and>
   filter (\<lambda>r. \<not> is_mac_check r) (list_user_check (bind_card_to_mac d tid u cid mac) tid u) =
     filter (\<lambda>r. \<not> is_mac_check r) (list_user_check d tid u) \<and>
   list_user_check (bind_card_to_mac (bind_card_to_mac d tid u cid mac) tid u cid mac') tid u =
     list_user_check (bind_card_to_mac d tid u cid mac') tid u"
proof -
  have m: "is_mac_check (''Calling-Station-Id'', ''=='', x)" for x by (simp add: is_mac_check_def) code_simp
  have l: "list_user_check (bind_card_to_mac d tid u cid x) tid u = merge_mac_check (list_user_check d tid u) x" for d x
    by (simp add: bind_card_to_mac_def list_user_check_def replace_user_check_def set_card_locked_mac_def Let_def)
  show ?thesis by (simp add: l merge_mac_check_def m)
qed

section \<open>Units of the budget\<close>

definition CARD_TIME_UNITS :: "string list" where
  "CARD_TIME_UNITS = [''seconds'', ''minutes'', ''hours'', ''days'', ''weeks'', ''months'', ''years'']"

text \<open>The batch form admits seven units. For a batch whose time is its own (no validity in days, no
  plan), the budget that the by-seconds mode enforces agrees with the budget that stamps and displays the
  card exactly for minutes, hours and days; a batch in seconds, weeks, months or years is enforced as if its
  value were days.\<close>

theorem card_budget_units:
  assumes "b_time_unit b \<in> set CARD_TIME_UNITS" "0 < b_time_value b" "b_validity_after_first_login_days b = 0"
  shows "card_budget_seconds (Some b) None = batch_budget b None \<longleftrightarrow> b_time_unit b \<in> {''minutes'', ''hours'', ''days''}"
proof -
  have units: "list_all (\<lambda>u. lower (strip u) = u \<and> lower u = u \<and> u \<noteq> []) CARD_TIME_UNITS" by code_simp
  then have u: "lower (strip (b_time_unit b)) = b_time_unit b" "lower (b_time_unit b) = b_time_unit b" "b_time_unit b \<noteq> []"
    using assms(1) by (auto simp: list_all_iff)
  have "card_budget_seconds (Some b) None = b_time_value b * budget_unit_seconds (b_time_unit b)"
    using assms by (simp add: card_budget_seconds_def)
  moreover have "batch_budget b None = b_time_value b * the (map_of UNIT_SECONDS (b_time_unit b))"
    using assms u unit_to_seconds_pos [OF assms(2), of "b_time_unit b"]
    by (auto simp: batch_budget_def budget_seconds_def unit_to_seconds_def UNIT_SECONDS_def CARD_TIME_UNITS_def)
  ultimately show ?thesis
    using assms(1,2) u by (auto simp: budget_unit_seconds_def UNIT_SECONDS_def CARD_TIME_UNITS_def Let_def)
qed

section \<open>Instances\<close>

definition blank_batch :: card_batch where
  "blank_batch = \<lparr>b_id = 5, b_tenant_id = 1, b_total_quota_mb = 0, b_validity_after_first_login_days = 0,
     b_count_by_seconds = False, b_count_from_first_connect = True, b_on_quota_exhaust = ''stop'',
     b_switch_to_mac_on_connect = True, b_lock_to_mac_on_close = False, b_login_without_password = False,
     b_status = ''active'', b_time_value = 3, b_time_unit = ''hours'', b_device_count = 1, b_device_limit_mode = [],
     b_auto_renew_after_first_use = False, b_transfer_to_student_status_on_connect = False,
     b_close_user_session_on_disconnect = False, b_deleted_at = None\<rparr>"

definition blank_card :: card where
  "blank_card = \<lparr>c_id = 9, c_batch_id = 5, c_username = ''c100'', c_password = ''pin'', c_plan_id = None, c_tenant_id = 1,
     c_used = False, c_first_used_at = None, c_used_by_mac = [], c_expire_at = None, c_revoked = False,
     c_locked_mac = [], c_card_speed_down_kbps = 0, c_card_speed_up_kbps = 0, c_device_limit_mode = [],
     c_device_count = 0, c_extra_seconds = 0, c_usage_reset_at = None\<rparr>"

definition card_db :: db where
  "card_db = blank_db\<lparr>card_batches := [blank_batch], cards := [blank_card]\<rparr>"

theorem first_connect_stamps_once_witness:
  "\<exists>c'. get_card_by_username
     (foldl (\<lambda>d (e', mac'). on_first_connect e' d 1 ''c100'' mac') (on_first_connect blank_env card_db 1 ''c100'' ''aa-01'')
       [(blank_env\<lparr>e_now := seconds 90000\<rparr>, ''bb-02''), (blank_env\<lparr>e_fault := (\<lambda>_. True)\<rparr>, [])]) 1 ''c100'' = Some c' \<and>
   c_expire_at c' = Some (seconds 11800)"
proof -
  have card: "get_card_by_username card_db 1 ''c100'' = Some blank_card" "c_expire_at blank_card = None"
    and batch: "get_batch card_db 1 (c_batch_id blank_card) = Some blank_batch"
    and ok: "\<not> e_fault blank_env S_batch_lookup" "\<not> e_fault blank_env S_validity"
    by (simp_all add: card_db_def get_card_by_username_def get_batch_def blank_card_def blank_batch_def blank_env_def)
  have stamp: "first_login_expiry blank_env card_db 1 ''c100'' blank_card blank_batch (e_now blank_env) = Some (seconds 11800)"
    by code_simp
  show ?thesis by (rule first_connect_stamps_once [OF card batch ok stamp])
qed

definition renewing_db :: db where
  "renewing_db = blank_db\<lparr>
     card_batches := [blank_batch\<lparr>b_auto_renew_after_first_use := True, b_validity_after_first_login_days := 30\<rparr>],
     cards := [blank_card\<lparr>c_first_used_at := Some 0, c_expire_at := Some (seconds 900)\<rparr>]\<rparr>"

definition card_account :: subscriber where
  "card_account = blank_subscriber\<lparr>s_username := ''c100'', s_expire_at := Some (seconds 900)\<rparr>"

theorem auto_renew_spec_witness:
  "\<exists>x. s_expire_at (fst (maybe_auto_renew blank_env renewing_db card_account ''card'')) = Some x \<and> e_now blank_env < x"
proof -
  obtain sub' d' where r: "maybe_auto_renew blank_env renewing_db card_account ''card'' = (sub', d')"
    by (cases "maybe_auto_renew blank_env renewing_db card_account ''card''")
  have "s_expire_at (fst (maybe_auto_renew blank_env renewing_db card_account ''card'')) \<noteq> s_expire_at card_account"
    by code_simp
  then have "sub' \<noteq> card_account" using r by auto
  with auto_renew_spec [OF r] obtain x where "sub' = card_account\<lparr>s_expire_at := Some x, s_status := ''enabled''\<rparr>" "e_now blank_env < x"
    by auto
  with r show ?thesis by auto
qed

theorem card_budget_units_witness:
  "card_budget_seconds (Some (blank_batch\<lparr>b_time_value := 1, b_time_unit := ''months''\<rparr>)) None \<noteq>
   batch_budget (blank_batch\<lparr>b_time_value := 1, b_time_unit := ''months''\<rparr>) None"
proof -
  let ?b = "blank_batch\<lparr>b_time_value := 1, b_time_unit := ''months''\<rparr>"
  have "b_time_unit ?b \<in> set CARD_TIME_UNITS" "0 < b_time_value ?b" "b_validity_after_first_login_days ?b = 0"
    by (simp_all add: CARD_TIME_UNITS_def blank_batch_def)
  from card_budget_units [OF this] show ?thesis by simp
qed

end
