(* ===== verification/AllowMode.thy ===== *)
theory AllowMode
  imports AccessControl
begin

text \<open>
  \<open>app/radius/services/allow_mode.py\<close> over \<open>app/radius/db/repos/allow_mode_repo.py\<close>: the allow-mode policy of
  a card batch or a plan (\<open>open\<close>, trust on first use, manual list), the devices bound to an account, and the
  verdict on a login.
\<close>

section \<open>Policies and devices\<close>

definition VALID_MODES :: "string list" where "VALID_MODES = [''open'', ''tofu'', ''manual'']"
definition VALID_SCOPES :: "string list" where "VALID_SCOPES = [''plan'', ''card_batch'']"

definition get_policy :: "db \<Rightarrow> int \<Rightarrow> string \<Rightarrow> int \<Rightarrow> allow_policy option" where
  "get_policy d tid scope sid =
     (if scope \<notin> set VALID_SCOPES then None
      else find (\<lambda>p. ap_tenant_id p = tid \<and> ap_scope_type p = scope \<and> ap_scope_id p = sid \<and> ap_active p) (allow_policies d))"

definition policy_key :: "allow_policy \<Rightarrow> int \<times> string \<times> int" where
  "policy_key p = (ap_tenant_id p, ap_scope_type p, ap_scope_id p)"

definition next_policy_id :: "db \<Rightarrow> int" where
  "next_policy_id d = foldr (\<lambda>p m. max (ap_id p) m) (allow_policies d) 0 + 1"

definition upsert_policy :: "db \<Rightarrow> int \<Rightarrow> string \<Rightarrow> int \<Rightarrow> string \<Rightarrow> int \<Rightarrow> bool \<Rightarrow> (allow_policy \<times> db) res" where
  "upsert_policy d tid scope sid mode max_devices active =
     (if scope \<notin> set VALID_SCOPES \<or> mode \<notin> set VALID_MODES \<or> sid \<le> 0 then Inl ValueError
      else
        let old = lookup_row policy_key (tid, scope, sid) (allow_policies d);
            p = \<lparr>ap_id = (case old of None \<Rightarrow> next_policy_id d | Some o' \<Rightarrow> ap_id o'), ap_tenant_id = tid, ap_scope_type = scope,
                 ap_scope_id = sid, ap_mode = mode, ap_max_devices = max_devices, ap_active = active\<rparr>
        in Inr (p, d\<lparr>allow_policies := upsert policy_key p (allow_policies d)\<rparr>))"

definition delete_policy :: "db \<Rightarrow> int \<Rightarrow> int \<Rightarrow> bool \<times> db" where
  "delete_policy d tid pid =
     (let hit = (\<lambda>p. ap_tenant_id p = tid \<and> ap_id p = pid) in
      (\<exists>p \<in> set (allow_policies d). hit p,
       d\<lparr>allow_devices := filter (\<lambda>v. \<not> (ad_policy_id v \<in> ap_id ` set (filter hit (allow_policies d)))) (allow_devices d),
         allow_policies := filter (\<lambda>p. \<not> hit p) (allow_policies d)\<rparr>))"

definition set_policy_active :: "db \<Rightarrow> int \<Rightarrow> int \<Rightarrow> bool \<Rightarrow> bool \<times> db" where
  "set_policy_active d tid pid active =
     (\<exists>p \<in> set (allow_policies d). ap_tenant_id p = tid \<and> ap_id p = pid,
      d\<lparr>allow_policies := map (\<lambda>p. if ap_tenant_id p = tid \<and> ap_id p = pid then p\<lparr>ap_active := active\<rparr> else p) (allow_policies d)\<rparr>)"

definition count_devices :: "db \<Rightarrow> int \<Rightarrow> string \<Rightarrow> nat" where
  "count_devices d pid u =
     length (filter (\<lambda>v. ad_policy_id v = pid \<and> (u \<noteq> [] \<longrightarrow> ad_username v = u)) (allow_devices d))"

text \<open>The personal match first, then the one shared by the whole scope.\<close>

definition find_device_match :: "db \<Rightarrow> int \<Rightarrow> string \<Rightarrow> string \<Rightarrow> allow_device option" where
  "find_device_match d pid u mac0 =
     (let mac = normalize_mac mac0;
          hits = filter (\<lambda>v. ad_policy_id v = pid \<and> ad_mac v = mac \<and> (ad_username v = u \<or> ad_username v = [])) (allow_devices d)
      in if mac = [] then None
         else (case find (\<lambda>v. ad_username v \<noteq> []) hits of Some v \<Rightarrow> Some v | None \<Rightarrow> find (\<lambda>v. ad_username v = []) hits))"

definition next_device_id :: "db \<Rightarrow> int" where
  "next_device_id d = foldr (\<lambda>v m. max (ad_id v) m) (allow_devices d) 0 + 1"

definition device_row :: "db \<Rightarrow> int \<Rightarrow> string \<Rightarrow> string \<Rightarrow> allow_device option" where
  "device_row d pid u mac = find (\<lambda>v. ad_policy_id v = pid \<and> ad_username v = u \<and> ad_mac v = mac) (allow_devices d)"

definition add_device :: "db \<Rightarrow> int \<Rightarrow> string \<Rightarrow> string \<Rightarrow> string \<Rightarrow> allow_device option \<times> db" where
  "add_device d pid u mac0 source =
     (let mac = normalize_mac mac0 in
      if mac = [] then (None, d)
      else (case device_row d pid u mac of
              Some v \<Rightarrow> (Some v, d)
            | None \<Rightarrow>
                let v = \<lparr>ad_id = next_device_id d, ad_policy_id = pid, ad_username = u, ad_mac = mac,
                         ad_source = (if source \<in> {''manual'', ''auto''} then source else ''manual''),
                         ad_last_seen_at = None, ad_use_count = 0\<rparr>
                in (Some v, d\<lparr>allow_devices := allow_devices d @ [v]\<rparr>)))"

definition touch_device :: "env \<Rightarrow> db \<Rightarrow> int \<Rightarrow> db" where
  "touch_device e d i =
     (if e_fault e S_touch then d
      else d\<lparr>allow_devices := map (\<lambda>v. if ad_id v = i
               then v\<lparr>ad_last_seen_at := Some (e_now e), ad_use_count := ad_use_count v + 1\<rparr> else v) (allow_devices d)\<rparr>)"

definition delete_device :: "db \<Rightarrow> int \<Rightarrow> bool \<times> db" where
  "delete_device d did =
     (\<exists>a \<in> set (allow_devices d). ad_id a = did, d\<lparr>allow_devices := filter (\<lambda>a. ad_id a \<noteq> did) (allow_devices d)\<rparr>)"

section \<open>The verdict\<close>

record verdict =
  v_deny :: bool
  v_reason :: string

definition resolve_policy :: "db \<Rightarrow> int \<Rightarrow> int option \<Rightarrow> int option \<Rightarrow> allow_policy option" where
  "resolve_policy d tid card_batch_id plan_id =
     (case (if truthy_id card_batch_id then get_policy d tid ''card_batch'' (the card_batch_id) else None) of
        Some p \<Rightarrow> Some p
      | None \<Rightarrow> if truthy_id plan_id then get_policy d tid ''plan'' (the plan_id) else None)"

definition tofu_bind :: "env \<Rightarrow> db \<Rightarrow> allow_policy \<Rightarrow> string \<Rightarrow> string \<Rightarrow> verdict \<times> db" where
  "tofu_bind e d policy u mac =
     (if 0 < ap_max_devices policy \<and> ap_max_devices policy \<le> int (count_devices d (ap_id policy) u)
      then (\<lparr>v_deny = True, v_reason = ''allow_mode_at_capacity''\<rparr>, d)
      else (case add_device d (ap_id policy) u mac ''auto'' of
              (Some v, d1) \<Rightarrow> (\<lparr>v_deny = False, v_reason = ''tofu_bind''\<rparr>, touch_device e d1 (ad_id v))
            | (None, d1) \<Rightarrow> (\<lparr>v_deny = True, v_reason = ''allow_mode_bind_failed''\<rparr>, d1)))"

definition evaluate ::
    "env \<Rightarrow> db \<Rightarrow> int \<Rightarrow> string \<Rightarrow> int option \<Rightarrow> int option \<Rightarrow> string \<Rightarrow> verdict option \<times> db" where
  "evaluate e d tid u plan_id card_batch_id mac0 =
     (if e_fault e S_allow_mode then (None, d)
      else (case resolve_policy d tid card_batch_id plan_id of
              None \<Rightarrow> (None, d)
            | Some policy \<Rightarrow>
                let mode = lower (or_default (ap_mode policy) ''open''); mac = normalize_mac mac0 in
                if mode = ''open'' then (Some \<lparr>v_deny = False, v_reason = ''open_mode''\<rparr>, d)
                else if mac = [] then (Some \<lparr>v_deny = False, v_reason = ''no_mac''\<rparr>, d)
                else (case find_device_match d (ap_id policy) u mac of
                        Some v \<Rightarrow> (Some \<lparr>v_deny = False, v_reason = ''device_allowed''\<rparr>, touch_device e d (ad_id v))
                      | None \<Rightarrow>
                          if mode = ''tofu'' then (let (v, d1) = tofu_bind e d policy u mac in (Some v, d1))
                          else (Some \<lparr>v_deny = True, v_reason = ''allow_mode_unknown_device''\<rparr>, d))))"

definition check_after_password ::
    "env \<Rightarrow> db \<Rightarrow> int \<Rightarrow> string \<Rightarrow> int option \<Rightarrow> int option \<Rightarrow> string \<Rightarrow> verdict option \<times> db" where
  "check_after_password e d tid u plan_id card_batch_id mac =
     (case evaluate e d tid u plan_id card_batch_id mac of
        (Some v, d1) \<Rightarrow>
          (Some v, if v_deny v then d1\<lparr>notifications := notifications d1 @ [(tid, ''allow_mode_unknown_device'', u)]\<rparr> else d1)
      | (None, d1) \<Rightarrow> (None, d1))"

section \<open>Normal form of a MAC\<close>

lemma code_inject: "code a = code b \<longleftrightarrow> a = b"
  by (simp add: code_def)

definition mac_char :: "char \<Rightarrow> char" where
  "mac_char c = (if upper_char c = CHR ''-'' then CHR '':'' else upper_char c)"

lemma normalize_mac_map: "normalize_mac m = map mac_char (strip m)"
  by (simp add: normalize_mac_def replace_char_def upper_def mac_char_def)

lemma mac_char_simps: "is_space (mac_char c) = is_space c" "mac_char (mac_char c) = mac_char c"
proof -
  have "\<not> is_space (CHR ''-'')" "\<not> is_space (CHR '':'')" "upper_char (CHR '':'') = CHR '':''" by code_simp+
  then show "is_space (mac_char c) = is_space c" "mac_char (mac_char c) = mac_char c"
    using is_space_upper [of c] by (auto simp: mac_char_def simp del: is_space_upper)
qed

lemma normalize_mac_idem [simp]: "normalize_mac (normalize_mac m) = normalize_mac m"
  by (simp add: normalize_mac_map strip_map mac_char_simps o_def)

section \<open>Trust on first use, abstractly\<close>

text \<open>What the policy promises one account: devices are bound in the order they first appear until the cap is
  reached (0 is no cap); bound and shared devices pass, others do not.\<close>

fun tofu_spec :: "int \<Rightarrow> string set \<Rightarrow> string list \<Rightarrow> string list \<Rightarrow> bool list \<times> string list" where
  "tofu_spec k shared bound [] = ([], bound)"
| "tofu_spec k shared bound (m # ms) =
     (if m \<in> shared \<or> m \<in> set bound then (let (rs, b) = tofu_spec k shared bound ms in (True # rs, b))
      else if 0 < k \<and> k \<le> int (length bound) then (let (rs, b) = tofu_spec k shared bound ms in (False # rs, b))
      else (let (rs, b) = tofu_spec k shared (bound @ [m]) ms in (True # rs, b)))"

lemma tofu_spec_bound: "0 < k \<Longrightarrow> int (length (snd (tofu_spec k shared bound ms))) \<le> max k (int (length bound))"
proof (induction ms arbitrary: bound)
  case (Cons m ms)
  show ?case using Cons.IH [OF Cons.prems, of bound] Cons.IH [OF Cons.prems, of "bound @ [m]"] Cons.prems
    by (auto simp: split_beta)
qed simp

lemma tofu_spec_keeps: "set bound \<subseteq> set (snd (tofu_spec k shared bound ms))"
proof (induction ms arbitrary: bound)
  case (Cons m ms)
  show ?case using Cons.IH [of bound] Cons.IH [of "bound @ [m]"] by (auto simp: split_beta)
qed simp

section \<open>The tables implement it\<close>

definition bound_macs :: "db \<Rightarrow> int \<Rightarrow> string \<Rightarrow> string list" where
  "bound_macs d pid u = map ad_mac (filter (\<lambda>v. ad_policy_id v = pid \<and> ad_username v = u) (allow_devices d))"

lemma bound_macs_touch [simp]: "bound_macs (touch_device e d i) pid u = bound_macs d pid u"
proof -
  have "map ad_mac (filter (\<lambda>v. ad_policy_id v = pid \<and> ad_username v = u)
      (map (\<lambda>v. if ad_id v = i then v\<lparr>ad_last_seen_at := Some t, ad_use_count := ad_use_count v + 1\<rparr> else v) vs)) =
    map ad_mac (filter (\<lambda>v. ad_policy_id v = pid \<and> ad_username v = u) vs)" for t and vs :: "allow_device list"
    by (induction vs) auto
  then show ?thesis by (simp add: bound_macs_def touch_device_def)
qed

lemma allow_policies_touch [simp]: "allow_policies (touch_device e d i) = allow_policies d"
  by (simp add: touch_device_def)

lemma find_device_match_iff:
  assumes "u \<noteq> []" "normalize_mac m = m" "m \<noteq> []"
  shows "find_device_match d pid u m \<noteq> None \<longleftrightarrow> m \<in> set (bound_macs d pid u) \<or> m \<in> set (bound_macs d pid [])"
proof -
  let ?hits = "filter (\<lambda>v. ad_policy_id v = pid \<and> ad_mac v = m \<and> (ad_username v = u \<or> ad_username v = [])) (allow_devices d)"
  have "find_device_match d pid u m \<noteq> None \<longleftrightarrow>
      find (\<lambda>v. ad_username v \<noteq> []) ?hits \<noteq> None \<or> find (\<lambda>v. ad_username v = []) ?hits \<noteq> None"
    using assms by (auto simp: find_device_match_def Let_def simp del: not_None_eq split: option.splits)
  also have "\<dots> \<longleftrightarrow> (\<exists>v \<in> set ?hits. True)" unfolding find_not_None by auto
  also have "\<dots> \<longleftrightarrow> m \<in> set (bound_macs d pid u) \<or> m \<in> set (bound_macs d pid [])"
    by (auto simp: bound_macs_def)
  finally show ?thesis .
qed

lemma count_devices_bound: "u \<noteq> [] \<Longrightarrow> count_devices d pid u = length (bound_macs d pid u)"
  by (simp add: count_devices_def bound_macs_def)

lemma device_row_none: "m \<notin> set (bound_macs d pid u) \<Longrightarrow> device_row d pid u m = None"
  by (auto simp: device_row_def bound_macs_def find_None_iff)

definition tofu_policy :: "env \<Rightarrow> db \<Rightarrow> int \<Rightarrow> int option \<Rightarrow> int option \<Rightarrow> allow_policy \<Rightarrow> bool" where
  "tofu_policy e d tid plan_id batch_id p \<longleftrightarrow>
     \<not> e_fault e S_allow_mode \<and> resolve_policy d tid batch_id plan_id = Some p \<and> lower (or_default (ap_mode p) ''open'') = ''tofu''"

lemma resolve_policy_cong: "allow_policies d = allow_policies d' \<Longrightarrow> resolve_policy d tid b p = resolve_policy d' tid b p"
proof -
  assume "allow_policies d = allow_policies d'"
  then have "get_policy d tid = get_policy d' tid" by (intro ext) (simp add: get_policy_def)
  then show ?thesis by (simp add: resolve_policy_def cong: option.case_cong)
qed

text \<open>One login under the policy.\<close>

lemma evaluate_tofu:
  assumes "tofu_policy e d tid plan_id batch_id p" "u \<noteq> []" "normalize_mac mac = m" "m \<noteq> []"
  obtains v d' where "evaluate e d tid u plan_id batch_id mac = (Some v, d')" "allow_policies d' = allow_policies d"
    "bound_macs d' (ap_id p) [] = bound_macs d (ap_id p) []"
    "(\<not> v_deny v, bound_macs d' (ap_id p) u) =
      (if m \<in> set (bound_macs d (ap_id p) []) \<or> m \<in> set (bound_macs d (ap_id p) u) then (True, bound_macs d (ap_id p) u)
       else if 0 < ap_max_devices p \<and> ap_max_devices p \<le> int (length (bound_macs d (ap_id p) u))
       then (False, bound_macs d (ap_id p) u) else (True, bound_macs d (ap_id p) u @ [m]))"
proof -
  have nm: "normalize_mac m = m" using assms(3) by auto
  have mode: "lower (or_default (ap_mode p) ''open'') = ''tofu''" and res: "resolve_policy d tid batch_id plan_id = Some p"
    and ok: "\<not> e_fault e S_allow_mode" using assms(1) by (simp_all add: tofu_policy_def)
  show ?thesis
  proof (cases "find_device_match d (ap_id p) u m")
    case (Some v)
    then have "m \<in> set (bound_macs d (ap_id p) u) \<or> m \<in> set (bound_macs d (ap_id p) [])"
      using find_device_match_iff [OF assms(2) nm assms(4), of d "ap_id p"] by simp
    with Some show ?thesis using ok res mode assms(3,4)
      by (intro that [of "\<lparr>v_deny = False, v_reason = ''device_allowed''\<rparr>" "touch_device e d (ad_id v)"])
        (auto simp: evaluate_def Let_def)
  next
    case None
    then have new: "m \<notin> set (bound_macs d (ap_id p) u)" "m \<notin> set (bound_macs d (ap_id p) [])"
      using find_device_match_iff [OF assms(2) nm assms(4), of d "ap_id p"] by auto
    obtain v d' where b: "tofu_bind e d p u m = (v, d')" by (cases "tofu_bind e d p u m")
    have ev: "evaluate e d tid u plan_id batch_id mac = (Some v, d')"
      using ok res mode assms(3,4) None b by (simp add: evaluate_def Let_def)
    have "allow_policies d' = allow_policies d \<and> bound_macs d' (ap_id p) [] = bound_macs d (ap_id p) [] \<and>
      (\<not> v_deny v, bound_macs d' (ap_id p) u) =
        (if 0 < ap_max_devices p \<and> ap_max_devices p \<le> int (length (bound_macs d (ap_id p) u))
         then (False, bound_macs d (ap_id p) u) else (True, bound_macs d (ap_id p) u @ [m]))"
      using b new assms(2,4) nm
      by (auto simp: tofu_bind_def add_device_def device_row_none count_devices_bound Let_def split: if_splits)
        (simp_all add: bound_macs_def)
    with ev new show ?thesis by (intro that [of v d']) auto
  qed
qed

fun logins :: "env \<Rightarrow> int \<Rightarrow> string \<Rightarrow> int option \<Rightarrow> int option \<Rightarrow> string list \<Rightarrow> db \<Rightarrow> bool list \<times> db" where
  "logins e tid u plan_id batch_id [] d = ([], d)"
| "logins e tid u plan_id batch_id (mac # macs) d =
     (let (v, d1) = evaluate e d tid u plan_id batch_id mac;
          (rs, d2) = logins e tid u plan_id batch_id macs d1
      in ((case v of None \<Rightarrow> True | Some x \<Rightarrow> \<not> v_deny x) # rs, d2))"

text \<open>C27. Trust on first use is what the tables implement: whatever the sequence of devices an account logs
  in from, in whatever notation, the outcomes and the devices bound at the end are those of the abstract
  policy. In particular the account never holds more automatically bound devices than the cap (unless it
  held more before), and a bound device is never turned away later.\<close>

theorem tofu_refines:
  assumes "tofu_policy e d tid plan_id batch_id p" "u \<noteq> []" "\<forall>m \<in> set macs. normalize_mac m \<noteq> []"
    and "logins e tid u plan_id batch_id macs d = (rs, d')"
  shows "(rs, bound_macs d' (ap_id p) u) =
      tofu_spec (ap_max_devices p) (set (bound_macs d (ap_id p) [])) (bound_macs d (ap_id p) u) (map normalize_mac macs) \<and>
    (0 < ap_max_devices p \<longrightarrow>
      int (length (bound_macs d' (ap_id p) u)) \<le> max (ap_max_devices p) (int (length (bound_macs d (ap_id p) u)))) \<and>
    set (bound_macs d (ap_id p) u) \<subseteq> set (bound_macs d' (ap_id p) u)"
proof -
  have "(rs, bound_macs d' (ap_id p) u) =
      tofu_spec (ap_max_devices p) (set (bound_macs d (ap_id p) [])) (bound_macs d (ap_id p) u) (map normalize_mac macs)"
    using assms
  proof (induction macs arbitrary: d rs)
    case (Cons mac macs)
    obtain v d1 where ev: "evaluate e d tid u plan_id batch_id mac = (Some v, d1)" "allow_policies d1 = allow_policies d"
        "bound_macs d1 (ap_id p) [] = bound_macs d (ap_id p) []"
        "(\<not> v_deny v, bound_macs d1 (ap_id p) u) =
          (if normalize_mac mac \<in> set (bound_macs d (ap_id p) []) \<or> normalize_mac mac \<in> set (bound_macs d (ap_id p) u)
           then (True, bound_macs d (ap_id p) u)
           else if 0 < ap_max_devices p \<and> ap_max_devices p \<le> int (length (bound_macs d (ap_id p) u))
           then (False, bound_macs d (ap_id p) u) else (True, bound_macs d (ap_id p) u @ [normalize_mac mac]))"
      using Cons.prems by (auto intro: evaluate_tofu [OF Cons.prems(1,2) refl])
    obtain rs1 where r: "logins e tid u plan_id batch_id macs d1 = (rs1, d')" "rs = (\<not> v_deny v) # rs1"
      using Cons.prems(4) ev(1) by (auto split: prod.splits)
    have "tofu_policy e d1 tid plan_id batch_id p"
      using Cons.prems(1) resolve_policy_cong [OF ev(2)] by (simp add: tofu_policy_def)
    from Cons.IH [OF this Cons.prems(2) _ r(1)] Cons.prems(3) ev(3)
    have "(rs1, bound_macs d' (ap_id p) u) =
      tofu_spec (ap_max_devices p) (set (bound_macs d (ap_id p) [])) (bound_macs d1 (ap_id p) u) (map normalize_mac macs)"
      by simp
    then show ?case using ev(4) r(2) by (auto simp: split_beta split: if_splits dest: sym)
  qed simp
  moreover from this have "bound_macs d' (ap_id p) u =
      snd (tofu_spec (ap_max_devices p) (set (bound_macs d (ap_id p) [])) (bound_macs d (ap_id p) u) (map normalize_mac macs))"
    by (metis snd_conv)
  ultimately show ?thesis using tofu_spec_bound tofu_spec_keeps by (metis (no_types, lifting))
qed

definition tofu_rule :: allow_policy where
  "tofu_rule = \<lparr>ap_id = 3, ap_tenant_id = 1, ap_scope_type = ''plan'', ap_scope_id = 7, ap_mode = ''tofu'',
     ap_max_devices = 2, ap_active = True\<rparr>"

definition tofu_db :: db where
  "tofu_db = blank_db\<lparr>allow_policies := [tofu_rule]\<rparr>"

definition four_macs :: "string list" where
  "four_macs = [''aa-01'', ''BB:02'', ''cc-03'', ''AA:01'']"

theorem tofu_refines_witness:
  "fst (logins blank_env 1 ''ali'' (Some 7) None four_macs tofu_db) = [True, True, False, True]"
proof -
  have p: "tofu_policy blank_env tofu_db 1 (Some 7) None tofu_rule"
    by (simp add: tofu_policy_def resolve_policy_def get_policy_def tofu_db_def tofu_rule_def VALID_SCOPES_def truthy_id_def
        blank_env_def lower_def) code_simp
  have m: "\<forall>m \<in> set four_macs. normalize_mac m \<noteq> []" by code_simp
  have s: "fst (tofu_spec (ap_max_devices tofu_rule) (set (bound_macs tofu_db (ap_id tofu_rule) []))
      (bound_macs tofu_db (ap_id tofu_rule) ''ali'') (map normalize_mac four_macs)) = [True, True, False, True]"
    by code_simp
  show ?thesis using tofu_refines [OF p _ m surjective_pairing, of "''ali''"] s by (metis fst_conv list.distinct(1))
qed

end
