(* ===== verification/BandwidthRate.thy ===== *)
theory BandwidthRate
  imports QuotaPeriod
begin

text \<open>
  \<open>app/radius/core/units.py\<close>, \<open>app/radius/services/bandwidth_rate.py\<close> and the schedule resolution of
  \<open>app/radius/db/repos/operations_repo.py\<close>: units of speed, quota, time and size, the speed rule in force,
  the rate of a plan through its profile, the split of a rate over the live devices, the tenant's active
  speed factor, and the rate a live session should have.
\<close>

section \<open>Units\<close>

datatype unit_kind = Speed | Quota | Time | Size

definition KINDS :: "unit_kind \<Rightarrow> (string \<times> int) list" where
  "KINDS k = (case k of
      Speed \<Rightarrow> [(''kbps'', 1), (''Mbps'', 1024), (''Gbps'', 1048576)]
    | Quota \<Rightarrow> [(''MB'', 1), (''GB'', 1024), (''TB'', 1048576)]
    | Time \<Rightarrow> [(''min'', 1), (''hr'', 60), (''day'', 1440), (''month'', 43200)]
    | Size \<Rightarrow> [(''KB'', 1), (''MB'', 1024), (''GB'', 1048576)])"

definition to_base :: "(rat \<Rightarrow> rat) \<Rightarrow> rat \<Rightarrow> string \<Rightarrow> unit_kind \<Rightarrow> int res" where
  "to_base fl v unit k =
     (case map_of (KINDS k) unit of
        None \<Rightarrow> Inl ValueError
      | Some r \<Rightarrow> Inr (round_even (fl (fl v * of_int r))))"

definition from_base :: "(rat \<Rightarrow> rat) \<Rightarrow> int \<Rightarrow> string \<Rightarrow> unit_kind \<Rightarrow> rat res" where
  "from_base fl v unit k =
     (case map_of (KINDS k) unit of None \<Rightarrow> Inl ValueError | Some r \<Rightarrow> Inr (fl (fl (of_int v) / of_int r)))"

text \<open>The biggest unit that divides the value.\<close>

definition best_unit :: "int \<Rightarrow> unit_kind \<Rightarrow> string" where
  "best_unit v k =
     (if v = 0 then fst (hd (KINDS k))
      else (case find (\<lambda>(u, r). r \<le> v \<and> v mod r = 0) (rev (KINDS k)) of
              None \<Rightarrow> fst (hd (KINDS k)) | Some (u, r) \<Rightarrow> u))"

definition format_pair :: "(rat \<Rightarrow> rat) \<Rightarrow> int \<Rightarrow> unit_kind \<Rightarrow> (rat \<times> string) res" where
  "format_pair fl v k = res_bind (from_base fl v (best_unit v k) k) (\<lambda>x. Inr (x, best_unit v k))"

section \<open>The speed rule in force\<close>

definition time_minutes :: "string \<Rightarrow> int res" where
  "time_minutes v =
     (case split_first (CHR '':'') (or_default v ''00:00'') of
        None \<Rightarrow> Inl ValueError
      | Some (h, m) \<Rightarrow>
          (case (parse_int h, parse_int m) of (Some a, Some b) \<Rightarrow> Inr (a * 60 + b) | _ \<Rightarrow> Inl ValueError))"

definition in_time_window :: "int \<Rightarrow> string \<Rightarrow> string \<Rightarrow> bool res" where
  "in_time_window cur start_hm end_hm =
     res_bind (time_minutes start_hm) (\<lambda>s. res_bind (time_minutes end_hm) (\<lambda>t.
       Inr (if s = t then True else if s < t then s \<le> cur \<and> cur < t else s \<le> cur \<or> cur < t)))"

text \<open>The groups a user belongs to: by identifier or by the legacy group name.\<close>

definition groups_of :: "db \<Rightarrow> int \<Rightarrow> string \<Rightarrow> int list" where
  "groups_of d tid u =
     map g_id (filter (\<lambda>g. g_tenant_id g = tid \<and> \<not> g_deleted g \<and>
       (\<exists>s \<in> set (subscribers d). s_tenant_id s = tid \<and> s_username s = u \<and> \<not> s_deleted s \<and>
          (s_subscriber_group_id s = Some (g_id g) \<or> s_group s = g_name g))) (subscriber_groups d))"

datatype speed_target = By_subscriber string | By_group string | By_batch int | By_plan int

definition aimed_at :: "db \<Rightarrow> int \<Rightarrow> speed_target \<Rightarrow> bandwidth_schedule \<Rightarrow> bool" where
  "aimed_at d tid target r =
     (case target of
        By_subscriber u \<Rightarrow> sc_target_type r = ''subscriber'' \<and> sc_subscriber_username r = u
      | By_group u \<Rightarrow> sc_target_type r = ''subscriber_group'' \<and>
          (case sc_subscriber_group_id r of None \<Rightarrow> False | Some g \<Rightarrow> g \<in> set (groups_of d tid u))
      | By_batch b \<Rightarrow> sc_target_type r = ''card_batch'' \<and> sc_card_batch_id r = Some b
      | By_plan p \<Rightarrow> sc_target_type r = ''plan'' \<and> sc_plan_id r = Some p)"

text \<open>\<open>ORDER BY priority ASC, id DESC\<close>.\<close>

definition rules_for :: "db \<Rightarrow> int \<Rightarrow> speed_target \<Rightarrow> bandwidth_schedule list" where
  "rules_for d tid target =
     sort_key sc_priority (rev (sort_key sc_id
       (filter (\<lambda>r. sc_tenant_id r = tid \<and> sc_enabled r \<and> aimed_at d tid target r) (bandwidth_schedules d))))"

fun first_in_window :: "int \<Rightarrow> bandwidth_schedule list \<Rightarrow> bandwidth_schedule option res" where
  "first_in_window cur [] = Inr None"
| "first_in_window cur (r # rs) =
     res_bind (in_time_window cur (sc_starts_at_time r) (sc_ends_at_time r)) (\<lambda>b.
       if b then Inr (Some r) else first_in_window cur rs)"

definition active_rule_for_target :: "db \<Rightarrow> int \<Rightarrow> speed_target \<Rightarrow> int \<Rightarrow> bandwidth_schedule option res" where
  "active_rule_for_target d tid target cur = first_in_window cur (rules_for d tid target)"

fun first_rule :: "(speed_target \<Rightarrow> bandwidth_schedule option res) \<Rightarrow> speed_target list \<Rightarrow> bandwidth_schedule option res" where
  "first_rule f [] = Inr None"
| "first_rule f (t # ts) = res_bind (f t) (\<lambda>r. case r of Some x \<Rightarrow> Inr (Some x) | None \<Rightarrow> first_rule f ts)"

definition speed_targets :: "string \<Rightarrow> int option \<Rightarrow> int option \<Rightarrow> speed_target list" where
  "speed_targets u batch plan_id =
     (if u = [] then [] else [By_subscriber u, By_group u]) @
     (case batch of None \<Rightarrow> [] | Some b \<Rightarrow> [By_batch b]) @ (case plan_id of None \<Rightarrow> [] | Some p \<Rightarrow> [By_plan p])"

definition resolve_effective_bandwidth_schedule ::
    "env \<Rightarrow> db \<Rightarrow> int \<Rightarrow> string \<Rightarrow> int option \<Rightarrow> int option \<Rightarrow> bandwidth_schedule option res" where
  "resolve_effective_bandwidth_schedule e d tid u batch plan_id =
     first_rule (\<lambda>t. active_rule_for_target d tid t (time_of_day (local_now e tid) div minute_us))
       (speed_targets u batch plan_id)"

section \<open>The rate of a plan\<close>

definition speed_unit_code :: "string \<Rightarrow> string" where
  "speed_unit_code unit =
     (let raw = lower (strip (or_default unit ''kbps'')) in
      if raw = ''mbps'' then ''Mbps'' else if raw = ''gbps'' then ''Gbps'' else ''kbps'')"

definition speed_to_kbps :: "(rat \<Rightarrow> rat) \<Rightarrow> int \<Rightarrow> string \<Rightarrow> int" where
  "speed_to_kbps fl v unit = guarded v (to_base fl (of_int v) (speed_unit_code unit) Speed)"

definition profile_rate_kbps :: "(rat \<Rightarrow> rat) \<Rightarrow> bandwidth_profile \<Rightarrow> int \<times> int" where
  "profile_rate_kbps fl p =
     (speed_to_kbps fl (bp_rate_down p) (bp_rate_down_unit p), speed_to_kbps fl (bp_rate_up p) (bp_rate_up_unit p))"

definition resolve_plan_profile :: "env \<Rightarrow> db \<Rightarrow> access_plan \<Rightarrow> bandwidth_profile option" where
  "resolve_plan_profile e d plan =
     (if truthy_id (p_bandwidth_id plan)
      then guarded None (at_site e S_profile (Inr (find (\<lambda>b. bp_tenant_id b = p_tenant_id plan \<and>
             bp_id b = the (p_bandwidth_id plan)) (bandwidth_profiles d))))
      else None)"

definition rate_str :: "int \<Rightarrow> int \<Rightarrow> string" where
  "rate_str up down = str_of_int up @ ''k/'' @ str_of_int down @ ''k''"

definition plan_rate_limit :: "env \<Rightarrow> db \<Rightarrow> access_plan \<Rightarrow> string option" where
  "plan_rate_limit e d plan =
     (let own = (if p_speed_down_kbps plan \<noteq> 0 \<or> p_speed_up_kbps plan \<noteq> 0
                 then Some (or_default (p_burst_raw plan) (rate_str (p_speed_up_kbps plan) (p_speed_down_kbps plan)))
                 else None) in
      case resolve_plan_profile e d plan of
        None \<Rightarrow> own
      | Some b \<Rightarrow>
          let burst = strip (bp_burst b); (down, up) = profile_rate_kbps (e_fl e) b in
          if burst \<noteq> [] then Some burst
          else if down \<noteq> 0 \<or> up \<noteq> 0 then Some (rate_str up down)
          else own)"

section \<open>The split over devices\<close>

definition SPLIT_MIN_KBPS :: int where "SPLIT_MIN_KBPS = 256"

definition live_device_count :: "env \<Rightarrow> db \<Rightarrow> int \<Rightarrow> string \<Rightarrow> int" where
  "live_device_count e d tid u =
     guarded 1 (at_site e S_device_count (Inr (max 1 (int (length (filter (\<lambda>a. a_stop a = None) (user_rows d tid u)))))))"

definition split_rate :: "bool \<Rightarrow> int \<Rightarrow> int \<Rightarrow> int" where
  "split_rate on n k = (if on \<and> k \<noteq> 0 then max SPLIT_MIN_KBPS (k div n) else k)"

definition apply_device_split :: "env \<Rightarrow> db \<Rightarrow> int \<Rightarrow> string \<Rightarrow> subscriber \<Rightarrow> int \<Rightarrow> int \<Rightarrow> int \<times> int" where
  "apply_device_split e d tid u sub down_k up_k =
     (let n = live_device_count e d tid u in
      if \<not> (s_equal_share_download sub \<or> s_equal_share_upload sub) \<or> n \<le> 1 then (down_k, up_k)
      else (split_rate (s_equal_share_download sub) n down_k, split_rate (s_equal_share_upload sub) n up_k))"

definition sub_plan :: "env \<Rightarrow> db \<Rightarrow> int \<Rightarrow> int option \<Rightarrow> access_plan option" where
  "sub_plan e d tid plan_id =
     (if truthy_id plan_id then guarded None (at_site e S_plan_lookup (Inr (get_plan d tid (the plan_id) True))) else None)"

definition plan_id_for_rule :: "access_plan option \<Rightarrow> int option \<Rightarrow> int option" where
  "plan_id_for_rule plan plan_id = (case plan of Some p \<Rightarrow> Some (p_id p) | None \<Rightarrow> plan_id)"

definition plan_kbps :: "env \<Rightarrow> db \<Rightarrow> access_plan \<Rightarrow> int \<times> int" where
  "plan_kbps e d p =
     (case resolve_plan_profile e d p of
        Some b \<Rightarrow> if profile_rate_kbps (e_fl e) b \<noteq> (0, 0) then profile_rate_kbps (e_fl e) b
                  else (p_speed_down_kbps p, p_speed_up_kbps p)
      | None \<Rightarrow> (p_speed_down_kbps p, p_speed_up_kbps p))"

definition has_own_rate :: "subscriber \<Rightarrow> bool" where
  "has_own_rate sub = (s_bandwidth_control_enabled sub \<and> (s_download_speed_kbps sub \<noteq> 0 \<or> s_upload_speed_kbps sub \<noteq> 0))"

definition base_rate_kbps :: "env \<Rightarrow> db \<Rightarrow> int \<Rightarrow> string \<Rightarrow> ((int \<times> int) \<times> subscriber option) res" where
  "base_rate_kbps e d tid u =
     (case get_subscriber d tid u of
        None \<Rightarrow> Inr ((0, 0), None)
      | Some sub \<Rightarrow>
          let plan = sub_plan e d tid (s_plan_id sub) in
          res_bind (resolve_effective_bandwidth_schedule e d tid u (s_card_batch_id sub) (plan_id_for_rule plan (s_plan_id sub)))
            (\<lambda>rule. Inr (case rule of
                 Some r \<Rightarrow> (sc_speed_down_kbps r, sc_speed_up_kbps r)
               | None \<Rightarrow>
                   if has_own_rate sub then (s_download_speed_kbps sub, s_upload_speed_kbps sub)
                   else (case plan of None \<Rightarrow> (0, 0) | Some p \<Rightarrow> plan_kbps e d p), Some sub)))"

definition effective_rate_kbps :: "env \<Rightarrow> db \<Rightarrow> int \<Rightarrow> string \<Rightarrow> (int \<times> int) res" where
  "effective_rate_kbps e d tid u =
     res_bind (base_rate_kbps e d tid u) (\<lambda>((down, up), sub).
       Inr (case sub of None \<Rightarrow> (0, 0) | Some s \<Rightarrow> apply_device_split e d tid u s down up))"

section \<open>The active speed factor\<close>

text \<open>The decoded setting \<open>speed.active_factors\<close>: the general multiplier (absent or zero is 1), the overrides per
  plan (download and upload, an absent one is the multiplier), the plans it is limited to.\<close>

record speed_factors =
  sf_multiplier :: rat
  sf_overrides :: "(int \<times> rat option \<times> rat option) list"
  sf_profile_ids :: "int list"

definition clamp_factor :: "rat \<Rightarrow> rat" where "clamp_factor f = max 0 (min 5 f)"

definition plan_factors :: "speed_factors \<Rightarrow> int option \<Rightarrow> rat \<times> rat" where
  "plan_factors sf plan_id =
     (let mult = (if sf_multiplier sf = 0 then 1 else sf_multiplier sf);
          ov = (case plan_id of None \<Rightarrow> None | Some p \<Rightarrow> map_of (sf_overrides sf) p)
      in case ov of
           None \<Rightarrow> (clamp_factor mult, clamp_factor mult)
         | Some (dn, up) \<Rightarrow> (clamp_factor (case dn of None \<Rightarrow> mult | Some f \<Rightarrow> f), clamp_factor (case up of None \<Rightarrow> mult | Some f \<Rightarrow> f)))"

definition near_one :: "rat \<Rightarrow> bool" where "near_one f = (\<bar>f - 1\<bar> < 1 / 1000000000)"

text \<open>\<open>int(int(s[:-1]) * f)\<close>: truncation toward zero.\<close>

definition trunc :: "rat \<Rightarrow> int" where "trunc x = (if 0 \<le> x then floor x else - floor (- x))"

definition scale_part :: "(rat \<Rightarrow> rat) \<Rightarrow> rat \<Rightarrow> string \<Rightarrow> string option" where
  "scale_part fl f s =
     (if s = [] \<or> last s \<noteq> CHR ''k'' then None
      else map_option (\<lambda>n. str_of_int (trunc (fl (of_int n * f))) @ ''k'') (parse_int (butlast s)))"

definition scale_rate :: "(rat \<Rightarrow> rat) \<Rightarrow> rat \<times> rat \<Rightarrow> string \<Rightarrow> string" where
  "scale_rate fl fs rate =
     (let (main, tail) = (case split_first (CHR '' '') (strip rate) of
                            None \<Rightarrow> (strip rate, []) | Some (a, b) \<Rightarrow> (a, CHR '' '' # b))
      in case split_first (CHR ''/'') main of
           None \<Rightarrow> rate
         | Some (up, down) \<Rightarrow>
             (case (scale_part fl (snd fs) up, scale_part fl (fst fs) down) of
                (Some u, Some v) \<Rightarrow> u @ ''/'' @ v @ tail
              | _ \<Rightarrow> rate))"

definition apply_active_speed_factor ::
    "env \<Rightarrow> (int \<Rightarrow> speed_factors option) \<Rightarrow> int \<Rightarrow> int option \<Rightarrow> string \<Rightarrow> string" where
  "apply_active_speed_factor e factors tid plan_id rate =
     (case (if e_fault e S_factors then None else factors tid) of
        None \<Rightarrow> rate
      | Some sf \<Rightarrow>
          if rate = [] then rate
          else if sf_profile_ids sf \<noteq> [] \<and> (case plan_id of None \<Rightarrow> False | Some p \<Rightarrow> p \<notin> set (sf_profile_ids sf)) then rate
          else
            let fs = plan_factors sf plan_id in
            if near_one (fst fs) \<and> near_one (snd fs) then rate else scale_rate (e_fl e) fs rate)"

section \<open>The rate a live session should have\<close>

definition opt_str :: "string option \<Rightarrow> string" where "opt_str x = (case x of None \<Rightarrow> [] | Some s \<Rightarrow> s)"

definition card_effective_rate_limit ::
    "env \<Rightarrow> (int \<Rightarrow> speed_factors option) \<Rightarrow> db \<Rightarrow> int \<Rightarrow> card \<Rightarrow> string res" where
  "card_effective_rate_limit e factors d tid c =
     (let plan = sub_plan e d tid (c_plan_id c) in
      res_bind (resolve_effective_bandwidth_schedule e d tid (c_username c) (Some (c_batch_id c)) (plan_id_for_rule plan (c_plan_id c)))
        (\<lambda>rule.
          let r = (case rule of
                     Some x \<Rightarrow> rate_str (sc_speed_up_kbps x) (sc_speed_down_kbps x)
                   | None \<Rightarrow>
                       if c_card_speed_down_kbps c \<noteq> 0 \<and> c_card_speed_up_kbps c \<noteq> 0
                       then rate_str (c_card_speed_up_kbps c) (c_card_speed_down_kbps c)
                       else (case plan of None \<Rightarrow> [] | Some p \<Rightarrow> opt_str (plan_rate_limit e d p)))
          in Inr (if r = [] then r else apply_active_speed_factor e factors tid (c_plan_id c) r)))"

definition sub_cascade :: "env \<Rightarrow> db \<Rightarrow> int \<Rightarrow> string \<Rightarrow> subscriber \<Rightarrow> string res" where
  "sub_cascade e d tid u sub =
     (let plan = sub_plan e d tid (s_plan_id sub) in
      res_bind (resolve_effective_bandwidth_schedule e d tid u (s_card_batch_id sub) (plan_id_for_rule plan (s_plan_id sub)))
        (\<lambda>rule. Inr (case rule of
             Some x \<Rightarrow> rate_str (sc_speed_up_kbps x) (sc_speed_down_kbps x)
           | None \<Rightarrow>
               if has_own_rate sub then rate_str (s_upload_speed_kbps sub) (s_download_speed_kbps sub)
               else (case plan of None \<Rightarrow> [] | Some p \<Rightarrow> opt_str (plan_rate_limit e d p)))))"

definition effective_rate_limit :: "env \<Rightarrow> (int \<Rightarrow> speed_factors option) \<Rightarrow> db \<Rightarrow> int \<Rightarrow> string \<Rightarrow> string res" where
  "effective_rate_limit e factors d tid u =
     (case get_card_by_username d tid u of
        Some c \<Rightarrow> card_effective_rate_limit e factors d tid c
      | None \<Rightarrow>
          (case get_subscriber d tid u of
             None \<Rightarrow> Inr []
           | Some sub \<Rightarrow>
               res_bind
                 (if s_equal_share_download sub \<or> s_equal_share_upload sub
                  then res_bind (effective_rate_kbps e d tid u) (\<lambda>(down, up).
                         if down \<noteq> 0 \<or> up \<noteq> 0 then Inr (rate_str up down) else sub_cascade e d tid u sub)
                  else sub_cascade e d tid u sub)
                 (\<lambda>r. Inr (if r = [] then r else apply_active_speed_factor e factors tid (s_plan_id sub) r))))"

section \<open>Units round trip\<close>


text \<open>Doubles represent every integer up to \<open>2\<^sup>5\<^sup>3\<close> exactly.\<close>

definition exact_ints :: "(rat \<Rightarrow> rat) \<Rightarrow> bool" where
  "exact_ints fl \<longleftrightarrow> (\<forall>n. \<bar>n\<bar> \<le> 2 ^ 53 \<longrightarrow> fl (of_int n) = of_int n)"

lemma round_even_of_int [simp]: "round_even (of_int n) = n"
  by (simp add: round_even_def)

lemma KINDS_pos: "(u, r) \<in> set (KINDS k) \<Longrightarrow> 0 < r"
  by (auto simp: KINDS_def split: unit_kind.splits)

lemma KINDS_distinct: "distinct (map fst (KINDS k))"
  by (simp add: KINDS_def split: unit_kind.splits)

lemma best_unit_divides:
  obtains r where "map_of (KINDS k) (best_unit v k) = Some r" "0 < r" "v mod r = 0"
proof (cases "v = 0 \<or> find (\<lambda>(u, r). r \<le> v \<and> v mod r = 0) (rev (KINDS k)) = None")
  case True
  then have "best_unit v k = fst (hd (KINDS k))" by (auto simp: best_unit_def)
  then have "map_of (KINDS k) (best_unit v k) = Some 1" by (simp add: KINDS_def split: unit_kind.splits)
  then show ?thesis by (rule that) simp_all
next
  case False
  then obtain u r where f: "find (\<lambda>(u, r). r \<le> v \<and> v mod r = 0) (rev (KINDS k)) = Some (u, r)" by auto
  then have "(u, r) \<in> set (rev (KINDS k))" "v mod r = 0" by (auto dest: find_Some_first)
  then have "(u, r) \<in> set (KINDS k)" "v mod r = 0" by simp_all
  moreover have "best_unit v k = u" using f False by (simp add: best_unit_def)
  ultimately show ?thesis using KINDS_pos [of u r k] KINDS_distinct [of k] by (intro that [of r]) auto
qed

text \<open>A stored magnitude shown in its most readable unit and typed back is unchanged: for every kind of
  unit and every value a double holds exactly, the display pair converts back to the value.\<close>

theorem format_pair_roundtrip:
  assumes "exact_ints fl" "\<bar>v\<bar> \<le> 2 ^ 53"
  shows "\<exists>x u. format_pair fl v k = Inr (x, u) \<and> to_base fl x u k = Inr v"
proof -
  obtain r where r: "map_of (KINDS k) (best_unit v k) = Some r" "0 < r" "v mod r = 0" by (rule best_unit_divides)
  let ?n = "v div r"
  have v: "v = ?n * r" using r(3) by auto
  have "\<bar>?n\<bar> * 1 \<le> \<bar>?n\<bar> * r" using r(2) by (intro mult_left_mono) auto
  also have "\<dots> = \<bar>v\<bar>" using v r(2) by (metis abs_mult abs_of_pos)
  finally have n: "\<bar>?n\<bar> \<le> 2 ^ 53" using assms(2) by simp
  have q: "(of_int v :: rat) / of_int r = of_int ?n" using v r(2)
    by (metis nonzero_mult_div_cancel_right of_int_eq_0_iff of_int_mult less_irrefl)
  have f: "fl (of_int ?n) = of_int ?n" "fl (of_int v) = of_int v" using assms n by (simp_all add: exact_ints_def)
  have "fl (fl (of_int v) / of_int r) = of_int ?n" by (simp add: f q)
  moreover have "(of_int ?n :: rat) * of_int r = of_int v" using v by (metis of_int_mult)
  ultimately show ?thesis using r(1) f by (simp add: format_pair_def from_base_def to_base_def)
qed

theorem format_pair_roundtrip_witness:
  "\<exists>x u. format_pair (\<lambda>x. x) 5120 Speed = Inr (x, u) \<and> to_base (\<lambda>x. x) x u Speed = Inr 5120"
  by (rule format_pair_roundtrip) (simp_all add: exact_ints_def)

section \<open>The choice of a rule\<close>

lemma first_in_window_spec:
  assumes "first_in_window cur rs = Inr (Some r)"
  shows "\<exists>before after. rs = before @ r # after \<and> in_time_window cur (sc_starts_at_time r) (sc_ends_at_time r) = Inr True \<and>
    (\<forall>x \<in> set before. in_time_window cur (sc_starts_at_time x) (sc_ends_at_time x) = Inr False)"
  using assms
proof (induction rs)
  case (Cons x rs)
  show ?case
  proof (cases "in_time_window cur (sc_starts_at_time x) (sc_ends_at_time x)")
    case (Inr b)
    show ?thesis
    proof (cases b)
      case True
      with Inr Cons.prems show ?thesis by (intro exI [of _ "[]"] exI [of _ rs]) auto
    next
      case False
      with Inr Cons obtain before after where
        "rs = before @ r # after" "in_time_window cur (sc_starts_at_time r) (sc_ends_at_time r) = Inr True"
        "\<forall>x \<in> set before. in_time_window cur (sc_starts_at_time x) (sc_ends_at_time x) = Inr False" by auto
      with Inr False show ?thesis by (intro exI [of _ "x # before"] exI [of _ after]) auto
    qed
  qed (use Cons in simp)
qed simp

definition rule_before :: "bandwidth_schedule \<Rightarrow> bandwidth_schedule \<Rightarrow> bool" where
  "rule_before a b \<longleftrightarrow> sc_priority a < sc_priority b \<or> (sc_priority a = sc_priority b \<and> sc_id b \<le> sc_id a)"

lemma sorted_insort_stable:
  assumes "sorted_wrt (\<lambda>a b. sc_priority a < sc_priority b \<or> (sc_priority a = sc_priority b \<and> R a b)) xs"
    "\<forall>y \<in> set xs. sc_priority y = sc_priority x \<longrightarrow> R x y"
  shows "sorted_wrt (\<lambda>a b. sc_priority a < sc_priority b \<or> (sc_priority a = sc_priority b \<and> R a b)) (insort_key sc_priority x xs)"
  using assms by (induction xs) (auto simp: set_insort_key)

lemma rules_for_sorted: "sorted_wrt rule_before (rules_for d tid t)"
proof -
  have key: "sorted_wrt (\<lambda>a b. sc_priority a < sc_priority b \<or> (sc_priority a = sc_priority b \<and> R a b)) (sort_key sc_priority xs)"
    if "sorted_wrt R xs" for xs :: "bandwidth_schedule list" and R
    using that by (induction xs) (auto intro!: sorted_insort_stable)
  have "sorted_wrt (\<lambda>a b. sc_id a \<le> sc_id b) (sort_key sc_id xs)" for xs :: "bandwidth_schedule list"
    using sorted_sort_key [of sc_id xs] by (simp add: sorted_map)
  then have "sorted_wrt (\<lambda>a b. sc_id b \<le> sc_id a) (rev (sort_key sc_id xs))" for xs :: "bandwidth_schedule list"
    by (simp add: sorted_wrt_rev)
  from key [OF this] show ?thesis unfolding rules_for_def rule_before_def .
qed

text \<open>The speed rule chosen for a target is an enabled rule of the tenant aimed at it whose window
  contains the local time, and no other such rule comes before it: every rule of smaller priority number, or
  of the same priority and newer, is outside its window.\<close>

theorem active_rule_for_target_best:
  assumes "active_rule_for_target d tid t cur = Inr (Some r)"
  shows "r \<in> set (bandwidth_schedules d) \<and> sc_tenant_id r = tid \<and> sc_enabled r \<and> aimed_at d tid t r \<and>
    in_time_window cur (sc_starts_at_time r) (sc_ends_at_time r) = Inr True \<and>
    (\<forall>x \<in> set (rules_for d tid t). in_time_window cur (sc_starts_at_time x) (sc_ends_at_time x) = Inr True \<longrightarrow> rule_before r x)"
proof -
  obtain before after where rs: "rules_for d tid t = before @ r # after"
    and w: "in_time_window cur (sc_starts_at_time r) (sc_ends_at_time r) = Inr True"
    and b: "\<forall>x \<in> set before. in_time_window cur (sc_starts_at_time x) (sc_ends_at_time x) = Inr False"
    using first_in_window_spec assms unfolding active_rule_for_target_def by blast
  have "\<forall>x \<in> set after. rule_before r x"
    using rules_for_sorted [of d tid t] by (simp add: rs sorted_wrt_append)
  moreover have "rule_before r r" by (simp add: rule_before_def)
  moreover have "r \<in> set (rules_for d tid t)" by (simp add: rs)
  then have "r \<in> set (bandwidth_schedules d) \<and> sc_tenant_id r = tid \<and> sc_enabled r \<and> aimed_at d tid t r"
    by (simp add: rules_for_def)
  ultimately show ?thesis using w b by (auto simp: rs)
qed

section \<open>Shares of the devices\<close>

text \<open>Splitting a rate over the live devices never multiplies it: each device gets at least the floor of
  256 kbps (when there is a rate at all), never more than the whole rate or that floor, and together the
  devices get at most the rate unless the floor binds.\<close>

theorem device_split_bounds:
  assumes "1 < live_device_count e d tid u" "s_equal_share_download sub" "0 < down"
    and "apply_device_split e d tid u sub down up = (dn', up')"
  shows "SPLIT_MIN_KBPS \<le> dn' \<and> dn' \<le> max down SPLIT_MIN_KBPS \<and>
    live_device_count e d tid u * dn' \<le> max down (live_device_count e d tid u * SPLIT_MIN_KBPS)"
proof -
  let ?n = "live_device_count e d tid u"
  have r: "dn' = max SPLIT_MIN_KBPS (down div ?n)"
    using assms by (simp add: apply_device_split_def split_rate_def Let_def)
  have le: "?n * (down div ?n) \<le> down" using assms(1) by (simp flip: minus_mod_eq_mult_div)
  have "1 * (down div ?n) \<le> ?n * (down div ?n)"
    using assms(1,3) by (intro mult_right_mono) (auto simp: pos_imp_zdiv_nonneg_iff)
  with le have "down div ?n \<le> down" by linarith
  moreover note le
  ultimately show ?thesis unfolding r by (auto simp: max_def)
qed

definition shared_db :: db where
  "shared_db = blank_db\<lparr>radacct := [blank_row, blank_row\<lparr>a_radacctid := 2\<rparr>, blank_row\<lparr>a_radacctid := 3\<rparr>]\<rparr>"

theorem device_split_bounds_witness:
  "\<exists>dn' up'. apply_device_split blank_env shared_db 1 ''ali'' (blank_subscriber\<lparr>s_equal_share_download := True\<rparr>) 4000 1000 = (dn', up') \<and>
     256 \<le> dn' \<and> 3 * dn' \<le> 4000"
proof -
  let ?s = "blank_subscriber\<lparr>s_equal_share_download := True\<rparr>"
  have n: "live_device_count blank_env shared_db 1 ''ali'' = 3" by code_simp
  obtain dn' up' where r: "apply_device_split blank_env shared_db 1 ''ali'' ?s 4000 1000 = (dn', up')"
    by (cases "apply_device_split blank_env shared_db 1 ''ali'' ?s 4000 1000")
  show ?thesis using device_split_bounds [OF _ _ _ r] r by (simp add: n SPLIT_MIN_KBPS_def)
qed

definition night_rule :: bandwidth_schedule where
  "night_rule = \<lparr>sc_id = 4, sc_tenant_id = 1, sc_target_type = ''plan'', sc_enabled = True, sc_subscriber_username = [],
     sc_card_batch_id = None, sc_subscriber_group_id = None, sc_plan_id = Some 1, sc_priority = 10,
     sc_starts_at_time = ''22:00'', sc_ends_at_time = ''06:00'', sc_speed_up_kbps = 2000, sc_speed_down_kbps = 8000\<rparr>"

definition scheduled_db :: db where
  "scheduled_db = blank_db\<lparr>bandwidth_schedules :=
     [night_rule\<lparr>sc_id := 3, sc_starts_at_time := ''08:00'', sc_ends_at_time := ''12:00'', sc_priority := 1\<rparr>, night_rule,
      night_rule\<lparr>sc_id := 2\<rparr>]\<rparr>"

theorem active_rule_for_target_best_witness:
  "\<exists>r. active_rule_for_target scheduled_db 1 (By_plan 1) 90 = Inr (Some r) \<and> sc_id r = 4 \<and>
     rule_before r (night_rule\<lparr>sc_id := 2\<rparr>)"
proof -
  have i: "map_option sc_id (projr (active_rule_for_target scheduled_db 1 (By_plan 1) 90)) = Some 4"
    "isl (active_rule_for_target scheduled_db 1 (By_plan 1) 90) = False" by code_simp+
  then obtain r where r: "active_rule_for_target scheduled_db 1 (By_plan 1) 90 = Inr (Some r)" "sc_id r = 4"
    by (cases "active_rule_for_target scheduled_db 1 (By_plan 1) 90") auto
  let ?x = "night_rule\<lparr>sc_id := 2\<rparr>"
  have m: "?x \<in> set (rules_for scheduled_db 1 (By_plan 1))"
    by (simp add: rules_for_def scheduled_db_def aimed_at_def night_rule_def)
  have w: "in_time_window 90 (sc_starts_at_time ?x) (sc_ends_at_time ?x) = Inr True" by code_simp
  show ?thesis using active_rule_for_target_best [OF r(1)] m w r by blast
qed

end
