(* ===== verification/AntiMacClone.thy ===== *)
theory AntiMacClone
  imports AccessControl Tables
begin

text \<open>
  \<open>app/radius/services/anti_mac_clone.py\<close> and \<open>db/repos/mac_clone_repo.py\<close>: a device address is bound to the
  fingerprint of the device that first used it. A later login with the address is compared signal by signal with
  the binding and with the sessions that are open under the same address; a divergence is denied, asks for the
  password once more, or is only recorded, as the tenant chose.
\<close>

section \<open>Settings\<close>

definition clone_defaults :: "(string \<times> string) list" where
  "clone_defaults =
     [(''anti_mac_clone.enabled'', ''0''), (''anti_mac_clone.mode'', ''enforce''), (''anti_mac_clone.scope'', ''all''),
      (''anti_mac_clone.scope_plan_ids'', []), (''anti_mac_clone.scope_group_names'', []),
      (''anti_mac_clone.confidence_min'', ''medium''), (''anti_mac_clone.concurrent_guard'', ''1''),
      (''anti_mac_clone.alert_enabled'', ''1''), (''anti_mac_clone.coa_disconnect'', ''1''),
      (''anti_mac_clone.recent_events_limit'', ''200''), (''anti_mac_clone.stepup_window_sec'', ''120'')]"

definition clone_setting :: "db \<Rightarrow> int \<Rightarrow> string \<Rightarrow> string" where
  "clone_setting d tid key =
     strip (get_setting d tid key (case map_of clone_defaults key of None \<Rightarrow> [] | Some v \<Rightarrow> v))"

definition clone_flag :: "db \<Rightarrow> int \<Rightarrow> string \<Rightarrow> bool" where
  "clone_flag d tid key = (lower (clone_setting d tid key) \<in> {''1'', ''true'', ''t'', ''on'', ''yes''})"

definition clone_enabled :: "db \<Rightarrow> int \<Rightarrow> bool" where
  "clone_enabled d tid = clone_flag d tid ''anti_mac_clone.enabled''"

definition get_settings :: "db \<Rightarrow> int \<Rightarrow> (string \<times> string) list" where
  "get_settings d tid = map (\<lambda>(k, _). (k, clone_setting d tid k)) clone_defaults"

definition CONFIDENCE_RANK :: "string \<Rightarrow> nat option" where
  "CONFIDENCE_RANK c = map_of [(''low'', 1), (''medium'', 2), (''high'', 3)] c"

text \<open>A number of the form clamped to its range; the default where it is no number.\<close>

definition clamped_setting :: "int \<Rightarrow> int \<Rightarrow> string \<Rightarrow> string \<Rightarrow> string" where
  "clamped_setting lo hi raw dflt =
     str_of_int (case parse_int (or_default raw dflt) of
                   Some n \<Rightarrow> max lo (min hi n)
                 | None \<Rightarrow> (case parse_int dflt of Some n \<Rightarrow> n | None \<Rightarrow> 0))"

definition csv_items :: "string \<Rightarrow> string list" where
  "csv_items raw = map strip (split_on (CHR '','') raw)"

definition all_digits :: "string \<Rightarrow> bool" where
  "all_digits p = (p \<noteq> [] \<and> list_all is_digit p)"

text \<open>Lexicographic order of texts by code point.\<close>

fun text_le :: "string \<Rightarrow> string \<Rightarrow> bool" where
  "text_le [] ys = True"
| "text_le (x # xs) [] = False"
| "text_le (x # xs) (y # ys) = (code x < code y \<or> (x = y \<and> text_le xs ys))"

fun insert_text :: "string \<Rightarrow> string list \<Rightarrow> string list" where
  "insert_text x [] = [x]"
| "insert_text x (y # ys) = (if text_le x y then x # y # ys else y # insert_text x ys)"

definition normalize_setting_value :: "string \<Rightarrow> string \<Rightarrow> string \<Rightarrow> string" where
  "normalize_setting_value key raw dflt =
     (if key \<in> {''anti_mac_clone.enabled'', ''anti_mac_clone.concurrent_guard'', ''anti_mac_clone.alert_enabled'', ''anti_mac_clone.coa_disconnect''}
      then (if lower raw \<in> {''1'', ''true'', ''t'', ''on'', ''yes''} then ''1'' else ''0'')
      else if key = ''anti_mac_clone.mode'' then (if raw \<in> {''monitor'', ''stepup'', ''enforce''} then raw else dflt)
      else if key = ''anti_mac_clone.scope'' then (if raw \<in> {''all'', ''plans'', ''groups''} then raw else dflt)
      else if key = ''anti_mac_clone.confidence_min'' then (if raw \<in> {''low'', ''medium'', ''high''} then raw else dflt)
      else if key = ''anti_mac_clone.stepup_window_sec'' then clamped_setting 15 3600 raw dflt
      else if key = ''anti_mac_clone.scope_plan_ids''
      then join_with '','' (sort_key nat_of_digits (remdups (filter all_digits (csv_items raw))))
      else if key = ''anti_mac_clone.scope_group_names''
      then join_with '','' (foldr insert_text (remdups (filter (\<lambda>g. g \<noteq> []) (csv_items raw))) [])
      else if key = ''anti_mac_clone.recent_events_limit'' then clamped_setting 10 2000 raw dflt
      else or_default raw dflt)"

definition set_setting :: "db \<Rightarrow> int \<Rightarrow> string \<Rightarrow> string \<Rightarrow> db" where
  "set_setting d tid key v = d\<lparr>tenant_settings := upsert fst ((tid, key), v) (tenant_settings d)\<rparr>"

fun set_settings_loop :: "(string \<times> string) list \<Rightarrow> db \<Rightarrow> int \<Rightarrow> (string \<times> string) list \<Rightarrow> string list \<times> db" where
  "set_settings_loop [] d tid vals = ([], d)"
| "set_settings_loop ((key, dflt) # ks) d tid vals =
     (case map_of vals key of
        None \<Rightarrow> set_settings_loop ks d tid vals
      | Some raw \<Rightarrow>
          let new = normalize_setting_value key (strip raw) dflt in
          if new \<noteq> get_setting d tid key dflt
          then (let (changed, d1) = set_settings_loop ks (set_setting d tid key new) tid vals in (key # changed, d1))
          else set_settings_loop ks d tid vals)"

definition set_settings :: "db \<Rightarrow> int \<Rightarrow> (string \<times> string) list \<Rightarrow> string list \<times> db" where
  "set_settings d tid vals = set_settings_loop clone_defaults d tid vals"

section \<open>Scope\<close>

definition scope_applies :: "db \<Rightarrow> int \<Rightarrow> int option \<Rightarrow> string \<Rightarrow> bool" where
  "scope_applies d tid plan_id grp =
     (let scope = or_default (clone_setting d tid ''anti_mac_clone.scope'') ''all'' in
      if scope = ''all'' then True
      else if scope = ''plans'' then
        (case plan_id of
           None \<Rightarrow> False
         | Some p \<Rightarrow> p \<in> set (map (\<lambda>t. int (nat_of_digits t))
                         (filter all_digits (split_on (CHR '','') (clone_setting d tid ''anti_mac_clone.scope_plan_ids'')))))
      else if scope = ''groups'' then
        grp \<noteq> [] \<and> grp \<in> set (csv_items (clone_setting d tid ''anti_mac_clone.scope_group_names''))
      else True)"

section \<open>The fingerprint of a login\<close>

definition hash_user_agent :: "env \<Rightarrow> string \<Rightarrow> string" where
  "hash_user_agent e ua = (let s = strip ua in if s = [] then [] else e_sha256 e (map code s))"

definition oui_of :: "string \<Rightarrow> string" where
  "oui_of mac = (let norm = normalize_mac mac in if length norm \<ge> 8 then take 8 norm else [])"

definition device_print_of :: "db \<Rightarrow> int \<Rightarrow> string \<Rightarrow> device_print option" where
  "device_print_of d tid mac =
     (let m = lower (strip mac) in
      if m = [] then None else find (\<lambda>p. dp_tenant_id p = tid \<and> dp_mac p = m) (device_fingerprints d))"

definition build_fingerprint :: "env \<Rightarrow> db \<Rightarrow> int \<Rightarrow> auth_request \<Rightarrow> auth_fingerprint" where
  "build_fingerprint e d tid req =
     (let mac = normalize_mac (r_calling_station_id req);
          dfp = (if mac = [] then None else guarded None (at_site e S_clone_print (Inr (device_print_of d tid mac))))
      in \<lparr>fp_mac = mac, fp_vendor_oui = oui_of mac,
          fp_hostname = (case dfp of None \<Rightarrow> [] | Some p \<Rightarrow> dp_hostname p),
          fp_dhcp_class_id = (case dfp of None \<Rightarrow> [] | Some p \<Rightarrow> dp_dhcp_class_id p),
          fp_os_family = (case dfp of None \<Rightarrow> [] | Some p \<Rightarrow> dp_os_family p),
          fp_device_brand = (case dfp of None \<Rightarrow> [] | Some p \<Rightarrow> dp_device_brand p),
          fp_device_model = (case dfp of None \<Rightarrow> [] | Some p \<Rightarrow> dp_device_model p),
          fp_ua_hash = hash_user_agent e (r_user_agent req), fp_ua_sample = take 40 (strip (r_user_agent req)),
          fp_nas_ip = strip (r_nas_ip req), fp_called_station = strip (r_called_station_id req),
          fp_nas_port = strip (r_nas_port req), fp_nas_port_type = strip (r_nas_port_type req)\<rparr>)"

section \<open>Comparison\<close>

record comparison =
  cmp_score :: int
  cmp_confidence :: string
  cmp_diverged :: "string list"
  cmp_matched :: "string list"

definition WEIGHTS :: "(string \<times> (auth_fingerprint \<Rightarrow> string) \<times> int) list" where
  "WEIGHTS =
     [(''vendor_oui'', fp_vendor_oui, 0), (''os_family'', fp_os_family, 35), (''device_brand'', fp_device_brand, 25),
      (''device_model'', fp_device_model, 15), (''dhcp_class_id'', fp_dhcp_class_id, 20), (''hostname'', fp_hostname, 10),
      (''ua_hash'', fp_ua_hash, 25), (''nas_ip'', fp_nas_ip, 10), (''called_station'', fp_called_station, 10),
      (''nas_port'', fp_nas_port, 3), (''nas_port_type'', fp_nas_port_type, 5)]"

fun compare_loop ::
    "(string \<times> (auth_fingerprint \<Rightarrow> string) \<times> int) list \<Rightarrow> auth_fingerprint \<Rightarrow> auth_fingerprint \<Rightarrow>
     string list \<times> string list \<times> int \<Rightarrow> string list \<times> string list \<times> int" where
  "compare_loop [] b l acc = acc"
| "compare_loop ((key, val, weight) # ws) b l (diverged, matched, score) =
     (let x = strip (val b); y = strip (val l) in
      compare_loop ws b l
        (if x = [] \<or> y = [] then (diverged, matched, score)
         else if x = y then (diverged, matched @ [key], score)
         else (diverged @ [key], matched, score + weight)))"

definition compare_prints :: "auth_fingerprint \<Rightarrow> auth_fingerprint \<Rightarrow> comparison" where
  "compare_prints binding live =
     (let (diverged, matched, total0) = compare_loop WEIGHTS binding live ([], [], 0);
          score = min 100 total0;
          confidence =
            (if score \<ge> 60 \<or> ''os_family'' \<in> set diverged \<or> ''device_brand'' \<in> set diverged then ''high''
             else if score \<ge> 30 \<or> ''dhcp_class_id'' \<in> set diverged \<or> ''ua_hash'' \<in> set diverged then ''medium''
             else ''low'')
      in \<lparr>cmp_score = score, cmp_confidence = confidence, cmp_diverged = diverged, cmp_matched = matched\<rparr>)"

definition is_clone :: "string \<Rightarrow> string \<Rightarrow> bool" where
  "is_clone confidence threshold =
     ((case CONFIDENCE_RANK confidence of None \<Rightarrow> 0 | Some r \<Rightarrow> r) \<ge> (case CONFIDENCE_RANK threshold of None \<Rightarrow> 2 | Some r \<Rightarrow> r))"

section \<open>Sessions open under the same address\<close>

definition find_concurrent_sessions :: "env \<Rightarrow> db \<Rightarrow> int \<Rightarrow> string \<Rightarrow> acct_row list" where
  "find_concurrent_sessions e d tid mac0 =
     (let mac = normalize_mac mac0 in
      if mac = [] then []
      else guarded [] (at_site e S_clone_sessions (Inr
             (filter (\<lambda>a. a_tenant_id a = tid \<and> upper (replace_char (CHR ''-'') (CHR '':'') (a_callingstationid a)) = mac \<and>
                          a_stop a = None) (radacct d)))))"

definition is_divergent_context :: "acct_row \<Rightarrow> auth_fingerprint \<Rightarrow> bool" where
  "is_divergent_context a live =
     (let same_nas = (strip (a_nasipaddress a) = strip (fp_nas_ip live));
          same_ap = (upper (strip (a_calledstationid a)) = upper (strip (fp_called_station live)))
      in \<not> same_nas \<or> (same_nas \<and> \<not> same_ap))"


section \<open>The bindings\<close>

definition binding_key :: "mac_binding \<Rightarrow> int \<times> string \<times> string" where
  "binding_key b = (mb_tenant_id b, mb_username b, fp_mac (mb_print b))"

definition get_binding :: "db \<Rightarrow> int \<Rightarrow> string \<Rightarrow> string \<Rightarrow> mac_binding option" where
  "get_binding d tid u mac0 =
     (let mac = normalize_mac mac0 in
      if u = [] \<or> mac = [] then None else lookup_row binding_key (tid, u, mac) (mac_clone_bindings d))"

definition keep :: "string \<Rightarrow> string \<Rightarrow> string" where
  "keep new old = (if strip new \<noteq> [] then new else old)"

definition merge_print :: "auth_fingerprint \<Rightarrow> auth_fingerprint \<Rightarrow> auth_fingerprint" where
  "merge_print new old =
     \<lparr>fp_mac = fp_mac old, fp_vendor_oui = keep (fp_vendor_oui new) (fp_vendor_oui old),
      fp_hostname = keep (fp_hostname new) (fp_hostname old), fp_dhcp_class_id = keep (fp_dhcp_class_id new) (fp_dhcp_class_id old),
      fp_os_family = keep (fp_os_family new) (fp_os_family old), fp_device_brand = keep (fp_device_brand new) (fp_device_brand old),
      fp_device_model = keep (fp_device_model new) (fp_device_model old), fp_ua_hash = keep (fp_ua_hash new) (fp_ua_hash old),
      fp_ua_sample = keep (fp_ua_sample new) (fp_ua_sample old), fp_nas_ip = keep (fp_nas_ip new) (fp_nas_ip old),
      fp_called_station = keep (fp_called_station new) (fp_called_station old), fp_nas_port = keep (fp_nas_port new) (fp_nas_port old),
      fp_nas_port_type = keep (fp_nas_port_type new) (fp_nas_port_type old)\<rparr>"

definition next_binding_id :: "db \<Rightarrow> int" where
  "next_binding_id d = foldr (\<lambda>b m. max (mb_id b) m) (mac_clone_bindings d) 0 + 1"

definition upsert_binding :: "env \<Rightarrow> db \<Rightarrow> int \<Rightarrow> string \<Rightarrow> auth_fingerprint \<Rightarrow> string \<Rightarrow> db res" where
  "upsert_binding e d tid u live confidence =
     (let mac = normalize_mac (fp_mac live); now = e_now e in
      if u = [] \<or> mac = [] then Inl ValueError
      else
        Inr (d\<lparr>mac_clone_bindings := upsert binding_key
               (case lookup_row binding_key (tid, u, mac) (mac_clone_bindings d) of
                  None \<Rightarrow>
                    \<lparr>mb_id = next_binding_id d, mb_tenant_id = tid, mb_username = u, mb_print = live\<lparr>fp_mac := mac\<rparr>,
                     mb_status = ''active'', mb_bind_confidence = or_default confidence ''medium'', mb_first_seen_at = now,
                     mb_last_seen_at = now, mb_last_verified_at = now, mb_verify_count = 0, mb_mismatch_count = 0\<rparr>
                | Some b \<Rightarrow>
                    b\<lparr>mb_print := merge_print live (mb_print b), mb_last_seen_at := now, mb_last_verified_at := now,
                      mb_verify_count := mb_verify_count b + 1\<rparr>)
               (mac_clone_bindings d)\<rparr>))"

definition bump_mismatch :: "env \<Rightarrow> db \<Rightarrow> int \<Rightarrow> string \<Rightarrow> string \<Rightarrow> db" where
  "bump_mismatch e d tid u mac0 =
     (let mac = normalize_mac mac0 in
      if u = [] \<or> mac = [] then d
      else d\<lparr>mac_clone_bindings := map (\<lambda>b. if binding_key b = (tid, u, mac)
               then b\<lparr>mb_mismatch_count := mb_mismatch_count b + 1, mb_last_seen_at := e_now e\<rparr> else b) (mac_clone_bindings d)\<rparr>)"

definition set_binding_status :: "db \<Rightarrow> int \<Rightarrow> int \<Rightarrow> string \<Rightarrow> bool \<times> db" where
  "set_binding_status d tid bid status =
     (let hit = (\<lambda>b. mb_tenant_id b = tid \<and> mb_id b = bid) in
      if status \<notin> {''active'', ''superseded'', ''suspended''} then (False, d)
      else (\<exists>b \<in> set (mac_clone_bindings d). hit b,
            d\<lparr>mac_clone_bindings := map (\<lambda>b. if hit b then b\<lparr>mb_status := status\<rparr> else b) (mac_clone_bindings d)\<rparr>))"

definition delete_binding :: "db \<Rightarrow> int \<Rightarrow> int \<Rightarrow> bool \<times> db" where
  "delete_binding d tid bid =
     (let hit = (\<lambda>b. mb_tenant_id b = tid \<and> mb_id b = bid) in
      (\<exists>b \<in> set (mac_clone_bindings d). hit b, d\<lparr>mac_clone_bindings := filter (\<lambda>b. \<not> hit b) (mac_clone_bindings d)\<rparr>))"

definition log_event :: "env \<Rightarrow> db \<Rightarrow> clone_event \<Rightarrow> (string \<times> json) list \<Rightarrow> db" where
  "log_event e d ev signals =
     d\<lparr>mac_clone_events := mac_clone_events d @
        [ev\<lparr>ce_mac := normalize_mac (ce_mac ev), ce_signals := (if signals = [] then Blank else Decoded (JObj signals)),
            ce_created_at := e_now e\<rparr>]\<rparr>"

section \<open>The verdict\<close>

record clone_verdict =
  cv_action :: string
  cv_reason :: string
  cv_message :: string
  cv_confidence :: string
  cv_score :: int
  cv_signals :: "(string \<times> json) list"
  cv_coa_kick :: "(string \<times> string) list"

definition confidence_min :: "db \<Rightarrow> int \<Rightarrow> string" where
  "confidence_min d tid =
     (let v = or_default (clone_setting d tid ''anti_mac_clone.confidence_min'') ''medium''
      in if CONFIDENCE_RANK v \<noteq> None then v else ''medium'')"

definition live_fingerprint_hash :: "env \<Rightarrow> auth_fingerprint \<Rightarrow> string" where
  "live_fingerprint_hash e fp =
     e_sha256 e (map code (join_with ''|''
       [fp_os_family fp, fp_device_brand fp, fp_device_model fp, fp_dhcp_class_id fp, fp_hostname fp, fp_ua_hash fp, fp_vendor_oui fp]))"

definition stepup_window_sec :: "db \<Rightarrow> int \<Rightarrow> int" where
  "stepup_window_sec d tid =
     max 15 (min 3600 (case parse_int (or_default (clone_setting d tid ''anti_mac_clone.stepup_window_sec'') ''120'') of
                         None \<Rightarrow> 120 | Some n \<Rightarrow> n))"

definition event_live_hash :: "clone_event \<Rightarrow> json option" where
  "event_live_hash ev = (case ce_signals ev of Decoded (JObj kvs) \<Rightarrow> map_of kvs ''live_hash'' | _ \<Rightarrow> None)"

definition has_recent_stepup_pending :: "env \<Rightarrow> db \<Rightarrow> int \<Rightarrow> string \<Rightarrow> string \<Rightarrow> string \<Rightarrow> int \<Rightarrow> bool" where
  "has_recent_stepup_pending e d tid u mac live_hash window_sec =
     guarded False (at_site e S_clone_pending (Inr
       (let rows = take 5 (rev (sort_key ce_created_at (filter (\<lambda>ev. ce_tenant_id ev = tid \<and> ce_username ev = u \<and> ce_mac ev = mac \<and>
              ce_event_type ev = ''stepup_required'' \<and> e_now e - seconds window_sec \<le> ce_created_at ev) (mac_clone_events d))))
        in \<exists>ev \<in> set rows. event_live_hash ev = Some (JStr live_hash))))"

definition divergent_sessions :: "env \<Rightarrow> db \<Rightarrow> int \<Rightarrow> auth_fingerprint \<Rightarrow> acct_row list" where
  "divergent_sessions e d tid live =
     (if clone_flag d tid ''anti_mac_clone.concurrent_guard''
      then filter (\<lambda>a. is_divergent_context a live) (find_concurrent_sessions e d tid (fp_mac live)) else [])"

definition print_json :: "auth_fingerprint \<Rightarrow> json" where
  "print_json fp = JObj
     [(''mac'', JStr (fp_mac fp)), (''vendor_oui'', JStr (fp_vendor_oui fp)), (''hostname'', JStr (fp_hostname fp)),
      (''dhcp_class_id'', JStr (fp_dhcp_class_id fp)), (''os_family'', JStr (fp_os_family fp)), (''device_brand'', JStr (fp_device_brand fp)),
      (''device_model'', JStr (fp_device_model fp)), (''ua_hash'', JStr (fp_ua_hash fp)), (''ua_sample'', JStr (fp_ua_sample fp)),
      (''nas_ip'', JStr (fp_nas_ip fp)), (''called_station'', JStr (fp_called_station fp)), (''nas_port'', JStr (fp_nas_port fp)),
      (''nas_port_type'', JStr (fp_nas_port_type fp))]"

text \<open>No binding yet: a divergent session under the address is a clone, anything else binds.\<close>

definition verdict_unbound :: "string \<Rightarrow> bool \<Rightarrow> (string \<times> string) list \<Rightarrow> auth_fingerprint \<Rightarrow> clone_verdict" where
  "verdict_unbound mode concurrent_clone coa_kick live =
     (let signals = [(''reason'', JStr ''concurrent_divergent_no_binding''), (''live'', print_json live)] in
      if concurrent_clone then
        \<lparr>cv_action = (if mode = ''enforce'' then ''deny'' else ''monitor''), cv_reason = ''mac_clone_detected'',
         cv_message = (if mode = ''enforce'' then ''MSG_CLONE'' else []), cv_confidence = ''high'', cv_score = 100,
         cv_signals = signals, cv_coa_kick = coa_kick\<rparr>
      else
        \<lparr>cv_action = ''allow'', cv_reason = ''first_bind'', cv_message = [], cv_confidence = ''high'', cv_score = 0,
         cv_signals = [(''new'', JBool True)], cv_coa_kick = []\<rparr>)"

definition verdict_bound ::
    "env \<Rightarrow> db \<Rightarrow> int \<Rightarrow> string \<Rightarrow> string \<Rightarrow> bool \<Rightarrow> (string \<times> string) list \<Rightarrow> mac_binding \<Rightarrow> auth_fingerprint \<Rightarrow> clone_verdict" where
  "verdict_bound e d tid u mode concurrent_clone coa_kick binding live =
     (let cmp = compare_prints (mb_print binding) live;
          live_hash = live_fingerprint_hash e live;
          confidence = (if concurrent_clone then ''high'' else cmp_confidence cmp);
          score = (if concurrent_clone then max (cmp_score cmp) 80 else cmp_score cmp);
          signals = [(''diverged'', JArr (map JStr (cmp_diverged cmp))), (''matched'', JArr (map JStr (cmp_matched cmp))),
                     (''score'', JNum (cmp_score cmp)), (''concurrent_divergent'', JBool concurrent_clone)] @
                    (if concurrent_clone then [(''concurrent_lift'', JBool True)] else []);
          signals1 = signals @ [(''live_hash'', JStr live_hash)];
          window = stepup_window_sec d tid;
          result = \<lparr>cv_action = ''deny'', cv_reason = ''mac_clone_detected'', cv_message = ''MSG_CLONE'', cv_confidence = confidence,
                    cv_score = score, cv_signals = signals1, cv_coa_kick = coa_kick\<rparr>
      in
      if \<not> is_clone confidence (confidence_min d tid) \<and> \<not> concurrent_clone then
        result\<lparr>cv_action := ''allow'', cv_reason := ''verify_ok'', cv_message := [], cv_signals := signals, cv_coa_kick := []\<rparr>
      else if concurrent_clone \<and> mode \<noteq> ''monitor'' then result
      else if mode = ''stepup'' then
        (if has_recent_stepup_pending e d tid u (fp_mac live) live_hash window
         then result\<lparr>cv_action := ''allow'', cv_reason := ''stepup_confirmed'', cv_message := [],
                     cv_signals := signals1 @ [(''stepup_confirmed'', JBool True), (''stepup_window_sec'', JNum window)], cv_coa_kick := []\<rparr>
         else result\<lparr>cv_reason := ''stepup_required'', cv_message := ''MSG_STEPUP'',
                     cv_signals := signals1 @ [(''stepup_window_sec'', JNum window)]\<rparr>)
      else if mode = ''enforce'' then result
      else result\<lparr>cv_action := ''monitor'', cv_message := []\<rparr>)"

definition evaluate_clone ::
    "env \<Rightarrow> db \<Rightarrow> int \<Rightarrow> string \<Rightarrow> int option \<Rightarrow> string \<Rightarrow> auth_fingerprint \<Rightarrow> clone_verdict option" where
  "evaluate_clone e d tid u plan_id grp live =
     guarded None (at_site e S_clone_eval (Inr
       (if \<not> clone_enabled d tid \<or> \<not> scope_applies d tid plan_id grp \<or> fp_mac live = [] then None
        else
          let mode = lower (or_default (clone_setting d tid ''anti_mac_clone.mode'') ''enforce'');
              clones = divergent_sessions e d tid live;
              coa_kick = map (\<lambda>a. (a_username a, a_acctsessionid a))
                           (filter (\<lambda>a. a_username a \<noteq> [] \<and> a_acctsessionid a \<noteq> []) clones)
          in Some (case get_binding d tid u (fp_mac live) of
                     None \<Rightarrow> verdict_unbound mode (clones \<noteq> []) coa_kick live
                   | Some b \<Rightarrow> verdict_bound e d tid u mode (clones \<noteq> []) coa_kick b live))))"

section \<open>Carrying it out\<close>

definition event_type_of :: "string \<Rightarrow> string" where
  "event_type_of reason =
     (case map_of [(''first_bind'', ''bind''), (''verify_ok'', ''verify_ok''), (''mac_clone_detected'', ''clone_detected''),
                   (''stepup_required'', ''stepup_required''), (''stepup_confirmed'', ''verify_ok'')] reason of
        None \<Rightarrow> ''verify_ok'' | Some t \<Rightarrow> t)"

definition event_of :: "int \<Rightarrow> string \<Rightarrow> auth_fingerprint \<Rightarrow> clone_verdict \<Rightarrow> clone_event" where
  "event_of tid u live v =
     \<lparr>ce_tenant_id = tid, ce_username = u, ce_mac = fp_mac live, ce_event_type = event_type_of (cv_reason v), ce_decision = cv_action v,
      ce_confidence = cv_confidence v, ce_score = cv_score v, ce_signals = Blank, ce_nas_ip = fp_nas_ip live,
      ce_called_station = fp_called_station live, ce_nas_port = fp_nas_port live, ce_reason = cv_reason v, ce_created_at = 0\<rparr>"

text \<open>A confirmed step-up deletes the old binding and then writes the new one, in two transactions.\<close>

definition update_binding :: "env \<Rightarrow> db \<Rightarrow> int \<Rightarrow> string \<Rightarrow> auth_fingerprint \<Rightarrow> clone_verdict \<Rightarrow> db" where
  "update_binding e d tid u live v =
     (if cv_reason v \<in> {''mac_clone_detected'', ''stepup_required''}
      then (if e_fault e S_clone_bind then d else bump_mismatch e d tid u (fp_mac live))
      else if cv_reason v = ''stepup_confirmed'' then
        (if e_fault e S_clone_delete then d
         else
           let d1 = (case get_binding d tid u (fp_mac live) of None \<Rightarrow> d | Some b \<Rightarrow> snd (delete_binding d tid (mb_id b)))
           in guarded d1 (at_site e S_clone_bind (upsert_binding e d1 tid u live ''medium'')))
      else guarded d (at_site e S_clone_bind
             (upsert_binding e d tid u live (if cv_reason v = ''first_bind'' then ''high'' else ''medium''))))"

definition kick_event :: "int \<Rightarrow> string \<Rightarrow> auth_fingerprint \<Rightarrow> clone_verdict \<Rightarrow> clone_event" where
  "kick_event tid kick_user live v =
     (event_of tid kick_user live v)\<lparr>ce_event_type := ''concurrent_kick'', ce_decision := ''deny'',
        ce_reason := ''CoA-Disconnect after clone detected''\<rparr>"

definition kick_session :: "env \<Rightarrow> int \<Rightarrow> string \<Rightarrow> auth_fingerprint \<Rightarrow> clone_verdict \<Rightarrow> string \<times> string \<Rightarrow> db \<Rightarrow> db" where
  "kick_session e tid u live v kick d =
     (if e_fault e S_coa then d
      else
        let d1 = d\<lparr>coa_disconnects := coa_disconnects d @ [(tid, fst kick, snd kick)]\<rparr>
        in if e_fault e S_clone_log then d1
           else log_event e d1 (kick_event tid (fst kick) live v) [(''kicked'', JStr (snd kick)), (''trigger_user'', JStr u)])"

definition apply_decision :: "env \<Rightarrow> db \<Rightarrow> int \<Rightarrow> string \<Rightarrow> auth_fingerprint \<Rightarrow> clone_verdict \<Rightarrow> db" where
  "apply_decision e d tid u live v =
     (let d1 = (if e_fault e S_clone_log then d else log_event e d (event_of tid u live v) (cv_signals v));
          d2 = update_binding e d1 tid u live v;
          d3 = (if cv_reason v \<in> {''mac_clone_detected'', ''stepup_required''} \<and> clone_flag d2 tid ''anti_mac_clone.alert_enabled'' \<and>
                   \<not> e_fault e S_clone_alert
                then d2\<lparr>notifications := notifications d2 @ [(tid, ''mac_clone_detected'', u)]\<rparr> else d2)
      in if cv_coa_kick v \<noteq> [] \<and> clone_flag d3 tid ''anti_mac_clone.coa_disconnect'' \<and> cv_action v = ''deny''
         then fold (kick_session e tid u live v) (cv_coa_kick v) d3 else d3)"

definition check_after_auth :: "env \<Rightarrow> db \<Rightarrow> int \<Rightarrow> string \<Rightarrow> int option \<Rightarrow> string \<Rightarrow> auth_request \<Rightarrow> clone_verdict option \<times> db" where
  "check_after_auth e d tid u plan_id grp req =
     (if \<not> clone_enabled d tid then (None, d)
      else
        let live = build_fingerprint e d tid req in
        case evaluate_clone e d tid u plan_id grp live of
          None \<Rightarrow> (None, d)
        | Some v \<Rightarrow> (Some v, apply_decision e d tid u live v))"

section \<open>What a decision writes\<close>

lemma upsert_binding_only: "upsert_binding e d tid u live c = Inr d' \<Longrightarrow> \<exists>x. d' = d\<lparr>mac_clone_bindings := x\<rparr>"
  by (auto simp: upsert_binding_def Let_def split: if_splits)

lemma update_binding_only: "\<exists>x. update_binding e d tid u live v = d\<lparr>mac_clone_bindings := x\<rparr>"
proof -
  have id: "\<exists>x. d = d\<lparr>mac_clone_bindings := x\<rparr>" by (rule exI [of _ "mac_clone_bindings d"]) simp
  have up: "\<exists>x. guarded d0 (at_site e S_clone_bind (upsert_binding e d0 tid u live c)) = d\<lparr>mac_clone_bindings := x\<rparr>"
    if "\<exists>x. d0 = d\<lparr>mac_clone_bindings := x\<rparr>" for d0 c
    using that
    by (cases "at_site e S_clone_bind (upsert_binding e d0 tid u live c)") (auto simp: guarded_def at_site_Inr dest!: upsert_binding_only)
  have del: "\<exists>x. (case b of None \<Rightarrow> d | Some b \<Rightarrow> snd (delete_binding d tid (mb_id b))) = d\<lparr>mac_clone_bindings := x\<rparr>" for b
    using id by (auto simp: delete_binding_def Let_def split: option.split)
  have bump: "\<exists>x. bump_mismatch e d tid u m = d\<lparr>mac_clone_bindings := x\<rparr>" for m
    using id by (auto simp: bump_mismatch_def Let_def)
  show ?thesis unfolding update_binding_def Let_def by (simp only: id up [OF id] up [OF del] bump split: if_split) blast
qed

end
