(* ===== verification/CloneProperties.thy ===== *)
theory CloneProperties
  imports AntiMacClone AllowMode DeviceLimit
begin

text \<open>
  What the anti-clone check promises: when a returning device is let in, which sessions it may disconnect, and
  that a step-up ends with the binding of the confirmed device.
\<close>

section \<open>The comparison\<close>

definition differs :: "auth_fingerprint \<Rightarrow> auth_fingerprint \<Rightarrow> string \<times> (auth_fingerprint \<Rightarrow> string) \<times> int \<Rightarrow> bool" where
  "differs b l w = (let x = strip (fst (snd w) b); y = strip (fst (snd w) l) in x \<noteq> [] \<and> y \<noteq> [] \<and> x \<noteq> y)"

definition agrees :: "auth_fingerprint \<Rightarrow> auth_fingerprint \<Rightarrow> string \<times> (auth_fingerprint \<Rightarrow> string) \<times> int \<Rightarrow> bool" where
  "agrees b l w = (let x = strip (fst (snd w) b); y = strip (fst (snd w) l) in x \<noteq> [] \<and> x = y)"

lemma compare_loop_eq:
  "compare_loop ws b l (dv, mt, sc) =
     (dv @ map fst (filter (differs b l) ws), mt @ map fst (filter (agrees b l) ws),
      sc + sum_list (map (\<lambda>w. snd (snd w)) (filter (differs b l) ws)))"
  by (induction ws arbitrary: dv mt sc) (auto simp: differs_def agrees_def Let_def split: prod.splits)

lemma compare_prints_eq:
  "cmp_diverged (compare_prints b l) = map fst (filter (differs b l) WEIGHTS)"
  "cmp_score (compare_prints b l) = min 100 (sum_list (map (\<lambda>w. snd (snd w)) (filter (differs b l) WEIGHTS)))"
  by (simp_all add: compare_prints_def compare_loop_eq Let_def)

lemma compare_same:
  assumes "cmp_diverged (compare_prints b l) = []"
  shows "cmp_confidence (compare_prints b l) = ''low''" "cmp_score (compare_prints b l) = 0"
proof -
  from assms have "filter (differs b l) WEIGHTS = []" by (simp add: compare_prints_eq)
  then show "cmp_confidence (compare_prints b l) = ''low''" "cmp_score (compare_prints b l) = 0"
    by (simp_all add: compare_prints_def compare_loop_eq Let_def)
qed

lemma compare_confidence: "cmp_confidence (compare_prints b l) \<in> {''low'', ''medium'', ''high''}"
  by (simp add: compare_prints_def compare_loop_eq Let_def)

lemma compare_self: "cmp_diverged (compare_prints b b) = []"
  by (simp add: compare_prints_eq differs_def Let_def)

lemma is_clone_low: "is_clone ''low'' t \<longleftrightarrow> t = ''low''" if "CONFIDENCE_RANK t \<noteq> None"
  using that by (auto simp: is_clone_def CONFIDENCE_RANK_def split: if_splits)

lemma is_clone_threshold_low: "c \<in> {''low'', ''medium'', ''high''} \<Longrightarrow> is_clone c ''low''"
  by (auto simp: is_clone_def CONFIDENCE_RANK_def)

lemma confidence_min_rank: "CONFIDENCE_RANK (confidence_min d tid) \<noteq> None"
  by (auto simp: confidence_min_def CONFIDENCE_RANK_def Let_def)

section \<open>A returning device\<close>

definition guards_login :: "env \<Rightarrow> db \<Rightarrow> int \<Rightarrow> int option \<Rightarrow> string \<Rightarrow> auth_fingerprint \<Rightarrow> bool" where
  "guards_login e d tid plan_id grp live =
     (\<not> e_fault e S_clone_eval \<and> clone_enabled d tid \<and> scope_applies d tid plan_id grp \<and> fp_mac live \<noteq> [])"

definition clone_mode :: "db \<Rightarrow> int \<Rightarrow> string" where
  "clone_mode d tid = lower (or_default (clone_setting d tid ''anti_mac_clone.mode'') ''enforce'')"

lemma evaluate_bound:
  assumes "guards_login e d tid pid g live" "get_binding d tid u (fp_mac live) = Some b"
  obtains ks where "evaluate_clone e d tid u pid g live =
    Some (verdict_bound e d tid u (clone_mode d tid) (divergent_sessions e d tid live \<noteq> []) ks b live)"
  using assms by (simp add: evaluate_clone_def guards_login_def guarded_def clone_mode_def Let_def)

text \<open>With enforcement on, a device that returns with no signal changed and no session elsewhere is let in exactly
  when the tenant's threshold is not the lowest: the comparison calls an unchanged device \<open>low\<close>, so the threshold
  \<open>low\<close> denies every device on its second login, whatever it presents.\<close>

theorem returning_device_threshold:
  assumes "guards_login e d tid pid g live" "clone_mode d tid = ''enforce''"
    "get_binding d tid u (fp_mac live) = Some b" "divergent_sessions e d tid live = []"
  shows "\<exists>v. evaluate_clone e d tid u pid g live = Some v \<and>
    (cmp_diverged (compare_prints (mb_print b) live) = [] \<and> confidence_min d tid \<noteq> ''low'' \<longrightarrow> cv_action v = ''allow'') \<and>
    (confidence_min d tid = ''low'' \<longrightarrow> cv_action v = ''deny'')"
proof -
  from evaluate_bound [OF assms(1,3)] assms(2,4) obtain ks where
    "evaluate_clone e d tid u pid g live = Some (verdict_bound e d tid u ''enforce'' False ks b live)" by auto
  moreover have "cv_action (verdict_bound e d tid u ''enforce'' False ks b live) =
      (if is_clone (cmp_confidence (compare_prints (mb_print b) live)) (confidence_min d tid) then ''deny'' else ''allow'')"
    by (simp add: verdict_bound_def Let_def)
  ultimately show ?thesis
    using compare_same(1) is_clone_low [OF confidence_min_rank] is_clone_threshold_low [OF compare_confidence] by auto
qed

section \<open>Disconnecting the other session\<close>

lemma kick_session_coa:
  "coa_disconnects (kick_session e tid u live v k d) = coa_disconnects d @ (if e_fault e S_coa then [] else [(tid, fst k, snd k)])"
  by (simp add: kick_session_def log_event_def Let_def)

lemma kicks_coa:
  "coa_disconnects (fold (kick_session e tid u live v) ks d) =
     coa_disconnects d @ (if e_fault e S_coa then [] else map (\<lambda>k. (tid, fst k, snd k)) ks)"
  by (induction ks arbitrary: d) (auto simp: kick_session_coa)

lemma update_binding_frame [simp]:
  "coa_disconnects (update_binding e d tid u live v) = coa_disconnects d"
  "tenant_settings (update_binding e d tid u live v) = tenant_settings d"
  "mac_clone_events (update_binding e d tid u live v) = mac_clone_events d"
  "device_fingerprints (update_binding e d tid u live v) = device_fingerprints d"
  "radacct (update_binding e d tid u live v) = radacct d"
  using update_binding_only [of e d tid u live v] by auto

lemma apply_decision_coa:
  "\<exists>ks. coa_disconnects (apply_decision e d tid u live v) = coa_disconnects d @ map (\<lambda>k. (tid, fst k, snd k)) ks \<and>
     (ks = [] \<or> (ks = cv_coa_kick v \<and> cv_action v = ''deny''))"
  by (auto simp: apply_decision_def Let_def kicks_coa log_event_def)

lemma kick_targets:
  assumes "evaluate_clone e d tid u pid g live = Some v" "k \<in> set (cv_coa_kick v)"
  shows "\<exists>a \<in> set (radacct d). k = (a_username a, a_acctsessionid a) \<and> a_tenant_id a = tid \<and> a_stop a = None \<and>
    upper (replace_char (CHR ''-'') (CHR '':'') (a_callingstationid a)) = normalize_mac (fp_mac live) \<and> is_divergent_context a live"
proof -
  from assms have "k \<in> set (map (\<lambda>a. (a_username a, a_acctsessionid a)) (filter (\<lambda>a. a_username a \<noteq> [] \<and> a_acctsessionid a \<noteq> [])
      (divergent_sessions e d tid live)))"
    by (auto simp: evaluate_clone_def guarded_def at_site_def verdict_unbound_def verdict_bound_def Let_def split: if_splits option.splits)
  then show ?thesis
    by (auto simp: divergent_sessions_def find_concurrent_sessions_def guarded_def at_site_def Let_def split: if_splits)
qed

text \<open>C33. The check against copied device addresses asks for the disconnection of a session only when it denies the login,
  and only of sessions that are
  open under its own device address at another router or access point; nobody else's session is touched. (The
  replacement mode of the device limit, which ends the oldest session for an admitted login, is another check.)\<close>

theorem clone_kicks_only_divergent:
  assumes "check_after_auth e d tid u pid g req = (r, d')"
  shows "\<exists>ks. coa_disconnects d' = coa_disconnects d @ ks \<and> (ks \<noteq> [] \<longrightarrow> r \<noteq> None \<and> cv_action (the r) = ''deny'') \<and>
    (\<forall>k \<in> set ks. \<exists>a \<in> set (radacct d). k = (tid, a_username a, a_acctsessionid a) \<and> a_tenant_id a = tid \<and> a_stop a = None \<and>
       upper (replace_char (CHR ''-'') (CHR '':'') (a_callingstationid a)) = normalize_mac (normalize_mac (r_calling_station_id req)) \<and>
       is_divergent_context a (build_fingerprint e d tid req))"
proof (cases "r")
  case None
  with assms have "d' = d" by (auto simp: check_after_auth_def Let_def split: if_splits option.splits)
  then show ?thesis by (intro exI [of _ "[]"]) simp
next
  case (Some v)
  let ?live = "build_fingerprint e d tid req"
  from assms Some have v: "evaluate_clone e d tid u pid g ?live = Some v" "d' = apply_decision e d tid u ?live v"
    by (auto simp: check_after_auth_def Let_def split: if_splits option.splits)
  have m: "fp_mac ?live = normalize_mac (r_calling_station_id req)" by (simp add: build_fingerprint_def Let_def)
  from apply_decision_coa [of e d tid u ?live v] obtain ks where ks:
    "coa_disconnects d' = coa_disconnects d @ map (\<lambda>k. (tid, fst k, snd k)) ks" "ks = [] \<or> (ks = cv_coa_kick v \<and> cv_action v = ''deny'')"
    unfolding v(2) by blast
  show ?thesis
  proof (intro exI [of _ "map (\<lambda>k. (tid, fst k, snd k)) ks"] conjI ballI)
    fix k assume "k \<in> set (map (\<lambda>k. (tid, fst k, snd k)) ks)"
    then obtain p where p: "p \<in> set (cv_coa_kick v)" "k = (tid, fst p, snd p)" using ks(2) by auto
    from kick_targets [OF v(1) p(1)] p(2) m show "\<exists>a \<in> set (radacct d). k = (tid, a_username a, a_acctsessionid a) \<and> a_tenant_id a = tid \<and> a_stop a = None \<and>
       upper (replace_char (CHR ''-'') (CHR '':'') (a_callingstationid a)) = normalize_mac (normalize_mac (r_calling_station_id req)) \<and>
       is_divergent_context a ?live" by auto
  qed (use ks Some in auto)
qed

section \<open>Step-up\<close>

lemma evaluate_bound_alone:
  assumes "guards_login e d tid pid g live" "get_binding d tid u (fp_mac live) = Some b" "divergent_sessions e d tid live = []"
  shows "evaluate_clone e d tid u pid g live = Some (verdict_bound e d tid u (clone_mode d tid) False [] b live)"
  using assms by (simp add: evaluate_clone_def guards_login_def guarded_def clone_mode_def Let_def)

lemma apply_decision_frame [simp]:
  "tenant_settings (apply_decision e d tid u live v) = tenant_settings d"
  "device_fingerprints (apply_decision e d tid u live v) = device_fingerprints d"
  "radacct (apply_decision e d tid u live v) = radacct d"
proof -
  have "tenant_settings (fold (kick_session e tid u live v) ks d) = tenant_settings d \<and>
      device_fingerprints (fold (kick_session e tid u live v) ks d) = device_fingerprints d \<and>
      radacct (fold (kick_session e tid u live v) ks d) = radacct d" for ks d
    by (induction ks arbitrary: d) (simp_all add: kick_session_def log_event_def Let_def)
  then show "tenant_settings (apply_decision e d tid u live v) = tenant_settings d"
    "device_fingerprints (apply_decision e d tid u live v) = device_fingerprints d"
    "radacct (apply_decision e d tid u live v) = radacct d"
    by (simp_all add: apply_decision_def log_event_def Let_def)
qed

lemma clone_settings_cong:
  assumes "tenant_settings d' = tenant_settings d"
  shows "clone_setting d' tid k = clone_setting d tid k" "clone_flag d' tid k = clone_flag d tid k" "clone_enabled d' tid = clone_enabled d tid"
    "scope_applies d' tid pid g = scope_applies d tid pid g" "clone_mode d' tid = clone_mode d tid" "confidence_min d' tid = confidence_min d tid"
    "stepup_window_sec d' tid = stepup_window_sec d tid"
proof -
  show s: "clone_setting d' tid k = clone_setting d tid k" for k by (simp add: clone_setting_def get_setting_def assms)
  show f: "clone_flag d' tid k = clone_flag d tid k" for k by (simp add: clone_flag_def s)
  show "clone_enabled d' tid = clone_enabled d tid" by (simp add: clone_enabled_def f)
  show "scope_applies d' tid pid g = scope_applies d tid pid g" by (simp only: scope_applies_def s)
  show "clone_mode d' tid = clone_mode d tid" by (simp add: clone_mode_def s)
  show "confidence_min d' tid = confidence_min d tid" by (simp add: confidence_min_def s)
  show "stepup_window_sec d' tid = stepup_window_sec d tid" by (simp add: stepup_window_sec_def s)
qed

lemma build_fingerprint_cong:
  "device_fingerprints d' = device_fingerprints d \<Longrightarrow> build_fingerprint (e\<lparr>e_now := t\<rparr>) d' tid req = build_fingerprint e d tid req"
  by (simp add: build_fingerprint_def device_print_of_def hash_user_agent_def at_site_def Let_def)

lemma divergent_sessions_cong:
  "tenant_settings d' = tenant_settings d \<Longrightarrow> radacct d' = radacct d \<Longrightarrow>
   divergent_sessions (e\<lparr>e_now := t\<rparr>) d' tid live = divergent_sessions e d tid live"
  by (simp add: divergent_sessions_def find_concurrent_sessions_def at_site_def clone_settings_cong [of d' d] Let_def)

text \<open>The verdict on a suspect device in step-up mode.\<close>

lemma verdict_stepup:
  assumes "is_clone (cmp_confidence (compare_prints (mb_print b) live)) (confidence_min d tid)"
  shows "cv_reason (verdict_bound e d tid u ''stepup'' False [] b live) =
      (if has_recent_stepup_pending e d tid u (fp_mac live) (live_fingerprint_hash e live) (stepup_window_sec d tid)
       then ''stepup_confirmed'' else ''stepup_required'')"
    and "cv_action (verdict_bound e d tid u ''stepup'' False [] b live) =
      (if has_recent_stepup_pending e d tid u (fp_mac live) (live_fingerprint_hash e live) (stepup_window_sec d tid)
       then ''allow'' else ''deny'')"
    and "map_of (cv_signals (verdict_bound e d tid u ''stepup'' False [] b live)) ''live_hash'' = Some (JStr (live_fingerprint_hash e live))"
    and "cv_coa_kick (verdict_bound e d tid u ''stepup'' False [] b live) = []"
    and "cv_signals (verdict_bound e d tid u ''stepup'' False [] b live) \<noteq> []"
  using assms by (simp_all add: verdict_bound_def Let_def)

lemma verdict_required:
  assumes "cv_reason (verdict_bound e d tid u ''stepup'' False [] b live) = ''stepup_required''"
  shows "is_clone (cmp_confidence (compare_prints (mb_print b) live)) (confidence_min d tid)"
  using assms by (rule contrapos_pp) (simp add: verdict_bound_def Let_def)

lemma insort_key_snoc: "f x \<le> f y \<Longrightarrow> insort_key f x (zs @ [y]) = insort_key f x zs @ [y]"
  by (induction zs) auto

lemma sort_key_snoc: "\<forall>x \<in> set xs. f x \<le> f y \<Longrightarrow> sort_key f (xs @ [y]) = sort_key f xs @ [y]"
  by (induction xs) (auto simp: insort_key_snoc)

lemma pending_after_required:
  assumes "\<not> e_fault e S_clone_pending" "\<forall>ev \<in> set evs. ce_created_at ev \<le> t0" "mac_clone_events d = evs @ [ev]"
    "ce_tenant_id ev = tid" "ce_username ev = u" "ce_mac ev = mac" "ce_event_type ev = ''stepup_required''"
    "ce_created_at ev = t0" "e_now e \<le> t0 + seconds w" "event_live_hash ev = Some (JStr h)"
  shows "has_recent_stepup_pending e d tid u mac h w"
proof -
  define P where "P = (\<lambda>ev :: clone_event. ce_tenant_id ev = tid \<and> ce_username ev = u \<and> ce_mac ev = mac \<and>
              ce_event_type ev = ''stepup_required'' \<and> e_now e - seconds w \<le> ce_created_at ev)"
  have "P ev" using assms by (simp add: P_def)
  then have f: "filter P (mac_clone_events d) = filter P evs @ [ev]" by (simp add: assms(3))
  have "sort_key ce_created_at (filter P evs @ [ev]) = sort_key ce_created_at (filter P evs) @ [ev]"
    using assms(2,8) by (intro sort_key_snoc) auto
  then have "ev \<in> set (take 5 (rev (sort_key ce_created_at (filter P (mac_clone_events d)))))" unfolding f by simp
  with assms(1,10) show ?thesis by (auto simp: has_recent_stepup_pending_def guarded_def P_def [symmetric] Let_def)
qed

lemma get_binding_logged [simp]: "get_binding (log_event e d ev sg) tid u m = get_binding d tid u m"
  by (simp add: get_binding_def log_event_def Let_def)

lemma get_binding_key: "get_binding d tid u mac = Some b \<Longrightarrow> binding_key b = (tid, u, normalize_mac mac) \<and> u \<noteq> [] \<and> normalize_mac mac \<noteq> []"
  by (auto simp: get_binding_def lookup_row_def find_Some_iff Let_def split: if_splits)

lemma get_binding_bumped:
  assumes "get_binding d tid u mac = Some b"
  obtains b' where "get_binding (bump_mismatch e d tid u mac) tid u mac = Some b'" "mb_print b' = mb_print b" "mb_id b' = mb_id b"
proof -
  let ?f = "\<lambda>b. if binding_key b = (tid, u, normalize_mac mac)
      then b\<lparr>mb_mismatch_count := mb_mismatch_count b + 1, mb_last_seen_at := e_now e\<rparr> else b"
  note k = get_binding_key [OF assms]
  have "lookup_row binding_key (tid, u, normalize_mac mac) (map ?f bs) =
      map_option ?f (lookup_row binding_key (tid, u, normalize_mac mac) bs)" for bs
    unfolding lookup_row_def by (rule find_map_preserving) (simp add: binding_key_def)
  with assms k have "get_binding (bump_mismatch e d tid u mac) tid u mac = Some (?f b)"
    by (simp add: get_binding_def bump_mismatch_def Let_def)
  then show ?thesis by (rule that) simp_all
qed

lemma bumped_keys: "map binding_key (mac_clone_bindings (bump_mismatch e d tid u m)) = map binding_key (mac_clone_bindings d)"
  by (auto simp: bump_mismatch_def binding_key_def Let_def)

lemma lookup_deleted:
  assumes "unique_keys binding_key bs" "lookup_row binding_key k bs = Some b"
  shows "lookup_row binding_key k (filter (\<lambda>x. \<not> (mb_tenant_id x = mb_tenant_id b \<and> mb_id x = mb_id b)) bs) = None"
proof -
  from assms(2) have b: "b \<in> set bs" "binding_key b = k" by (auto simp: lookup_row_def find_Some_iff)
  have "x = b" if "x \<in> set bs" "binding_key x = k" for x
    using assms(1) b that by (auto simp: unique_keys_def distinct_map inj_on_def)
  then show ?thesis by (auto simp: lookup_row_def find_None_iff)
qed

lemma confirmed_binding:
  assumes "\<not> e_fault e S_clone_delete" "\<not> e_fault e S_clone_bind" "unique_keys binding_key (mac_clone_bindings d)"
    "get_binding d tid u (fp_mac live) = Some b" "normalize_mac (fp_mac live) = fp_mac live" "cv_reason v = ''stepup_confirmed''"
  shows "\<exists>b'. get_binding (update_binding e d tid u live v) tid u (fp_mac live) = Some b' \<and> mb_print b' = live"
proof -
  note k = get_binding_key [OF assms(4)]
  let ?bs = "filter (\<lambda>x. \<not> (mb_tenant_id x = tid \<and> mb_id x = mb_id b)) (mac_clone_bindings d)"
  have "lookup_row binding_key (tid, u, fp_mac live) (mac_clone_bindings d) = Some b"
    using assms(4,5) k by (simp add: get_binding_def)
  from lookup_deleted [OF assms(3) this] k have "lookup_row binding_key (tid, u, fp_mac live) ?bs = None"
    by (simp add: binding_key_def)
  then show ?thesis
    using assms k
    by (simp add: update_binding_def upsert_binding_def delete_binding_def guarded_def Let_def get_binding_def [of "d\<lparr>mac_clone_bindings := x\<rparr>" for d x]
        lookup_upsert binding_key_def)
qed

text \<open>C32. Step-up ends: a suspect device that is asked for its password once more and logs in again within the window,
  with the same fingerprint, is let in, and from then on the binding is exactly its fingerprint.\<close>

theorem stepup_confirms:
  assumes ok: "\<forall>s. \<not> e_fault e s" and "guards_login e d tid pid g (build_fingerprint e d tid req)" "clone_mode d tid = ''stepup''"
    and bound: "get_binding d tid u (normalize_mac (r_calling_station_id req)) = Some b"
    and alone: "divergent_sessions e d tid (build_fingerprint e d tid req) = []"
    and first: "check_after_auth e d tid u pid g req = (Some v, d1)" "cv_reason v = ''stepup_required''"
    and past: "\<forall>ev \<in> set (mac_clone_events d). ce_created_at ev \<le> e_now e" and uniq: "unique_keys binding_key (mac_clone_bindings d)"
    and soon: "e_now e \<le> t" "t \<le> e_now e + seconds (stepup_window_sec d tid)"
  shows "\<exists>v2 d2 b2. check_after_auth (e\<lparr>e_now := t\<rparr>) d1 tid u pid g req = (Some v2, d2) \<and> cv_action v2 = ''allow'' \<and>
    cv_reason v2 = ''stepup_confirmed'' \<and> get_binding d2 tid u (normalize_mac (r_calling_station_id req)) = Some b2 \<and>
    mb_print b2 = build_fingerprint e d tid req"
proof -
  define live where "live = build_fingerprint e d tid req"
  define e2 where "e2 = e\<lparr>e_now := t\<rparr>"
  have m: "fp_mac live = normalize_mac (r_calling_station_id req)" by (simp add: live_def build_fingerprint_def Let_def)
  have guards: "guards_login e d tid pid g live" using assms(2) by (simp add: live_def)
  have v: "v = verdict_bound e d tid u ''stepup'' False [] b live" "d1 = apply_decision e d tid u live v"
    using first(1) evaluate_bound_alone [OF guards _ alone [folded live_def], of u b] bound assms(3) guards
    by (auto simp: check_after_auth_def Let_def live_def [symmetric] m guards_login_def split: option.splits)
  have clone: "is_clone (cmp_confidence (compare_prints (mb_print b) live)) (confidence_min d tid)"
    using first(2) verdict_required [of e d tid u b live] by (simp add: v)
  have d1: "d1 = (let d2 = bump_mismatch e (log_event e d (event_of tid u live v) (cv_signals v)) tid u (fp_mac live) in
      if clone_flag d2 tid ''anti_mac_clone.alert_enabled'' then d2\<lparr>notifications := notifications d2 @ [(tid, ''mac_clone_detected'', u)]\<rparr> else d2)"
    using ok first(2) verdict_stepup(4) [OF clone, of e u]
    by (simp add: v(2) apply_decision_def update_binding_def Let_def) (simp add: v(1))
  have set1: "tenant_settings d1 = tenant_settings d" "device_fingerprints d1 = device_fingerprints d" "radacct d1 = radacct d" by (simp_all add: v(2))
  have live2: "build_fingerprint e2 d1 tid req = live" unfolding e2_def live_def by (rule build_fingerprint_cong [OF set1(2)])
  have guards2: "guards_login e2 d1 tid pid g live" using guards by (simp add: guards_login_def e2_def clone_settings_cong [OF set1(1)])
  have alone2: "divergent_sessions e2 d1 tid live = []"
    unfolding e2_def divergent_sessions_cong [OF set1(1,3)] using alone by (simp add: live_def)
  obtain b1 where b1: "get_binding d1 tid u (fp_mac live) = Some b1" "mb_print b1 = mb_print b"
  proof -
    obtain b1 where "get_binding (bump_mismatch e (log_event e d (event_of tid u live v) (cv_signals v)) tid u (fp_mac live)) tid u (fp_mac live) = Some b1"
      "mb_print b1 = mb_print b"
      by (rule get_binding_bumped [of "log_event e d (event_of tid u live v) (cv_signals v)" tid u "fp_mac live" b e]) (use bound m in auto)
    then show ?thesis by (intro that [of b1]) (auto simp: d1 Let_def get_binding_def split: if_splits)
  qed
  have pend: "has_recent_stepup_pending e2 d1 tid u (fp_mac live) (live_fingerprint_hash e2 live) (stepup_window_sec d1 tid)"
  proof (rule pending_after_required)
    let ?ev = "(event_of tid u live v)\<lparr>ce_mac := normalize_mac (fp_mac live), ce_signals := Decoded (JObj (cv_signals v)), ce_created_at := e_now e\<rparr>"
    show "mac_clone_events d1 = mac_clone_events d @ [?ev]"
      using verdict_stepup(5) [OF clone, of e u] by (simp add: d1 bump_mismatch_def log_event_def Let_def v(1) [symmetric] event_of_def)
    show "event_live_hash ?ev = Some (JStr (live_fingerprint_hash e2 live))"
      using verdict_stepup(3) [OF clone, of e u] by (simp add: event_live_hash_def v(1) [symmetric] live_fingerprint_hash_def e2_def)
    show "e_now e2 \<le> e_now e + seconds (stepup_window_sec d1 tid)" using soon by (simp add: e2_def clone_settings_cong [OF set1(1)])
  qed (use ok past first(2) in \<open>simp_all add: e2_def event_of_def event_type_of_def m\<close>)
  let ?v2 = "verdict_bound e2 d1 tid u ''stepup'' False [] b1 live"
  have clone1: "is_clone (cmp_confidence (compare_prints (mb_print b1) live)) (confidence_min d1 tid)"
    using clone by (simp add: b1(2) clone_settings_cong [OF set1(1)])
  have v2: "cv_action ?v2 = ''allow''" "cv_reason ?v2 = ''stepup_confirmed''" "cv_coa_kick ?v2 = []"
    using verdict_stepup [OF clone1, of e2 u] pend by simp_all
  have run: "check_after_auth e2 d1 tid u pid g req = (Some ?v2, apply_decision e2 d1 tid u live ?v2)"
    using evaluate_bound_alone [OF guards2 b1(1) alone2] guards2 assms(3)
    by (simp add: check_after_auth_def live2 Let_def clone_settings_cong [OF set1(1)] guards_login_def)
  have "\<exists>b2. get_binding (update_binding e2 (log_event e2 d1 (event_of tid u live ?v2) (cv_signals ?v2)) tid u live ?v2) tid u (fp_mac live) = Some b2 \<and> mb_print b2 = live"
  proof (rule confirmed_binding)
    have "unique_keys binding_key (mac_clone_bindings d1)"
      using uniq by (auto simp: d1 Let_def unique_keys_def bumped_keys log_event_def)
    then show "unique_keys binding_key (mac_clone_bindings (log_event e2 d1 (event_of tid u live ?v2) (cv_signals ?v2)))" by (simp add: log_event_def)
    show "get_binding (log_event e2 d1 (event_of tid u live ?v2) (cv_signals ?v2)) tid u (fp_mac live) = Some b1" using b1 by simp
  qed (use ok v2 m in \<open>simp_all add: e2_def\<close>)
  then obtain b2 where "get_binding (apply_decision e2 d1 tid u live ?v2) tid u (fp_mac live) = Some b2" "mb_print b2 = live"
    using ok v2 by (auto simp: apply_decision_def Let_def e2_def)
  with run v2 show ?thesis unfolding m [symmetric] live_def [symmetric] e2_def [symmetric] by blast
qed

section \<open>Instances\<close>

definition phone_print :: auth_fingerprint where
  "phone_print = \<lparr>fp_mac = ''AA:BB:CC:DD:EE:01'', fp_vendor_oui = ''AA:BB:CC'', fp_hostname = [], fp_dhcp_class_id = [],
     fp_os_family = ''ios'', fp_device_brand = [], fp_device_model = [], fp_ua_hash = [], fp_ua_sample = [], fp_nas_ip = ''10.0.0.1'',
     fp_called_station = [], fp_nas_port = [], fp_nas_port_type = []\<rparr>"

definition phone_binding :: mac_binding where
  "phone_binding = \<lparr>mb_id = 1, mb_tenant_id = 1, mb_username = ''ali'', mb_print = phone_print, mb_status = ''active'',
     mb_bind_confidence = ''high'', mb_first_seen_at = 0, mb_last_seen_at = 0, mb_last_verified_at = 0, mb_verify_count = 0, mb_mismatch_count = 0\<rparr>"

definition clone_db :: "string \<Rightarrow> string \<Rightarrow> db" where
  "clone_db mode confidence = blank_db\<lparr>
     tenant_settings := [((1, ''anti_mac_clone.enabled''), ''1''), ((1, ''anti_mac_clone.mode''), mode), ((1, ''anti_mac_clone.confidence_min''), confidence)],
     mac_clone_bindings := [phone_binding],
     device_fingerprints := [\<lparr>dp_tenant_id = 1, dp_mac = ''aa:bb:cc:dd:ee:01'', dp_hostname = [], dp_dhcp_class_id = [],
        dp_os_family = ''android'', dp_device_brand = [], dp_device_model = []\<rparr>]\<rparr>"

theorem returning_device_threshold_witness:
  "\<exists>v. evaluate_clone blank_env (clone_db ''enforce'' ''low'') 1 ''ali'' None [] phone_print = Some v \<and> cv_action v = ''deny''"
proof -
  let ?d = "clone_db ''enforce'' ''low''"
  have "guards_login blank_env ?d 1 None [] phone_print" "clone_mode ?d 1 = ''enforce''" "confidence_min ?d 1 = ''low''"
    "get_binding ?d 1 ''ali'' (fp_mac phone_print) = Some phone_binding" "divergent_sessions blank_env ?d 1 phone_print = []" by code_simp+
  with returning_device_threshold [of blank_env ?d 1 None "[]" phone_print "''ali''" phone_binding] show ?thesis by auto
qed

theorem clone_kicks_only_divergent_witness:
  "\<exists>ks. coa_disconnects (snd (check_after_auth blank_env (two_sessions\<lparr>tenant_settings := tenant_settings (clone_db ''enforce'' ''medium'')\<rparr>)
     1 ''ali'' None [] blank_request)) = ks \<and> ks \<noteq> []"
proof -
  let ?d = "two_sessions\<lparr>tenant_settings := tenant_settings (clone_db ''enforce'' ''medium'')\<rparr>"
  have "coa_disconnects (snd (check_after_auth blank_env ?d 1 ''ali'' None [] blank_request)) \<noteq> []" "coa_disconnects ?d = []" by code_simp+
  with clone_kicks_only_divergent [OF surjective_pairing, of blank_env ?d 1 "''ali''" None "[]" blank_request] show ?thesis by auto
qed

theorem stepup_confirms_witness:
  "\<exists>v2 d2. check_after_auth (blank_env\<lparr>e_now := seconds 1060\<rparr>) (snd (check_after_auth blank_env (clone_db ''stepup'' ''medium'') 1 ''ali'' None [] blank_request))
     1 ''ali'' None [] blank_request = (Some v2, d2) \<and> cv_action v2 = ''allow''"
proof -
  let ?d = "clone_db ''stepup'' ''medium''"
  let ?r = "check_after_auth blank_env ?d 1 ''ali'' None [] blank_request"
  have "\<not> Option.is_none (fst ?r)" "cv_reason (the (fst ?r)) = ''stepup_required''" by code_simp+
  then have first: "?r = (Some (the (fst ?r)), snd ?r)" "cv_reason (the (fst ?r)) = ''stepup_required''"
    by (auto simp: prod_eq_iff Option.is_none_def)
  have "guards_login blank_env ?d 1 None [] (build_fingerprint blank_env ?d 1 blank_request)" "clone_mode ?d 1 = ''stepup''"
    "get_binding ?d 1 ''ali'' (normalize_mac (r_calling_station_id blank_request)) = Some phone_binding"
    "divergent_sessions blank_env ?d 1 (build_fingerprint blank_env ?d 1 blank_request) = []"
    "unique_keys binding_key (mac_clone_bindings ?d)" "\<forall>ev \<in> set (mac_clone_events ?d). ce_created_at ev \<le> e_now blank_env"
    "e_now blank_env \<le> seconds 1060" "seconds 1060 \<le> e_now blank_env + seconds (stepup_window_sec ?d 1)" by code_simp+
  moreover have "\<forall>s. \<not> e_fault blank_env s" by (simp add: blank_env_def)
  ultimately show ?thesis using stepup_confirms [OF _ _ _ _ _ first] by blast
qed

end
