(* ===== verification/ProviderGrant.thy ===== *)
theory ProviderGrant
  imports SessionReconciler
begin

text \<open>
  \<open>app/radius/services/provider_grant.py\<close>: what the provider's capacity contract grants to a tenant. The
  payload of the latest snapshot decides which services are stopped, hidden or awaiting an upgrade, and the
  limits; the cap on connected users is checked against the open accounting sessions that are still credible.
\<close>

section \<open>The contract\<close>

definition is_dict :: "json option \<Rightarrow> bool" where
  "is_dict x = (case x of Some (JObj _) \<Rightarrow> True | _ \<Rightarrow> False)"

text \<open>\<open>d.get(k)\<close> of a dictionary, \<open>None\<close> for anything else.\<close>

definition get :: "json option \<Rightarrow> string \<Rightarrow> json option" where
  "get x k = (case x of Some (JObj kvs) \<Rightarrow> map_of kvs k | _ \<Rightarrow> None)"

definition load_snapshot_payload :: "env \<Rightarrow> int \<Rightarrow> json option" where
  "load_snapshot_payload e tid =
     guarded None (at_site e S_snapshot (Inr
       (case e_snapshot e tid of
          None \<Rightarrow> None
        | Some p0 \<Rightarrow>
            let payload = (if json_truthy p0 then p0 else JObj []) in
            if \<not> is_dict (Some payload) then None
            else
              let contract = get (Some payload) ''contract'' in
              if is_dict contract \<and> (is_dict (get contract ''services'') \<or> is_dict (get contract ''features'') \<or> is_dict (get contract ''limits''))
              then contract else Some payload)))"

text \<open>One snapshot per request: the cache of the request never changes the value read.\<close>

definition get_payload :: "env \<Rightarrow> int \<Rightarrow> json option" where
  "get_payload e tid = load_snapshot_payload e tid"

definition has_snapshot :: "env \<Rightarrow> int \<Rightarrow> bool" where
  "has_snapshot e tid = (get_payload e tid \<noteq> None)"

section \<open>Services\<close>

definition DISABLED_STATUSES :: "string list" where
  "DISABLED_STATUSES = [''disabled'', ''suspended'', ''expired'', ''cancelled'']"

definition LOCKED_UPGRADE_STATUSES :: "string list" where
  "LOCKED_UPGRADE_STATUSES =
     [''locked_upgrade'', ''requires_activation'', ''requires_upgrade'', ''paid_not_active'', ''paid_locked'',
      ''upgrade_required'', ''pending_activation'', ''not_purchased'']"

definition LOCKED_UPGRADE_FEATURE_STATES :: "string list" where
  "LOCKED_UPGRADE_FEATURE_STATES = [''locked_upgrade'', ''requires_activation'', ''upgrade_required'']"

record service_grant =
  sg_key :: string
  sg_present :: bool
  sg_enabled :: bool
  sg_status :: string
  sg_hidden_portal :: bool
  sg_feature_state :: string

definition grant_requires_upgrade :: "service_grant \<Rightarrow> bool" where
  "grant_requires_upgrade g =
     (sg_present g \<and> lower (strip (sg_status g)) \<in> set LOCKED_UPGRADE_STATUSES \<or>
      sg_feature_state g \<in> set LOCKED_UPGRADE_FEATURE_STATES)"

definition grant_disabled :: "service_grant \<Rightarrow> bool" where
  "grant_disabled g =
     (if grant_requires_upgrade g then False
      else sg_present g \<and> (\<not> sg_enabled g \<or> lower (strip (sg_status g)) \<in> set DISABLED_STATUSES) \<or>
           sg_feature_state g \<in> {''locked'', ''hidden''})"

definition grant_readonly :: "service_grant \<Rightarrow> bool" where
  "grant_readonly g = (sg_feature_state g \<in> {''readonly'', ''read_only''})"

definition grant_hidden_from_portal :: "service_grant \<Rightarrow> bool" where
  "grant_hidden_from_portal g = (sg_hidden_portal g \<or> grant_disabled g)"

text \<open>\<open>str(x)\<close> of the values a contract holds in these fields; \<open>pystr\<close> is the printing of the others.\<close>

fun str_of :: "(json \<Rightarrow> string) \<Rightarrow> json \<Rightarrow> string" where
  "str_of pystr (JStr s) = s"
| "str_of pystr (JNum i) = str_of_int i"
| "str_of pystr (JBool True) = ''True''"
| "str_of pystr (JBool False) = ''False''"
| "str_of pystr JNull = ''None''"
| "str_of pystr x = pystr x"

text \<open>\<open>x.get(k) or y\<close>.\<close>

definition truthy :: "json option \<Rightarrow> bool" where
  "truthy x = (case x of None \<Rightarrow> False | Some v \<Rightarrow> json_truthy v)"

definition lookup :: "env \<Rightarrow> int \<Rightarrow> string \<Rightarrow> service_grant" where
  "lookup e tid service_key =
     (let key = lower (strip service_key) in
      if key = [] then \<lparr>sg_key = [], sg_present = False, sg_enabled = True, sg_status = ''active'', sg_hidden_portal = False,
                        sg_feature_state = ''enabled''\<rparr>
      else
        let payload = get_payload e tid;
            svc = get (get payload ''services'') key;
            feat = get (get payload ''features'') key;
            dict = is_dict svc;
            state = (case feat of
                       Some (JStr s) \<Rightarrow> or_default (lower (strip (or_default s ''enabled''))) ''enabled''
                     | Some (JObj _) \<Rightarrow>
                         lower (strip (if truthy (get feat ''state'') then str_of (e_pystr e) (the (get feat ''state''))
                                       else if truthy (get feat ''status'') then str_of (e_pystr e) (the (get feat ''status''))
                                       else ''enabled''))
                     | _ \<Rightarrow> ''enabled'')
        in \<lparr>sg_key = key,
            sg_present = (dict \<or> (feat \<noteq> None \<and> feat \<noteq> Some JNull)),
            sg_enabled = (if dict then (case get svc ''enabled'' of None \<Rightarrow> True | Some v \<Rightarrow> json_truthy v) else True),
            sg_status = (if dict \<and> truthy (get svc ''status'') then str_of (e_pystr e) (the (get svc ''status'')) else ''active''),
            sg_hidden_portal = (dict \<and> (truthy (get svc ''hidden_portal'') \<or> truthy (get svc ''portal_hidden''))),
            sg_feature_state = state\<rparr>)"

definition is_service_disabled :: "env \<Rightarrow> int \<Rightarrow> string \<Rightarrow> bool" where
  "is_service_disabled e tid k = grant_disabled (lookup e tid k)"

definition is_hidden_from_portal :: "env \<Rightarrow> int \<Rightarrow> string \<Rightarrow> bool" where
  "is_hidden_from_portal e tid k = grant_hidden_from_portal (lookup e tid k)"

definition requires_upgrade :: "env \<Rightarrow> int \<Rightarrow> string \<Rightarrow> bool" where
  "requires_upgrade e tid k = grant_requires_upgrade (lookup e tid k)"

definition is_capability_granted :: "env \<Rightarrow> int \<Rightarrow> string \<Rightarrow> bool" where
  "is_capability_granted e tid k =
     (let g = lookup e tid k in
      if \<not> sg_present g then False else if grant_disabled g \<or> grant_requires_upgrade g then False else True)"

section \<open>Limits\<close>

fun walk :: "json option \<Rightarrow> string list \<Rightarrow> json option" where
  "walk node [] = node"
| "walk node (part # parts) = (case get node part of None \<Rightarrow> None | Some v \<Rightarrow> walk (Some v) parts)"

definition get_limit :: "env \<Rightarrow> int \<Rightarrow> string \<Rightarrow> int option" where
  "get_limit e tid dotted_path =
     (let node = walk (get (get_payload e tid) ''limits'') (split_on (CHR ''.'') dotted_path);
          val = (case node of
                   Some (JNum i) \<Rightarrow> Some i
                 | Some (JBool b) \<Rightarrow> Some (if b then 1 else 0)
                 | Some (JStr s) \<Rightarrow> parse_int s
                 | _ \<Rightarrow> None)
      in case val of Some v \<Rightarrow> if v \<ge> 0 then Some v else None | None \<Rightarrow> None)"

definition ACTIVE_ONLINE_PATHS :: "string list" where
  "ACTIVE_ONLINE_PATHS = [''active_online.max'', ''active.max'', ''concurrent_online.max'', ''active_subscribers.max'']"

fun first_limit :: "env \<Rightarrow> int \<Rightarrow> string list \<Rightarrow> int option" where
  "first_limit e tid [] = None"
| "first_limit e tid (p # ps) = (case get_limit e tid p of Some v \<Rightarrow> Some v | None \<Rightarrow> first_limit e tid ps)"

definition get_active_online_cap :: "env \<Rightarrow> int \<Rightarrow> int option" where
  "get_active_online_cap e tid = first_limit e tid ACTIVE_ONLINE_PATHS"

section \<open>Credible sessions\<close>

definition DEFAULT_INTERIM_SEC :: int where "DEFAULT_INTERIM_SEC = 60"
definition INTERIM_GRACE_SEC :: int where "INTERIM_GRACE_SEC = 30"
definition CAP_STALE_FLOOR_SEC :: int where "CAP_STALE_FLOOR_SEC = 180"

definition interim_stale_after :: "env \<Rightarrow> int \<Rightarrow> int" where
  "interim_stale_after e interval_sec =
     (let floor = (if e_cap_stale e = [] then CAP_STALE_FLOOR_SEC
                   else (case parse_int (e_cap_stale e) of None \<Rightarrow> CAP_STALE_FLOOR_SEC | Some n \<Rightarrow> n));
          iv = (if interval_sec \<le> 0 then DEFAULT_INTERIM_SEC else interval_sec)
      in max (2 * iv + INTERIM_GRACE_SEC) floor)"

definition row_device_key :: "acct_row \<Rightarrow> (string \<times> string \<times> string) option" where
  "row_device_key a =
     (let mac = replace_char (CHR ''-'') (CHR '':'') (upper (strip (a_callingstationid a)));
          ip = strip (a_framedipaddress a); dev = or_default mac ip
      in if dev = [] then None else Some (a_nasipaddress a, lower (strip (a_username a)), dev))"

definition open_rows :: "db \<Rightarrow> int \<Rightarrow> string \<Rightarrow> acct_row list" where
  "open_rows d tid exclude =
     filter (\<lambda>a. a_tenant_id a = tid \<and> a_stop a = None \<and> (exclude = [] \<or> a_username a \<noteq> exclude)) (radacct d)"

text \<open>The largest interval seen among the rows of a router that sent an interim update; \<open>None\<close> for a router
  that sent none.\<close>

definition interim_nas :: "acct_row list \<Rightarrow> string \<Rightarrow> int option" where
  "interim_nas rows nas =
     (case map a_acctinterval (filter (\<lambda>a. a_nasipaddress a = nas \<and> a_update a \<noteq> None) rows) of
        [] \<Rightarrow> None
      | ivs \<Rightarrow> Some (fold max ivs 0))"

definition credible :: "env \<Rightarrow> acct_row list \<Rightarrow> acct_row \<Rightarrow> bool" where
  "credible e rows a =
     (let now = e_now e; cutoff = now - e_window_minutes e * minute_us;
          last = (case a_update a of Some t \<Rightarrow> Some t | None \<Rightarrow> a_start a) in
      if (case last of None \<Rightarrow> False | Some t \<Rightarrow> t < cutoff) then False
      else
        (case a_update a of
           Some t \<Rightarrow> \<not> now - t > seconds (interim_stale_after e (a_acctinterval a))
         | None \<Rightarrow>
             (case (a_start a, interim_nas rows (a_nasipaddress a)) of
                (Some t, Some iv) \<Rightarrow> \<not> now - t > seconds (interim_stale_after e iv)
              | _ \<Rightarrow> True)))"

text \<open>The pass over the credible rows: a device already seen on its router is skipped.\<close>

fun count_rows :: "(string \<times> string \<times> string) list \<Rightarrow> acct_row list \<Rightarrow> acct_row list" where
  "count_rows seen [] = []"
| "count_rows seen (a # rows) =
     (case row_device_key a of
        None \<Rightarrow> a # count_rows seen rows
      | Some dev \<Rightarrow> if dev \<in> set seen then count_rows seen rows else a # count_rows (dev # seen) rows)"

definition nas_count :: "acct_row list \<Rightarrow> string \<Rightarrow> int" where
  "nas_count rows nas = int (length (filter (\<lambda>a. a_nasipaddress a = nas) rows))"

definition verified_count :: "env \<Rightarrow> int \<Rightarrow> acct_row list \<Rightarrow> string \<Rightarrow> int" where
  "verified_count e tid rows nas =
     (let cnt = nas_count rows nas in
      if nas = [] then cnt
      else (case e_nas_live e tid nas of
              None \<Rightarrow> cnt
            | Some live \<Rightarrow> if 0 < live \<and> live < cnt then live else cnt))"

definition count_active_sessions :: "env \<Rightarrow> db \<Rightarrow> int \<Rightarrow> string \<Rightarrow> bool \<Rightarrow> int" where
  "count_active_sessions e d tid exclude live_verify =
     guarded 0 (at_site e S_count_sessions (Inr
       (let rows = open_rows d tid exclude;
            counted = count_rows [] (filter (credible e rows) rows);
            per_nas = remdups (map a_nasipaddress counted)
        in sum_list (map (if live_verify \<and> \<not> e_fault e S_liveness then verified_count e tid counted else nas_count counted) per_nas))))"

definition user_has_open_session :: "env \<Rightarrow> db \<Rightarrow> int \<Rightarrow> string \<Rightarrow> bool" where
  "user_has_open_session e d tid u =
     (u \<noteq> [] \<and> guarded False (at_site e S_open_session (Inr (\<exists>a \<in> set (user_rows d tid u). a_stop a = None))))"

section \<open>Checking a limit\<close>

definition LIMIT_PATHS :: "(string \<times> string \<times> string) list" where
  "LIMIT_PATHS =
     [(''active_online'', ''active_online_now'', ''active_online.max''),
      (''cards'', ''cards_generated_month'', ''cards.monthly_generated''),
      (''cards_batch'', [], ''cards.generate_per_batch''),
      (''nas'', ''nas_count'', ''nas.max_total''),
      (''routers'', ''routers_count'', ''routers.max_total''),
      (''profiles'', ''profiles_plans_count'', ''profiles.max_total''),
      (''print_templates'', ''print_templates_count'', ''print_templates.max_active''),
      (''admins'', ''admins_count'', ''admins.max_total'')]"

record limit_decision =
  ld_allowed :: bool
  ld_current :: int
  ld_limit :: "int option"
  ld_reason :: string

text \<open>\<open>metering\<close> is the metric of the usage metering service, \<open>None\<close> where it raises.\<close>

definition current_usage :: "(string \<Rightarrow> int option) \<Rightarrow> env \<Rightarrow> db \<Rightarrow> int \<Rightarrow> string \<Rightarrow> int" where
  "current_usage metering e d tid metric =
     (if metric = [] then 0
      else if metric = ''active_online_now'' then count_active_sessions e d tid [] False
      else (case metering metric of None \<Rightarrow> 0 | Some n \<Rightarrow> n))"

definition check_limit :: "(string \<Rightarrow> int option) \<Rightarrow> env \<Rightarrow> db \<Rightarrow> int \<Rightarrow> string \<Rightarrow> int \<Rightarrow> limit_decision" where
  "check_limit metering e d tid feature_key increment =
     (case map_of LIMIT_PATHS (lower feature_key) of
        None \<Rightarrow> \<lparr>ld_allowed = True, ld_current = 0, ld_limit = None, ld_reason = []\<rparr>
      | Some (usage_metric, limit_path) \<Rightarrow>
          (case get_limit e tid limit_path of
             None \<Rightarrow> \<lparr>ld_allowed = True, ld_current = 0, ld_limit = None, ld_reason = []\<rparr>
           | Some limit \<Rightarrow>
               let current = (if usage_metric \<noteq> [] then current_usage metering e d tid usage_metric else 0) in
               if current + increment > limit
               then \<lparr>ld_allowed = False, ld_current = current, ld_limit = Some limit, ld_reason = ''provider_limit_exceeded''\<rparr>
               else \<lparr>ld_allowed = True, ld_current = current, ld_limit = Some limit, ld_reason = []\<rparr>))"

section \<open>Lemmas\<close>

definition device_keys :: "acct_row list \<Rightarrow> (string \<times> string \<times> string) set" where
  "device_keys rows = {k. \<exists>a \<in> set rows. row_device_key a = Some k}"

definition anonymous :: "acct_row list \<Rightarrow> acct_row list" where
  "anonymous rows = filter (\<lambda>a. row_device_key a = None) rows"

lemma device_keys_simps [simp]:
  "device_keys [] = {}"
  "device_keys (a # rows) = (case row_device_key a of None \<Rightarrow> device_keys rows | Some k \<Rightarrow> insert k (device_keys rows))"
  by (auto simp: device_keys_def split: option.splits)

lemma finite_device_keys [simp]: "finite (device_keys rows)"
  by (induction rows) (auto split: option.splits)

lemma length_count_rows:
  "length (count_rows seen rows) = length (anonymous rows) + card (device_keys rows - set seen)"
proof (induction seen rows rule: count_rows.induct)
  case (2 seen a rows)
  show ?case
  proof (cases "row_device_key a")
    case None
    with 2 show ?thesis by (simp add: anonymous_def)
  next
    case (Some k)
    have c: "card (insert k (device_keys rows - set seen)) = Suc (card (device_keys rows - insert k (set seen)))"
      if "k \<notin> set seen"
    proof -
      from that have "insert k (device_keys rows - set seen) = insert k (device_keys rows - insert k (set seen))" by auto
      then show ?thesis by simp
    qed
    from Some 2 show ?thesis by (cases "k \<in> set seen") (simp_all add: anonymous_def c insert_Diff_if)
  qed
qed (simp add: anonymous_def)

lemma nas_count_list: "nas_count rows nas = int (count_list (map a_nasipaddress rows) nas)"
  by (induction rows) (auto simp: nas_count_def)

lemma sum_nas_count: "sum_list (map (nas_count rows) (remdups (map a_nasipaddress rows))) = int (length rows)"
proof -
  have "sum_list (map (nas_count rows) (remdups (map a_nasipaddress rows))) =
        (\<Sum>nas \<in> set (map a_nasipaddress rows). nas_count rows nas)"
    by (simp add: sum_list_distinct_conv_sum_set)
  also have "\<dots> = int (\<Sum>nas \<in> set (map a_nasipaddress rows). count_list (map a_nasipaddress rows) nas)"
    by (simp only: nas_count_list of_nat_sum)
  also have "(\<Sum>nas \<in> set (map a_nasipaddress rows). count_list (map a_nasipaddress rows) nas) = length (map a_nasipaddress rows)"
    by (rule sum_count_set) simp_all
  finally show ?thesis by simp
qed

lemma verified_count_bounds:
  "verified_count e tid rows nas \<le> nas_count rows nas"
  "0 < nas_count rows nas \<Longrightarrow> 0 < verified_count e tid rows nas"
  by (auto simp: verified_count_def Let_def split: option.splits)

lemma nas_count_pos: "nas \<in> set (map a_nasipaddress rows) \<Longrightarrow> 0 < nas_count rows nas"
  by (auto simp: nas_count_def filter_empty_conv)

lemma sum_list_pos: "xs \<noteq> [] \<Longrightarrow> (\<And>x. x \<in> set xs \<Longrightarrow> 0 < f x) \<Longrightarrow> 0 < sum_list (map f xs)" for f :: "'a \<Rightarrow> int"
proof (induction xs)
  case (Cons x xs)
  then show ?case by (cases xs) (auto intro: add_pos_pos)
qed simp

definition credible_rows :: "env \<Rightarrow> db \<Rightarrow> int \<Rightarrow> string \<Rightarrow> acct_row list" where
  "credible_rows e d tid exclude = filter (credible e (open_rows d tid exclude)) (open_rows d tid exclude)"

section \<open>Properties\<close>

text \<open>The number of connected users counts every device once per router, and every credible open session
  that carries neither a MAC nor an address once: the repeated open rows a lost Accounting-Stop leaves behind
  do not use up the tenant's cap.\<close>

theorem count_active_sessions_devices:
  assumes "\<not> e_fault e S_count_sessions"
  shows "count_active_sessions e d tid exclude False =
    int (card (device_keys (credible_rows e d tid exclude)) + length (anonymous (credible_rows e d tid exclude)))"
  using assms by (simp add: count_active_sessions_def Let_def sum_nas_count length_count_rows credible_rows_def)

text \<open>Checking the count against the routers' live state can only lower it, and never to zero: an empty or
  missing reading keeps the accounting count, so a tenant with connected users is never counted as having none.\<close>

theorem live_verify_lowers:
  "count_active_sessions e d tid exclude True \<le> count_active_sessions e d tid exclude False \<and>
   (0 < count_active_sessions e d tid exclude True \<longleftrightarrow> 0 < count_active_sessions e d tid exclude False)"
proof (cases "e_fault e S_count_sessions \<or> e_fault e S_liveness")
  case True
  then show ?thesis by (auto simp: count_active_sessions_def Let_def)
next
  case False
  define rows where "rows = count_rows [] (credible_rows e d tid exclude)"
  define ns where "ns = remdups (map a_nasipaddress rows)"
  have t: "count_active_sessions e d tid exclude True = sum_list (map (verified_count e tid rows) ns)"
    and f: "count_active_sessions e d tid exclude False = sum_list (map (nas_count rows) ns)"
    using False by (simp_all add: count_active_sessions_def Let_def rows_def ns_def credible_rows_def)
  have le: "sum_list (map (verified_count e tid rows) ns) \<le> sum_list (map (nas_count rows) ns)"
    by (rule sum_list_mono) (rule verified_count_bounds)
  have pos: "0 < sum_list (map (verified_count e tid rows) ns)" if "ns \<noteq> []"
    using that by (rule sum_list_pos) (auto simp: ns_def intro!: verified_count_bounds(2) nas_count_pos)
  show ?thesis unfolding t f using le pos by (cases "ns = []") auto
qed

section \<open>Witnesses\<close>

definition ghost_db :: db where
  "ghost_db = blank_db\<lparr>radacct := [blank_row\<lparr>a_start := Some (seconds 900)\<rparr>,
     blank_row\<lparr>a_radacctid := 2, a_start := Some (seconds 950)\<rparr>,
     blank_row\<lparr>a_radacctid := 3, a_callingstationid := [], a_start := Some (seconds 950)\<rparr>]\<rparr>"

theorem count_active_sessions_devices_witness:
  "count_active_sessions blank_env ghost_db 1 [] False = 2 \<and>
   int (card (device_keys (credible_rows blank_env ghost_db 1 [])) + length (anonymous (credible_rows blank_env ghost_db 1 []))) = 2"
proof -
  have n: "\<not> e_fault blank_env S_count_sessions" by code_simp
  have "count_active_sessions blank_env ghost_db 1 [] False = 2" by code_simp
  with count_active_sessions_devices [OF n, of ghost_db 1 "[]"] show ?thesis by simp
qed

end
