(* ===== verification/PolicyChecks.thy ===== *)
theory PolicyChecks
  imports CardBatchFlags AllowMode QuotaPeriod DeviceLimit ProviderGrant AntiMacClone
begin

text \<open>
  The checks of \<open>app/radius/services/policy_engine.py\<close> in the order of the file: the password, status and
  expiry, the offer hours and schedules, the quota, the connection time, the device and the access blocks.
  A check returns the decision that ends the login, or \<open>None\<close> to go on; a check that writes also returns the
  tables. Each guarded block of the code is a \<open>site\<close> whose reads may raise.
\<close>

section \<open>Decisions\<close>

definition say :: "string \<Rightarrow> message" where "say key = \<lparr>m_key = key, m_extra = []\<rparr>"

definition reject_extra :: "string \<Rightarrow> string \<Rightarrow> auth_decision" where
  "reject_extra reason extra =
     (let m = \<lparr>m_key = reason, m_extra = extra\<rparr>
      in \<lparr>d_ok = False, d_reason = reason, d_message = m, d_reply_message = Some m, d_reply_attrs = []\<rparr>)"

definition reject :: "string \<Rightarrow> auth_decision" where "reject reason = reject_extra reason []"

definition FAIL2BAN_REASONS :: "string list" where
  "FAIL2BAN_REASONS = [''password_wrong'', ''user_not_found'']"

lemma reject_simps [simp]:
  "d_ok (reject r) = False" "d_reason (reject r) = r" "d_ok (reject_extra r x) = False" "d_reason (reject_extra r x) = r"
  by (simp_all add: reject_def reject_extra_def Let_def)

section \<open>The password\<close>

definition hex_digit :: "char \<Rightarrow> nat option" where
  "hex_digit c =
     (if is_digit c then Some (code c - 48)
      else if 65 \<le> code c \<and> code c \<le> 70 then Some (code c - 55)
      else if 97 \<le> code c \<and> code c \<le> 102 then Some (code c - 87)
      else None)"

text \<open>\<open>bytes.fromhex\<close>: pairs of hexadecimal digits, with white space allowed between the pairs.\<close>

fun fromhex :: "string \<Rightarrow> nat list option" where
  "fromhex [] = Some []"
| "fromhex [c] = (if is_space c then Some [] else None)"
| "fromhex (c # e # cs) =
     (if is_space c then fromhex (e # cs)
      else (case (hex_digit c, hex_digit e, fromhex cs) of
              (Some a, Some b, Some bs) \<Rightarrow> Some ((16 * a + b) # bs)
            | _ \<Rightarrow> None))"

definition hex_to_bytes :: "string \<Rightarrow> nat list" where
  "hex_to_bytes s0 =
     (let s = strip s0; t = (if take 2 s \<in> {''0x'', ''0X''} then drop 2 s else s) in
      if t = [] then [] else (case fromhex t of None \<Rightarrow> [] | Some bs \<Rightarrow> bs))"

definition encode :: "string \<Rightarrow> nat list" where "encode = map code"

definition verify_chap :: "(nat list \<Rightarrow> nat list) \<Rightarrow> string \<Rightarrow> string \<Rightarrow> string \<Rightarrow> bool" where
  "verify_chap md5 cleartext chap_password_hex chap_challenge_hex =
     (let chap = hex_to_bytes chap_password_hex in
      if length chap \<noteq> 17 then False
      else md5 (take 1 chap @ encode cleartext @ hex_to_bytes chap_challenge_hex) = drop 1 chap)"

definition check_password :: "env \<Rightarrow> subscriber \<Rightarrow> auth_request \<Rightarrow> auth_decision option" where
  "check_password e sub req =
     (if r_password req \<noteq> [] then (if s_password sub \<noteq> r_password req then Some (reject ''password_wrong'') else None)
      else if r_chap_password req \<noteq> [] then
        (if s_password sub = [] \<or> \<not> verify_chap (e_md5 e) (s_password sub) (r_chap_password req) (r_chap_challenge req)
         then Some (reject ''password_wrong'') else None)
      else Some (reject ''password_wrong''))"

text \<open>The row of the join of cards and batches, then the subscriber's own flag.\<close>

definition login_without_password :: "env \<Rightarrow> db \<Rightarrow> int \<Rightarrow> string \<Rightarrow> bool" where
  "login_without_password e d tid u =
     guarded False (at_site e S_passwordless (Inr
       (case filter (\<lambda>c. c_tenant_id c = tid \<and> c_username c = u \<and> get_batch d tid (c_batch_id c) \<noteq> None) (cards d) of
          c # _ \<Rightarrow> b_login_without_password (the (get_batch d tid (c_batch_id c)))
        | [] \<Rightarrow> (case find (\<lambda>s. s_tenant_id s = tid \<and> s_username s = u) (subscribers d) of
                   None \<Rightarrow> False | Some s \<Rightarrow> s_login_without_password s))))"

section \<open>Status and expiry\<close>

definition check_status :: "subscriber \<Rightarrow> auth_decision option" where
  "check_status sub =
     (if s_status sub = ''enabled'' then None
      else if s_status sub = ''expired'' then Some (reject ''expired'') else Some (reject ''disabled''))"

definition check_expiration :: "env \<Rightarrow> subscriber \<Rightarrow> auth_decision option" where
  "check_expiration e sub =
     (case s_expire_at sub of None \<Rightarrow> None | Some x \<Rightarrow> if x < e_now e then Some (reject ''expired'') else None)"

definition expired_pool_name :: "env \<Rightarrow> string" where
  "expired_pool_name e = or_default (strip (e_expired_pool e)) ''hr-pool-expired''"

definition subscription_ended :: "env \<Rightarrow> subscriber \<Rightarrow> bool" where
  "subscription_ended e sub =
     (s_status sub = ''expired'' \<or> (case s_expire_at sub of None \<Rightarrow> False | Some x \<Rightarrow> x < e_now e))"

definition check_expiry_captive :: "env \<Rightarrow> subscriber \<Rightarrow> auth_decision option" where
  "check_expiry_captive e sub =
     (if s_status sub \<notin> {''enabled'', ''expired''} then Some (reject ''disabled'')
      else if \<not> subscription_ended e sub then None
      else if \<not> e_captive_enabled e then Some (reject ''expired'')
      else Some \<lparr>d_ok = True, d_reason = ''expired_captive'', d_message = say ''expired'',
                 d_reply_message = Some (say ''expired''),
                 d_reply_attrs = [(''Mikrotik-Address-List'', expired_pool_name e), (''Session-Timeout'', ''300'')]\<rparr>)"

section \<open>Offer hours and schedules\<close>

definition hours_text :: "string \<times> string \<Rightarrow> string" where
  "hours_text ft = '' ('' @ or_default (fst ft) ''00:00'' @ ''-'' @ or_default (snd ft) ''24:00'' @ '')''"

definition check_offer_hours :: "access_plan option \<Rightarrow> dt \<Rightarrow> auth_decision option res" where
  "check_offer_hours plan now_local =
     (case (plan, offer_windows plan) of
        (Some p, Some ws) \<Rightarrow>
          res_bind (is_allowed (RDict (schedule_dict ws)) now_local) (\<lambda>b.
            Inr (if b then None else Some (reject_extra ''out_of_window'' (hours_text (effective_plan_hours p)))))
      | _ \<Rightarrow> Inr None)"

definition check_days :: "access_plan option \<Rightarrow> dt \<Rightarrow> auth_decision option" where
  "check_days plan now =
     (case plan of
        None \<Rightarrow> None
      | Some p \<Rightarrow>
          if p_allowed_days p = [] then None
          else if code_at now \<notin> set (p_allowed_days p) then Some (reject ''outside_days'') else None)"

definition subscriber_has_schedule :: "subscriber \<Rightarrow> bool" where
  "subscriber_has_schedule sub = (parsed_windows (s_connection_schedule sub) \<noteq> [] \<or> strip (s_working_days sub) \<noteq> [])"

definition check_subscriber_schedule :: "env \<Rightarrow> subscriber \<Rightarrow> auth_decision option" where
  "check_subscriber_schedule e sub =
     guarded None (at_site e S_subscriber_schedule (
       let local_dt = local_now e (s_tenant_id sub); raw = schedule_raw (s_connection_schedule sub) in
       res_bind (parse raw) (\<lambda>ws.
         if ws \<noteq> [] then
           res_bind (is_allowed raw local_dt) (\<lambda>b. Inr (if b then None else Some (reject ''outside_schedule'')))
         else
           let allowed = csv_codes (strip (s_working_days sub))
           in Inr (if strip (s_working_days sub) \<noteq> [] \<and> allowed \<noteq> [] \<and> code_at local_dt \<notin> set allowed
                   then Some (reject ''outside_days'') else None))))"

text \<open>The schedule of the plan: a failure inside the inner block falls through to the days.\<close>

definition check_plan_schedule_days :: "env \<Rightarrow> access_plan option \<Rightarrow> subscriber \<Rightarrow> auth_decision option" where
  "check_plan_schedule_days e plan sub =
     (case plan of
        None \<Rightarrow> None
      | Some p \<Rightarrow>
          if e_fault e S_plan_schedule then None
          else
            let local_dt = local_now e (s_tenant_id sub); raw = schedule_raw (p_connection_schedule p) in
            (case res_bind (parse raw) (\<lambda>ws. if ws = [] then Inr None
                     else res_bind (is_allowed raw local_dt) (\<lambda>b. Inr (Some (if b then None else Some (reject ''outside_schedule''))))) of
               Inr (Some r) \<Rightarrow> r
             | _ \<Rightarrow> check_days plan local_dt))"

definition check_schedule_dimension :: "env \<Rightarrow> subscriber \<Rightarrow> access_plan option \<Rightarrow> auth_decision option" where
  "check_schedule_dimension e sub plan =
     (if subscriber_has_schedule sub then check_subscriber_schedule e sub else check_plan_schedule_days e plan sub)"

definition check_schedule :: "env \<Rightarrow> subscriber \<Rightarrow> access_plan option \<Rightarrow> auth_decision option res" where
  "check_schedule e sub plan =
     (case check_schedule_dimension e sub plan of
        Some bad \<Rightarrow> Inr (Some bad)
      | None \<Rightarrow>
          if plan = None then Inr None
          else if e_fault e S_offer_hours then Inr None
          else check_offer_hours plan (local_now e (s_tenant_id sub)))"

section \<open>Quota\<close>

definition effective_quota_mb :: "subscriber \<Rightarrow> access_plan option \<Rightarrow> int" where
  "effective_quota_mb sub plan =
     (let own = (if s_quota_limit_enabled sub \<or> s_combined_quota_mb sub \<noteq> 0 \<or> s_download_quota_mb sub \<noteq> 0 \<or> s_upload_quota_mb sub \<noteq> 0
                 then or_int (s_combined_quota_mb sub) (s_download_quota_mb sub + s_upload_quota_mb sub) else 0)
      in if own > 0 then own else (case plan of None \<Rightarrow> 0 | Some p \<Rightarrow> p_quota_total_mb p))"

definition subscriber_used_bytes :: "env \<Rightarrow> db \<Rightarrow> subscriber \<Rightarrow> int" where
  "subscriber_used_bytes e d sub =
     (let carried = s_used_bytes_in sub + s_used_bytes_out sub in
      if carried > 0 then carried
      else guarded carried (at_site e S_period_usage (Inr (period_used_bytes e d sub))))"

datatype exhaustion = Total | Window quota_window

definition quota_exhaustion :: "env \<Rightarrow> db \<Rightarrow> subscriber \<Rightarrow> access_plan option \<Rightarrow> exhaustion option \<times> db" where
  "quota_exhaustion e d sub plan =
     (let cap_mb = effective_quota_mb sub plan in
      if cap_mb > 0 \<and> cap_mb * MIB \<le> subscriber_used_bytes e d sub then (Some Total, d)
      else if e_fault e S_window_usage then (None, d)
      else let (w, d1) = window_exhaustion e d sub plan in (map_option Window w, d1))"

definition is_quota_exhausted :: "env \<Rightarrow> db \<Rightarrow> subscriber \<Rightarrow> access_plan option \<Rightarrow> bool \<times> db" where
  "is_quota_exhausted e d sub plan = (let (w, d1) = quota_exhaustion e d sub plan in (w \<noteq> None, d1))"

definition quota_extra :: "exhaustion \<Rightarrow> string" where
  "quota_extra w = (case w of Total \<Rightarrow> [] | Window Daily \<Rightarrow> '' (daily)'' | Window Monthly \<Rightarrow> '' (monthly)'')"

definition check_quota :: "env \<Rightarrow> db \<Rightarrow> subscriber \<Rightarrow> access_plan option \<Rightarrow> auth_decision option \<times> db" where
  "check_quota e d sub plan =
     (case quota_exhaustion e d sub plan of
        (None, d1) \<Rightarrow> (None, d1)
      | (Some w, d1) \<Rightarrow>
          let mode = (if e_fault e S_exhaust_mode then ''stop'' else quota_exhaust_mode e d1 (s_tenant_id sub) (s_username sub)) in
          if mode = ''reduce_speed'' then (None, d1)
          else if mode = ''notify'' then (None, fire_quota_exhaust_notify e d1 (s_tenant_id sub) (s_username sub))
          else (Some (reject_extra ''quota_exhausted'' (quota_extra w)), d1))"

text \<open>The decision on the card's budget, itself guarded in \<open>card_batch_flags\<close>.\<close>

definition check_card_budget :: "env \<Rightarrow> db \<Rightarrow> subscriber \<Rightarrow> access_plan option \<Rightarrow> auth_decision option" where
  "check_card_budget e d sub plan =
     (if check_card_time_budget e d (s_tenant_id sub) (s_username sub) plan then Some (reject ''card_time_exhausted'') else None)"

section \<open>Connection time\<close>

definition accounted_session_seconds :: "env \<Rightarrow> db \<Rightarrow> int \<Rightarrow> string \<Rightarrow> dt option \<Rightarrow> int" where
  "accounted_session_seconds e d tid u since =
     guarded 0 (at_site e S_connection_time (Inr (sum_list (map a_sessiontime
       (filter (\<lambda>a. case since of None \<Rightarrow> True | Some s \<Rightarrow> (case a_start a of None \<Rightarrow> False | Some t \<Rightarrow> s \<le> t)) (user_rows d tid u))))))"

definition local_day_start_utc :: "env \<Rightarrow> int \<Rightarrow> dt" where
  "local_day_start_utc e tid = floor_sec (e_utc e tid (local_now e tid div day_us * day_us))"

definition daily_since :: "env \<Rightarrow> db \<Rightarrow> subscriber \<Rightarrow> dt" where
  "daily_since e d sub =
     (let since = local_day_start_utc e (s_tenant_id sub) in
      if e_fault e S_daily_since then since
      else (case get_state e d (s_tenant_id sub) (s_id sub) of
              None \<Rightarrow> since
            | Some st \<Rightarrow> (case qs_daily_reset_at st of
                            None \<Rightarrow> since
                          | Some r \<Rightarrow> if since < floor_sec r then floor_sec r else since)))"

definition elapsed_since :: "env \<Rightarrow> dt \<Rightarrow> int" where
  "elapsed_since e since = max 0 (total_seconds (e_now e - since))"

definition effective_time_caps :: "subscriber \<Rightarrow> access_plan option \<Rightarrow> int \<times> int" where
  "effective_time_caps sub plan =
     (if s_connection_time_limit_enabled sub \<or> s_total_connection_time_min sub \<noteq> 0 \<or> s_daily_connection_time_min sub \<noteq> 0
      then (s_total_connection_time_min sub, s_daily_connection_time_min sub)
      else (0, case plan of None \<Rightarrow> 0 | Some p \<Rightarrow> p_max_daily_minutes p))"

text \<open>The loop of \<open>_union_seconds\<close> over the sorted intervals: the current interval and the total so far.\<close>

fun union_loop :: "int \<Rightarrow> int \<Rightarrow> int \<Rightarrow> (int \<times> int) list \<Rightarrow> int" where
  "union_loop acc cur_s cur_e [] = acc + (cur_e - cur_s)"
| "union_loop acc cur_s cur_e ((s, e) # ivs) =
     (if s > cur_e then union_loop (acc + (cur_e - cur_s)) s e ivs
      else if e > cur_e then union_loop acc cur_s e ivs
      else union_loop acc cur_s cur_e ivs)"

definition union_seconds :: "(int \<times> int) list \<Rightarrow> int" where
  "union_seconds intervals =
     (case sort_key fst (sort_key snd (filter (\<lambda>(s, e). s < e) intervals)) of
        [] \<Rightarrow> 0
      | (s, e) # ivs \<Rightarrow> union_loop 0 s e ivs)"

text \<open>The interval of a row today, in seconds since the epoch: cut at the start of the day.\<close>

definition day_interval :: "int \<Rightarrow> acct_row \<Rightarrow> (int \<times> int) option" where
  "day_interval since_ep a =
     (case a_start a of
        None \<Rightarrow> None
      | Some t \<Rightarrow>
          let start = t div usec; fin = start + a_sessiontime a in
          if a_sessiontime a \<le> 0 \<or> fin \<le> since_ep then None else Some (max start since_ep, fin))"

definition day_rows :: "db \<Rightarrow> int \<Rightarrow> string \<Rightarrow> dt \<Rightarrow> acct_row list" where
  "day_rows d tid u since =
     filter (\<lambda>a. (case a_start a of None \<Rightarrow> False | Some t \<Rightarrow> since \<le> t) \<or>
                 (case a_stop a of None \<Rightarrow> True | Some t \<Rightarrow> since < t)) (user_rows d tid u)"

text \<open>The entry of one user in the dictionary of \<open>daily_used_seconds_bulk\<close>, 0 where it has none.\<close>

definition daily_used_seconds :: "env \<Rightarrow> db \<Rightarrow> int \<Rightarrow> string \<Rightarrow> dt \<Rightarrow> int" where
  "daily_used_seconds e d tid u since =
     guarded 0 (at_site e S_bulk_usage (Inr
       (let ivs = List.map_filter (day_interval (since div usec)) (day_rows d tid u since)
        in if u = [] \<or> ivs = [] then 0 else min (union_seconds ivs) (elapsed_since e since))))"

definition check_connection_time :: "env \<Rightarrow> db \<Rightarrow> subscriber \<Rightarrow> access_plan option \<Rightarrow> auth_decision option" where
  "check_connection_time e d sub plan =
     (let (total_cap, daily_cap) = effective_time_caps sub plan; tid = s_tenant_id sub; u = s_username sub in
      if total_cap > 0 \<and> total_cap * 60 \<le> accounted_session_seconds e d tid u None then Some (reject ''time_total_exhausted'')
      else if daily_cap > 0 \<and> daily_cap * 60 \<le> daily_used_seconds e d tid u (daily_since e d sub)
      then Some (reject ''time_daily_exhausted'')
      else None)"

definition time_cap_remaining_seconds :: "env \<Rightarrow> db \<Rightarrow> subscriber \<Rightarrow> access_plan option \<Rightarrow> int option" where
  "time_cap_remaining_seconds e d sub plan =
     (let (total_cap, daily_cap) = effective_time_caps sub plan; tid = s_tenant_id sub; u = s_username sub;
          since = daily_since e d sub;
          rs = (if total_cap > 0 then [total_cap * 60 - accounted_session_seconds e d tid u None] else []) @
               (if daily_cap > 0
                then [daily_cap * 60 - min (accounted_session_seconds e d tid u (Some since)) (elapsed_since e since)] else [])
      in case rs of [] \<Rightarrow> None | r # rest \<Rightarrow> Some (max 0 (fold min rest r)))"

section \<open>The device\<close>

definition locked_macs :: "string \<Rightarrow> string list" where
  "locked_macs mac_lock =
     map (\<lambda>m. replace_char (CHR ''-'') (CHR '':'') (upper (strip m)))
       (filter (\<lambda>m. strip m \<noteq> []) (split_on (CHR '','') (replace_char (CHR 0x0A) (CHR '','') (replace_char (CHR '';'') (CHR '','') mac_lock))))"

definition check_mac :: "subscriber \<Rightarrow> auth_request \<Rightarrow> auth_decision option" where
  "check_mac sub req =
     (let locked = locked_macs (s_mac_lock sub);
          incoming = replace_char (CHR ''-'') (CHR '':'') (upper (r_calling_station_id req)) in
      if s_mac_lock sub = [] \<or> locked = [] then None
      else if incoming = [] \<or> incoming \<notin> set locked then Some (reject ''mac_mismatch'') else None)"

text \<open>\<open>int(p, 16)\<close> of a part of two characters: white space around it and a sign are allowed.\<close>

definition int16 :: "string \<Rightarrow> nat option" where
  "int16 p =
     (let t = strip p; ds = (if take 1 t = ''+'' then drop 1 t else t) in
      if ds = [] \<or> (\<exists>c \<in> set ds. hex_digit c = None) then None
      else Some (foldl (\<lambda>n c. 16 * n + the (hex_digit c)) 0 ds))"

fun pairs :: "string \<Rightarrow> string list" where
  "pairs (a # b # cs) = [a, b] # pairs cs"
| "pairs cs = []"

text \<open>\<open>device_fingerprint._normalize_mac\<close>: the six parts of the address, none for an invalid one.\<close>

definition mac_parts :: "string \<Rightarrow> string list" where
  "mac_parts mac =
     (let cleaned = strip (upper (replace_char (CHR ''.'') (CHR '':'') (replace_char (CHR ''-'') (CHR '':'') mac)));
          parts = split_on (CHR '':'') cleaned;
          only_hex = filter is_hex_upper cleaned;
          ps = (if length parts = 6 \<and> list_all (\<lambda>p. length p = 2) parts then parts
                else if length only_hex = 12 then pairs only_hex else [])
      in if mac = [] \<or> (\<exists>p \<in> set ps. int16 p = None) then [] else ps)"

definition is_random_mac :: "string \<Rightarrow> bool" where
  "is_random_mac mac =
     (case mac_parts mac of
        [] \<Rightarrow> False
      | p # _ \<Rightarrow> (case int16 p of None \<Rightarrow> False | Some first \<Rightarrow> first div 2 mod 2 = 1))"

definition check_random_mac :: "env \<Rightarrow> db \<Rightarrow> auth_request \<Rightarrow> string \<Rightarrow> auth_decision option" where
  "check_random_mac e d req source =
     guarded None (at_site e S_random_mac (Inr
       (let key = (if source = ''card'' then ''security.block_random_mac_cards'' else ''security.block_random_mac_subscribers'') in
        if get_setting d (r_tenant_id req) key ''0'' \<notin> {''1'', ''true'', ''t'', ''on'', ''True''} then None
        else if is_random_mac (r_calling_station_id req) then Some (reject ''random_mac_blocked'') else None)))"

definition deny :: "string \<Rightarrow> message \<Rightarrow> auth_decision" where
  "deny reason m = \<lparr>d_ok = False, d_reason = reason, d_message = m, d_reply_message = Some m, d_reply_attrs = []\<rparr>"

lemma deny_simps [simp]: "d_ok (deny r m) = False" "d_reason (deny r m) = r"
  by (simp_all add: deny_def)

definition auth_context_of :: "subscriber \<Rightarrow> access_plan option \<Rightarrow> auth_request \<Rightarrow> string \<Rightarrow> auth_context" where
  "auth_context_of sub plan req source =
     \<lparr>x_source = source, x_username = s_username sub, x_group = s_group sub, x_plan_id = s_plan_id sub,
      x_card_batch_id = s_card_batch_id sub,
      x_service_type = or_default (case plan of None \<Rightarrow> [] | Some p \<Rightarrow> p_service_type p) (s_service_type sub),
      x_nas_ip = r_nas_ip req, x_mac = r_calling_station_id req\<rparr>"

definition check_blocks ::
    "env \<Rightarrow> db \<Rightarrow> subscriber \<Rightarrow> access_plan option \<Rightarrow> auth_request \<Rightarrow> string \<Rightarrow> auth_decision option" where
  "check_blocks e d sub plan req source =
     (case find_active_block e d (r_tenant_id req) (auth_context_of sub plan req source) (e_now e) of
        None \<Rightarrow> None
      | Some hit \<Rightarrow>
          Some (deny (if layer_of (k_block_type hit) = LAYER_BLOCK then ''access_blocked'' else ''access_suspended'')
                     (user_message_for hit)))"

definition check_anti_mac_clone :: "env \<Rightarrow> db \<Rightarrow> auth_request \<Rightarrow> subscriber \<Rightarrow> auth_decision option \<times> db" where
  "check_anti_mac_clone e d req sub =
     (if e_fault e S_anti_clone then (None, d)
      else
        (case check_after_auth e d (r_tenant_id req) (s_username sub) (s_plan_id sub) (s_group sub) req of
           (None, d1) \<Rightarrow> (None, d1)
         | (Some v, d1) \<Rightarrow>
             if cv_action v \<noteq> ''deny'' then (None, d1)
             else
               let reason = (if cv_reason v \<in> {''mac_clone_detected'', ''stepup_required''} then cv_reason v else ''mac_clone_detected'')
               in (Some (deny reason (say (or_default (cv_message v) reason))), d1)))"

definition check_allow_mode :: "env \<Rightarrow> db \<Rightarrow> subscriber \<Rightarrow> auth_request \<Rightarrow> auth_decision option \<times> db" where
  "check_allow_mode e d sub req =
     (if e_fault e S_allow_mode then (None, d)
      else
        (case check_after_password e d (r_tenant_id req) (s_username sub) (s_plan_id sub) (s_card_batch_id sub) (r_calling_station_id req) of
           (None, d1) \<Rightarrow> (None, d1)
         | (Some v, d1) \<Rightarrow>
             if \<not> v_deny v then (None, d1)
             else
               let reason = (if v_reason v \<in> {''allow_mode_unknown_device'', ''allow_mode_at_capacity'', ''allow_mode_bind_failed''}
                             then v_reason v else ''allow_mode_unknown_device'')
               in (Some (deny reason (say reason)), d1)))"

section \<open>Capacity\<close>

definition check_concurrent ::
    "env \<Rightarrow> db \<Rightarrow> subscriber \<Rightarrow> access_plan option \<Rightarrow> auth_request \<Rightarrow> auth_decision option \<times> db" where
  "check_concurrent e d sub plan req =
     (if e_fault e S_device_limit then (None, d)
      else
        let (limit, mac_aware) = effective_limit e d sub plan in
        if limit \<le> 0 then (None, d)
        else
          let active = active_other_devices e d (s_tenant_id sub) (s_username sub) req mac_aware in
          if int (length active) < limit then (None, d)
          else if effective_mode e d (s_tenant_id sub) sub = MODE_REPLACE
          then (None, fst (replace_oldest e d (s_tenant_id sub) (s_username sub) active))
          else (Some (reject ''concurrent_limit''), d))"

definition claim_device_slot ::
    "env \<Rightarrow> db \<Rightarrow> subscriber \<Rightarrow> access_plan option \<Rightarrow> auth_request \<Rightarrow> auth_decision option \<times> db" where
  "claim_device_slot e d sub plan req =
     (if e_fault e S_device_limit then (None, d)
      else
        let (limit, mac_aware) = effective_limit e d sub plan in
        if limit \<le> 0 then (None, d)
        else
          let replace = (effective_mode e d (s_tenant_id sub) sub = MODE_REPLACE);
              (ok, d1) = claim_slot e d (s_tenant_id sub) (s_username sub) req limit mac_aware replace
          in (if ok then None else Some (reject ''concurrent_limit''), d1))"

definition check_provider_active_cap :: "env \<Rightarrow> db \<Rightarrow> subscriber \<Rightarrow> auth_request \<Rightarrow> auth_decision option" where
  "check_provider_active_cap e d sub req =
     (let tid = r_tenant_id req in
      if e_fault e S_provider_cap then None
      else
        (case get_active_online_cap e tid of
           None \<Rightarrow> None
         | Some cap \<Rightarrow>
             if cap \<le> 0 then None
             else if user_has_open_session e d tid (s_username sub) then None
             else if count_active_sessions e d tid [] False \<ge> cap \<and> count_active_sessions e d tid [] True \<ge> cap
             then Some (reject ''provider_active_cap'')
             else None))"

end
