(* ===== verification/PolicyReply.thy ===== *)
theory PolicyReply
  imports PolicyChecks BandwidthRate
begin

text \<open>
  The reply of \<open>policy_engine.py\<close>: the time budget and window of a card, the stored attributes of a subscriber
  and \<open>_build_accept_attrs\<close>. The reply is the dictionary \<open>out\<close> as an association list: assigning an attribute
  replaces its value in place or appends it.
\<close>

section \<open>Reply attributes\<close>

type_synonym attrs = "(string \<times> string) list"

definition set_attr :: "string \<Rightarrow> string \<Rightarrow> attrs \<Rightarrow> attrs" where
  "set_attr k v out = upsert fst (k, v) out"

definition attr :: "attrs \<Rightarrow> string \<Rightarrow> string option" where
  "attr out k = map_option snd (lookup_row fst k out)"

text \<open>\<open>int(out.get(k) or 0)\<close> of a number printed before.\<close>

definition attr_int :: "attrs \<Rightarrow> string \<Rightarrow> int" where
  "attr_int out k =
     (case attr out k of None \<Rightarrow> 0 | Some t \<Rightarrow> if t = [] then 0 else (case parse_int t of None \<Rightarrow> 0 | Some i \<Rightarrow> i))"

definition set_when :: "bool \<Rightarrow> string \<Rightarrow> string \<Rightarrow> attrs \<Rightarrow> attrs" where
  "set_when b k v out = (if b then set_attr k v out else out)"

section \<open>The window and the budget of a card\<close>

definition by_seconds :: "card_batch \<Rightarrow> bool" where
  "by_seconds b = (b_count_by_seconds b \<and> \<not> b_count_from_first_connect b)"

definition window_unit_seconds :: "string \<Rightarrow> int option" where
  "window_unit_seconds unit = map_of [(''minutes'', 60), (''hours'', 3600), (''days'', 86400)] unit"

definition card_window_seconds :: "card_batch \<Rightarrow> int" where
  "card_window_seconds b =
     (let days = b_validity_after_first_login_days b; rest = (if days > 0 then days * 86400 else 0) in
      if by_seconds b then rest
      else (case window_unit_seconds (lower (strip (b_time_unit b))) of
              Some k \<Rightarrow> if b_time_value b > 0 then b_time_value b * k else rest
            | None \<Rightarrow> rest))"

definition card_batch_window_seconds :: "env \<Rightarrow> db \<Rightarrow> int \<Rightarrow> int option \<Rightarrow> int" where
  "card_batch_window_seconds e d tid batch_id =
     (if \<not> truthy_id batch_id then 0
      else guarded 0 (at_site e S_window_lookup (Inr
             (case get_batch d tid (the batch_id) of None \<Rightarrow> 0 | Some b \<Rightarrow> card_window_seconds b))))"

text \<open>The row of a card joined with its batch; the batch may be missing.\<close>

definition card_row :: "db \<Rightarrow> int \<Rightarrow> string \<Rightarrow> (card \<times> card_batch option) option" where
  "card_row d tid u = map_option (\<lambda>c. (c, get_batch d tid (c_batch_id c))) (get_card_by_username d tid u)"

definition add_card_extra :: "int \<Rightarrow> card_batch option \<Rightarrow> int \<Rightarrow> int" where
  "add_card_extra base batch extra =
     (if base \<le> 0 then base
      else if (case batch of None \<Rightarrow> False | Some b \<Rightarrow> by_seconds b) then base
      else if base + extra > 0 then base + extra else -1)"

definition card_session_window_seconds :: "env \<Rightarrow> db \<Rightarrow> int \<Rightarrow> int option \<Rightarrow> string \<Rightarrow> int" where
  "card_session_window_seconds e d tid batch_id u =
     (let base = card_batch_window_seconds e d tid batch_id in
      if base \<le> 0 \<or> u = [] then base
      else if e_fault e S_window_extra then base
      else (case card_row d tid u of None \<Rightarrow> base | Some (c, b) \<Rightarrow> add_card_extra base b (c_extra_seconds c)))"

text \<open>\<open>None\<close>: no budget is known; 0: the expiry stamped on the card governs.\<close>

definition card_budget_session_cap :: "env \<Rightarrow> db \<Rightarrow> subscriber \<Rightarrow> access_plan \<Rightarrow> int option" where
  "card_budget_session_cap e d sub plan =
     (let tid = s_tenant_id sub; u = s_username sub in
      if e_fault e S_budget_lookup then None
      else
        (case card_row d tid u of
           Some (c, Some b) \<Rightarrow>
             let extra = c_extra_seconds c in
             if by_seconds b then
               let base = (if p_duration_minutes plan * 60 \<noteq> 0 then p_duration_minutes plan * 60
                           else unit_to_seconds (b_time_value b) (or_default (b_time_unit b) ''days'')) in
               if base \<le> 0 then None
               else Some (max 1 (base + extra - accounted_session_seconds e d tid u (card_reset_since e d tid u)))
             else if s_expire_at sub \<noteq> None then Some 0
             else
               let base = budget_seconds (b_validity_after_first_login_days b) (b_time_value b) (or_default (b_time_unit b) ''days'')
                            (p_duration_minutes plan) (p_validity_days plan) in
               if base \<le> 0 then None
               else Some (if budget_with_extra base extra > 0 then budget_with_extra base extra else 1)
         | _ \<Rightarrow> None))"

section \<open>The stored attributes of a subscriber\<close>

definition meta_flat :: "json_text \<Rightarrow> (string \<times> json) list" where
  "meta_flat m =
     (case m of
        Decoded (JObj kvs) \<Rightarrow>
          let nested = fold (\<lambda>(k, v) flat. case v of JObj inner \<Rightarrow> fold (upsert fst) inner flat | _ \<Rightarrow> flat) kvs []
          in fold (\<lambda>(k, v) flat. case v of
                     JObj _ \<Rightarrow> flat
                   | JArr _ \<Rightarrow> flat
                   | _ \<Rightarrow> if lookup_row fst k flat = None then flat @ [(k, v)] else flat) kvs nested
      | _ \<Rightarrow> [])"

text \<open>\<open>str(flat.get(k, "") or "").strip()\<close>.\<close>

definition meta_text :: "env \<Rightarrow> (string \<times> json) list \<Rightarrow> string \<Rightarrow> string" where
  "meta_text e flat k =
     (case map_of flat k of None \<Rightarrow> [] | Some v \<Rightarrow> if json_truthy v then strip (str_of (e_pystr e) v) else [])"

text \<open>\<open>int(str(flat.get(k, "") or "0").strip() or 0)\<close>, 0 where it is no number.\<close>

definition meta_int :: "env \<Rightarrow> (string \<times> json) list \<Rightarrow> string \<Rightarrow> int" where
  "meta_int e flat k =
     (let t = meta_text e flat k in if t = [] then 0 else (case parse_int t of None \<Rightarrow> 0 | Some i \<Rightarrow> i))"

definition augment_rate_priority :: "string \<Rightarrow> int \<Rightarrow> string" where
  "augment_rate_priority rate priority =
     (let toks = split_ws rate; padded = toks @ replicate (4 - length toks) ''0/0'' in
      if toks = [] then rate
      else join_with '' '' (if length padded \<ge> 5 then padded[4 := str_of_int priority] else padded @ [str_of_int priority]))"

definition name_char :: "char \<Rightarrow> bool" where
  "name_char c = (is_alpha c \<or> is_digit c \<or> c = CHR ''-'')"

text \<open>\<open>s.strip(c)\<close> of one character.\<close>

definition strip_char :: "char \<Rightarrow> string \<Rightarrow> string" where
  "strip_char c s = rev (dropWhile (\<lambda>x. x = c) (rev (dropWhile (\<lambda>x. x = c) s)))"

text \<open>The value after the separator \<open>:=\<close>, \<open>=\<close> or \<open>:\<close>, tried in this order: at least one character.\<close>

definition after_separator :: "string \<Rightarrow> string option" where
  "after_separator t =
     (if take 2 t = '':='' \<and> lstrip (drop 2 t) \<noteq> [] then Some (lstrip (drop 2 t))
      else if take 1 t \<in> {''='', '':''} \<and> lstrip (drop 1 t) \<noteq> [] then Some (lstrip (drop 1 t))
      else None)"

definition parse_ppp_line :: "string \<Rightarrow> (string \<times> string) option" where
  "parse_ppp_line line0 =
     (let line = strip line0; name = takeWhile name_char line; rest = dropWhile name_char line in
      if line = [] \<or> take 1 line = ''#'' then None
      else if name = [] \<or> \<not> is_alpha (hd name) then None
      else (case after_separator (lstrip rest) of
              None \<Rightarrow> None
            | Some v0 \<Rightarrow>
                let v = strip (strip_char (CHR 0x27) (strip_char (CHR 0x22) (strip v0)))
                in if v = [] then None else Some (name, v)))"

definition parse_ppp_extra :: "string \<Rightarrow> (string \<times> string) list" where
  "parse_ppp_extra t =
     List.map_filter parse_ppp_line
       (split_on (CHR 0x0A) (replace_char (CHR 0x0D) (CHR 0x0A) (replace_char (CHR '';'') (CHR 0x0A) t)))"

text \<open>The free text of \<open>ppp_attributes_extra\<close>: \<open>str\<close> of the value, empty where it is false.\<close>

definition ppp_text :: "env \<Rightarrow> (string \<times> json) list \<Rightarrow> string" where
  "ppp_text e flat =
     (case map_of flat ''ppp_attributes_extra'' of
        None \<Rightarrow> [] | Some v \<Rightarrow> if json_truthy v then str_of (e_pystr e) v else [])"

definition apply_subscriber_reply_extras :: "env \<Rightarrow> subscriber \<Rightarrow> access_plan option \<Rightarrow> attrs \<Rightarrow> attrs" where
  "apply_subscriber_reply_extras e sub plan out0 =
     (let out1 = set_when (s_primary_dns_ppp sub \<noteq> []) ''MS-Primary-DNS-Server'' (strip (s_primary_dns_ppp sub)) out0;
          out2 = set_when (s_secondary_dns_ppp sub \<noteq> []) ''MS-Secondary-DNS-Server'' (strip (s_secondary_dns_ppp sub)) out1;
          flat = meta_flat (s_metadata sub);
          t = meta_text e flat;
          out3 = set_when (t ''mikrotik_filter_chain'' \<noteq> []) ''Filter-Id'' (t ''mikrotik_filter_chain'') out2;
          out4 = set_when (t ''mikrotik_address_list'' \<noteq> []) ''Mikrotik-Address-List'' (t ''mikrotik_address_list'') out3;
          out5 = set_when (t ''mikrotik_framed_route'' \<noteq> []) ''Framed-Route'' (t ''mikrotik_framed_route'') out4;
          out6 = set_when (t ''mikrotik_user_group'' \<noteq> []) ''Mikrotik-Group'' (t ''mikrotik_user_group'') out5;
          fpool = or_default (t ''framed_pool'') (case plan of None \<Rightarrow> [] | Some p \<Rightarrow> strip (p_framed_pool p));
          out7 = set_when (fpool \<noteq> []) ''Framed-Pool'' fpool out6;
          prio = meta_int e flat ''mikrotik_queue_priority'';
          out8 = (case attr out7 ''Mikrotik-Rate-Limit'' of
                    None \<Rightarrow> out7
                  | Some r \<Rightarrow> set_when (1 \<le> prio \<and> prio \<le> 8 \<and> r \<noteq> []) ''Mikrotik-Rate-Limit'' (augment_rate_priority r prio) out7);
          interim = meta_int e flat ''acct_interim_interval_sec'';
          out9 = set_when (interim > 0) ''Acct-Interim-Interval'' (str_of_int interim) out8
      in fold (\<lambda>(k, v). set_attr k v) (parse_ppp_extra (ppp_text e flat)) out9)"

section \<open>The attributes of an Access-Accept\<close>

definition is_time_budget :: "subscriber \<Rightarrow> bool" where
  "is_time_budget sub = (s_user_type sub = ''card'' \<or> truthy_id (s_card_batch_id sub))"

text \<open>\<open>x if not timeout else min(timeout, x)\<close>.\<close>

definition cap_timeout :: "int \<Rightarrow> int \<Rightarrow> int" where
  "cap_timeout timeout x = (if timeout = 0 then x else min timeout x)"

definition plan_timeout :: "env \<Rightarrow> db \<Rightarrow> subscriber \<Rightarrow> access_plan \<Rightarrow> int" where
  "plan_timeout e d sub p =
     (let t0 = p_session_timeout_sec p;
          t1 = (if t0 = 0 \<and> p_duration_minutes p \<noteq> 0 \<and> is_time_budget sub
                then (case card_budget_session_cap e d sub p of None \<Rightarrow> p_duration_minutes p * 60 | Some c \<Rightarrow> c) else t0)
      in case s_expire_at sub of
           Some x \<Rightarrow>
             let remaining = total_seconds (x - e_now e) in if remaining > 0 then cap_timeout t1 remaining else t1
         | None \<Rightarrow>
             if \<not> is_time_budget sub then t1
             else
               let w0 = card_session_window_seconds e d (s_tenant_id sub) (s_card_batch_id sub) (s_username sub);
                   w = (if w0 < 0 then 1 else w0)
               in if w > 0 then cap_timeout t1 w else t1)"

text \<open>The clip of \<open>Session-Timeout\<close> to a positive bound.\<close>

definition clip_timeout :: "int option \<Rightarrow> attrs \<Rightarrow> attrs" where
  "clip_timeout bound out =
     (case bound of
        None \<Rightarrow> out
      | Some r \<Rightarrow>
          if r > 0 then
            let existing = attr_int out ''Session-Timeout''
            in set_attr ''Session-Timeout'' (str_of_int (if existing \<le> 0 then r else min existing r)) out
          else out)"

definition base_rate :: "env \<Rightarrow> db \<Rightarrow> subscriber \<Rightarrow> access_plan option \<Rightarrow> string option res" where
  "base_rate e d sub plan =
     res_bind (at_site e S_speed_rules
                 (resolve_effective_bandwidth_schedule e d (s_tenant_id sub) (s_username sub) (s_card_batch_id sub)
                    (plan_id_for_rule plan (s_plan_id sub)))) (\<lambda>rule. Inr
       (case rule of
          Some r \<Rightarrow> Some (rate_str (sc_speed_up_kbps r) (sc_speed_down_kbps r))
        | None \<Rightarrow>
            if has_own_rate sub then Some (rate_str (s_upload_speed_kbps sub) (s_download_speed_kbps sub))
            else (case plan of None \<Rightarrow> None | Some p \<Rightarrow> plan_rate_limit e d p)))"

definition plan_attrs :: "env \<Rightarrow> db \<Rightarrow> subscriber \<Rightarrow> access_plan option \<Rightarrow> attrs \<Rightarrow> attrs" where
  "plan_attrs e d sub plan out =
     (case plan of
        None \<Rightarrow> out
      | Some p \<Rightarrow>
          let timeout = plan_timeout e d sub p in
          set_when (p_address_pool p \<noteq> []) ''Mikrotik-Address-List'' (p_address_pool p)
            (set_when (p_idle_timeout_sec p > 0) ''Idle-Timeout'' (str_of_int (p_idle_timeout_sec p))
              (set_when (timeout > 0) ''Session-Timeout'' (str_of_int timeout) out)))"

text \<open>The seconds to the end of the allowed window; a failure clips nothing.\<close>

definition schedule_bound :: "env \<Rightarrow> subscriber \<Rightarrow> access_plan option \<Rightarrow> int option" where
  "schedule_bound e sub plan =
     guarded None (at_site e S_window_end (seconds_until_window_end sub plan (local_now e (s_tenant_id sub))))"

definition throttled :: "env \<Rightarrow> db \<Rightarrow> subscriber \<Rightarrow> bool \<Rightarrow> attrs \<Rightarrow> attrs" where
  "throttled e d sub exhausted out =
     (if exhausted \<and> \<not> e_fault e S_throttle \<and> quota_exhaust_mode e d (s_tenant_id sub) (s_username sub) = ''reduce_speed''
      then set_attr ''Mikrotik-Rate-Limit'' (quota_throttle_rate e d (s_tenant_id sub)) out else out)"

text \<open>The attributes before the stored extras of the subscriber.\<close>

definition timed_attrs :: "env \<Rightarrow> db \<Rightarrow> subscriber \<Rightarrow> access_plan option \<Rightarrow> string option \<Rightarrow> attrs" where
  "timed_attrs e d sub plan rate =
     (let out0 = (case rate of Some r \<Rightarrow> if r \<noteq> [] then [(''Mikrotik-Rate-Limit'', r)] else [] | None \<Rightarrow> []);
          out1 = plan_attrs e d sub plan out0;
          out2 = clip_timeout (time_cap_remaining_seconds e d sub plan) out1;
          out3 = clip_timeout (schedule_bound e sub plan) out2
      in set_attr ''Acct-Interim-Interval'' ''60''
           (set_when (s_static_ip sub \<noteq> []) ''Framed-IP-Address'' (s_static_ip sub) out3))"

definition build_accept_attrs :: "env \<Rightarrow> db \<Rightarrow> subscriber \<Rightarrow> access_plan option \<Rightarrow> (attrs \<times> db) res" where
  "build_accept_attrs e d sub plan =
     res_bind (base_rate e d sub plan) (\<lambda>rate.
       let out = timed_attrs e d sub plan rate;
           (exhausted, d1) = is_quota_exhausted e d sub plan
       in Inr (apply_subscriber_reply_extras e sub plan (throttled e d1 sub exhausted out), d1))"

end
