(* ===== verification/PolicyProperties.thy ===== *)
theory PolicyProperties
  imports PolicyReply
begin

text \<open>
  What the checks and the reply compute: the time online of a day is the measure of a union of intervals, the
  schedule gate of a login agrees with the test of the sweep over live sessions, and the session timeout of the
  reply is the least of the limits that apply.
\<close>

section \<open>Time online as a union of intervals\<close>

definition covered :: "(int \<times> int) list \<Rightarrow> int set" where
  "covered ivs = (\<Union>(s, e) \<in> set ivs. {s..<e})"

lemma covered_simps [simp]: "covered [] = {}" "covered ((s, e) # ivs) = {s..<e} \<union> covered ivs"
  by (auto simp: covered_def)

lemma finite_covered [simp]: "finite (covered ivs)"
  by (auto simp: covered_def)

lemma covered_below: "\<forall>(s, e) \<in> set ivs. b \<le> s \<Longrightarrow> x \<in> covered ivs \<Longrightarrow> b \<le> x"
  by (fastforce simp: covered_def)

lemma union_loop_measure:
  assumes "s \<le> e" "\<forall>(a, b) \<in> set ivs. s \<le> a \<and> a < b" "sorted (map fst ivs)"
  shows "union_loop acc s e ivs = acc + int (card ({s..<e} \<union> covered ivs))"
  using assms
proof (induction acc s e ivs rule: union_loop.induct)
  case (1 acc s e)
  then show ?case by simp
next
  case (2 acc s e a b ivs)
  from 2(4-6) have ab: "s \<le> a" "a < b" and later: "\<forall>(x, y) \<in> set ivs. a \<le> x \<and> x < y" "\<forall>(x, y) \<in> set ivs. s \<le> x \<and> x < y"
    and srt: "sorted (map fst ivs)" by (auto simp: case_prod_unfold)
  show ?case
  proof (cases "a > e")
    case True
    have "{s..<e} \<inter> ({a..<b} \<union> covered ivs) = {}"
      using True covered_below [of ivs a] later(1) by fastforce
    then have "card ({s..<e} \<union> ({a..<b} \<union> covered ivs)) = card {s..<e} + card ({a..<b} \<union> covered ivs)"
      by (intro card_Un_disjoint) simp_all
    with 2(1) True ab later(1) srt 2(4) show ?thesis by (simp add: Un_assoc)
  next
    case False
    then have "{s..<e} \<union> {a..<b} = {s..<max e b}" using ab by auto
    then have "{s..<e} \<union> covered ((a, b) # ivs) = {s..<max e b} \<union> covered ivs" by auto
    with 2(2,3) False ab later(2) srt 2(4) show ?thesis by (auto simp: max_def)
  qed
qed

text \<open>The seconds counted for a set of sessions are the seconds in which at least one of them ran: overlapping
  and repeated sessions are counted once, and sessions without a duration not at all.\<close>

theorem union_seconds_measure: "union_seconds ivs = int (card (\<Union>(s, e) \<in> set ivs. {s..<e}))"
proof -
  let ?xs = "sort_key fst (sort_key snd (filter (\<lambda>(s, e). s < e) ivs))"
  have c: "covered ?xs = covered ivs" by (auto simp: covered_def)
  have pos: "\<forall>(a, b) \<in> set ?xs. a < b" by auto
  have "union_seconds ivs = int (card (covered ?xs))"
  proof (cases ?xs)
    case Nil
    then show ?thesis by (simp add: union_seconds_def)
  next
    case (Cons p rest)
    obtain s e where p: "p = (s, e)" by (cases p)
    have "sorted (map fst ?xs)" by (rule sorted_sort_key)
    with pos have "s \<le> e" "\<forall>(a, b) \<in> set rest. s \<le> a \<and> a < b" "sorted (map fst rest)"
      unfolding Cons p by (auto simp: case_prod_unfold)
    from union_loop_measure [OF this, of 0] show ?thesis
      unfolding union_seconds_def Cons p list.case prod.case covered_simps by (simp only: add_0)
  qed
  then show ?thesis unfolding c unfolding covered_def .
qed

text \<open>The seconds since the epoch, from the start \<open>since\<close> of the day on, in which a session of the user was online: a
  session covers the accounted seconds from its start; one that had ended when the day started is left out.\<close>

definition online_seconds :: "db \<Rightarrow> int \<Rightarrow> string \<Rightarrow> dt \<Rightarrow> int set" where
  "online_seconds d tid u since =
     {t. since div usec \<le> t \<and> (\<exists>a \<in> set (radacct d). \<exists>s. a_tenant_id a = tid \<and> a_username a = u \<and> a_start a = Some s \<and>
        (since \<le> s \<or> a_stop a = None \<or> since < the (a_stop a)) \<and> s div usec \<le> t \<and> t < s div usec + a_sessiontime a)}"

lemma in_map_filter: "y \<in> set (List.map_filter f xs) \<longleftrightarrow> (\<exists>x \<in> set xs. f x = Some y)"
  by (induction xs) (auto simp: List.map_filter_simps split: option.split)

lemma day_intervals_online:
  "(\<Union>(s, e) \<in> set (List.map_filter (day_interval (since div usec)) (day_rows d tid u since)). {s..<e}) = online_seconds d tid u since"
proof -
  have row: "(\<exists>s e. day_interval k a = Some (s, e) \<and> s \<le> t \<and> t < e) \<longleftrightarrow>
      k \<le> t \<and> (\<exists>s. a_start a = Some s \<and> s div usec \<le> t \<and> t < s div usec + a_sessiontime a)" for a t k
    by (auto simp: day_interval_def Let_def split: option.split)
  have mem: "a \<in> set (day_rows d tid u since) \<longleftrightarrow> a \<in> set (radacct d) \<and> a_tenant_id a = tid \<and> a_username a = u \<and>
      ((\<exists>s. a_start a = Some s \<and> since \<le> s) \<or> a_stop a = None \<or> since < the (a_stop a))" for a
    by (auto simp: day_rows_def user_rows_def split: option.splits)
  have "t \<in> (\<Union>(s, e) \<in> set (List.map_filter (day_interval (since div usec)) (day_rows d tid u since)). {s..<e}) \<longleftrightarrow>
      (\<exists>a \<in> set (day_rows d tid u since). \<exists>s e. day_interval (since div usec) a = Some (s, e) \<and> s \<le> t \<and> t < e)" for t
    by (fastforce simp: in_map_filter)
  also have "\<dots> t \<longleftrightarrow> t \<in> online_seconds d tid u since" for t
    unfolding Bex_def row mem online_seconds_def by auto
  finally show ?thesis by blast
qed

text \<open>C31. The time online counted for a day is the number of seconds, from the start of the day on, in which at least one
  session of the user was online, however the sessions overlap, and never more than the time elapsed since the start of
  the day, when the read of the session table succeeds.\<close>

theorem daily_used_seconds_measure:
  assumes "u \<noteq> []" "\<not> e_fault e S_bulk_usage"
  shows "daily_used_seconds e d tid u since =
    min (int (card (online_seconds d tid u since))) (max 0 (total_seconds (e_now e - since)))"
proof -
  let ?ivs = "List.map_filter (day_interval (since div usec)) (day_rows d tid u since)"
  have m: "union_seconds ?ivs = int (card (online_seconds d tid u since))"
    by (simp only: union_seconds_measure day_intervals_online)
  then have "?ivs = [] \<Longrightarrow> card (online_seconds d tid u since) = 0" by (simp add: union_seconds_def)
  then show ?thesis using assms m by (auto simp: daily_used_seconds_def elapsed_since_def guarded_def Let_def)
qed

section \<open>The gate at login and the sweep of live sessions\<close>

definition readable_hours :: "access_plan \<Rightarrow> bool" where
  "readable_hours p = (\<not> isl (parse_time (fst (effective_plan_hours p))) \<and> \<not> isl (parse_time (snd (effective_plan_hours p))))"

lemma not_isl: "\<not> isl r \<longleftrightarrow> (\<exists>x. r = Inr x)"
  by (cases r) auto

lemma window_allows_norm: "norm_window w \<Longrightarrow> \<exists>b. window_allows w c t = Inr b"
  by (auto simp: norm_window_def window_allows_def Let_def)

lemma any_res_defined: "(\<And>x. x \<in> set xs \<Longrightarrow> \<exists>b. f x = Inr b) \<Longrightarrow> \<exists>b. any_res f xs = Inr b"
proof (induction xs)
  case (Cons x xs)
  then obtain b where "f x = Inr b" by auto
  with Cons show ?case by (cases b) auto
qed (simp add: exI [of _ False])

lemma windows_allow_norm: "\<forall>w \<in> set ws. norm_window w \<Longrightarrow> \<exists>b. windows_allow ws t = Inr b"
  using any_res_defined [of ws "\<lambda>w. window_allows w (code_at t) (clock_at t)"] window_allows_norm
  by (auto simp: windows_allow_def)

lemma is_allowed_windows: "parse raw = Inr ws \<Longrightarrow> is_allowed raw t = windows_allow ws t"
  by (simp add: is_allowed_def windows_allow_def)

text \<open>The offer hours of a plan: the evaluated window allows what its raw window allows.\<close>

lemma check_offer_hours_dim:
  assumes "readable_hours p"
  shows "\<exists>b. dim_allows (offer_windows (Some p)) t = Inr b \<and> (\<exists>r. check_offer_hours (Some p) t = Inr r \<and> (r = None \<longleftrightarrow> b))"
proof (cases "offer_windows (Some p)")
  case None
  then show ?thesis by (intro exI [of _ True]) (simp add: check_offer_hours_def dim_allows_def)
next
  case (Some ws)
  obtain f g where hours: "effective_plan_hours p = (f, g)" by fastforce
  with assms obtain x y where xy: "parse_time f = Inr x" "parse_time g = Inr y"
    by (auto simp: readable_hours_def not_isl)
  let ?w = "\<lparr>w_days = [], w_from = f, w_to = g\<rparr>" and ?v = "\<lparr>w_days = [], w_from = fmt_time x, w_to = fmt_time y\<rparr>"
  have ws: "ws = [?w]" using Some hours by (auto simp: offer_windows_def split: if_splits)
  have "parse_window (window_json ?w) = Inr ?v"
    using xy by (simp add: parse_window_def window_json_def time_field_def normalize_days_def day_items_def)
  then have p: "parse (RDict (schedule_dict ws)) = Inr [?v]"
    by (simp add: ws parse_def parse_windows_def schedule_dict_def)
  have "window_allows ?v c u = window_allows ?w c u" for c u
    using xy parse_time_valid [OF xy(1)] parse_time_valid [OF xy(2)] by (simp add: window_allows_def)
  then have "is_allowed (RDict (schedule_dict ws)) t = windows_allow ws t"
    unfolding is_allowed_windows [OF p] by (simp add: windows_allow_def ws)
  moreover obtain b where "windows_allow [?v] t = Inr b"
    using windows_allow_norm [of "[?v]" t] parse_norm [OF p] by auto
  then have "windows_allow ws t = Inr b"
    using calculation is_allowed_windows [OF p, of t] by simp
  ultimately show ?thesis by (simp add: check_offer_hours_def dim_allows_def Some)
qed

lemma parse_time_Nil [simp]: "parse_time [] = Inr None"
  by (simp add: parse_time_def strip_def lstrip_def)

lemma windows_from_days_allow:
  "codes \<noteq> [] \<Longrightarrow> windows_allow (windows_from_days codes) t = Inr (code_at t \<in> set codes)"
  by (simp add: windows_allow_def windows_from_days_def window_allows_def)

lemma code_at_DAYS: "code_at t \<in> set DAYS"
proof -
  have "0 \<le> weekday t \<and> weekday t < 7" by (simp add: weekday_def)
  then have "weekday t \<in> {0, 1, 2, 3, 4, 5, 6}" by auto
  then show ?thesis by (auto simp: code_at_def weekday_code_def DAYS_def)
qed

text \<open>Columns as the forms write them: a schedule that parses, working days that are codes.\<close>

definition tidy_subscriber :: "subscriber \<Rightarrow> bool" where
  "tidy_subscriber sub =
     (\<not> isl (parse (schedule_raw (s_connection_schedule sub))) \<and>
      (strip (s_working_days sub) \<noteq> [] \<longrightarrow>
         csv_codes (strip (s_working_days sub)) \<noteq> [] \<and> set (csv_codes (strip (s_working_days sub))) \<subseteq> set DAYS))"

definition tidy_plan :: "access_plan \<Rightarrow> bool" where
  "tidy_plan p = (set (p_allowed_days p) \<subseteq> set DAYS \<and> readable_hours p)"

lemma parsed_windows_norm: "\<forall>w \<in> set (parsed_windows j). norm_window w"
  by (cases "parse (schedule_raw j)") (auto simp: parsed_windows_def guarded_def dest: parse_norm)

lemma subscriber_gate:
  assumes "tidy_subscriber sub" "\<not> e_fault e S_subscriber_schedule" "subscriber_has_schedule sub"
  obtains ws b where "subscriber_schedule_windows sub = Some ws" "windows_allow ws (local_now e (s_tenant_id sub)) = Inr b"
    "check_subscriber_schedule e sub = None \<longleftrightarrow> b"
proof -
  let ?t = "local_now e (s_tenant_id sub)" and ?raw = "schedule_raw (s_connection_schedule sub)"
  from assms(1) obtain ws where ws: "parse ?raw = Inr ws" by (auto simp: tidy_subscriber_def not_isl)
  then have pw: "parsed_windows (s_connection_schedule sub) = ws" by (simp add: parsed_windows_def guarded_def)
  show ?thesis
  proof (cases "ws = []")
    case False
    obtain b where b: "windows_allow ws ?t = Inr b"
      using windows_allow_norm [of ws ?t] parsed_windows_norm [of "s_connection_schedule sub"] pw by auto
    have "check_subscriber_schedule e sub = None \<longleftrightarrow> b"
      using assms(2) ws False b by (simp add: check_subscriber_schedule_def guarded_def Let_def is_allowed_windows [OF ws])
    with False b pw show ?thesis by (intro that) (simp_all add: subscriber_schedule_windows_def)
  next
    case True
    let ?c = "csv_codes (strip (s_working_days sub))" and ?f = "filter (\<lambda>d. d \<in> set (csv_codes (strip (s_working_days sub)))) DAYS"
    from assms(3) True pw have d: "strip (s_working_days sub) \<noteq> []" by (simp add: subscriber_has_schedule_def)
    with assms(1) have c: "?c \<noteq> []" "set ?c \<subseteq> set DAYS" by (auto simp: tidy_subscriber_def)
    then have f: "?f \<noteq> []" "set ?c \<inter> set DAYS \<noteq> {}" by (auto simp: filter_empty_conv neq_Nil_conv)
    have "subscriber_schedule_windows sub = Some (windows_from_days ?f)"
      using True pw d f(2) c(2) by (simp add: subscriber_schedule_windows_def Let_def inf_absorb1)
    moreover have "check_subscriber_schedule e sub = None \<longleftrightarrow> code_at ?t \<in> set ?f"
      using assms(2) ws True d c code_at_DAYS [of ?t] by (simp add: check_subscriber_schedule_def guarded_def Let_def)
    ultimately show ?thesis using windows_from_days_allow [OF f(1), of ?t] by (intro that) simp_all
  qed
qed

lemma plan_gate:
  assumes "set (p_allowed_days p) \<subseteq> set DAYS" "\<not> e_fault e S_plan_schedule"
  shows "\<exists>b. dim_allows (plan_schedule_windows (Some p)) (local_now e (s_tenant_id sub)) = Inr b \<and>
    (check_plan_schedule_days e (Some p) sub = None \<longleftrightarrow> b)"
proof -
  let ?t = "local_now e (s_tenant_id sub)" and ?raw = "schedule_raw (p_connection_schedule p)"
  show ?thesis
  proof (cases "parsed_windows (p_connection_schedule p) = []")
    case False
    then obtain ws where ws: "parse ?raw = Inr ws" "parsed_windows (p_connection_schedule p) = ws"
      by (auto simp: parsed_windows_def guarded_def split: sum.splits)
    obtain b where b: "windows_allow ws ?t = Inr b"
      using windows_allow_norm [of ws ?t] parsed_windows_norm [of "p_connection_schedule p"] ws by auto
    with ws False assms(2) show ?thesis
      by (simp add: dim_allows_def plan_schedule_windows_def check_plan_schedule_days_def Let_def is_allowed_windows [OF ws(1)])
  next
    case True
    have days: "check_plan_schedule_days e (Some p) sub = check_days (Some p) ?t"
      using True assms(2)
      by (cases "parse ?raw") (auto simp: check_plan_schedule_days_def Let_def parsed_windows_def guarded_def)
    have same: "set (map (\<lambda>d. lower (strip d)) (filter (\<lambda>d. strip d \<noteq> []) (p_allowed_days p))) \<inter> set DAYS = set (p_allowed_days p)"
      using assms(1) DAYS_strip_lower by force
    have r: "restricting_days p = (if set (p_allowed_days p) = {} \<or> set (p_allowed_days p) = set DAYS then []
        else filter (\<lambda>d. d \<in> set (p_allowed_days p)) DAYS)"
      unfolding restricting_days_def same Let_def ..
    show ?thesis
    proof (cases "restricting_days p = []")
      case no: True
      then have "set (p_allowed_days p) = {} \<or> set (p_allowed_days p) = set DAYS"
        using assms(1) by (auto simp: r filter_empty_conv neq_Nil_conv split: if_splits)
      then have "check_days (Some p) ?t = None" using code_at_DAYS [of ?t] by (auto simp: check_days_def)
      with True no days show ?thesis by (intro exI [of _ True]) (simp add: dim_allows_def plan_schedule_windows_def)
    next
      case yes: False
      then have f: "restricting_days p = filter (\<lambda>d. d \<in> set (p_allowed_days p)) DAYS" "p_allowed_days p \<noteq> []"
        by (auto simp: r split: if_splits)
      with True yes days windows_from_days_allow [OF yes, of ?t] code_at_DAYS [of ?t] show ?thesis
        by (intro exI [of _ "code_at ?t \<in> set (restricting_days p)"])
          (auto simp: dim_allows_def plan_schedule_windows_def check_days_def)
    qed
  qed
qed

lemma gate_agrees:
  assumes "tidy_subscriber sub" "\<And>p. plan = Some p \<Longrightarrow> tidy_plan p"
    and ok: "\<not> e_fault e S_subscriber_schedule" "\<not> e_fault e S_plan_schedule" "\<not> e_fault e S_offer_hours"
  shows "\<exists>b r. is_out_of_window sub plan (local_now e (s_tenant_id sub)) = Inr b \<and> check_schedule e sub plan = Inr r \<and> (r \<noteq> None \<longleftrightarrow> b)"
proof -
  let ?t = "local_now e (s_tenant_id sub)"
  have dim: "\<exists>b. dim_allows (schedule_dim_windows sub plan) ?t = Inr b \<and> (check_schedule_dimension e sub plan = None \<longleftrightarrow> b)"
  proof (cases "subscriber_has_schedule sub")
    case True
    from subscriber_gate [OF assms(1) ok(1) True] obtain ws b where "subscriber_schedule_windows sub = Some ws"
      "windows_allow ws ?t = Inr b" "check_subscriber_schedule e sub = None \<longleftrightarrow> b" .
    with True show ?thesis by (auto simp: check_schedule_dimension_def schedule_dim_windows_def dim_allows_def)
  next
    case False
    then have none: "subscriber_schedule_windows sub = None"
      by (simp add: subscriber_has_schedule_def subscriber_schedule_windows_def Let_def)
    show ?thesis
    proof (cases plan)
      case None
      with False none show ?thesis
        by (simp add: check_schedule_dimension_def schedule_dim_windows_def check_plan_schedule_days_def plan_schedule_windows_def dim_allows_def exI [of _ True])
    next
      case (Some p)
      with assms(2) plan_gate [OF _ ok(2), of p sub] False none show ?thesis
        by (simp add: tidy_plan_def check_schedule_dimension_def schedule_dim_windows_def)
    qed
  qed
  have offer: "\<exists>b. dim_allows (offer_windows plan) ?t = Inr b \<and> (\<exists>r. (if plan = None then Inr None else check_offer_hours plan ?t) = Inr r \<and> (r = None \<longleftrightarrow> b))"
  proof (cases plan)
    case None
    then show ?thesis by (simp add: offer_windows_def dim_allows_def exI [of _ True])
  next
    case (Some p)
    with assms(2) check_offer_hours_dim [of p ?t] show ?thesis by (simp add: tidy_plan_def)
  qed
  from dim offer obtain b1 b2 r where b: "dim_allows (schedule_dim_windows sub plan) ?t = Inr b1" "dim_allows (offer_windows plan) ?t = Inr b2"
    "check_schedule_dimension e sub plan = None \<longleftrightarrow> b1" "(if plan = None then Inr None else check_offer_hours plan ?t) = Inr r" "r = None \<longleftrightarrow> b2" by blast
  have "is_out_of_window sub plan ?t = Inr (\<not> (b1 \<and> b2))"
    using b(1,2) by (auto simp: is_out_of_window_def both_allow_def Let_def dim_allows_def)
  moreover have "\<exists>q. check_schedule e sub plan = Inr q \<and> (q \<noteq> None \<longleftrightarrow> \<not> (b1 \<and> b2))"
    using b(3-5) ok(3) by (cases "check_schedule_dimension e sub plan") (auto simp: check_schedule_def split: if_splits)
  ultimately show ?thesis by blast
qed

text \<open>C30. The gate at login and the test the sweep applies to live sessions are one rule: with the columns as the forms
  write them and no failed read, a login is turned away for its schedule, working days or offer hours exactly
  when the sweep would find the account outside its window at that moment.\<close>

theorem schedule_gate_agrees:
  assumes "tidy_subscriber sub" "\<And>p. plan = Some p \<Longrightarrow> tidy_plan p"
    and ok: "\<not> e_fault e S_subscriber_schedule" "\<not> e_fault e S_plan_schedule" "\<not> e_fault e S_offer_hours"
  shows "\<exists>b r. is_out_of_window sub plan (local_now e (s_tenant_id sub)) = Inr b \<and> check_schedule e sub plan = Inr r \<and> (r \<noteq> None \<longleftrightarrow> b)"
  using assms by (rule gate_agrees)

section \<open>The session timeout\<close>

lemma attr_set [simp]: "attr (set_attr k v out) k' = (if k' = k then Some v else attr out k')"
  by (simp add: attr_def set_attr_def lookup_upsert)

lemma attr_set_when [simp]: "attr (set_when b k v out) k' = (if b \<and> k' = k then Some v else attr out k')"
  by (simp add: set_when_def)

lemma attr_fold: "k \<notin> fst ` set kvs \<Longrightarrow> attr (fold (\<lambda>(k, v). set_attr k v) kvs out) k = attr out k"
  by (induction kvs arbitrary: out) auto

lemma attr_int_cong: "attr out k = attr out' k \<Longrightarrow> attr_int out k = attr_int out' k"
  by (simp add: attr_int_def)

lemma attr_int_set [simp]: "attr_int (set_attr k (str_of_int v) out) k = v"
  by (simp add: attr_int_def)

text \<open>The limits on a session: the plan's own timeout or the card's budget, the expiry or the window of the card, the
  connection time left and the end of the allowed hours. Only positive ones count.\<close>

definition own_timeout :: "env \<Rightarrow> db \<Rightarrow> subscriber \<Rightarrow> access_plan \<Rightarrow> int" where
  "own_timeout e d sub p =
     (if p_session_timeout_sec p = 0 \<and> p_duration_minutes p \<noteq> 0 \<and> is_time_budget sub
      then (case card_budget_session_cap e d sub p of None \<Rightarrow> p_duration_minutes p * 60 | Some c \<Rightarrow> c)
      else p_session_timeout_sec p)"

definition expiry_limit :: "env \<Rightarrow> db \<Rightarrow> subscriber \<Rightarrow> int" where
  "expiry_limit e d sub =
     (case s_expire_at sub of
        Some x \<Rightarrow> total_seconds (x - e_now e)
      | None \<Rightarrow>
          if \<not> is_time_budget sub then 0
          else let w = card_session_window_seconds e d (s_tenant_id sub) (s_card_batch_id sub) (s_username sub) in if w < 0 then 1 else w)"

definition session_limits :: "env \<Rightarrow> db \<Rightarrow> subscriber \<Rightarrow> access_plan \<Rightarrow> int list" where
  "session_limits e d sub p =
     filter (\<lambda>x. 0 < x)
       ([own_timeout e d sub p, expiry_limit e d sub] @
        (case time_cap_remaining_seconds e d sub (Some p) of None \<Rightarrow> [] | Some r \<Rightarrow> [r]) @
        (case schedule_bound e sub (Some p) of None \<Rightarrow> [] | Some r \<Rightarrow> [r]))"

definition least :: "int list \<Rightarrow> int" where
  "least xs = (if xs = [] then 0 else Min (set xs))"

lemma least_simps: "least [] = 0" "0 < x \<Longrightarrow> \<forall>y \<in> set xs. 0 < y \<Longrightarrow> least (xs @ [x]) = (if least xs = 0 then x else min (least xs) x)"
proof -
  show "least [] = 0" by (simp add: least_def)
  assume "0 < x" "\<forall>y \<in> set xs. 0 < y"
  moreover from this have "xs \<noteq> [] \<Longrightarrow> Min (set xs) \<noteq> 0" using Min_in [of "set xs"] by force
  ultimately show "least (xs @ [x]) = (if least xs = 0 then x else min (least xs) x)"
    by (auto simp: least_def Min_insert min.commute)
qed

lemma least_pos: "\<forall>y \<in> set xs. 0 < y \<Longrightarrow> 0 \<le> least xs"
  by (cases "xs = []") (auto simp: least_def less_imp_le)

lemma budget_cap_nonneg: "card_budget_session_cap e d sub p = Some c \<Longrightarrow> 0 \<le> c"
  by (auto simp: card_budget_session_cap_def Let_def split: if_splits option.splits)

lemma own_timeout_nonneg: "0 \<le> p_session_timeout_sec p \<Longrightarrow> 0 \<le> p_duration_minutes p \<Longrightarrow> 0 \<le> own_timeout e d sub p"
  by (auto simp: own_timeout_def budget_cap_nonneg split: option.splits)

lemma plan_timeout_least:
  assumes "0 \<le> p_session_timeout_sec p" "0 \<le> p_duration_minutes p"
  shows "plan_timeout e d sub p = least (filter (\<lambda>x. 0 < x) [own_timeout e d sub p, expiry_limit e d sub])"
proof -
  have "plan_timeout e d sub p = (if expiry_limit e d sub > 0 then cap_timeout (own_timeout e d sub p) (expiry_limit e d sub) else own_timeout e d sub p)"
    unfolding plan_timeout_def Let_def own_timeout_def [symmetric] by (simp add: expiry_limit_def Let_def split: option.split)
  with own_timeout_nonneg [OF assms, of e d sub] show ?thesis by (auto simp: cap_timeout_def least_def)
qed

lemma clip_timeout_least:
  assumes "attr_int out ''Session-Timeout'' = least xs" "\<forall>y \<in> set xs. 0 < y"
  shows "attr_int (clip_timeout b out) ''Session-Timeout'' =
    least (xs @ filter (\<lambda>x. 0 < x) (case b of None \<Rightarrow> [] | Some r \<Rightarrow> [r]))"
proof (cases "\<exists>r. b = Some r \<and> 0 < r")
  case True
  then obtain r where r: "b = Some r" "0 < r" by blast
  with least_simps(2) [OF r(2) assms(2)] least_pos [OF assms(2)] show ?thesis
    by (simp add: clip_timeout_def Let_def assms(1))
next
  case False
  then show ?thesis using assms(1) by (auto simp: clip_timeout_def split: option.splits)
qed

lemma timed_attrs_timeout:
  assumes "0 \<le> p_session_timeout_sec p" "0 \<le> p_duration_minutes p"
  shows "attr_int (timed_attrs e d sub (Some p) rate) ''Session-Timeout'' = least (session_limits e d sub p)"
proof -
  define out0 where "out0 = (case rate of Some r \<Rightarrow> if r \<noteq> [] then [(''Mikrotik-Rate-Limit'', r)] else [] | None \<Rightarrow> [])"
  let ?xs = "filter (\<lambda>x. 0 < x) [own_timeout e d sub p, expiry_limit e d sub]"
  have none: "attr out0 ''Session-Timeout'' = None" by (simp add: out0_def attr_def lookup_row_def split: option.split)
  have "attr_int (plan_attrs e d sub (Some p) out0) ''Session-Timeout'' = least ?xs"
  proof -
    have "attr (plan_attrs e d sub (Some p) out0) ''Session-Timeout'' =
        (if 0 < plan_timeout e d sub p then Some (str_of_int (plan_timeout e d sub p)) else None)"
      by (simp add: plan_attrs_def Let_def none)
    moreover have "0 \<le> least ?xs" by (rule least_pos) simp
    ultimately show ?thesis unfolding plan_timeout_least [OF assms, symmetric] by (simp add: attr_int_def)
  qed
  moreover have "session_limits e d sub p =
      (?xs @ filter (\<lambda>x. 0 < x) (case time_cap_remaining_seconds e d sub (Some p) of None \<Rightarrow> [] | Some r \<Rightarrow> [r])) @
      filter (\<lambda>x. 0 < x) (case schedule_bound e sub (Some p) of None \<Rightarrow> [] | Some r \<Rightarrow> [r])"
    by (simp only: session_limits_def filter_append append_assoc)
  ultimately have "attr_int (clip_timeout (schedule_bound e sub (Some p)) (clip_timeout (time_cap_remaining_seconds e d sub (Some p))
      (plan_attrs e d sub (Some p) out0))) ''Session-Timeout'' = least (session_limits e d sub p)"
    by (simp only:) (intro clip_timeout_least, auto)
  then show ?thesis by (simp add: timed_attrs_def out0_def [symmetric] Let_def attr_int_def)
qed

lemma extras_keep_timeout:
  assumes "''Session-Timeout'' \<notin> fst ` set (parse_ppp_extra (ppp_text e (meta_flat (s_metadata sub))))"
  shows "attr (apply_subscriber_reply_extras e sub plan out) ''Session-Timeout'' = attr out ''Session-Timeout''"
  unfolding apply_subscriber_reply_extras_def Let_def attr_fold [OF assms]
  by (simp split: option.split)

lemma throttled_keeps_timeout: "attr (throttled e d sub x out) ''Session-Timeout'' = attr out ''Session-Timeout''"
  by (simp add: throttled_def)

text \<open>C29. The session timeout of a reply is exactly the least of the limits that apply: the plan's timeout or the
  card's budget, the time to the expiry or the card's window, the connection time left, and the time to the end of
  the allowed hours; it is absent (zero) when none applies. Only a free attribute line of the account that names the
  timeout itself can replace it.\<close>

theorem session_timeout_least:
  assumes "build_accept_attrs e d sub (Some p) = Inr (reply, d')" "0 \<le> p_session_timeout_sec p" "0 \<le> p_duration_minutes p"
    "''Session-Timeout'' \<notin> fst ` set (parse_ppp_extra (ppp_text e (meta_flat (s_metadata sub))))"
  shows "attr_int reply ''Session-Timeout'' = least (session_limits e d sub p)"
proof -
  from assms(1) obtain rate d1 x where "reply = apply_subscriber_reply_extras e sub (Some p) (throttled e d1 sub x (timed_attrs e d sub (Some p) rate))"
    by (cases "is_quota_exhausted e d sub (Some p)") (auto simp: build_accept_attrs_def res_bind_Inr)
  then have "attr reply ''Session-Timeout'' = attr (timed_attrs e d sub (Some p) rate) ''Session-Timeout''"
    by (simp add: extras_keep_timeout [OF assms(4)] throttled_keeps_timeout)
  from attr_int_cong [OF this] show ?thesis using timed_attrs_timeout [OF assms(2,3)] by simp
qed

section \<open>Instances\<close>

text \<open>Two sessions of 100 and 150 seconds that overlap by 50.\<close>

definition overlapping_db :: db where
  "overlapping_db = blank_db\<lparr>radacct := [blank_row\<lparr>a_sessiontime := 100\<rparr>,
     blank_row\<lparr>a_radacctid := 2, a_start := Some (seconds 50), a_sessiontime := 150\<rparr>]\<rparr>"

theorem daily_used_seconds_measure_witness:
  "daily_used_seconds blank_env overlapping_db 1 ''ali'' 0 = 200 \<and> card (online_seconds overlapping_db 1 ''ali'' 0) = 200"
proof -
  have "daily_used_seconds blank_env overlapping_db 1 ''ali'' 0 = 200" "max 0 (total_seconds (e_now blank_env - 0)) = 1000" by code_simp+
  moreover have "\<not> e_fault blank_env S_bulk_usage" by (simp add: blank_env_def)
  ultimately show ?thesis
    using daily_used_seconds_measure [of "''ali''" blank_env overlapping_db 1 0] by (simp add: min_def split: if_splits)
qed

theorem schedule_gate_agrees_witness:
  "\<exists>b r. is_out_of_window blank_subscriber (Some night_plan) (local_now blank_env 1) = Inr b \<and>
     check_schedule blank_env blank_subscriber (Some night_plan) = Inr r \<and> (r \<noteq> None \<longleftrightarrow> b)"
proof -
  have "tidy_subscriber blank_subscriber" "tidy_plan night_plan" by code_simp+
  moreover have "s_tenant_id blank_subscriber = 1" "\<not> e_fault blank_env s" for s
    by (simp_all add: blank_subscriber_def blank_env_def)
  ultimately show ?thesis using schedule_gate_agrees [of blank_subscriber "Some night_plan" blank_env] by auto
qed

theorem session_timeout_least_witness:
  "\<exists>reply d'. build_accept_attrs (blank_env\<lparr>e_now := seconds 14280\<rparr>) blank_db (blank_subscriber\<lparr>s_expire_at := Some (seconds 14500)\<rparr>) (Some night_plan) = Inr (reply, d') \<and>
     attr_int reply ''Session-Timeout'' = 120"
proof -
  let ?s = "blank_subscriber\<lparr>s_expire_at := Some (seconds 14500)\<rparr>"
  have "\<not> isl (build_accept_attrs (blank_env\<lparr>e_now := seconds 14280\<rparr>) blank_db ?s (Some night_plan))" by code_simp
  then obtain reply d' where b: "build_accept_attrs (blank_env\<lparr>e_now := seconds 14280\<rparr>) blank_db ?s (Some night_plan) = Inr (reply, d')"
    by (auto simp: not_isl)
  have p: "0 \<le> p_session_timeout_sec night_plan" "0 \<le> p_duration_minutes night_plan"
    "''Session-Timeout'' \<notin> fst ` set (parse_ppp_extra (ppp_text (blank_env\<lparr>e_now := seconds 14280\<rparr>) (meta_flat (s_metadata ?s))))" by code_simp+
  have "least (session_limits (blank_env\<lparr>e_now := seconds 14280\<rparr>) blank_db ?s night_plan) = 120" by code_simp
  with session_timeout_least [OF b p] b show ?thesis by simp
qed

end
