(* ===== verification/Authorize.thy ===== *)
theory Authorize
  imports PolicyReply
begin

text \<open>
  \<open>policy_engine.authorize\<close>: the account behind a user name, the pipeline of checks, the reply, the log and the
  stamps of a login. A check takes the tables and returns the decision that ends the login, if any, with the
  tables it leaves; an exception no handler catches ends the whole call.
\<close>

section \<open>The account\<close>

definition batch_dead :: "card_batch \<Rightarrow> bool" where
  "batch_dead b = (b_deleted_at b \<noteq> None \<or> lower (strip (b_status b)) \<in> {''deleted'', ''revoked'', ''cancelled'', ''canceled''})"

definition card_to_subscriber :: "env \<Rightarrow> db \<Rightarrow> card \<Rightarrow> subscriber" where
  "card_to_subscriber e d c =
     (let has_speed_override = (c_card_speed_down_kbps c > 0 \<and> c_card_speed_up_kbps c > 0);
          card_mode = strip (c_device_limit_mode c);
          card_dc = (if c_device_count c > 0 then c_device_count c else 0);
          batch = guarded None (at_site e S_batch_lookup (Inr (get_batch d (c_tenant_id c) (c_batch_id c))));
          dead = (case batch of None \<Rightarrow> False | Some b \<Rightarrow> batch_dead b);
          mode = (case batch of None \<Rightarrow> card_mode | Some b \<Rightarrow> if card_mode = [] then strip (b_device_limit_mode b) else card_mode);
          dc = (case batch of None \<Rightarrow> card_dc | Some b \<Rightarrow> if card_dc \<le> 0 then b_device_count b else card_dc);
          quota = (case batch of None \<Rightarrow> 0 | Some b \<Rightarrow> b_total_quota_mb b);
          rows = (if e_fault e S_card_usage then [] else user_rows d (c_tenant_id c) (c_username c))
      in \<lparr>s_id = Some (c_id c), s_username = c_username c, s_password = c_password c, s_tenant_id = c_tenant_id c,
          s_user_type = ''card'', s_service_type = ''Hotspot'', s_plan_id = c_plan_id c,
          s_login_without_password = False, s_account_type = ''Personal'',
          s_status = (if c_revoked c \<or> dead then ''disabled'' else ''enabled''), s_group = [],
          s_first_login_at = None, s_expire_at = c_expire_at c, s_last_login_at = None, s_last_seen_at = None,
          s_mac_lock = c_locked_mac c, s_static_ip = [], s_override_concurrent = 0,
          s_bandwidth_control_enabled = has_speed_override,
          s_download_speed_kbps = (if has_speed_override then c_card_speed_down_kbps c else 0),
          s_upload_speed_kbps = (if has_speed_override then c_card_speed_up_kbps c else 0),
          s_primary_dns_ppp = [], s_secondary_dns_ppp = [], s_total_connection_time_min = 0,
          s_daily_connection_time_min = 0, s_download_quota_mb = 0, s_upload_quota_mb = 0, s_combined_quota_mb = quota,
          s_connection_time_limit_enabled = False, s_quota_limit_enabled = (quota \<noteq> 0), s_equal_share_download = False,
          s_equal_share_upload = False, s_working_days = [], s_connection_schedule = Blank, s_device_count = dc,
          s_device_limit_mode = mode, s_metadata = Decoded (JObj []),
          s_used_bytes_in = sum_list (map a_inputoctets rows), s_used_bytes_out = sum_list (map a_outputoctets rows),
          s_card_batch_id = Some (c_batch_id c), s_subscriber_group_id = None, s_deleted = False\<rparr>)"

definition as_card :: "env \<Rightarrow> db \<Rightarrow> auth_request \<Rightarrow> string \<Rightarrow> (subscriber \<times> string \<times> auth_request) option" where
  "as_card e d req u =
     map_option (\<lambda>c. (card_to_subscriber e d c, ''card'', req\<lparr>r_username := u\<rparr>)) (get_card_by_username d (r_tenant_id req) u)"

text \<open>The subscriber, the card it mirrors, the card of that name, or the card of the name in lower case.\<close>

definition resolve_account :: "env \<Rightarrow> db \<Rightarrow> auth_request \<Rightarrow> (subscriber \<times> string \<times> auth_request) option" where
  "resolve_account e d req =
     (let u = r_username req; lc = lower (strip u) in
      case get_subscriber d (r_tenant_id req) u of
        Some s \<Rightarrow>
          if s_user_type s = ''card'' \<or> truthy_id (s_card_batch_id s)
          then (case as_card e d req u of None \<Rightarrow> Some (s, ''subscriber'', req) | Some r \<Rightarrow> Some r)
          else Some (s, ''subscriber'', req)
      | None \<Rightarrow>
          (case as_card e d req u of
             Some r \<Rightarrow> Some r
           | None \<Rightarrow> if lc \<noteq> [] \<and> lc \<noteq> u then as_card e d req lc else None))"

text \<open>The lookups of the account sit outside every handler. The card is looked up where the
  subscriber is missing or mirrors a card; a lookup that fails ends the call before anything is written.\<close>

definition looks_for_card :: "db \<Rightarrow> auth_request \<Rightarrow> bool" where
  "looks_for_card d req =
     (case get_subscriber d (r_tenant_id req) (r_username req) of
        Some s \<Rightarrow> s_user_type s = ''card'' \<or> truthy_id (s_card_batch_id s)
      | None \<Rightarrow> True)"

definition account_lookup_fails :: "env \<Rightarrow> db \<Rightarrow> auth_request \<Rightarrow> bool" where
  "account_lookup_fails e d req = (e_fault e S_subscriber \<or> (looks_for_card d req \<and> e_fault e S_card_lookup))"

section \<open>The log and the failure counter\<close>

definition log_attempt :: "env \<Rightarrow> auth_request \<Rightarrow> bool \<Rightarrow> string \<Rightarrow> db \<Rightarrow> db" where
  "log_attempt e req accepted reason d =
     (if e_fault e S_log then d
      else d\<lparr>radpostauth := radpostauth d @
             [\<lparr>pa_tenant_id = r_tenant_id req, pa_username = r_username req,
               pa_pass = (if accepted then ''***'' else r_password req), pa_accepted = accepted, pa_authdate = e_now e,
               pa_reason = reason, pa_nas_ip = r_nas_ip req, pa_mac = r_calling_station_id req\<rparr>]\<rparr>)"

definition register_failure :: "env \<Rightarrow> auth_request \<Rightarrow> db \<Rightarrow> db" where
  "register_failure e req d =
     snd (register_failed_attempt e d (r_tenant_id req) (r_nas_ip req) (r_calling_station_id req) (r_username req))"

section \<open>The stamps of a login\<close>

definition earliest_accounted_start :: "env \<Rightarrow> db \<Rightarrow> int \<Rightarrow> string \<Rightarrow> dt option" where
  "earliest_accounted_start e d tid u =
     guarded None (at_site e S_first_connect (Inr
       (case List.map_filter a_start (counted_rows e d tid u) of [] \<Rightarrow> None | t # ts \<Rightarrow> Some (fold min ts t))))"

definition stamp_subscribers :: "env \<Rightarrow> auth_request \<Rightarrow> db \<Rightarrow> db" where
  "stamp_subscribers e req d =
     d\<lparr>subscribers := map (\<lambda>s. if s_tenant_id s = r_tenant_id req \<and> s_username s = r_username req
         then s\<lparr>s_first_login_at := opt_or (s_first_login_at s) (Some (e_now e)), s_last_login_at := Some (e_now e),
                s_last_seen_at := Some (e_now e)\<rparr>
         else s) (subscribers d)\<rparr>"

definition stamp_instant :: "env \<Rightarrow> db \<Rightarrow> auth_request \<Rightarrow> bool \<Rightarrow> dt" where
  "stamp_instant e d req first =
     (case (if first then earliest_accounted_start e d (r_tenant_id req) (r_username req) else None) of
        None \<Rightarrow> e_now e
      | Some t \<Rightarrow> if t < e_now e then t else e_now e)"

definition stamp_card :: "auth_request \<Rightarrow> dt \<Rightarrow> card \<Rightarrow> card" where
  "stamp_card req stamp c =
     (let mac = strip (r_calling_station_id req) in
      c\<lparr>c_first_used_at := opt_or (c_first_used_at c) (Some stamp), c_used := True,
        c_used_by_mac := (if c_used_by_mac c = [] \<and> mac \<noteq> [] then mac else c_used_by_mac c)\<rparr>)"

definition stamp_window :: "db \<Rightarrow> int \<Rightarrow> string \<Rightarrow> int" where
  "stamp_window d tid u =
     (case card_row d tid u of
        Some (c, Some b) \<Rightarrow> max 0 (add_card_extra (card_window_seconds b) (Some b) (c_extra_seconds c))
      | _ \<Rightarrow> 0)"

definition named :: "auth_request \<Rightarrow> int \<Rightarrow> string \<Rightarrow> bool" where
  "named req tid u = (tid = r_tenant_id req \<and> u = r_username req)"

definition stamp_expiry :: "env \<Rightarrow> auth_request \<Rightarrow> dt \<Rightarrow> int \<Rightarrow> db \<Rightarrow> db" where
  "stamp_expiry e req stamp secs d =
     (if secs \<le> 0 then d
      else
        let x = clamp_expiry (e_expiry_limit e) stamp secs in
        d\<lparr>cards := map (\<lambda>c. if named req (c_tenant_id c) (c_username c) \<and> c_expire_at c = None
                            then c\<lparr>c_expire_at := Some x\<rparr> else c) (cards d),
          subscribers := map (\<lambda>s. if named req (s_tenant_id s) (s_username s) \<and> s_expire_at s = None
                            then s\<lparr>s_expire_at := Some x\<rparr> else s) (subscribers d)\<rparr>)"

text \<open>One transaction, then the flags of the first connection; an exception leaves the tables as they were.\<close>

definition do_update_login_timestamps :: "env \<Rightarrow> nat \<Rightarrow> db \<Rightarrow> auth_request \<Rightarrow> string \<Rightarrow> db res" where
  "do_update_login_timestamps e attempt d req source =
     (let tid = r_tenant_id req; u = r_username req; d1 = stamp_subscribers e req d in
      if e_stamp_fault e attempt \<noteq> None then Inl DbError
      else if source \<noteq> ''card'' then Inr d1
      else
        let first = (case get_card_by_username d1 tid u of None \<Rightarrow> True | Some c \<Rightarrow> c_first_used_at c = None);
            stamp = stamp_instant e d1 req first;
            d2 = d1\<lparr>cards := map (\<lambda>c. if named req (c_tenant_id c) (c_username c) then stamp_card req stamp c else c) (cards d1)\<rparr>
        in if get_card_by_username d1 tid u = None then Inl RuntimeError
           else if \<not> first then Inr d2
           else Inr (on_first_connect e (stamp_expiry e req stamp (stamp_window d2 tid u) d2) tid u (r_calling_station_id req)))"

text \<open>At most three attempts; only a locked database is tried again. \<open>False\<close> is the log entry \<open>HR-STAMP-LOST\<close>.\<close>

fun stamp_attempts :: "env \<Rightarrow> nat list \<Rightarrow> db \<Rightarrow> auth_request \<Rightarrow> string \<Rightarrow> bool \<times> db" where
  "stamp_attempts e [] d req source = (False, d)"
| "stamp_attempts e (i # ks) d req source =
     (case do_update_login_timestamps e i d req source of
        Inr d1 \<Rightarrow> (True, d1)
      | Inl _ \<Rightarrow> if e_stamp_fault e i = Some True then stamp_attempts e ks d req source else (False, d))"

definition update_login_timestamps :: "env \<Rightarrow> db \<Rightarrow> auth_request \<Rightarrow> string \<Rightarrow> bool \<times> db" where
  "update_login_timestamps e d req source = stamp_attempts e [0, 1, 2] d req source"

section \<open>The pipeline\<close>

type_synonym check = "db \<Rightarrow> (auth_decision option \<times> db) res"

definition reading :: "(db \<Rightarrow> auth_decision option) \<Rightarrow> check" where
  "reading f d = Inr (f d, d)"

fun run_checks :: "check list \<Rightarrow> check" where
  "run_checks [] d = Inr (None, d)"
| "run_checks (c # cs) d =
     res_bind (c d) (\<lambda>(r, d1). case r of Some bad \<Rightarrow> Inr (Some bad, d1) | None \<Rightarrow> run_checks cs d1)"

definition password_gate :: "env \<Rightarrow> subscriber \<Rightarrow> auth_request \<Rightarrow> db \<Rightarrow> auth_decision option" where
  "password_gate e sub req d =
     (if login_without_password e d (r_tenant_id req) (r_username req) then None else check_password e sub req)"

definition checks :: "env \<Rightarrow> subscriber \<Rightarrow> access_plan option \<Rightarrow> auth_request \<Rightarrow> string \<Rightarrow> check list" where
  "checks e sub plan req source =
     [reading (\<lambda>d. check_blocks e d sub plan req source),
      reading (password_gate e sub req),
      reading (\<lambda>d. check_expiry_captive e sub),
      (\<lambda>d. res_bind (check_schedule e sub plan) (\<lambda>r. Inr (r, d))),
      (\<lambda>d. Inr (check_quota e d sub plan)),
      reading (\<lambda>d. check_card_budget e d sub plan),
      reading (\<lambda>d. check_connection_time e d sub plan),
      reading (\<lambda>d. check_mac sub req),
      reading (\<lambda>d. check_random_mac e d req source),
      (\<lambda>d. Inr (check_allow_mode e d sub req)),
      (\<lambda>d. Inr (check_anti_mac_clone e d req sub)),
      (\<lambda>d. Inr (check_concurrent e d sub plan req)),
      reading (\<lambda>d. check_provider_active_cap e d sub req),
      (\<lambda>d. Inr (claim_device_slot e d sub plan req))]"

definition welcome_message :: "env \<Rightarrow> subscriber \<Rightarrow> message" where
  "welcome_message e sub =
     (case s_expire_at sub of
        None \<Rightarrow> say ''ok_welcome''
      | Some x \<Rightarrow>
          let left = total_seconds (x - e_now e) in
          if 0 \<le> left \<and> left < 4 * 86400
          then \<lparr>m_key = (if is_time_budget sub then ''ok_card_time_left'' else ''ok_expires_soon''), m_extra = str_of_int left\<rparr>
          else say ''ok_welcome'')"

definition finish_reject :: "env \<Rightarrow> auth_request \<Rightarrow> auth_decision \<Rightarrow> db \<Rightarrow> db" where
  "finish_reject e req bad d =
     (let d1 = log_attempt e req (d_ok bad) (d_reason bad) d in
      if \<not> d_ok bad \<and> d_reason bad \<in> set FAIL2BAN_REASONS then register_failure e req d1 else d1)"

definition accept :: "env \<Rightarrow> subscriber \<Rightarrow> attrs \<Rightarrow> auth_decision" where
  "accept e sub reply =
     \<lparr>d_ok = True, d_reason = [], d_message = welcome_message e sub, d_reply_message = Some (welcome_message e sub), d_reply_attrs = reply\<rparr>"

definition authorize :: "env \<Rightarrow> db \<Rightarrow> auth_request \<Rightarrow> (auth_decision \<times> db) res" where
  "authorize e d req0 =
     (if r_username req0 = [] then Inr (reject ''user_not_found'', d)
      else if account_lookup_fails e d req0 then Inl DbError
      else
        (case resolve_account e d req0 of
           None \<Rightarrow> Inr (reject ''user_not_found'', register_failure e req0 d)
         | Some (sub0, source, req) \<Rightarrow>
             let plan = sub_plan e d (r_tenant_id req) (s_plan_id sub0);
                 (sub, d1) = maybe_auto_renew e d sub0 source
             in res_bind (run_checks (checks e sub plan req source) d1) (\<lambda>(r, d2).
                  case r of
                    Some bad \<Rightarrow> Inr (bad, finish_reject e req bad d2)
                  | None \<Rightarrow>
                      res_bind (build_accept_attrs e d2 sub plan) (\<lambda>(reply, d3).
                        Inr (accept e sub reply,
                             snd (update_login_timestamps e (log_attempt e req True [] d3) req source))))))"

section \<open>Running a pipeline\<close>

lemma run_checks_None:
  "run_checks cs d = Inr (None, d') \<Longrightarrow> c \<in> set cs \<Longrightarrow> \<exists>d1 d2. c d1 = Inr (None, d2)"
  by (induction cs arbitrary: d) (auto simp: res_bind_Inr split: option.splits)

lemma run_checks_append:
  "run_checks (as @ bs) d =
     res_bind (run_checks as d) (\<lambda>(r, d1). case r of Some bad \<Rightarrow> Inr (Some bad, d1) | None \<Rightarrow> run_checks bs d1)"
proof (induction as arbitrary: d)
  case (Cons a as)
  then show ?case by (cases "a d") (auto split: option.splits)
qed simp

text \<open>Checks that leave a part of the tables alone: the whole pipeline does, and each check of a pipeline that
  lets a login through let it through on tables with the same part.\<close>

locale framed_checks =
  fixes tbl :: "db \<Rightarrow> 'a"
    and cs :: "check list"
  assumes frame: "c \<in> set cs \<Longrightarrow> c d = Inr (r, d') \<Longrightarrow> tbl d' = tbl d"
begin

lemma run_sublist_frame: "set xs \<subseteq> set cs \<Longrightarrow> run_checks xs d = Inr (r, d') \<Longrightarrow> tbl d' = tbl d"
proof (induction xs arbitrary: d)
  case (Cons x xs)
  then obtain r1 d1 where x: "x d = Inr (r1, d1)" by (auto simp: res_bind_Inr)
  then have t: "tbl d1 = tbl d" using Cons.prems(1) by (intro frame [of x]) auto
  show ?case
  proof (cases r1)
    case None
    with Cons x have "tbl d' = tbl d1" by auto
    with t show ?thesis by simp
  next
    case (Some bad)
    with Cons.prems(2) x t show ?thesis by simp
  qed
qed simp

lemma run_frame: "run_checks cs d = Inr (r, d') \<Longrightarrow> tbl d' = tbl d"
  by (rule run_sublist_frame) simp_all

lemma passed_at:
  assumes "run_checks cs d = Inr (None, d')" "c \<in> set cs"
  obtains d1 d2 where "tbl d1 = tbl d" "c d1 = Inr (None, d2)"
proof -
  from assms(2) obtain as bs where cs: "cs = as @ c # bs" by (auto dest: split_list)
  with assms(1) obtain d1 where d1: "run_checks as d = Inr (None, d1)" "run_checks (c # bs) d1 = Inr (None, d')"
    by (auto simp: run_checks_append res_bind_Inr split: option.splits)
  then have "tbl d1 = tbl d" using run_sublist_frame [of as] by (auto simp: cs)
  moreover from d1(2) obtain d2 where "c d1 = Inr (None, d2)" by (auto simp: res_bind_Inr split: option.splits)
  ultimately show ?thesis by (rule that)
qed

lemma stopped_at:
  assumes "run_checks cs d = Inr (Some bad, d')"
  obtains as c bs d1 where "cs = as @ c # bs" "run_checks as d = Inr (None, d1)" "tbl d1 = tbl d" "c d1 = Inr (Some bad, d')"
proof -
  have "\<exists>as c bs d1. xs = as @ c # bs \<and> run_checks as d = Inr (None, d1) \<and> c d1 = Inr (Some bad, d')"
    if "run_checks xs d = Inr (Some bad, d')" for xs
    using that
  proof (induction xs arbitrary: d)
    case (Cons x xs)
    then obtain r1 d1 where x: "x d = Inr (r1, d1)" by (auto simp: res_bind_Inr)
    show ?case
    proof (cases r1)
      case None
      with Cons x obtain as c bs d2 where "xs = as @ c # bs" "run_checks as d1 = Inr (None, d2)" "c d2 = Inr (Some bad, d')"
        by fastforce
      with x None show ?thesis by (intro exI [of _ "x # as"] exI [of _ c] exI [of _ bs] exI [of _ d2]) simp
    next
      case (Some b)
      with Cons.prems x show ?thesis by (intro exI [of _ "[]"] exI [of _ x] exI [of _ xs] exI [of _ d]) simp
    qed
  qed simp
  then obtain as c bs d1 where "cs = as @ c # bs" "run_checks as d = Inr (None, d1)" "c d1 = Inr (Some bad, d')"
    using assms by blast
  moreover from this have "tbl d1 = tbl d" by (intro run_sublist_frame [of as]) auto
  ultimately show ?thesis using that by blast
qed

end

section \<open>What the checks leave alone\<close>

text \<open>Accounts, plans, cards, blocks, settings, failures, speed rules and the log: no check writes them.\<close>

definition master :: "db \<Rightarrow> (subscriber list \<times> access_plan list \<times> card_batch list \<times> card list) \<times> (access_block list \<times>
    login_failure list \<times> ((int \<times> string) \<times> string) list \<times> postauth_row list) \<times> bandwidth_schedule list" where
  "master d = ((subscribers d, plans d, card_batches d, cards d),
     (access_blocks d, login_failures d, tenant_settings d, radpostauth d), bandwidth_schedules d)"

lemma master_updates [simp]:
  "master (d\<lparr>session_marks := x1\<rparr>) = master d"
  "master (d\<lparr>notifications := x2\<rparr>) = master d"
  "master (d\<lparr>allow_devices := x3\<rparr>) = master d"
  "master (d\<lparr>radacct := x4\<rparr>) = master d"
  "master (d\<lparr>coa_disconnects := x5\<rparr>) = master d"
  "master (d\<lparr>device_limit_claims := x6\<rparr>) = master d"
  "master (d\<lparr>mac_clone_bindings := x7\<rparr>) = master d"
  "master (d\<lparr>mac_clone_events := x8\<rparr>) = master d"
  by (simp_all add: master_def)

lemma master_save_marks [simp]: "master (save_marks e d tid u ws) = master d"
proof -
  have "master (fold (save_mark t tid u) ws d) = master d" for t
    by (induction ws arbitrary: d) (auto simp: save_mark_def)
  then show ?thesis by (simp add: save_marks_def)
qed

lemma master_straddle [simp]: "master (snd (straddle_usage e d tid u b)) = master d"
  by (simp add: straddle_usage_def Let_def)

lemma master_usage [simp]: "master (snd (usage e d sub st w)) = master d"
  by (auto simp: usage_def Let_def split: prod.splits) (metis master_straddle snd_conv)+

lemma master_window_exhaustion [simp]: "master (snd (window_exhaustion e d sub plan)) = master d"
  by (auto simp: window_exhaustion_def Let_def split: prod.splits) (metis master_usage snd_conv)

lemma master_quota_exhaustion [simp]: "master (snd (quota_exhaustion e d sub plan)) = master d"
  by (auto simp: quota_exhaustion_def Let_def split: prod.splits) (metis master_window_exhaustion snd_conv)+

lemma master_notify [simp]: "master (fire_quota_exhaust_notify e d tid u) = master d"
  by (simp add: fire_quota_exhaust_notify_def)

lemma master_check_quota [simp]: "master (snd (check_quota e d sub plan)) = master d"
  by (auto simp: check_quota_def Let_def split: prod.splits option.splits) (metis master_quota_exhaustion snd_conv)+

lemma master_touch [simp]: "master (touch_device e d i) = master d"
  by (simp add: touch_device_def)

lemma master_add_device [simp]: "master (snd (add_device d pid u mac src)) = master d"
  by (auto simp: add_device_def Let_def split: option.splits)

lemma master_tofu_bind [simp]: "master (snd (tofu_bind e d p u mac)) = master d"
  by (auto simp: tofu_bind_def split: prod.splits option.splits) (metis master_add_device snd_conv)+

lemma master_evaluate [simp]: "master (snd (evaluate e d tid u pid bid mac)) = master d"
proof -
  have "master (snd (let (v, d1) = tofu_bind e d p u m in (Some v, d1))) = master d" for p m
    using master_tofu_bind [of e d p u m] by (cases "tofu_bind e d p u m") simp
  then show ?thesis by (auto simp: evaluate_def Let_def split: option.splits)
qed

lemma master_check_allow_mode [simp]: "master (snd (check_allow_mode e d sub req)) = master d"
proof -
  have "master (snd (check_after_password e d tid u pid bid mac)) = master d" for tid u pid bid mac
    by (auto simp: check_after_password_def split: prod.splits option.splits) (metis master_evaluate snd_conv)+
  then show ?thesis
    by (auto simp: check_allow_mode_def Let_def split: prod.splits option.splits) (metis snd_conv)+
qed

lemma master_update_binding [simp]: "master (update_binding e d tid u live v) = master d"
  using update_binding_only [of e d tid u live v] by (auto simp del: surjective)

lemma master_kicks [simp]: "master (fold (kick_session e tid u live v) ks d) = master d"
  by (induction ks arbitrary: d) (simp_all add: kick_session_def log_event_def Let_def)

lemma master_check_anti_mac_clone [simp]: "master (snd (check_anti_mac_clone e d req sub)) = master d"
proof -
  have "master (apply_decision e d tid u live v) = master d" for tid u live v
    by (simp add: apply_decision_def log_event_def Let_def)
  then have "master (snd (check_after_auth e d tid u pid g req)) = master d" for tid u pid g
    by (auto simp: check_after_auth_def Let_def split: option.split)
  then show ?thesis
    by (auto simp: check_anti_mac_clone_def Let_def split: prod.splits option.splits) (metis snd_conv)+
qed

lemma master_close_session_row: "close_session_row now d row cause stop = (d', n) \<Longrightarrow> master d' = master d"
  by (auto simp: close_session_row_def)

lemma master_close_rows [simp]: "master (fst (close_rows bad now cause stop d rows)) = master d"
proof (induction rows arbitrary: d)
  case (Cons a rows)
  obtain d1 n where c: "close_session_row now d a cause stop = (d1, n)" by fastforce
  then have "fst (close_rows bad now cause stop d (a # rows)) =
      fst (close_rows bad now cause stop (if bad (a_radacctid a) then d else d1) rows)"
    by (simp split: prod.splits)
  with Cons master_close_session_row [OF c] show ?case by simp
qed simp

lemma master_force_close [simp]: "master (fst (force_close e d tid u sid cause)) = master d"
  by (cases "e_fault e S_force_close") (simp_all add: force_close_def)

lemma master_replace_oldest [simp]: "master (fst (replace_oldest e d tid u rows)) = master d"
  by (auto simp: replace_oldest_def Let_def split: list.splits)

lemma master_check_concurrent [simp]: "master (snd (check_concurrent e d sub plan req)) = master d"
  by (simp add: check_concurrent_def Let_def split: prod.splits)

lemma master_claim_slot [simp]: "master (snd (claim_slot e d tid u req l m r)) = master d"
  unfolding claim_slot_def Let_def
  by (simp only: if_distrib [of snd] if_distrib [of master] snd_conv master_updates if_cancel)

lemma master_claim_device_slot [simp]: "master (snd (claim_device_slot e d sub plan req)) = master d"
  by (auto simp: claim_device_slot_def Let_def split: prod.splits) (metis master_claim_slot snd_conv)+

interpretation engine: framed_checks master "checks e sub plan req source" for e sub plan req source
proof
  fix c d r d' assume c: "c \<in> set (checks e sub plan req source)" and r: "c d = Inr (r, d')"
  from c r show "master d' = master d"
    unfolding checks_def reading_def
    by (auto simp: res_bind_Inr) (metis snd_conv master_check_quota master_check_allow_mode master_check_anti_mac_clone master_check_concurrent master_claim_device_slot)+
qed

section \<open>The first two gates\<close>

lemma check_blocks_rejects: "check_blocks e d sub plan req source = Some bad \<Longrightarrow> \<not> d_ok bad"
  by (auto simp: check_blocks_def split: option.splits)

lemma password_gate_rejects: "password_gate e sub req d = Some bad \<Longrightarrow> \<not> d_ok bad \<and> d_reason bad = ''password_wrong''"
  by (auto simp: password_gate_def check_password_def split: if_splits)

lemma checks_Cons:
  "\<exists>rest. checks e sub plan req source =
     reading (\<lambda>d. check_blocks e d sub plan req source) # reading (password_gate e sub req) # reading (\<lambda>d. check_expiry_captive e sub) # rest"
  by (simp add: checks_def)

lemma first_gates:
  assumes "run_checks (checks e sub plan req source) d = Inr (r, d')" "r = None \<or> d_ok (the r)"
  shows "check_blocks e d sub plan req source = None" "password_gate e sub req d = None"
proof -
  from checks_Cons obtain rest where c: "checks e sub plan req source =
     reading (\<lambda>d. check_blocks e d sub plan req source) # reading (password_gate e sub req) # rest"
    by blast
  show b: "check_blocks e d sub plan req source = None"
  proof (rule ccontr)
    assume "check_blocks e d sub plan req source \<noteq> None"
    then obtain bad where bad: "check_blocks e d sub plan req source = Some bad" by blast
    with assms(1) have "r = Some bad" by (simp add: c reading_def)
    with assms(2) check_blocks_rejects [OF bad] show False by simp
  qed
  show "password_gate e sub req d = None"
  proof (rule ccontr)
    assume "password_gate e sub req d \<noteq> None"
    then obtain bad where bad: "password_gate e sub req d = Some bad" by blast
    with assms(1) have "r = Some bad" by (simp add: c reading_def b)
    with assms(2) password_gate_rejects [OF bad] show False by simp
  qed
qed

section \<open>Renewal changes the expiry and the status only\<close>

lemma auto_renew_sub:
  assumes "maybe_auto_renew e d sub source = (sub', d1)"
  obtains x st where "sub' = sub\<lparr>s_expire_at := x, s_status := st\<rparr>"
proof -
  have "sub' = sub\<lparr>s_expire_at := s_expire_at sub', s_status := s_status sub'\<rparr>"
    using assms by (auto simp: maybe_auto_renew_def Let_def split: if_splits option.splits prod.splits)
  then show ?thesis by (rule that)
qed

lemma auto_renew_db:
  assumes "maybe_auto_renew e d sub source = (sub', d1)"
  obtains "d1 = d" | tid cid u x where "d1 = mark_used (set_expiry d tid cid u x) tid cid"
  using assms by (auto simp: maybe_auto_renew_def Let_def split: if_splits option.splits prod.splits)

lemma login_without_password_cong:
  assumes "cards d' = map f (cards d)" "subscribers d' = map g (subscribers d)" "card_batches d' = card_batches d"
    and f: "\<And>c. c_tenant_id (f c) = c_tenant_id c" "\<And>c. c_username (f c) = c_username c" "\<And>c. c_batch_id (f c) = c_batch_id c"
    and g: "\<And>s. s_tenant_id (g s) = s_tenant_id s" "\<And>s. s_username (g s) = s_username s"
      "\<And>s. s_login_without_password (g s) = s_login_without_password s"
  shows "login_without_password e d' tid u = login_without_password e d tid u"
proof -
  have b: "get_batch d' tid i = get_batch d tid i" for i by (simp add: get_batch_def assms)
  let ?P = "\<lambda>c. c_tenant_id c = tid \<and> c_username c = u \<and> get_batch d tid (c_batch_id c) \<noteq> None"
  have c: "filter ?P (cards d') = map f (filter ?P (cards d))"
    unfolding assms(1) by (rule filter_map_preserving) (simp add: f)
  have s: "find (\<lambda>s. s_tenant_id s = tid \<and> s_username s = u) (subscribers d') =
      map_option g (find (\<lambda>s. s_tenant_id s = tid \<and> s_username s = u) (subscribers d))"
    unfolding assms(2) by (rule find_map_preserving) (simp_all add: g)
  show ?thesis
    unfolding login_without_password_def b c s by (simp add: f g split: list.split option.split)
qed

lemma login_without_password_marked:
  "login_without_password e (mark_used (set_expiry d t cid v x) t cid) tid u = login_without_password e d tid u"
  by (rule login_without_password_cong
        [where f = "\<lambda>c. if c_tenant_id c = t \<and> c_id c = cid then c\<lparr>c_expire_at := Some x, c_used := True\<rparr> else c"
           and g = "\<lambda>s. if s_tenant_id s = t \<and> s_username s = v then s\<lparr>s_expire_at := Some x\<rparr> else s"])
     (auto simp: mark_used_def set_expiry_def)

lemma login_without_password_renewed:
  assumes "maybe_auto_renew e d sub source = (sub', d1)"
  shows "login_without_password e d1 tid u = login_without_password e d tid u"
  by (rule auto_renew_db [OF assms]) (simp_all add: login_without_password_marked)

lemma access_blocks_renewed:
  assumes "maybe_auto_renew e d sub source = (sub', d1)"
  shows "access_blocks d1 = access_blocks d" "login_failures d1 = login_failures d" "tenant_settings d1 = tenant_settings d"
    "radpostauth d1 = radpostauth d" "card_batches d1 = card_batches d"
  by (rule auto_renew_db [OF assms]; simp add: mark_used_def set_expiry_def)+


section \<open>Inside \<open>authorize\<close>\<close>

lemma authorize_looked_up:
  "authorize e d req0 = Inr x \<Longrightarrow> r_username req0 \<noteq> [] \<Longrightarrow> \<not> account_lookup_fails e d req0"
  by (auto simp: authorize_def)

lemma authorize_cases:
  assumes "authorize e d req0 = Inr (dec, d')" "r_username req0 \<noteq> []"
  obtains (unknown) "resolve_account e d req0 = None" "dec = reject ''user_not_found''" "d' = register_failure e req0 d"
  | (stopped) sub0 source req sub d1 d2 where "resolve_account e d req0 = Some (sub0, source, req)"
      "maybe_auto_renew e d sub0 source = (sub, d1)"
      "run_checks (checks e sub (sub_plan e d (r_tenant_id req) (s_plan_id sub0)) req source) d1 = Inr (Some dec, d2)"
      "d' = finish_reject e req dec d2"
  | (accepted) sub0 source req sub d1 d2 reply d3 where "resolve_account e d req0 = Some (sub0, source, req)"
      "maybe_auto_renew e d sub0 source = (sub, d1)"
      "run_checks (checks e sub (sub_plan e d (r_tenant_id req) (s_plan_id sub0)) req source) d1 = Inr (None, d2)"
      "build_accept_attrs e d2 sub (sub_plan e d (r_tenant_id req) (s_plan_id sub0)) = Inr (reply, d3)"
      "dec = accept e sub reply" "d' = snd (update_login_timestamps e (log_attempt e req True [] d3) req source)"
proof (cases "resolve_account e d req0")
  case None
  with assms authorize_looked_up [OF assms] show ?thesis by (auto simp: authorize_def intro: unknown)
next
  case (Some a)
  note looked = authorize_looked_up [OF assms]
  obtain sub0 source req where a: "a = (sub0, source, req)" by (cases a)
  obtain sub d1 where m: "maybe_auto_renew e d sub0 source = (sub, d1)" by fastforce
  from assms Some a m obtain r d2 where r:
    "run_checks (checks e sub (sub_plan e d (r_tenant_id req) (s_plan_id sub0)) req source) d1 = Inr (r, d2)"
    using looked by (auto simp: authorize_def Let_def res_bind_Inr)
  show ?thesis
  proof (cases r)
    case None
    from assms Some a m r None obtain reply d3 where
      "build_accept_attrs e d2 sub (sub_plan e d (r_tenant_id req) (s_plan_id sub0)) = Inr (reply, d3)"
      "dec = accept e sub reply" "d' = snd (update_login_timestamps e (log_attempt e req True [] d3) req source)"
      using looked by (auto simp: authorize_def Let_def res_bind_Inr)
    then show ?thesis by (rule accepted [OF Some [unfolded a] m r [unfolded None]])
  next
    case (Some bad)
    from assms \<open>resolve_account e d req0 = Some a\<close> a m r Some show ?thesis
      by (intro stopped [OF \<open>resolve_account e d req0 = Some a\<close> [unfolded a] m]) (auto simp: authorize_def Let_def looked)
  qed
qed

end
