(* ===== verification/LoginProperties.thy ===== *)
theory LoginProperties
  imports Authorize PolicyProperties
begin

text \<open>
  What \<open>authorize\<close> guarantees: who gets in, through which gates, what a failed login leaves behind, what a login
  stamps on its card, and that an exception does not leave a login undecided. The proofs follow the pipeline:
  \<open>authorize_cases\<close> splits a login into its outcomes, the interpretation \<open>engine\<close> of \<open>framed_checks\<close> gives the
  check a login stopped at or passed and what the checks before it left alone.
\<close>

section \<open>Credentials\<close>

text \<open>What a login must present: the stored password, or a CHAP response over a stored password.\<close>

definition presents_credentials :: "env \<Rightarrow> subscriber \<Rightarrow> auth_request \<Rightarrow> bool" where
  "presents_credentials e sub req =
     (if r_password req \<noteq> [] then r_password req = s_password sub
      else r_chap_password req \<noteq> [] \<and> s_password sub \<noteq> [] \<and>
           verify_chap (e_md5 e) (s_password sub) (r_chap_password req) (r_chap_challenge req))"

lemma check_password_None: "check_password e sub req = None \<longleftrightarrow> presents_credentials e sub req"
  by (auto simp: check_password_def presents_credentials_def)

lemma presents_credentials_renewed:
  assumes "maybe_auto_renew e d sub source = (sub', d1)"
  shows "presents_credentials e sub' req = presents_credentials e sub req"
  by (rule auto_renew_sub [OF assms]) (simp add: presents_credentials_def)

lemma check_blocks_renewed:
  assumes "maybe_auto_renew e d sub source = (sub', d1)"
  shows "check_blocks e d1 sub' plan req source = check_blocks e d sub plan req source"
proof -
  from assms obtain x st where "sub' = sub\<lparr>s_expire_at := x, s_status := st\<rparr>" by (rule auto_renew_sub)
  then show ?thesis
    by (simp add: check_blocks_def auth_context_of_def find_active_block_def list_active_blocks_def access_blocks_renewed [OF assms])
qed

lemma check_blocks_None:
  "check_blocks e d sub plan req source = None \<longleftrightarrow>
     find_active_block e d (r_tenant_id req) (auth_context_of sub plan req source) (e_now e) = None"
  by (simp add: check_blocks_def split: option.split)

lemma resolve_account_credentials:
  assumes "resolve_account e d req0 = Some (sub, source, req)"
  shows "presents_credentials e sub req = presents_credentials e sub req0"
  using assms by (auto simp: resolve_account_def as_card_def presents_credentials_def Let_def split: option.splits if_splits)

text \<open>C16. Whatever fails around it, a login is accepted, also the captive login of an ended subscription, only for an
  account the tables know, and only with the stored password or a valid CHAP response, unless the account's own flag or
  its card batch waives the password; and where the blocks can be read, none of the newest thousand active rows of the
  tenant that the login reads matches it and is in effect (of all its active rows, when there are at most a thousand).\<close>

theorem accept_requires_credentials:
  assumes "authorize e d req0 = Inr (dec, d')" "d_ok dec"
  shows "\<exists>sub source req. resolve_account e d req0 = Some (sub, source, req) \<and>
    (let tid = r_tenant_id req; ctx = auth_context_of sub (sub_plan e d tid (s_plan_id sub)) req source in
       \<not> e_fault e S_blocks \<longrightarrow>
         (\<forall>b \<in> set (list_active_blocks d tid). \<not> applies e tid ctx (e_now e) b) \<and>
         (length (active_blocks d tid) \<le> 1000 \<longrightarrow> (\<forall>b \<in> set (active_blocks d tid). \<not> applies e tid ctx (e_now e) b))) \<and>
    (login_without_password e d (r_tenant_id req) (r_username req) \<or> presents_credentials e sub req0)"
proof -
  have none: "\<not> e_fault e S_blocks \<longrightarrow>
         (\<forall>b \<in> set (list_active_blocks d tid). \<not> applies e tid ctx (e_now e) b) \<and>
         (length (active_blocks d tid) \<le> 1000 \<longrightarrow> (\<forall>b \<in> set (active_blocks d tid). \<not> applies e tid ctx (e_now e) b))"
    if "find_active_block e d tid ctx (e_now e) = None" for tid ctx
    using that by (auto simp: find_active_block_eq find_None_iff list_active_blocks_set(2))
  have *: ?thesis if a: "resolve_account e d req0 = Some (sub0, source, req)" and m: "maybe_auto_renew e d sub0 source = (sub, d1)"
    and r: "run_checks (checks e sub (sub_plan e d (r_tenant_id req) (s_plan_id sub0)) req source) d1 = Inr (r, d2)"
      "r = None \<or> d_ok (the r)" for sub0 source req sub d1 d2 r
  proof -
    from first_gates [OF r] have "check_blocks e d1 sub (sub_plan e d (r_tenant_id req) (s_plan_id sub0)) req source = None"
      and p: "password_gate e sub req d1 = None" .
    then have "find_active_block e d (r_tenant_id req)
      (auth_context_of sub0 (sub_plan e d (r_tenant_id req) (s_plan_id sub0)) req source) (e_now e) = None"
      by (simp add: check_blocks_renewed [OF m] check_blocks_None)
    note b = none [OF this]
    from p have "login_without_password e d (r_tenant_id req) (r_username req) \<or> presents_credentials e sub0 req0"
      unfolding password_gate_def login_without_password_renewed [OF m] check_password_None [symmetric]
      by (simp add: check_password_None presents_credentials_renewed [OF m] resolve_account_credentials [OF a] split: if_splits)
    with a b show ?thesis unfolding Let_def by blast
  qed
  from assms have "r_username req0 \<noteq> []" by (auto simp: authorize_def)
  with assms(1) show ?thesis
    by (cases rule: authorize_cases) (use assms(2) * in auto)
qed

section \<open>What stops a login\<close>

lemma check_schedule_rejects: "check_schedule e sub plan = Inr (Some bad) \<Longrightarrow> \<not> d_ok bad"
  by (auto simp: check_schedule_def check_schedule_dimension_def check_subscriber_schedule_def check_plan_schedule_days_def
      check_offer_hours_def check_days_def guarded_def Let_def res_bind_Inr at_site_Inr
      split: option.splits if_splits sum.splits prod.splits)

lemma check_quota_rejects: "check_quota e d sub plan = (Some bad, d') \<Longrightarrow> \<not> d_ok bad"
  by (auto simp: check_quota_def Let_def split: option.splits if_splits prod.splits)

lemma check_card_budget_rejects: "check_card_budget e d sub plan = Some bad \<Longrightarrow> \<not> d_ok bad"
  by (auto simp: check_card_budget_def split: if_splits)

lemma check_connection_time_rejects: "check_connection_time e d sub plan = Some bad \<Longrightarrow> \<not> d_ok bad"
  by (auto simp: check_connection_time_def Let_def split: if_splits prod.splits)

lemma check_mac_rejects: "check_mac sub req = Some bad \<Longrightarrow> \<not> d_ok bad"
  by (auto simp: check_mac_def Let_def split: if_splits)

lemma check_random_mac_rejects: "check_random_mac e d req source = Some bad \<Longrightarrow> \<not> d_ok bad"
  by (auto simp: check_random_mac_def guarded_def at_site_Inr Let_def split: if_splits sum.splits)

lemma check_allow_mode_rejects: "check_allow_mode e d sub req = (Some bad, d') \<Longrightarrow> \<not> d_ok bad"
  by (auto simp: check_allow_mode_def Let_def split: if_splits prod.splits option.splits)

lemma check_anti_mac_clone_rejects: "check_anti_mac_clone e d req sub = (Some bad, d') \<Longrightarrow> \<not> d_ok bad"
  by (auto simp: check_anti_mac_clone_def Let_def split: if_splits option.splits prod.splits)

lemma check_concurrent_rejects: "check_concurrent e d sub plan req = (Some bad, d') \<Longrightarrow> \<not> d_ok bad"
  by (auto simp: check_concurrent_def Let_def split: if_splits prod.splits)

lemma check_provider_active_cap_rejects: "check_provider_active_cap e d sub req = Some bad \<Longrightarrow> \<not> d_ok bad"
  by (auto simp: check_provider_active_cap_def Let_def split: if_splits option.splits)

lemma claim_device_slot_rejects: "claim_device_slot e d sub plan req = (Some bad, d') \<Longrightarrow> \<not> d_ok bad"
  by (auto simp: claim_device_slot_def Let_def split: if_splits prod.splits)

text \<open>A check that stops a login only by rejecting it; every check does but the expiry.\<close>

definition rejecting :: "check \<Rightarrow> bool" where
  "rejecting c = (\<forall>d bad d'. c d = Inr (Some bad, d') \<longrightarrow> \<not> d_ok bad)"

lemma rejecting_reading: "(\<And>d bad. f d = Some bad \<Longrightarrow> \<not> d_ok bad) \<Longrightarrow> rejecting (reading f)"
  by (auto simp: rejecting_def reading_def)

lemma rejecting_writing: "(\<And>d bad d'. f d = (Some bad, d') \<Longrightarrow> \<not> d_ok bad) \<Longrightarrow> rejecting (\<lambda>d. Inr (f d))"
  by (auto simp: rejecting_def)

lemma rejecting_raising: "(\<And>bad. r = Inr (Some bad) \<Longrightarrow> \<not> d_ok bad) \<Longrightarrow> rejecting (\<lambda>d. res_bind r (\<lambda>r. Inr (r, d)))"
  by (auto simp: rejecting_def res_bind_Inr)

lemmas check_rejects = check_blocks_rejects check_schedule_rejects check_quota_rejects check_card_budget_rejects
  check_connection_time_rejects check_mac_rejects check_random_mac_rejects check_allow_mode_rejects
  check_anti_mac_clone_rejects check_concurrent_rejects check_provider_active_cap_rejects claim_device_slot_rejects
  password_gate_rejects [THEN conjunct1]

lemma checks_rejecting:
  "\<forall>c \<in> set (checks e sub plan req source). c = reading (\<lambda>d. check_expiry_captive e sub) \<or> rejecting c"
  unfolding checks_def list.set ball_simps
  by (intro conjI TrueI;
      ((rule disjI1, rule refl) |
       (rule disjI2, (rule rejecting_reading | rule rejecting_raising | rule rejecting_writing), erule check_rejects)))

lemma stop_with_ok:
  assumes "run_checks (checks e sub plan req source) d = Inr (Some bad, d')" "d_ok bad"
  shows "check_expiry_captive e sub = Some bad"
proof -
  obtain as c bs d1 where l: "checks e sub plan req source = as @ c # bs" and c: "c d1 = Inr (Some bad, d')"
    by (rule engine.stopped_at [OF assms(1)])
  have "c \<in> set (checks e sub plan req source)" unfolding l by simp
  moreover from c assms(2) have "\<not> rejecting c" by (auto simp: rejecting_def)
  ultimately have "c = reading (\<lambda>d. check_expiry_captive e sub)" using checks_rejecting by blast
  with c show ?thesis by (simp add: reading_def)
qed

lemma check_expiry_captive_None:
  "check_expiry_captive e sub = None \<longleftrightarrow>
     s_status sub = ''enabled'' \<and> (case s_expire_at sub of None \<Rightarrow> True | Some x \<Rightarrow> e_now e \<le> x)"
  by (auto simp: check_expiry_captive_def subscription_ended_def not_less split: option.splits)

lemma check_expiry_captive_ok:
  assumes "check_expiry_captive e sub = Some dec" "d_ok dec"
  shows "e_captive_enabled e" "subscription_ended e sub" "d_reason dec = ''expired_captive''"
    "d_reply_attrs dec = [(''Mikrotik-Address-List'', expired_pool_name e), (''Session-Timeout'', ''300'')]"
  using assms by (auto simp: check_expiry_captive_def split: if_splits)

lemma passed_reading:
  assumes "run_checks (checks e sub plan req source) d = Inr (None, d')" "reading f \<in> set (checks e sub plan req source)"
  obtains d1 where "master d1 = master d" "f d1 = None"
  using engine.passed_at [OF assms] by (auto simp: reading_def)

definition canonical_mac :: "string \<Rightarrow> string" where
  "canonical_mac m = replace_char (CHR ''-'') (CHR '':'') (upper m)"

lemma locked_macs_Nil [simp]: "locked_macs [] = []"
  by code_simp

lemma check_mac_None:
  "check_mac sub req = None \<longleftrightarrow>
     s_mac_lock sub = [] \<or> locked_macs (s_mac_lock sub) = [] \<or>
     (canonical_mac (r_calling_station_id req) \<noteq> [] \<and> canonical_mac (r_calling_station_id req) \<in> set (locked_macs (s_mac_lock sub)))"
  by (auto simp: check_mac_def canonical_mac_def Let_def)

lemma check_random_mac_None:
  "check_random_mac e d req source = None \<longleftrightarrow>
     e_fault e S_random_mac \<or> \<not> is_random_mac (r_calling_station_id req) \<or>
     get_setting d (r_tenant_id req)
       (if source = ''card'' then ''security.block_random_mac_cards'' else ''security.block_random_mac_subscribers'') ''0''
       \<notin> {''1'', ''true'', ''t'', ''on'', ''True''}"
  by (cases "e_fault e S_random_mac") (simp_all add: check_random_mac_def guarded_def Let_def)

lemma get_setting_master: "master d = master d' \<Longrightarrow> get_setting d tid k x = get_setting d' tid k x"
  by (simp add: master_def get_setting_def)

lemma get_setting_renewed: "maybe_auto_renew e d sub source = (sub', d1) \<Longrightarrow> get_setting d1 tid k x = get_setting d tid k x"
  by (simp add: get_setting_def access_blocks_renewed)

text \<open>C17. A login is accepted in two ways only. Captive: the captive mode is on, the subscription has ended, and the
  reply is exactly the restricted pool with five minutes. In full: after renewal the account is enabled and not
  past its expiry, the effective window of the account (its schedule or that of the plan, and the offer hours) is open at
  this moment where the columns are tidy and the reads of the gate succeed, a locked account is reached from a listed
  device, and a randomised address is refused where the tenant refuses it and the setting can be read.\<close>

theorem accept_passes_gates:
  assumes "authorize e d req0 = Inr (dec, d')" "d_ok dec"
  shows "\<exists>sub0 source req sub d1.
    resolve_account e d req0 = Some (sub0, source, req) \<and> maybe_auto_renew e d sub0 source = (sub, d1) \<and>
    (if e_captive_enabled e \<and> subscription_ended e sub
     then d_reason dec = ''expired_captive'' \<and>
          d_reply_attrs dec = [(''Mikrotik-Address-List'', expired_pool_name e), (''Session-Timeout'', ''300'')]
     else d_reason dec = [] \<and> s_status sub = ''enabled'' \<and> \<not> subscription_ended e sub \<and>
          (tidy_subscriber sub \<and> (\<forall>p. sub_plan e d (r_tenant_id req) (s_plan_id sub0) = Some p \<longrightarrow> tidy_plan p) \<and>
             \<not> e_fault e S_subscriber_schedule \<and> \<not> e_fault e S_plan_schedule \<and> \<not> e_fault e S_offer_hours \<longrightarrow>
           is_out_of_window sub (sub_plan e d (r_tenant_id req) (s_plan_id sub0)) (local_now e (s_tenant_id sub)) = Inr False) \<and>
          (locked_macs (s_mac_lock sub) \<noteq> [] \<longrightarrow> canonical_mac (r_calling_station_id req) \<in> set (locked_macs (s_mac_lock sub))) \<and>
          (\<not> e_fault e S_random_mac \<and> get_setting d (r_tenant_id req)
             (if source = ''card'' then ''security.block_random_mac_cards'' else ''security.block_random_mac_subscribers'') ''0''
             \<in> {''1'', ''true'', ''t'', ''on'', ''True''} \<longrightarrow> \<not> is_random_mac (r_calling_station_id req)))"
proof -
  from assms have "r_username req0 \<noteq> []" by (auto simp: authorize_def)
  with assms(1) show ?thesis
  proof (cases rule: authorize_cases)
    case unknown
    with assms(2) show ?thesis by simp
  next
    case (stopped sub0 source req sub d1 d2)
    with stop_with_ok [OF stopped(3) assms(2)] check_expiry_captive_ok [OF _ assms(2), of e sub]
    show ?thesis by auto
  next
    case (accepted sub0 source req sub d1 d2 reply d3)
    let ?plan = "sub_plan e d (r_tenant_id req) (s_plan_id sub0)"
    note run = accepted(3)
    have "check_expiry_captive e sub = None"
      by (rule passed_reading [OF run, of "\<lambda>d. check_expiry_captive e sub"]) (simp_all add: checks_def)
    then have x: "s_status sub = ''enabled''" "\<not> subscription_ended e sub"
      by (auto simp: check_expiry_captive_None subscription_ended_def split: option.splits)
    have s: "check_schedule e sub ?plan = Inr None"
      by (rule engine.passed_at [OF run, of "\<lambda>d. res_bind (check_schedule e sub ?plan) (\<lambda>r. Inr (r, d))"])
        (auto simp: checks_def res_bind_Inr)
    have w: "is_out_of_window sub ?plan (local_now e (s_tenant_id sub)) = Inr False"
      if "tidy_subscriber sub" "\<forall>p. ?plan = Some p \<longrightarrow> tidy_plan p" "\<not> e_fault e S_subscriber_schedule"
        "\<not> e_fault e S_plan_schedule" "\<not> e_fault e S_offer_hours"
      using gate_agrees [OF that(1) _ that(3-5), of ?plan] that(2) s by auto
    have m: "check_mac sub req = None"
      by (rule passed_reading [OF run, of "\<lambda>d. check_mac sub req"]) (simp_all add: checks_def)
    obtain d4 where "master d4 = master d1" "check_random_mac e d4 req source = None"
      by (rule passed_reading [OF run, of "\<lambda>d. check_random_mac e d req source"]) (simp_all add: checks_def)
    then have "check_random_mac e d req source = None"
      by (simp add: check_random_mac_None get_setting_master [of d4 d1] get_setting_renewed [OF accepted(2)])
    with accepted x w m show ?thesis
      by (auto simp: check_mac_None check_random_mac_None accept_def)
  qed
qed

section \<open>The failure counter\<close>

definition watch :: "db \<Rightarrow> login_failure list \<times> access_block list" where
  "watch d = (login_failures d, access_blocks d)"

lemma watch_updates [simp]:
  "watch (d\<lparr>cards := x1\<rparr>) = watch d" "watch (d\<lparr>subscribers := x2\<rparr>) = watch d" "watch (d\<lparr>radcheck := x3\<rparr>) = watch d"
  "watch (d\<lparr>radpostauth := x4\<rparr>) = watch d"
  by (simp_all add: watch_def)

lemma watch_master: "master d = master d' \<Longrightarrow> watch d = watch d'"
  by (simp add: master_def watch_def)

lemma watch_renewed: "maybe_auto_renew e d sub source = (sub', d1) \<Longrightarrow> watch d1 = watch d"
  by (simp add: watch_def access_blocks_renewed)

lemma watch_log [simp]: "watch (log_attempt e req b r d) = watch d"
  by (simp add: log_attempt_def)

lemma watch_set_expiry [simp]: "watch (set_expiry d tid cid u x) = watch d"
  by (simp add: set_expiry_def watch_def)

lemma watch_bind [simp]: "watch (bind_on_flag e s f d tid u c mac) = watch d"
  by (simp add: bind_on_flag_def bind_card_to_mac_def set_card_locked_mac_def replace_user_check_def Let_def)

lemma watch_first_connect [simp]: "watch (on_first_connect e d tid u mac) = watch d"
  by (auto simp: on_first_connect_def materialize_first_login_validity_def Let_def split: option.splits prod.splits)

lemma watch_stamps:
  assumes "do_update_login_timestamps e i d req source = Inr d'"
  shows "watch d' = watch d"
  using assms
  by (auto simp: do_update_login_timestamps_def stamp_subscribers_def stamp_expiry_def Let_def watch_def [of "d\<lparr>cards := x, subscribers := y\<rparr>" for d x y]
      split: if_splits)

lemma watch_stamp_attempts [simp]: "watch (snd (stamp_attempts e ks d req source)) = watch d"
  by (induction ks) (auto split: sum.splits dest: watch_stamps)

lemma watch_accept:
  assumes "build_accept_attrs e d sub plan = Inr (reply, d')"
  shows "watch d' = watch d"
proof (rule watch_master)
  from assms have "d' = snd (quota_exhaustion e d sub plan)"
    by (auto simp: build_accept_attrs_def is_quota_exhausted_def Let_def res_bind_Inr split: prod.splits)
  then show "master d' = master d" by simp
qed

text \<open>The rows a failed attempt adds.\<close>

lemma block_if_over_failures:
  "login_failures (snd (block_if_over tid th w since ex want acc)) = login_failures (snd acc)"
  by (auto simp: block_if_over_def create_block_def Let_def split: prod.splits)

lemma fold_block_failures:
  "login_failures (snd (fold (block_if_over tid th w since ex) wants acc)) = login_failures (snd acc)"
  by (induction wants arbitrary: acc) (simp_all add: block_if_over_failures)

definition failure_row :: "env \<Rightarrow> auth_request \<Rightarrow> login_failure" where
  "failure_row e req = \<lparr>f_tenant_id = r_tenant_id req, f_ip = strip (r_nas_ip req),
     f_mac = normalize_mac (r_calling_station_id req), f_username = r_username req, f_created_at = e_now e\<rparr>"

lemma failure_recorded:
  assumes "\<not> e_fault e S_failed_attempt"
  shows "failure_row e req \<in> set (login_failures (register_failure e req d))"
proof -
  let ?r = "record_failure d (r_tenant_id req) (strip (r_nas_ip req)) (normalize_mac (r_calling_station_id req)) (r_username req) (e_now e)"
  have r: "failure_row e req \<in> set (login_failures ?r)" by (simp add: record_failure_def failure_row_def)
  moreover have "failure_row e req \<in> set (login_failures (purge_old_failures ?r (r_tenant_id req) t))" if "t \<le> e_now e" for t
    using that by (simp add: purge_old_failures_def record_failure_def failure_row_def)
  ultimately show ?thesis
    using assms by (simp add: register_failure_def register_failed_attempt_def Let_def fold_block_failures seconds_def usec_def)
qed

text \<open>C40. Only a failed credential counts against a device: a login that ends in any other way leaves the recorded
  failures and the blocks exactly as they were, and a login rejected for its credentials is recorded with its
  router, device and name unless the counter itself fails.\<close>

theorem fail2ban_counts_only_credentials:
  assumes "authorize e d req = Inr (dec, d')" "r_username req \<noteq> []"
  shows "if \<not> d_ok dec \<and> d_reason dec \<in> set FAIL2BAN_REASONS
    then (\<not> e_fault e S_failed_attempt \<longrightarrow> (\<exists>f \<in> set (login_failures d'). f_tenant_id f = r_tenant_id req \<and>
            f_ip f = strip (r_nas_ip req) \<and> f_mac f = normalize_mac (r_calling_station_id req) \<and> f_created_at f = e_now e))
    else login_failures d' = login_failures d \<and> access_blocks d' = access_blocks d"
  using assms
proof (cases rule: authorize_cases)
  case unknown
  then show ?thesis using failure_recorded [of e req d]
    by (auto simp: FAIL2BAN_REASONS_def failure_row_def intro!: bexI [of _ "failure_row e req"])
next
  case (stopped sub0 source req1 sub d1 d2)
  have w: "watch d2 = watch d"
    using watch_master [OF engine.run_frame [OF stopped(3)]] watch_renewed [OF stopped(2)] by simp
  have q: "r_tenant_id req1 = r_tenant_id req" "r_nas_ip req1 = r_nas_ip req" "r_calling_station_id req1 = r_calling_station_id req"
    using stopped(1) by (auto simp: resolve_account_def as_card_def Let_def split: option.splits if_splits)
  show ?thesis
  proof (cases "\<not> d_ok dec \<and> d_reason dec \<in> set FAIL2BAN_REASONS")
    case True
    then have "d' = register_failure e req1 (log_attempt e req1 (d_ok dec) (d_reason dec) d2)"
      by (simp add: stopped finish_reject_def Let_def)
    with failure_recorded [of e req1] True q show ?thesis
      by (auto simp: failure_row_def intro!: bexI [of _ "failure_row e req1"])
  next
    case False
    then have "d' = log_attempt e req1 (d_ok dec) (d_reason dec) d2"
      by (auto simp: stopped finish_reject_def Let_def)
    then have "watch d' = watch d" using w by simp
    with False show ?thesis by (auto simp: watch_def)
  qed
next
  case (accepted sub0 source req1 sub d1 d2 reply d3)
  have "watch d' = watch d"
    using watch_master [OF engine.run_frame [OF accepted(3)]] watch_renewed [OF accepted(2)] watch_accept [OF accepted(4)]
    by (simp add: accepted update_login_timestamps_def del: stamp_attempts.simps)
  with accepted show ?thesis by (auto simp: watch_def accept_def)
qed

section \<open>The stamps of a login\<close>

definition card_stamps :: "db \<Rightarrow> (int \<times> string \<times> dt option \<times> bool) list" where
  "card_stamps d = map (\<lambda>c. (c_tenant_id c, c_username c, c_first_used_at c, c_used c)) (cards d)"

lemma get_card_stamps:
  assumes "card_stamps d' = card_stamps d" "get_card_by_username d tid u = Some c"
  shows "\<exists>c'. get_card_by_username d' tid u = Some c' \<and> c_first_used_at c' = c_first_used_at c \<and> c_used c' = c_used c"
proof -
  let ?k = "\<lambda>c. (c_tenant_id c, c_username c, c_first_used_at c, c_used c)"
  have "map_option ?k (get_card_by_username d tid u) = find (\<lambda>(t, v, _). t = tid \<and> v = u) (card_stamps d)" for d
  proof -
    have "map_option ?k (find (\<lambda>c. c_tenant_id c = tid \<and> c_username c = u) cs) = find (\<lambda>(t, v, _). t = tid \<and> v = u) (map ?k cs)" for cs
      by (induction cs) auto
    then show ?thesis by (simp add: get_card_by_username_def card_stamps_def)
  qed
  from this [of d] this [of d'] assms have "map_option ?k (get_card_by_username d' tid u) = Some (?k c)" by simp
  then show ?thesis by auto
qed

lemma card_stamps_updates [simp]:
  "card_stamps (d\<lparr>subscribers := x\<rparr>) = card_stamps d" "card_stamps (d\<lparr>radcheck := y\<rparr>) = card_stamps d"
  by (simp_all add: card_stamps_def)

lemma card_stamps_set_expiry [simp]: "card_stamps (set_expiry d tid cid u x) = card_stamps d"
  by (auto simp: set_expiry_def card_stamps_def)

lemma card_stamps_bind [simp]: "card_stamps (bind_on_flag e s f d tid u c mac) = card_stamps d"
  by (auto simp: bind_on_flag_def bind_card_to_mac_def set_card_locked_mac_def replace_user_check_def Let_def card_stamps_def)

lemma card_stamps_first_connect [simp]: "card_stamps (on_first_connect e d tid u mac) = card_stamps d"
  by (auto simp: on_first_connect_def materialize_first_login_validity_def Let_def split: option.splits prod.splits)

lemma card_stamps_expiry [simp]: "card_stamps (stamp_expiry e req t secs d) = card_stamps d"
  by (auto simp: stamp_expiry_def card_stamps_def Let_def)

lemma earliest_le:
  assumes "earliest_accounted_start e d tid u = Some t" "a \<in> set (counted_rows e d tid u)" "a_start a = Some s"
  shows "t \<le> s"
proof -
  let ?ts = "List.map_filter a_start (counted_rows e d tid u)"
  have "s \<in> set ?ts" using assms(2,3) by (force simp: List.map_filter_def)
  moreover have "fold min ts t0 \<le> x" if "x \<in> set (t0 # ts)" for ts t0 and x :: dt
    using that unfolding Min.set_eq_fold [symmetric] by (intro Min_le) simp_all
  ultimately show ?thesis using assms(1)
    by (cases "e_fault e S_first_connect") (auto simp: earliest_accounted_start_def guarded_def split: list.splits)
qed

lemma stamp_instant_le:
  "stamp_instant e d req first \<le> e_now e"
  "first \<Longrightarrow> \<not> e_fault e S_first_connect \<Longrightarrow> a \<in> set (counted_rows e d (r_tenant_id req) (r_username req)) \<Longrightarrow>
     a_start a = Some s \<Longrightarrow> stamp_instant e d req first \<le> s"
proof -
  show "stamp_instant e d req first \<le> e_now e" by (auto simp: stamp_instant_def split: option.splits)
  assume a: "first" "\<not> e_fault e S_first_connect" "a \<in> set (counted_rows e d (r_tenant_id req) (r_username req))" "a_start a = Some s"
  then have "s \<in> set (List.map_filter a_start (counted_rows e d (r_tenant_id req) (r_username req)))"
    by (force simp: List.map_filter_def)
  then obtain t where t: "earliest_accounted_start e d (r_tenant_id req) (r_username req) = Some t"
    using a(2) by (cases "List.map_filter a_start (counted_rows e d (r_tenant_id req) (r_username req))")
      (auto simp: earliest_accounted_start_def guarded_def)
  then have "t \<le> s" by (rule earliest_le [OF _ a(3,4)])
  with t a(1) show "stamp_instant e d req first \<le> s" by (simp add: stamp_instant_def)
qed

lemma stamp_subscribers_simps [simp]:
  "cards (stamp_subscribers e req d) = cards d" "radacct (stamp_subscribers e req d) = radacct d"
  "get_card_by_username (stamp_subscribers e req d) tid u = get_card_by_username d tid u"
  by (simp_all add: stamp_subscribers_def get_card_by_username_def)

lemma counted_rows_stamp [simp]: "counted_rows e (stamp_subscribers e req d) tid u = counted_rows e d tid u"
proof -
  have "card_reset_since e (stamp_subscribers e req d) tid u = card_reset_since e d tid u" by (simp add: card_reset_since_def)
  then show ?thesis unfolding counted_rows_def user_rows_def by (simp only: stamp_subscribers_simps)
qed

lemma stamp_instant_stamp [simp]: "stamp_instant e (stamp_subscribers e req d) req first = stamp_instant e d req first"
  by (simp add: stamp_instant_def earliest_accounted_start_def)

lemma do_update_card:
  assumes "do_update_login_timestamps e i d req ''card'' = Inr d'" "get_card_by_username d (r_tenant_id req) (r_username req) = Some c"
  obtains c' where "get_card_by_username d' (r_tenant_id req) (r_username req) = Some c'" "c_used c'"
    "c_first_used_at c' = opt_or (c_first_used_at c) (Some (stamp_instant e d req (c_first_used_at c = None)))"
proof -
  define stamp where "stamp = stamp_instant e d req (c_first_used_at c = None)"
  define d2 where "d2 = (stamp_subscribers e req d)\<lparr>cards := map (\<lambda>c. if named req (c_tenant_id c) (c_username c) then stamp_card req stamp c else c) (cards d)\<rparr>"
  note opened = assms(1) [unfolded do_update_login_timestamps_def Let_def stamp_subscribers_simps assms(2) option.case stamp_instant_stamp,
      folded stamp_def, folded d2_def]
  then have "d' = d2 \<or> d' = on_first_connect e (stamp_expiry e req stamp (stamp_window d2 (r_tenant_id req) (r_username req)) d2)
      (r_tenant_id req) (r_username req) (r_calling_station_id req)"
    by (auto split: if_splits)
  then have st: "card_stamps d' = card_stamps d2" by auto
  let ?f = "\<lambda>c. if named req (c_tenant_id c) (c_username c) then stamp_card req stamp c else c"
  have "get_card_by_username d2 (r_tenant_id req) (r_username req) =
      map_option ?f (get_card_by_username (stamp_subscribers e req d) (r_tenant_id req) (r_username req))"
    unfolding d2_def stamp_subscribers_simps(1) [of e req d, symmetric]
    by (rule find_map_cards) (simp add: stamp_card_def Let_def)
  then have "get_card_by_username d2 (r_tenant_id req) (r_username req) = Some (stamp_card req stamp c)"
    using assms(2) get_card_tenant [OF assms(2)] by (simp add: named_def)
  from get_card_stamps [OF st this] that show ?thesis by (auto simp: stamp_card_def stamp_def Let_def)
qed

lemma stamp_attempts_True:
  "stamp_attempts e ks d req source = (True, d') \<Longrightarrow> \<exists>i \<in> set ks. do_update_login_timestamps e i d req source = Inr d'"
  by (induction ks) (auto split: sum.splits if_splits)

text \<open>The first login fixes the beginning of a card's life, once. When the stamps of a card login are written, the
  card is used and carries a first use: the one it already had; or else an instant that is neither after this login
  nor after any session already accounted to the card since its last reset.\<close>

theorem login_stamp_once:
  assumes "get_card_by_username d (r_tenant_id req) (r_username req) = Some c"
    "update_login_timestamps e d req ''card'' = (True, d')"
  shows "\<exists>c' t. get_card_by_username d' (r_tenant_id req) (r_username req) = Some c' \<and> c_used c' \<and> c_first_used_at c' = Some t \<and>
    (c_first_used_at c \<noteq> None \<longrightarrow> c_first_used_at c = Some t) \<and>
    (c_first_used_at c = None \<longrightarrow> t \<le> e_now e \<and> (\<not> e_fault e S_first_connect \<longrightarrow>
       (\<forall>a \<in> set (counted_rows e d (r_tenant_id req) (r_username req)). \<forall>s. a_start a = Some s \<longrightarrow> t \<le> s)))"
proof -
  from stamp_attempts_True [OF assms(2) [unfolded update_login_timestamps_def]]
  obtain i where "do_update_login_timestamps e i d req ''card'' = Inr d'" by blast
  from do_update_card [OF this assms(1)] obtain c' where c':
    "get_card_by_username d' (r_tenant_id req) (r_username req) = Some c'" "c_used c'"
    "c_first_used_at c' = opt_or (c_first_used_at c) (Some (stamp_instant e d req (c_first_used_at c = None)))" by blast
  with stamp_instant_le(1) [of e d req] stamp_instant_le(2) [where e = e and d = d and req = req] show ?thesis
    by (cases "c_first_used_at c") (auto simp: opt_or_def)
qed

lemma do_update_fails:
  "isl (do_update_login_timestamps e i d req source) \<longleftrightarrow> e_stamp_fault e i \<noteq> None \<or>
     (source = ''card'' \<and> get_card_by_username d (r_tenant_id req) (r_username req) = None)"
  by (simp add: do_update_login_timestamps_def Let_def)

lemma stamp_attempts_step:
  "fst (stamp_attempts e (i # ks) d req source) \<longleftrightarrow>
     (e_stamp_fault e i = None \<and> (source = ''card'' \<longrightarrow> get_card_by_username d (r_tenant_id req) (r_username req) \<noteq> None)) \<or>
     (e_stamp_fault e i = Some True \<and> fst (stamp_attempts e ks d req source))"
  using do_update_fails [of e i d req source] by (cases "do_update_login_timestamps e i d req source") auto

lemma stamp_attempts_lost:
  "\<not> fst (stamp_attempts e ks d req source) \<Longrightarrow> snd (stamp_attempts e ks d req source) = d"
  by (induction ks) (auto split: sum.splits if_splits)

text \<open>The stamps survive a locked database: they are written exactly when one of three attempts finds the
  database free after attempts that only found it locked, and the card, for a card login, exists. Otherwise the
  tables are left untouched.\<close>

theorem stamp_retry:
  "let (written, d') = update_login_timestamps e d req source in
     (written = ((\<exists>i < 3. e_stamp_fault e i = None \<and> (\<forall>j < i. e_stamp_fault e j = Some True)) \<and>
        (source = ''card'' \<longrightarrow> get_card_by_username d (r_tenant_id req) (r_username req) \<noteq> None))) \<and>
     (written \<or> d' = d)"
proof -
  have ex: "(\<exists>i < 3. P i \<and> (\<forall>j < i. Q j)) \<longleftrightarrow> P 0 \<or> (Q 0 \<and> P 1) \<or> (Q 0 \<and> Q 1 \<and> P 2)" for P Q :: "nat \<Rightarrow> bool"
    by (simp add: numeral_3_eq_3 numeral_2_eq_2 Ex_less_Suc2 All_less_Suc2) blast
  have w: "fst (stamp_attempts e [0, 1, 2] d req source) \<longleftrightarrow>
     (\<exists>i < 3. e_stamp_fault e i = None \<and> (\<forall>j < i. e_stamp_fault e j = Some True)) \<and>
     (source = ''card'' \<longrightarrow> get_card_by_username d (r_tenant_id req) (r_username req) \<noteq> None)"
    unfolding ex stamp_attempts_step by (simp only: stamp_attempts.simps fst_conv) blast
  show ?thesis
    unfolding update_login_timestamps_def case_prod_unfold Let_def
    by (rule conjI [OF w]) (use stamp_attempts_lost [of e "[0, 1, 2]" d req source] in blast)
qed

section \<open>Renewal of a revoked card\<close>

lemma get_card_and_batch_ok:
  "\<not> e_fault e S_batch_lookup \<Longrightarrow> get_card_by_username d tid u = Some c \<Longrightarrow>
   get_card_and_batch e d tid u = (Some c, get_batch d tid (c_batch_id c))"
  by (simp add: get_card_and_batch_def)

text \<open>A revoked card, or a card of a deleted batch, is a disabled account. If its batch renews automatically and the card
  was used and has run out, the renewal enables the account before the status is checked: the check of the status
  lets the login go on although it would have rejected the account as it was stored.\<close>

theorem revoked_card_renewed:
  assumes card: "get_card_by_username d tid u = Some c" and batch: "get_batch d tid (c_batch_id c) = Some b"
    and revoked: "c_revoked c \<or> batch_dead b"
    and used: "c_first_used_at c \<noteq> None" and ended: "c_expire_at c = Some y" "y \<le> e_now e"
    and renew: "b_auto_renew_after_first_use b" "0 < renewal_days e d tid c b"
      "e_now e + renewal_days e d tid c b * day_us \<le> DT_MAX"
    and ok: "\<not> e_fault e S_auto_renew" "\<not> e_fault e S_batch_lookup"
  shows "check_expiry_captive e (card_to_subscriber e d c) = Some (reject ''disabled'') \<and>
    check_expiry_captive e (fst (maybe_auto_renew e d (card_to_subscriber e d c) ''card'')) = None"
proof -
  note t = get_card_tenant [OF card]
  have s: "s_status (card_to_subscriber e d c) = ''disabled''" "s_tenant_id (card_to_subscriber e d c) = tid"
      "s_username (card_to_subscriber e d c) = u"
    using revoked batch ok(2) t by (auto simp: card_to_subscriber_def Let_def guarded_def)
  have "maybe_auto_renew e d (card_to_subscriber e d c) ''card'' =
      ((card_to_subscriber e d c)\<lparr>s_expire_at := Some (e_now e + renewal_days e d tid c b * day_us), s_status := ''enabled''\<rparr>,
       mark_used (set_expiry d tid (c_id c) u (e_now e + renewal_days e d tid c b * day_us)) tid (c_id c))"
    using card batch used ended renew ok
    by (simp add: maybe_auto_renew_def s Let_def get_card_and_batch_ok del: not_None_eq)
  with s(1) renew(2) show ?thesis by (simp add: check_expiry_captive_def subscription_ended_def)
qed

lemma auto_renew_schedules:
  assumes "maybe_auto_renew e d sub source = (sub', d1)"
  shows "bandwidth_schedules d1 = bandwidth_schedules d"
  by (rule auto_renew_db [OF assms]) (simp_all add: mark_used_def set_expiry_def)

section \<open>Exceptions\<close>

lemma run_checks_Inl:
  assumes "run_checks cs d = Inl x"
  obtains c d1 where "c \<in> set cs" "c d1 = Inl x"
proof -
  have "\<exists>c \<in> set cs. \<exists>d1. c d1 = Inl x"
    using assms
  proof (induction cs arbitrary: d)
    case (Cons a cs)
    then show ?case
    proof (cases "a d")
      case (Inr p)
      with Cons.prems Cons.IH show ?thesis by (cases p) (auto split: option.splits)
    qed auto
  qed simp
  with that show ?thesis by blast
qed

text \<open>A speed rule whose times can be read.\<close>

definition readable_rule :: "bandwidth_schedule \<Rightarrow> bool" where
  "readable_rule r = (\<not> isl (time_minutes (sc_starts_at_time r)) \<and> \<not> isl (time_minutes (sc_ends_at_time r)))"

lemma check_schedule_readable:
  assumes "\<And>p. plan = Some p \<Longrightarrow> readable_hours p"
  shows "\<exists>r. check_schedule e sub plan = Inr r"
  using assms check_offer_hours_dim by (cases plan) (auto simp: check_schedule_def split: option.splits)

lemma first_in_window_readable: "\<forall>r \<in> set rs. readable_rule r \<Longrightarrow> \<exists>x. first_in_window cur rs = Inr x"
  by (induction rs) (auto simp: readable_rule_def not_isl in_time_window_def)

lemma first_rule_total: "(\<And>t. \<exists>x. f t = Inr x) \<Longrightarrow> \<exists>x. first_rule f ts = Inr x"
proof (induction ts)
  case (Cons t ts)
  from Cons.prems obtain x where "f t = Inr x" by blast
  with Cons show ?case by (cases x) auto
qed simp

lemma base_rate_readable:
  assumes "\<forall>r \<in> set (bandwidth_schedules d). readable_rule r" "\<not> e_fault e S_speed_rules"
  shows "\<exists>x. base_rate e d sub plan = Inr x"
proof -
  have "\<exists>x. active_rule_for_target d tid t cur = Inr x" for tid t cur
    unfolding active_rule_for_target_def using assms by (intro first_in_window_readable) (simp add: rules_for_def)
  then have "\<exists>x. resolve_effective_bandwidth_schedule e d tid u b pid = Inr x" for tid u b pid
    unfolding resolve_effective_bandwidth_schedule_def by (intro first_rule_total) blast
  from this [of "s_tenant_id sub" "s_username sub" "s_card_batch_id sub" "plan_id_for_rule plan (s_plan_id sub)"]
  show ?thesis using assms(2) by (auto simp: base_rate_def)
qed

lemma sub_plan_stored: "sub_plan e d tid pid = Some p \<Longrightarrow> p \<in> set (plans d)"
  by (cases "e_fault e S_plan_lookup") (auto simp: sub_plan_def get_plan_def guarded_def find_Some_iff split: if_splits)

lemma checks_raise:
  assumes "c \<in> set (checks e sub plan req source)" "c d = Inl x"
  shows "check_schedule e sub plan = Inl x"
  using assms unfolding checks_def reading_def by (auto simp: res_bind_def split: sum.splits)

text \<open>C18. Failures are contained: an exception can leave a login only through the lookup of the account, the read of the
  speed rules, or an offer hour or a time of a speed rule that is no time of day. Where the first two succeed and those
  texts are times, every login is decided, whichever other read or write fails.\<close>

theorem authorize_decides:
  assumes "\<forall>p \<in> set (plans d). readable_hours p" "\<forall>r \<in> set (bandwidth_schedules d). readable_rule r"
    and "\<not> account_lookup_fails e d req0" "\<not> e_fault e S_speed_rules"
  shows "\<exists>dec d'. authorize e d req0 = Inr (dec, d')"
proof (cases "r_username req0 = [] \<or> resolve_account e d req0 = None")
  case True
  then show ?thesis using assms(3) by (auto simp: authorize_def)
next
  case False
  then obtain sub0 source req where a: "resolve_account e d req0 = Some (sub0, source, req)" by (cases "the (resolve_account e d req0)") auto
  let ?plan = "sub_plan e d (r_tenant_id req) (s_plan_id sub0)"
  obtain sub d1 where m: "maybe_auto_renew e d sub0 source = (sub, d1)" by fastforce
  have "\<exists>r d2. run_checks (checks e sub ?plan req source) d1 = Inr (r, d2)"
  proof (cases "run_checks (checks e sub ?plan req source) d1")
    case (Inl x)
    then obtain c d2 where "c \<in> set (checks e sub ?plan req source)" "c d2 = Inl x" by (rule run_checks_Inl)
    then have "check_schedule e sub ?plan = Inl x" by (rule checks_raise)
    with check_schedule_readable [of ?plan e sub] sub_plan_stored assms(1) show ?thesis by fastforce
  qed auto
  then obtain r d2 where r: "run_checks (checks e sub ?plan req source) d1 = Inr (r, d2)" by blast
  have "bandwidth_schedules d2 = bandwidth_schedules d"
    using engine.run_frame [OF r] auto_renew_schedules [OF m] by (simp add: master_def)
  then obtain x where "base_rate e d2 sub ?plan = Inr x" using base_rate_readable [of d2 e sub ?plan] assms(2,4) by auto
  then have "\<exists>y. build_accept_attrs e d2 sub ?plan = Inr y" by (simp add: build_accept_attrs_def Let_def split: prod.splits)
  then show ?thesis using False assms(3) a m r by (auto simp: authorize_def Let_def split: option.splits)
qed

section \<open>Instances\<close>

definition revoked_db :: db where
  "revoked_db = blank_db\<lparr>
     card_batches := [blank_batch\<lparr>b_auto_renew_after_first_use := True, b_validity_after_first_login_days := 30, b_status := ''deleted''\<rparr>],
     cards := [blank_card\<lparr>c_first_used_at := Some 0, c_expire_at := Some (seconds 900), c_revoked := True\<rparr>]\<rparr>"

definition card_request :: auth_request where
  "card_request = blank_request\<lparr>r_username := ''c100'', r_password := ''pin'', r_calling_station_id := ''AA'', r_nas_ip := ''n''\<rparr>"

definition outcome :: "(auth_decision \<times> db) res \<Rightarrow> (bool \<times> string) option" where
  "outcome r = (case r of Inl _ \<Rightarrow> None | Inr (dec, d') \<Rightarrow> Some (d_ok dec, d_reason dec))"

lemma outcome_Some: "outcome r = Some (b, s) \<Longrightarrow> \<exists>dec d'. r = Inr (dec, d') \<and> d_ok dec = b \<and> d_reason dec = s"
  by (auto simp: outcome_def split: sum.splits)

lemma revived_login: "outcome (authorize blank_env revoked_db card_request) = Some (True, [])"
  by code_simp

theorem accept_requires_credentials_witness:
  "\<exists>sub source req. resolve_account blank_env revoked_db card_request = Some (sub, source, req) \<and>
    (login_without_password blank_env revoked_db 1 (r_username req) \<or> presents_credentials blank_env sub card_request)"
proof -
  from outcome_Some [OF revived_login] obtain dec d' where
    "authorize blank_env revoked_db card_request = Inr (dec, d')" "d_ok dec" by auto
  from accept_requires_credentials [OF this] show ?thesis
    by (auto simp: resolve_account_def as_card_def card_request_def blank_request_def Let_def split: option.splits if_splits)
qed

theorem accept_passes_gates_witness:
  "\<exists>sub0 source req. resolve_account blank_env revoked_db card_request = Some (sub0, source, req) \<and>
     s_status (fst (maybe_auto_renew blank_env revoked_db sub0 source)) = ''enabled''"
proof -
  from outcome_Some [OF revived_login] obtain dec d' where
    "authorize blank_env revoked_db card_request = Inr (dec, d')" "d_ok dec" by auto
  from accept_passes_gates [OF this] show ?thesis by (fastforce simp: blank_env_def)
qed

theorem fail2ban_counts_only_credentials_witness:
  "\<exists>dec d'. authorize blank_env revoked_db (card_request\<lparr>r_password := ''no''\<rparr>) = Inr (dec, d') \<and>
     (\<exists>f \<in> set (login_failures d'). f_ip f = ''n'')"
proof -
  let ?req = "card_request\<lparr>r_password := ''no''\<rparr>"
  have "outcome (authorize blank_env revoked_db ?req) = Some (False, ''password_wrong'')" by code_simp
  from outcome_Some [OF this] obtain dec d' where
    a: "authorize blank_env revoked_db ?req = Inr (dec, d')" "\<not> d_ok dec" "d_reason dec = ''password_wrong''" by auto
  have n: "r_username ?req \<noteq> []" "strip (r_nas_ip ?req) = ''n''" "\<not> e_fault blank_env S_failed_attempt" by code_simp+
  from fail2ban_counts_only_credentials [OF a(1) n(1)] a n(2,3) show ?thesis by (auto simp: FAIL2BAN_REASONS_def)
qed

theorem login_stamp_once_witness:
  "\<exists>c' t. get_card_by_username (snd (update_login_timestamps blank_env card_db card_request ''card'')) 1 ''c100'' = Some c' \<and>
     c_first_used_at c' = Some t \<and> t \<le> seconds 1000"
proof -
  have r: "r_tenant_id card_request = 1" "r_username card_request = ''c100''" "e_now blank_env = seconds 1000"
    by (simp_all add: card_request_def blank_request_def blank_env_def)
  have c: "get_card_by_username card_db (r_tenant_id card_request) (r_username card_request) = Some blank_card"
    "c_first_used_at blank_card = None"
    by (simp_all add: r card_db_def get_card_by_username_def blank_card_def)
  have "fst (update_login_timestamps blank_env card_db card_request ''card'')" by code_simp
  then have "update_login_timestamps blank_env card_db card_request ''card'' =
      (True, snd (update_login_timestamps blank_env card_db card_request ''card''))" by (simp add: prod_eq_iff)
  from login_stamp_once [OF c(1) this] c(2) r show ?thesis by auto
qed

theorem stamp_retry_witness:
  "let (written, d') = update_login_timestamps (blank_env\<lparr>e_stamp_fault := (\<lambda>i. if i < 2 then Some True else None)\<rparr>) card_db
     card_request ''card'' in written"
proof -
  let ?e = "blank_env\<lparr>e_stamp_fault := (\<lambda>i. if i < 2 then Some True else None)\<rparr>"
  have "get_card_by_username card_db (r_tenant_id card_request) (r_username card_request) \<noteq> None"
    by (simp add: card_request_def blank_request_def card_db_def get_card_by_username_def blank_card_def)
  moreover have "\<exists>i < 3. e_stamp_fault ?e i = None \<and> (\<forall>j < i. e_stamp_fault ?e j = Some True)"
    by (intro exI [of _ 2]) simp
  ultimately show ?thesis using stamp_retry [of ?e card_db card_request "''card''"] by (simp add: case_prod_unfold Let_def)
qed

theorem revoked_card_renewed_witness:
  "check_expiry_captive blank_env (card_to_subscriber blank_env revoked_db (hd (cards revoked_db))) = Some (reject ''disabled'') \<and>
   check_expiry_captive blank_env (fst (maybe_auto_renew blank_env revoked_db
     (card_to_subscriber blank_env revoked_db (hd (cards revoked_db))) ''card'')) = None"
proof -
  let ?c = "hd (cards revoked_db)" and ?b = "hd (card_batches revoked_db)"
  have "get_card_by_username revoked_db 1 ''c100'' = Some ?c" "get_batch revoked_db 1 (c_batch_id ?c) = Some ?b" "c_revoked ?c"
    "c_first_used_at ?c = Some 0" "c_expire_at ?c = Some (seconds 900)" "b_auto_renew_after_first_use ?b"
    "\<not> e_fault blank_env S_auto_renew" "\<not> e_fault blank_env S_batch_lookup"
    by (simp_all add: revoked_db_def get_card_by_username_def get_batch_def blank_card_def blank_batch_def blank_env_def)
  moreover have "seconds 900 \<le> e_now blank_env" "0 < renewal_days blank_env revoked_db 1 ?c ?b"
    "e_now blank_env + renewal_days blank_env revoked_db 1 ?c ?b * day_us \<le> DT_MAX" by code_simp+
  ultimately show ?thesis by (intro revoked_card_renewed) auto
qed

text \<open>Everything fails but the three reads.\<close>

theorem authorize_decides_witness:
  "\<exists>dec d'. authorize (blank_env\<lparr>e_fault := (\<lambda>s. s \<noteq> S_subscriber \<and> s \<noteq> S_card_lookup \<and> s \<noteq> S_speed_rules)\<rparr>) revoked_db card_request =
     Inr (dec, d')"
  by (rule authorize_decides) (simp_all add: revoked_db_def blank_db_def account_lookup_fails_def)

text \<open>The exceptions are real: an account that cannot be looked up ends the call, and so does an offer hour that is no
  time of day.\<close>

definition night_shift :: db where
  "night_shift = blank_db\<lparr>subscribers := [blank_subscriber\<lparr>s_plan_id := Some 3\<rparr>],
     plans := [blank_plan\<lparr>p_id := 3, p_tenant_id := 1, p_offer_hours_from := ''25:00''\<rparr>]\<rparr>"

lemma failed_lookup_raises: "authorize (blank_env\<lparr>e_fault := (\<lambda>s. s = S_card_lookup)\<rparr>) revoked_db card_request = Inl DbError"
  by code_simp

lemma bad_offer_hours_raise: "authorize blank_env night_shift blank_request = Inl AccessScheduleError"
  by code_simp

end
