(* ===== verification/PolicyReconciler.thy ===== *)
theory PolicyReconciler
  imports Authorize "HOL-Library.List_Lexorder" "HOL-Library.Char_ord"
begin

text \<open>
  \<open>app/radius/services/policy_reconciler.py\<close> with the sweeps that build on it: the enforcement of quotas
  (\<open>quota_period.enforce_after_interim\<close>, \<open>enforce_live_quota\<close>) and of the allowed hours
  (\<open>schedule_window.enforce_active_session_windows\<close>). A sweep lists the live sessions of a scope, resolves their
  accounts, asks the checks of the login whether each session may still be online, and disconnects those that may
  not. The disconnect itself is \<open>live_session_control.disconnect_live\<close>: the packet goes to the router of the session
  it picks; whether the router acknowledges it is the environment's answer.
\<close>

section \<open>The live sessions of a scope\<close>

definition MAX_SESSIONS_PER_RUN :: nat where "MAX_SESSIONS_PER_RUN = 500"

record sweep_scope =
  ss_usernames :: "string list"
  ss_plan_id :: "int option"
  ss_batch_id :: "int option"
  ss_group_id :: "int option"

definition whole_tenant :: sweep_scope where
  "whole_tenant = \<lparr>ss_usernames = [], ss_plan_id = None, ss_batch_id = None, ss_group_id = None\<rparr>"

definition only_users :: "string list \<Rightarrow> sweep_scope" where
  "only_users us = whole_tenant\<lparr>ss_usernames := us\<rparr>"

text \<open>\<open>sorted({str(u).strip() ...})\<close> without the empty name.\<close>

definition clean_names :: "string list \<Rightarrow> string list" where
  "clean_names us = sort (remdups (filter (\<lambda>u. u \<noteq> []) (map strip us)))"

definition list_member_usernames :: "db \<Rightarrow> int \<Rightarrow> int \<Rightarrow> string list" where
  "list_member_usernames d tid gid =
     (case find (\<lambda>g. g_tenant_id g = tid \<and> g_id g = gid \<and> \<not> g_deleted g) (subscriber_groups d) of
        None \<Rightarrow> []
      | Some g \<Rightarrow>
          filter (\<lambda>u. u \<noteq> []) (take 10000 (map s_username (sort_key s_username
            (filter (\<lambda>s. s_tenant_id s = tid \<and> (s_subscriber_group_id s = Some gid \<or> s_group s = g_name g) \<and> \<not> s_deleted s)
              (subscribers d))))))"

definition batch_usernames :: "db \<Rightarrow> int \<Rightarrow> int \<Rightarrow> string list" where
  "batch_usernames d tid bid = map c_username (filter (\<lambda>c. c_tenant_id c = tid \<and> c_batch_id c = bid) (cards d))"

definition plan_usernames :: "db \<Rightarrow> int \<Rightarrow> int \<Rightarrow> string list" where
  "plan_usernames d tid pid =
     map s_username (filter (\<lambda>s. s_tenant_id s = tid \<and> s_plan_id s = Some pid) (subscribers d)) @
     map c_username (filter (\<lambda>c. c_tenant_id c = tid \<and> c_plan_id c = Some pid) (cards d))"

definition in_scope :: "db \<Rightarrow> int \<Rightarrow> sweep_scope \<Rightarrow> string list \<Rightarrow> acct_row \<Rightarrow> bool" where
  "in_scope d tid sc names a =
     (a_tenant_id a = tid \<and> a_stop a = None \<and>
      (if names \<noteq> [] then a_username a \<in> set names
       else (case ss_batch_id sc of
               Some b \<Rightarrow> a_username a \<in> set (batch_usernames d tid b)
             | None \<Rightarrow> (case ss_plan_id sc of
                          Some p \<Rightarrow> a_username a \<in> set (plan_usernames d tid p)
                        | None \<Rightarrow> True))))"

definition is_live :: "dt \<Rightarrow> acct_row \<Rightarrow> bool" where
  "is_live cutoff a = (case last_seen a of None \<Rightarrow> False | Some t \<Rightarrow> cutoff \<le> t)"

definition live_cutoff :: "env \<Rightarrow> dt" where
  "live_cutoff e = e_now e - e_window_minutes e * minute_us"

text \<open>\<open>None\<close>: a group without members, for which nothing is read.\<close>

definition scope_names :: "env \<Rightarrow> db \<Rightarrow> int \<Rightarrow> sweep_scope \<Rightarrow> string list option" where
  "scope_names e d tid sc =
     (let names = clean_names (ss_usernames sc) in
      case ss_group_id sc of
        Some gid \<Rightarrow>
          if names \<noteq> [] then Some names
          else
            let members = guarded [] (at_site e S_group_members (Inr (clean_names (list_member_usernames d tid gid))))
            in if members = [] then None else Some members
      | None \<Rightarrow> Some names)"

definition live_rows :: "env \<Rightarrow> db \<Rightarrow> int \<Rightarrow> sweep_scope \<Rightarrow> acct_row list" where
  "live_rows e d tid sc =
     (case scope_names e d tid sc of
        None \<Rightarrow> []
      | Some names \<Rightarrow>
          take MAX_SESSIONS_PER_RUN (filter (is_live (live_cutoff e)) (filter (in_scope d tid sc names) (radacct d))))"

section \<open>The account of a session\<close>

definition sweep_account :: "env \<Rightarrow> db \<Rightarrow> int \<Rightarrow> string \<Rightarrow> (subscriber \<times> string) option" where
  "sweep_account e d tid u =
     (let card = map_option (\<lambda>c. (card_to_subscriber e d c, ''card'')) (get_card_by_username d tid u) in
      case get_subscriber d tid u of
        Some s \<Rightarrow>
          if s_user_type s = ''card'' \<or> truthy_id (s_card_batch_id s)
          then (case card of None \<Rightarrow> Some (s, ''subscriber'') | Some r \<Rightarrow> Some r)
          else Some (s, ''subscriber'')
      | None \<Rightarrow> card)"

text \<open>Unlike at a login, a deleted plan does not apply.\<close>

definition sweep_plan :: "env \<Rightarrow> db \<Rightarrow> int \<Rightarrow> int option \<Rightarrow> access_plan option" where
  "sweep_plan e d tid plan_id =
     (if truthy_id plan_id then guarded None (at_site e S_plan_lookup (Inr (get_plan d tid (the plan_id) False))) else None)"

definition sweep_resolve :: "env \<Rightarrow> db \<Rightarrow> int \<Rightarrow> string \<Rightarrow> (subscriber \<times> access_plan option \<times> string) option" where
  "sweep_resolve e d tid u =
     map_option (\<lambda>(sub, source). (sub, sweep_plan e d tid (s_plan_id sub), source)) (sweep_account e d tid u)"

section \<open>Is a session still allowed?\<close>

definition session_request :: "int \<Rightarrow> acct_row \<Rightarrow> auth_request" where
  "session_request tid a =
     \<lparr>r_username = strip (a_username a), r_password = [], r_chap_password = [], r_chap_challenge = [], r_tenant_id = tid,
      r_calling_station_id = a_callingstationid a, r_called_station_id = [], r_nas_ip = a_nasipaddress a, r_nas_port = [],
      r_nas_port_type = [], r_user_agent = [], r_simulate = False\<rparr>"

definition compliance_checks ::
    "env \<Rightarrow> subscriber \<Rightarrow> access_plan option \<Rightarrow> auth_request \<Rightarrow> string \<Rightarrow> (string \<times> check) list" where
  "compliance_checks e sub plan req source =
     [(''blocks'', reading (\<lambda>d. check_blocks e d sub plan req source)),
      (''status'', reading (\<lambda>d. check_status sub)),
      (''expiry'', reading (\<lambda>d. check_expiry_captive e sub)),
      (''schedule'', \<lambda>d. res_bind (check_schedule e sub plan) (\<lambda>r. Inr (r, d))),
      (''quota'', \<lambda>d. Inr (check_quota e d sub plan)),
      (''card_time'', reading (\<lambda>d. check_card_budget e d sub plan)),
      (''conn_time'', reading (\<lambda>d. check_connection_time e d sub plan)),
      (''mac'', reading (\<lambda>d. check_mac sub req))]"

text \<open>A check that raises is skipped; any decision counts, the captive acceptance of an ended subscription too.\<close>

fun first_violation :: "(string \<times> check) list \<Rightarrow> db \<Rightarrow> string option \<times> db" where
  "first_violation [] d = (None, d)"
| "first_violation ((label, c) # cs) d =
     (case c d of
        Inl _ \<Rightarrow> first_violation cs d
      | Inr (None, d1) \<Rightarrow> first_violation cs d1
      | Inr (Some bad, d1) \<Rightarrow> (Some (or_default (d_reason bad) label), d1))"

definition check_session_compliance :: "env \<Rightarrow> db \<Rightarrow> int \<Rightarrow> acct_row \<Rightarrow> string option \<times> db" where
  "check_session_compliance e d tid a =
     (let u = strip (a_username a) in
      if u = [] then (None, d)
      else
        (case sweep_resolve e d tid u of
           None \<Rightarrow> (Some ''user_deleted'', d)
         | Some (sub, plan, source) \<Rightarrow>
             first_violation (compliance_checks e sub plan (session_request tid a) source) d))"

section \<open>Sessions beyond the device limit\<close>

definition last_seen_or_min :: "acct_row \<Rightarrow> dt" where
  "last_seen_or_min a = (case last_seen a of None \<Rightarrow> DT_MIN | Some t \<Rightarrow> t)"

definition user_sessions :: "acct_row list \<Rightarrow> string \<Rightarrow> acct_row list" where
  "user_sessions rows u = filter (\<lambda>a. strip (a_username a) = u) rows"

definition surplus_sessions :: "env \<Rightarrow> db \<Rightarrow> int \<Rightarrow> acct_row list \<Rightarrow> string \<Rightarrow> acct_row list" where
  "surplus_sessions e d tid rows u =
     (case sweep_resolve e d tid u of
        None \<Rightarrow> []
      | Some (sub, plan, _) \<Rightarrow>
          let limit = fst (effective_limit e d sub plan); sess = user_sessions rows u in
          if limit \<le> 0 \<or> int (length sess) \<le> limit then [] else drop (nat limit) (sort_key last_seen_or_min sess))"

text \<open>The keys of the dictionary: session identifiers, all with the reason \<open>device_limit_exceeded\<close>.\<close>

definition device_limit_violations :: "env \<Rightarrow> db \<Rightarrow> int \<Rightarrow> acct_row list \<Rightarrow> string list" where
  "device_limit_violations e d tid rows =
     (if e_fault e S_sweep_limit then []
      else concat (map (\<lambda>u. filter (\<lambda>sid. sid \<noteq> []) (map a_acctsessionid (surplus_sessions e d tid rows u)))
             (remdups (filter (\<lambda>u. u \<noteq> []) (map (\<lambda>a. strip (a_username a)) rows)))))"

section \<open>The disconnect\<close>

definition find_all_nas_for_sessions :: "env \<Rightarrow> db \<Rightarrow> int \<Rightarrow> string \<Rightarrow> acct_row list" where
  "find_all_nas_for_sessions e d tid u =
     filter (\<lambda>a. a_stop a = None \<and> e_nas_reachable e a) (rev (sort_key a_radacctid (user_rows d tid u)))"

definition pick_session :: "env \<Rightarrow> db \<Rightarrow> int \<Rightarrow> string \<Rightarrow> string \<Rightarrow> acct_row option" where
  "pick_session e d tid u sid =
     (let sessions = find_all_nas_for_sessions e d tid u in
      if sid = [] then (case sessions of [] \<Rightarrow> None | s # _ \<Rightarrow> Some s)
      else find (\<lambda>s. a_acctsessionid s = strip sid) sessions)"

definition disconnect_live :: "env \<Rightarrow> db \<Rightarrow> int \<Rightarrow> string \<Rightarrow> string \<Rightarrow> bool \<times> db" where
  "disconnect_live e d tid u sid =
     (if e_fault e S_sweep_disconnect then (False, d)
      else (case pick_session e d tid u sid of
              None \<Rightarrow> (False, d)
            | Some s \<Rightarrow> (e_disconnect_ok e tid u (a_acctsessionid s),
                         d\<lparr>coa_disconnects := coa_disconnects d @ [(tid, u, a_acctsessionid s)]\<rparr>)))"

section \<open>A run\<close>

record sweep_stats =
  st_checked :: nat
  st_violations :: nat
  st_disconnected :: nat
  st_failed :: nat

definition no_stats :: sweep_stats where
  "no_stats = \<lparr>st_checked = 0, st_violations = 0, st_disconnected = 0, st_failed = 0\<rparr>"

definition count_outcome :: "bool \<Rightarrow> sweep_stats \<Rightarrow> sweep_stats" where
  "count_outcome ok st =
     (let st1 = st\<lparr>st_violations := Suc (st_violations st)\<rparr> in
      if ok then st1\<lparr>st_disconnected := Suc (st_disconnected st1)\<rparr> else st1\<lparr>st_failed := Suc (st_failed st1)\<rparr>)"

definition why_disconnect :: "env \<Rightarrow> db \<Rightarrow> int \<Rightarrow> string list \<Rightarrow> acct_row \<Rightarrow> string option \<times> db" where
  "why_disconnect e d tid viol a =
     (if a_acctsessionid a \<in> set viol then (Some ''device_limit_exceeded'', d) else check_session_compliance e d tid a)"

definition run_row :: "env \<Rightarrow> int \<Rightarrow> string list \<Rightarrow> acct_row \<Rightarrow> sweep_stats \<times> db \<Rightarrow> sweep_stats \<times> db" where
  "run_row e tid viol a sd =
     (let (st, d) = sd; st1 = st\<lparr>st_checked := Suc (st_checked st)\<rparr> in
      case why_disconnect e d tid viol a of
        (None, d1) \<Rightarrow> (st1, d1)
      | (Some why, d1) \<Rightarrow>
          (let (ok, d2) = disconnect_live e d1 tid (a_username a) (a_acctsessionid a) in (count_outcome ok st1, d2)))"

definition run_sweep :: "env \<Rightarrow> db \<Rightarrow> int \<Rightarrow> sweep_scope \<Rightarrow> sweep_stats \<times> db" where
  "run_sweep e d tid sc =
     (let rows = live_rows e d tid sc; viol = device_limit_violations e d tid rows
      in fold (run_row e tid viol) rows (no_stats, d))"

section \<open>Quotas of live sessions\<close>

definition has_any_quota :: "subscriber \<Rightarrow> access_plan option \<Rightarrow> bool" where
  "has_any_quota sub plan = (effective_quota_mb sub plan > 0 \<or> has_window_caps (plan_window_caps plan))"

definition quota_violator :: "env \<Rightarrow> db \<Rightarrow> int \<Rightarrow> string \<Rightarrow> bool \<times> db" where
  "quota_violator e d tid u =
     (if e_fault e S_quota_interim then (False, d)
      else
        (case sweep_resolve e d tid u of
           None \<Rightarrow> (False, d)
         | Some (sub, plan, _) \<Rightarrow>
             if \<not> has_any_quota sub plan then (False, d)
             else (let (r, d1) = check_quota e d sub plan in (r \<noteq> None, d1))))"

text \<open>After an interim: \<open>True\<close> asks for a sweep over the user, which runs in a thread of its own.\<close>

definition enforce_after_interim :: "env \<Rightarrow> db \<Rightarrow> int \<Rightarrow> string \<Rightarrow> bool \<times> db" where
  "enforce_after_interim e d tid u = quota_violator e d tid u"

fun quota_violators :: "env \<Rightarrow> int \<Rightarrow> string list \<Rightarrow> db \<Rightarrow> string list \<times> db" where
  "quota_violators e tid [] d = ([], d)"
| "quota_violators e tid (u # us) d =
     (let (bad, d1) = quota_violator e d tid u; (vs, d2) = quota_violators e tid us d1
      in (if bad then u # vs else vs, d2))"

definition enforce_tenant_quota :: "env \<Rightarrow> int \<Rightarrow> (nat \<times> nat) \<times> db \<Rightarrow> (nat \<times> nat) \<times> db" where
  "enforce_tenant_quota e tid cd =
     (let ((checked, exhausted), d) = cd;
          names = clean_names (map a_username (live_rows e d tid whole_tenant));
          (violators, d1) = quota_violators e tid names d
      in ((checked + length names, exhausted + length violators),
          if violators = [] then d1 else snd (run_sweep e d1 tid (only_users violators))))"

definition active_tenant_ids :: "env \<Rightarrow> db \<Rightarrow> int list" where
  "active_tenant_ids e d =
     guarded [1] (at_site e S_tenants (Inr (map fst (filter (\<lambda>t. snd t = ''active'') (tenants d)))))"

definition MARK_RETENTION_DAYS :: int where "MARK_RETENTION_DAYS = 40"

definition sweep_tenants :: "env \<Rightarrow> db \<Rightarrow> int option \<Rightarrow> int list" where
  "sweep_tenants e d tid = (case tid of None \<Rightarrow> active_tenant_ids e d | Some t \<Rightarrow> [t])"

text \<open>The marks of old sessions are pruned every six hours by the sweep over all tenants.\<close>

definition enforce_live_quota :: "env \<Rightarrow> db \<Rightarrow> int option \<Rightarrow> dt option \<Rightarrow> (nat \<times> nat) \<times> db \<times> dt option" where
  "enforce_live_quota e d tid last_prune =
     (let due = (tid = None \<and> (case last_prune of None \<Rightarrow> True | Some t \<Rightarrow> e_now e - t > 6 * 60 * minute_us));
          d1 = (if due then snd (prune_session_marks e d MARK_RETENTION_DAYS) else d);
          (counts, d2) = fold (enforce_tenant_quota e) (sweep_tenants e d1 tid) ((0, 0), d1)
      in (counts, d2, if due then Some (e_now e) else last_prune))"

section \<open>Allowed hours of live sessions\<close>

definition sweep_clock :: "env \<Rightarrow> int \<Rightarrow> dt" where
  "sweep_clock e tid = (if e_fault e S_local_now then e_now e else local_now e tid)"

definition window_row :: "env \<Rightarrow> int \<Rightarrow> acct_row \<Rightarrow> sweep_stats \<times> db \<Rightarrow> sweep_stats \<times> db" where
  "window_row e tid a sd =
     (let (st, d) = sd; u = strip (a_username a) in
      if u = [] then (st, d)
      else
        let st1 = st\<lparr>st_checked := Suc (st_checked st)\<rparr> in
        case sweep_resolve e d tid u of
          None \<Rightarrow> (st1, d)
        | Some (sub, plan, _) \<Rightarrow>
            if \<not> guarded False (is_out_of_window sub plan (sweep_clock e tid)) then (st1, d)
            else (let (ok, d1) = disconnect_live e d tid u (a_acctsessionid a) in (count_outcome ok st1, d1)))"

definition enforce_active_session_windows :: "env \<Rightarrow> db \<Rightarrow> int option \<Rightarrow> sweep_stats \<times> db" where
  "enforce_active_session_windows e d tid =
     fold (\<lambda>t sd. fold (window_row e t) (live_rows e (snd sd) t whole_tenant) sd) (sweep_tenants e d tid) (no_stats, d)"

section \<open>What a sweep leaves alone\<close>

definition sweep_frame :: "db \<Rightarrow> _" where
  "sweep_frame d = (master d, radacct d, coa_disconnects d)"

lemma sweep_frame_updates [simp]:
  "sweep_frame (d\<lparr>session_marks := x\<rparr>) = sweep_frame d"
  "sweep_frame (d\<lparr>notifications := y\<rparr>) = sweep_frame d"
  by (simp_all add: sweep_frame_def)

lemma sweep_frame_save_marks [simp]: "sweep_frame (save_marks e d tid u ws) = sweep_frame d"
proof -
  have "sweep_frame (fold (save_mark t tid u) ws d) = sweep_frame d" for t
    by (induction ws arbitrary: d) (auto simp: save_mark_def)
  then show ?thesis by (simp add: save_marks_def)
qed

lemma sweep_frame_straddle [simp]: "sweep_frame (snd (straddle_usage e d tid u b)) = sweep_frame d"
  by (simp add: straddle_usage_def Let_def)

lemma sweep_frame_usage [simp]: "sweep_frame (snd (usage e d sub st w)) = sweep_frame d"
  by (auto simp: usage_def Let_def split: prod.splits) (metis sweep_frame_straddle snd_conv)+

lemma sweep_frame_quota [simp]: "sweep_frame (snd (check_quota e d sub plan)) = sweep_frame d"
proof -
  have "sweep_frame (snd (window_exhaustion e d sub plan)) = sweep_frame d"
    by (auto simp: window_exhaustion_def Let_def split: prod.splits) (metis sweep_frame_usage snd_conv)
  then have "sweep_frame (snd (quota_exhaustion e d sub plan)) = sweep_frame d"
    by (simp add: quota_exhaustion_def Let_def split: prod.split) (metis snd_conv)
  then show ?thesis
    by (auto simp: check_quota_def fire_quota_exhaust_notify_def Let_def split: prod.splits option.splits)
qed

context framed_checks
begin

lemma first_violation_frame: "snd ` set lcs \<subseteq> set cs \<Longrightarrow> tbl (snd (first_violation lcs d)) = tbl d"
proof (induction lcs arbitrary: d)
  case (Cons lc lcs)
  obtain l c where lc: "lc = (l, c)" by (cases lc)
  then have c: "c \<in> set cs" and IH: "tbl (snd (first_violation lcs d')) = tbl d'" for d'
    using Cons by auto
  show ?case using frame [OF c] IH by (auto simp: lc split: sum.splits option.splits prod.splits)
qed simp

lemma first_violation_reason:
  "snd ` set lcs \<subseteq> set cs \<Longrightarrow> fst (first_violation lcs d) \<noteq> None \<Longrightarrow>
     \<exists>lc \<in> set lcs. \<exists>d0 bad d1. tbl d0 = tbl d \<and> snd lc d0 = Inr (Some bad, d1)"
proof (induction lcs arbitrary: d)
  case (Cons lc lcs)
  obtain l c where lc: "lc = (l, c)" by (cases lc)
  have c: "c \<in> set cs" "snd ` set lcs \<subseteq> set cs" using Cons.prems(1) lc by auto
  consider (raised) x where "c d = Inl x" | (passed) d1 where "c d = Inr (None, d1)" | (bad) b d1 where "c d = Inr (Some b, d1)"
    by (metis obj_sumE option.exhaust surj_pair)
  then show ?case
  proof cases
    case raised
    then have "fst (first_violation lcs d) \<noteq> None" using Cons.prems(2) lc by simp
    from Cons.IH [OF c(2) this] show ?thesis by auto
  next
    case passed
    then have "fst (first_violation lcs d1) \<noteq> None" "tbl d1 = tbl d" using Cons.prems(2) lc frame [OF c(1)] by simp_all
    with Cons.IH [OF c(2), of d1] show ?thesis by auto
  next
    case bad
    then show ?thesis using lc by (intro bexI [of _ lc] exI [of _ d]) auto
  qed
qed simp

end

interpretation compliance: framed_checks sweep_frame "map snd (compliance_checks e sub plan req source)" for e sub plan req source
proof
  fix c d r d' assume "c \<in> set (map snd (compliance_checks e sub plan req source))" "c d = Inr (r, d')"
  then show "sweep_frame d' = sweep_frame d"
    unfolding compliance_checks_def reading_def by (auto simp: res_bind_Inr) (metis snd_conv sweep_frame_quota)
qed

lemma compliance_frame [simp]: "sweep_frame (snd (check_session_compliance e d tid a)) = sweep_frame d"
proof -
  have "sweep_frame (snd (first_violation (compliance_checks e sub plan req source) d)) = sweep_frame d" for sub plan req source
    by (intro compliance.first_violation_frame [where e = e and sub = sub and plan = plan and req = req and source = source]) simp
  then show ?thesis by (simp add: check_session_compliance_def Let_def split: option.split prod.split)
qed

end
