(* ===== verification/SweepProperties.thy ===== *)
theory SweepProperties
  imports PolicyReconciler LoginProperties "HOL-Library.Multiset"
begin

text \<open>
  What the sweeps over live sessions promise: they agree with the login, they disconnect only sessions with a reason,
  and how many sessions the device limit leaves.
\<close>

section \<open>The login and the sweep agree\<close>

lemma gates_passed:
  assumes "run_checks (checks e sub plan req source) d = Inr (None, d')"
  defines "d1 \<equiv> snd (check_quota e d sub plan)"
  shows "check_blocks e d sub plan req source = None" "check_expiry_captive e sub = None" "check_schedule e sub plan = Inr None"
    "fst (check_quota e d sub plan) = None" "check_card_budget e d1 sub plan = None" "check_connection_time e d1 sub plan = None"
    "check_mac sub req = None"
  using assms(1) unfolding d1_def
  by (cases "check_quota e d sub plan"; auto simp: checks_def reading_def res_bind_Inr split: option.splits)+

lemma captive_status: "check_expiry_captive e sub = None \<Longrightarrow> check_status sub = None"
  by (auto simp: check_expiry_captive_def check_status_def subscription_ended_def split: if_splits)

lemma compliance_of_gates:
  assumes "run_checks (checks e sub plan req source) d = Inr (None, d')"
    and "r_tenant_id req' = r_tenant_id req" "r_nas_ip req' = r_nas_ip req" "r_calling_station_id req' = r_calling_station_id req"
  shows "fst (first_violation (compliance_checks e sub plan req' source) d) = None"
proof -
  note g = gates_passed [OF assms(1)]
  obtain d1 where q: "check_quota e d sub plan = (None, d1)" using g(4) by (cases "check_quota e d sub plan") simp
  have "check_blocks e x sub plan req' source = check_blocks e x sub plan req source" for x
    by (simp add: check_blocks_def auth_context_of_def assms(2-4))
  moreover have "check_mac sub req' = check_mac sub req" by (simp add: check_mac_def assms(4))
  ultimately show ?thesis
    using g captive_status [OF g(2)] by (simp add: compliance_checks_def reading_def q)
qed

lemma no_renewal:
  assumes "\<forall>b \<in> set (card_batches d). \<not> b_auto_renew_after_first_use b"
  shows "maybe_auto_renew e d sub source = (sub, d)"
proof -
  have "\<not> b_auto_renew_after_first_use b" if "get_card_and_batch e d tid u = (Some c, Some b)" for tid u c b
    using that assms
    by (auto simp: get_card_and_batch_def get_batch_def at_site_def guarded_def Let_def
        dest!: find_Some_first split: option.splits if_splits sum.splits)
  then show ?thesis by (auto simp: maybe_auto_renew_def Let_def split: option.split prod.split)
qed

lemma sweep_plan_at_login:
  assumes "\<forall>p \<in> set (plans d). \<not> p_deleted p"
  shows "sweep_plan e d tid pid = sub_plan e d tid pid"
proof -
  have "get_plan d tid i x = find (\<lambda>p. p_tenant_id p = tid \<and> p_id p = i) (plans d)" for i x
    unfolding get_plan_def using assms by (intro find_cong) auto
  then show ?thesis by (simp add: sweep_plan_def sub_plan_def)
qed

lemma sweep_account_at_login:
  assumes "sweep_account e d (r_tenant_id req) (r_username req) = Some (sub, source)"
  shows "resolve_account e d req = Some (sub, source, req)"
proof -
  have "req\<lparr>r_username := r_username req\<rparr> = req" by simp
  then show ?thesis using assms
    by (auto simp: sweep_account_def resolve_account_def as_card_def Let_def split: option.splits if_splits)
qed


section \<open>The device limit of a sweep\<close>

lemma surplus_subset: "a \<in> set (surplus_sessions e d tid rows u) \<Longrightarrow> a \<in> set rows \<and> strip (a_username a) = u"
  by (auto simp: surplus_sessions_def user_sessions_def Let_def split: option.splits if_splits dest!: in_set_dropD)

lemma violation_iff:
  assumes "\<not> e_fault e S_sweep_limit"
  shows "sid \<in> set (device_limit_violations e d tid rows) \<longleftrightarrow>
    sid \<noteq> [] \<and> (\<exists>u s. u \<noteq> [] \<and> s \<in> set (surplus_sessions e d tid rows u) \<and> a_acctsessionid s = sid)"
proof -
  have u: "u \<in> (\<lambda>a. strip (a_username a)) ` set rows" if "s \<in> set (surplus_sessions e d tid rows u)" for u s
    using surplus_subset [OF that] by (auto intro: rev_image_eqI)
  have "set (device_limit_violations e d tid rows) =
      (\<Union>u \<in> {u. u \<noteq> [] \<and> u \<in> (\<lambda>a. strip (a_username a)) ` set rows}.
        {sid. sid \<noteq> [] \<and> sid \<in> a_acctsessionid ` set (surplus_sessions e d tid rows u)})"
    using assms by (auto simp: device_limit_violations_def)
  then show ?thesis using u by (auto simp: image_iff)
qed

text \<open>When the live sessions have identifiers of their own, the sweep leaves each user exactly the sessions the
  device limit allows: those with the oldest last sign of life; without a limit none is surplus.\<close>

theorem device_limit_sweep_keeps:
  assumes "\<not> e_fault e S_sweep_limit" "u \<noteq> []"
    and ids: "\<forall>a \<in> set rows. a_acctsessionid a \<noteq> []" "distinct (map a_acctsessionid rows)"
    and "sweep_resolve e d tid u = Some (sub, plan, source)"
  defines "sess \<equiv> user_sessions rows u" and "limit \<equiv> fst (effective_limit e d sub plan)"
  shows "mset (filter (\<lambda>a. a_acctsessionid a \<notin> set (device_limit_violations e d tid rows)) sess) =
    mset (if limit \<le> 0 then sess else take (nat limit) (sort_key last_seen_or_min sess))"
proof -
  let ?sorted = "sort_key last_seen_or_min sess"
  let ?surplus = "surplus_sessions e d tid rows u"
  have sub: "set sess \<subseteq> set rows" "distinct sess"
    using ids(2) by (auto simp: sess_def user_sessions_def distinct_map)
  have viol: "a_acctsessionid a \<in> set (device_limit_violations e d tid rows) \<longleftrightarrow> a \<in> set ?surplus" if "a \<in> set sess" for a
  proof -
    have "a = s" if "s \<in> set (surplus_sessions e d tid rows v)" "a_acctsessionid s = a_acctsessionid a" for v s
      using surplus_subset [OF that(1)] that(2) ids(2) \<open>a \<in> set sess\<close> sub(1) by (auto simp: distinct_map inj_on_def)
    moreover have "strip (a_username a) = u" "a_acctsessionid a \<noteq> []"
      using \<open>a \<in> set sess\<close> ids(1) by (auto simp: sess_def user_sessions_def)
    ultimately show ?thesis
      unfolding violation_iff [OF assms(1)] using surplus_subset assms(2) by blast
  qed
  have surplus: "?surplus = (if limit \<le> 0 \<or> int (length sess) \<le> limit then [] else drop (nat limit) ?sorted)"
    by (simp add: surplus_sessions_def assms(5) sess_def limit_def Let_def)
  have "mset (filter (\<lambda>a. a_acctsessionid a \<notin> set (device_limit_violations e d tid rows)) sess) =
      mset (filter (\<lambda>a. a \<notin> set ?surplus) sess)"
    using viol by (simp cong: filter_cong)
  also have "\<dots> = mset (filter (\<lambda>a. a \<notin> set ?surplus) ?sorted)" by simp
  also have "filter (\<lambda>a. a \<notin> set ?surplus) ?sorted = (if limit \<le> 0 then ?sorted else take (nat limit) ?sorted)"
  proof (cases "limit \<le> 0 \<or> int (length sess) \<le> limit")
    case True
    then show ?thesis by (auto simp: surplus)
  next
    case False
    have "distinct ?sorted" using sub(2) by simp
    then have "set (take (nat limit) ?sorted) \<inter> set (drop (nat limit) ?sorted) = {}"
      by (metis append_take_drop_id distinct_append)
    then have "filter (\<lambda>a. a \<notin> set (drop (nat limit) ?sorted)) (take (nat limit) ?sorted @ drop (nat limit) ?sorted) =
        take (nat limit) ?sorted"
      by (auto simp: filter_id_conv filter_empty_conv simp del: append_take_drop_id)
    with False show ?thesis by (simp add: surplus)
  qed
  finally show ?thesis by simp
qed

text \<open>The dictionary of violations is keyed by the session identifier alone: a surplus session of one user condemns
  every session of the run with the same identifier, whoever it belongs to and however compliant it is.\<close>

lemma session_id_collision:
  assumes "\<not> e_fault e S_sweep_limit" "s \<in> set (surplus_sessions e d tid rows u)" "u \<noteq> []"
    and "a_acctsessionid s \<noteq> []" "a_acctsessionid a = a_acctsessionid s"
  shows "why_disconnect e d' tid (device_limit_violations e d tid rows) a = (Some ''device_limit_exceeded'', d')"
  using assms violation_iff [OF assms(1)] by (auto simp: why_disconnect_def)

section \<open>What a run disconnects\<close>

lemma run_row_sound:
  assumes "run_row e tid viol a (st, d) = (st', d')"
    and "st_violations st = st_disconnected st + st_failed st"
  obtains ks where "st_checked st' = Suc (st_checked st)" "st_violations st' = st_disconnected st' + st_failed st'"
    "master d' = master d" "radacct d' = radacct d" "coa_disconnects d' = coa_disconnects d @ ks"
    "length ks \<le> st_violations st' - st_violations st" "st_violations st \<le> st_violations st'"
    "st_violations st' \<le> Suc (st_violations st)" "st_disconnected st' - st_disconnected st \<le> length ks"
    "\<forall>k \<in> set ks. fst (why_disconnect e d tid viol a) \<noteq> None \<and>
       (\<exists>s. pick_session e d tid (a_username a) (a_acctsessionid a) = Some s \<and> k = (tid, a_username a, a_acctsessionid s))"
proof -
  obtain why d1 where w: "why_disconnect e d tid viol a = (why, d1)" by fastforce
  have f: "sweep_frame d1 = sweep_frame d"
    using w by (auto simp: why_disconnect_def split: if_splits) (metis compliance_frame snd_conv)
  then have same: "master d1 = master d" "radacct d1 = radacct d" "coa_disconnects d1 = coa_disconnects d"
    by (auto simp: sweep_frame_def)
  have pick: "pick_session e d1 tid u sid = pick_session e d tid u sid" for u sid
    by (simp add: pick_session_def find_all_nas_for_sessions_def user_rows_def same)
  show ?thesis
  proof (cases why)
    case None
    with assms w same show ?thesis by (intro that [of "[]"]) (auto simp: run_row_def Let_def)
  next
    case (Some r)
    obtain ok d2 where x: "disconnect_live e d1 tid (a_username a) (a_acctsessionid a) = (ok, d2)" by fastforce
    define ks where "ks = (if e_fault e S_sweep_disconnect then [] else
      map (\<lambda>s. (tid, a_username a, a_acctsessionid s)) (opt_list (pick_session e d tid (a_username a) (a_acctsessionid a))))"
    have d2: "d2 = d1\<lparr>coa_disconnects := coa_disconnects d1 @ ks\<rparr>" "ok \<Longrightarrow> ks \<noteq> []"
      using x by (auto simp: disconnect_live_def ks_def pick opt_list_def split: if_splits option.splits)
    have "length ks \<le> 1" by (simp add: ks_def opt_list_def split: option.split)
    then show ?thesis
      using assms w Some x same d2
      by (intro that [of ks])
        (auto simp: run_row_def Let_def count_outcome_def ks_def opt_list_def split: if_splits option.splits)
  qed
qed

text \<open>What a sweep may hold against a session, told over the tables and not by the verdict of the code: its account is gone,
  or one of the checks, run on the same accounts, plans, cards, blocks and sessions, decides against it.\<close>

definition objection :: "env \<Rightarrow> db \<Rightarrow> int \<Rightarrow> acct_row \<Rightarrow> bool" where
  "objection e d tid a =
     (strip (a_username a) \<noteq> [] \<and>
      (case sweep_resolve e d tid (strip (a_username a)) of
         None \<Rightarrow> True
       | Some (sub, plan, source) \<Rightarrow>
           \<exists>lc \<in> set (compliance_checks e sub plan (session_request tid a) source). \<exists>d0 bad d1.
             master d0 = master d \<and> radacct d0 = radacct d \<and> snd lc d0 = Inr (Some bad, d1)))"

definition surplus_id :: "env \<Rightarrow> db \<Rightarrow> int \<Rightarrow> acct_row list \<Rightarrow> string \<Rightarrow> bool" where
  "surplus_id e d tid rows sid = (sid \<noteq> [] \<and> (\<exists>u. \<exists>s \<in> set (surplus_sessions e d tid rows u). a_acctsessionid s = sid))"

text \<open>The session \<open>s\<close> that a call for the examined session \<open>a\<close> goes to: open, of the same tenant and user, and with the
  identifier of \<open>a\<close> where it has one.\<close>

definition goes_to :: "db \<Rightarrow> int \<Rightarrow> acct_row \<Rightarrow> acct_row \<Rightarrow> bool" where
  "goes_to d tid a s =
     (s \<in> set (radacct d) \<and> a_stop s = None \<and> a_tenant_id s = tid \<and> a_username s = a_username a \<and>
      (a_acctsessionid a \<noteq> [] \<longrightarrow> a_acctsessionid s = strip (a_acctsessionid a)))"

definition sound_call :: "env \<Rightarrow> db \<Rightarrow> int \<Rightarrow> (string \<Rightarrow> bool) \<Rightarrow> acct_row list \<Rightarrow> int \<times> string \<times> string \<Rightarrow> bool" where
  "sound_call e d tid surplus rows k =
     (\<exists>a \<in> set rows. \<exists>s. (surplus (a_acctsessionid a) \<or> objection e d tid a) \<and> goes_to d tid a s \<and>
        k = (tid, a_username a, a_acctsessionid s))"

lemma sweep_resolve_cong:
  assumes "master d' = master d" "radacct d' = radacct d"
  shows "sweep_resolve e d' tid u = sweep_resolve e d tid u"
proof -
  have "subscribers d' = subscribers d" "plans d' = plans d" "card_batches d' = card_batches d" "cards d' = cards d"
    using assms(1) by (simp_all add: master_def)
  then have b: "get_batch d' t i = get_batch d t i" "get_plan d' t i x = get_plan d t i x" "user_rows d' t u = user_rows d t u"
    "get_subscriber d' t u = get_subscriber d t u" "get_card_by_username d' t u = get_card_by_username d t u" for t i x u
    using assms(2) by (simp_all add: get_batch_def get_plan_def user_rows_def get_subscriber_def get_card_by_username_def)
  have "card_to_subscriber e d' c = card_to_subscriber e d c" for c by (simp only: card_to_subscriber_def b)
  moreover have "sweep_plan e d' tid pid = sweep_plan e d tid pid" for pid by (simp only: sweep_plan_def b)
  ultimately show ?thesis by (simp only: sweep_resolve_def sweep_account_def b)
qed

lemma objection_cong:
  assumes "master d' = master d" "radacct d' = radacct d"
  shows "objection e d' tid a = objection e d tid a"
  unfolding objection_def sweep_resolve_cong [OF assms] assms ..

lemma compliance_objection:
  assumes "fst (check_session_compliance e d tid a) \<noteq> None"
  shows "objection e d tid a"
proof (cases "sweep_resolve e d tid (strip (a_username a))")
  case None
  then show ?thesis using assms by (auto simp: objection_def check_session_compliance_def Let_def)
next
  case (Some x)
  obtain sub plan source where x: "x = (sub, plan, source)" by (cases x)
  let ?cs = "compliance_checks e sub plan (session_request tid a) source"
  have u: "strip (a_username a) \<noteq> []" using assms by (auto simp: check_session_compliance_def Let_def)
  then have "fst (first_violation ?cs d) \<noteq> None" using assms Some x by (simp add: check_session_compliance_def Let_def)
  then obtain lc d0 bad d1 where "lc \<in> set ?cs" "sweep_frame d0 = sweep_frame d" "snd lc d0 = Inr (Some bad, d1)"
    using compliance.first_violation_reason [of ?cs e sub plan "session_request tid a" source d] by auto
  then show ?thesis using u Some x by (auto simp: objection_def sweep_frame_def)
qed

lemma why_reason:
  "fst (why_disconnect e d tid viol a) \<noteq> None \<Longrightarrow> a_acctsessionid a \<in> set viol \<or> objection e d tid a"
  using compliance_objection [of e d tid a] by (auto simp: why_disconnect_def split: if_splits)

lemma pick_goes_to:
  assumes "pick_session e d tid (a_username a) (a_acctsessionid a) = Some s"
  shows "goes_to d tid a s"
proof -
  have "s \<in> set (find_all_nas_for_sessions e d tid (a_username a)) \<and>
      (a_acctsessionid a \<noteq> [] \<longrightarrow> a_acctsessionid s = strip (a_acctsessionid a))"
    using assms by (auto simp: pick_session_def Let_def find_Some_iff split: if_splits list.splits)
  then show ?thesis by (auto simp: goes_to_def find_all_nas_for_sessions_def user_rows_def)
qed

lemma pick_session_cong: "radacct d' = radacct d \<Longrightarrow> pick_session e d' tid u sid = pick_session e d tid u sid"
  by (simp add: pick_session_def find_all_nas_for_sessions_def user_rows_def)

lemma sound_call_cong:
  assumes "master d' = master d" "radacct d' = radacct d"
  shows "sound_call e d' tid surplus rows k = sound_call e d tid surplus rows k"
  unfolding sound_call_def goes_to_def objection_cong [OF assms] assms(2) ..

lemma fold_rows_sound:
  assumes "fold (run_row e tid viol) rows (st, d) = (st', d')" "st_violations st = st_disconnected st + st_failed st"
  shows "st_checked st' = st_checked st + length rows \<and> st_violations st' = st_disconnected st' + st_failed st' \<and>
    st_violations st \<le> st_violations st' \<and> st_violations st' \<le> st_violations st + length rows \<and>
    master d' = master d \<and> radacct d' = radacct d \<and>
    (\<exists>ks. coa_disconnects d' = coa_disconnects d @ ks \<and> length ks \<le> st_violations st' - st_violations st \<and>
      (\<forall>k \<in> set ks. sound_call e d tid (\<lambda>sid. sid \<in> set viol) rows k))"
  using assms
proof (induction rows arbitrary: st d)
  case Nil
  then show ?case by simp
next
  case (Cons a rows)
  obtain st1 d1 where r: "run_row e tid viol a (st, d) = (st1, d1)" by fastforce
  from run_row_sound [OF r Cons.prems(2)] obtain ks where
    k: "st_checked st1 = Suc (st_checked st)" "st_violations st1 = st_disconnected st1 + st_failed st1"
      "master d1 = master d" "radacct d1 = radacct d" "coa_disconnects d1 = coa_disconnects d @ ks"
      "length ks \<le> st_violations st1 - st_violations st" "st_violations st \<le> st_violations st1"
      "st_violations st1 \<le> Suc (st_violations st)"
    and ks: "\<forall>k \<in> set ks. fst (why_disconnect e d tid viol a) \<noteq> None \<and>
       (\<exists>s. pick_session e d tid (a_username a) (a_acctsessionid a) = Some s \<and> k = (tid, a_username a, a_acctsessionid s))"
    by metis
  from Cons.IH [of st1 d1] Cons.prems(1) r k(2) obtain ks' where
    IH: "st_checked st' = st_checked st1 + length rows" "st_violations st' = st_disconnected st' + st_failed st'"
      "st_violations st1 \<le> st_violations st'" "st_violations st' \<le> st_violations st1 + length rows"
      "master d' = master d1" "radacct d' = radacct d1" "coa_disconnects d' = coa_disconnects d1 @ ks'"
      "length ks' \<le> st_violations st' - st_violations st1" "\<forall>k \<in> set ks'. sound_call e d1 tid (\<lambda>sid. sid \<in> set viol) rows k"
    by auto
  have "sound_call e d tid (\<lambda>sid. sid \<in> set viol) (a # rows) k" if "k \<in> set ks" for k
  proof -
    from ks that obtain s where "fst (why_disconnect e d tid viol a) \<noteq> None"
      "pick_session e d tid (a_username a) (a_acctsessionid a) = Some s" "k = (tid, a_username a, a_acctsessionid s)"
      by auto
    then have "a_acctsessionid a \<in> set viol \<or> objection e d tid a" "goes_to d tid a s" "k = (tid, a_username a, a_acctsessionid s)"
      using why_reason pick_goes_to by blast+
    then show ?thesis unfolding sound_call_def by (intro bexI [of _ a] exI [of _ s]) simp_all
  qed
  moreover have "sound_call e d tid (\<lambda>sid. sid \<in> set viol) (a # rows) k" if "k \<in> set ks'" for k
    using IH(9) that unfolding sound_call_cong [OF k(3,4)] unfolding sound_call_def by (meson list.set_intros(2))
  ultimately show ?case using k IH by (auto intro!: exI [of _ "ks @ ks'"])
qed

lemma violations_surplus: "sid \<in> set (device_limit_violations e d tid rows) \<Longrightarrow> surplus_id e d tid rows sid"
  using violation_iff [of e sid d tid rows] by (cases "e_fault e S_sweep_limit") (auto simp: surplus_id_def device_limit_violations_def)


section \<open>Allowed hours\<close>

lemma sweep_reads_coa [simp]:
  "card_to_subscriber e (d\<lparr>coa_disconnects := x\<rparr>) c = card_to_subscriber e d c"
  "get_plan (d\<lparr>coa_disconnects := x\<rparr>) tid pid del = get_plan d tid pid del"
  "get_subscriber (d\<lparr>coa_disconnects := x\<rparr>) tid u = get_subscriber d tid u"
  "get_card_by_username (d\<lparr>coa_disconnects := x\<rparr>) tid u = get_card_by_username d tid u"
  by (simp_all add: card_to_subscriber_def get_batch_def user_rows_def get_plan_def get_subscriber_def get_card_by_username_def Let_def)

lemma sweep_resolve_coa [simp]: "sweep_resolve e (d\<lparr>coa_disconnects := x\<rparr>) tid u = sweep_resolve e d tid u"
proof -
  have "sweep_plan e (d\<lparr>coa_disconnects := x\<rparr>) tid pid = sweep_plan e d tid pid" for pid
    by (simp add: sweep_plan_def cong: if_cong)
  then show ?thesis by (simp add: sweep_resolve_def sweep_account_def Let_def)
qed

definition outside_hours :: "env \<Rightarrow> db \<Rightarrow> int \<Rightarrow> acct_row \<Rightarrow> bool" where
  "outside_hours e d tid a =
     (strip (a_username a) \<noteq> [] \<and>
      (case sweep_resolve e d tid (strip (a_username a)) of
         None \<Rightarrow> False
       | Some (sub, plan, _) \<Rightarrow>
           guarded False (is_out_of_window sub plan (sweep_clock e tid))))"

definition calls_for :: "env \<Rightarrow> db \<Rightarrow> int \<Rightarrow> acct_row \<Rightarrow> (int \<times> string \<times> string) list" where
  "calls_for e d tid a =
     (if e_fault e S_sweep_disconnect then []
      else map (\<lambda>s. (tid, strip (a_username a), a_acctsessionid s))
             (opt_list (pick_session e d tid (strip (a_username a)) (a_acctsessionid a))))"

lemma disconnect_calls:
  "snd (disconnect_live e d tid (strip (a_username a)) (a_acctsessionid a)) = d\<lparr>coa_disconnects := coa_disconnects d @ calls_for e d tid a\<rparr>"
  by (simp add: disconnect_live_def calls_for_def opt_list_def split: option.split)

lemma window_row_inside:
  assumes "\<not> outside_hours e d tid a"
  shows "snd (window_row e tid a (st, d)) = d" "st_violations (fst (window_row e tid a (st, d))) = st_violations st"
  using assms by (cases "sweep_resolve e d tid (strip (a_username a))"; auto simp: window_row_def outside_hours_def Let_def)+

lemma window_row_outside:
  "outside_hours e d tid a \<Longrightarrow> window_row e tid a (st, d) =
     (count_outcome (fst (disconnect_live e d tid (strip (a_username a)) (a_acctsessionid a))) (st\<lparr>st_checked := Suc (st_checked st)\<rparr>),
      d\<lparr>coa_disconnects := coa_disconnects d @ calls_for e d tid a\<rparr>)"
  by (cases "sweep_resolve e d tid (strip (a_username a))")
    (auto simp: window_row_def outside_hours_def Let_def disconnect_calls [symmetric] split: prod.splits)

lemma count_outcome_violations [simp]: "st_violations (count_outcome ok st) = Suc (st_violations st)"
  by (simp add: count_outcome_def Let_def)

lemma window_row_calls:
  assumes "window_row e tid a (st, d) = (st', d')"
  shows "d' = d\<lparr>coa_disconnects := coa_disconnects d @ (if outside_hours e d tid a then calls_for e d tid a else [])\<rparr>"
    "st_violations st' = st_violations st + (if outside_hours e d tid a then 1 else 0)"
proof -
  have "d' = d\<lparr>coa_disconnects := coa_disconnects d @ (if outside_hours e d tid a then calls_for e d tid a else [])\<rparr> \<and>
    st_violations st' = st_violations st + (if outside_hours e d tid a then 1 else 0)"
  proof (cases "outside_hours e d tid a")
    case True
    with assms show ?thesis by (auto simp: window_row_outside)
  next
    case False
    from window_row_inside [OF this, of st] assms False show ?thesis by simp
  qed
  then show "d' = d\<lparr>coa_disconnects := coa_disconnects d @ (if outside_hours e d tid a then calls_for e d tid a else [])\<rparr>"
    "st_violations st' = st_violations st + (if outside_hours e d tid a then 1 else 0)" by simp_all
qed

text \<open>The sweep over allowed hours asks to disconnect, in the order of the table, exactly the live sessions whose
  account is outside its window now, counts them, and touches nothing else.\<close>

theorem window_sweep_exact:
  assumes "enforce_active_session_windows e d (Some tid) = (st, d')"
  shows "let out = filter (outside_hours e d tid) (live_rows e d tid whole_tenant)
    in st_violations st = length out \<and> d' = d\<lparr>coa_disconnects := coa_disconnects d @ concat (map (calls_for e d tid) out)\<rparr>"
proof -
  have same: "outside_hours e (x\<lparr>coa_disconnects := y\<rparr>) tid a = outside_hours e x tid a"
    "calls_for e (x\<lparr>coa_disconnects := y\<rparr>) tid a = calls_for e x tid a" for x y a
    by (simp_all add: outside_hours_def calls_for_def pick_session_cong [of "x\<lparr>coa_disconnects := y\<rparr>" x])
  have "st2 = st2 \<and> st_violations st2 = st_violations st1 + length (filter (outside_hours e x tid) rows) \<and>
      x' = x\<lparr>coa_disconnects := coa_disconnects x @ concat (map (calls_for e x tid) (filter (outside_hours e x tid) rows))\<rparr>"
    if "fold (window_row e tid) rows (st1, x) = (st2, x')" for rows st1 x st2 x'
    using that
  proof (induction rows arbitrary: st1 x)
    case (Cons a rows)
    obtain st3 x3 where r: "window_row e tid a (st1, x) = (st3, x3)" by fastforce
    from Cons.IH [of st3 x3] Cons.prems r have
      "st_violations st2 = st_violations st3 + length (filter (outside_hours e x3 tid) rows)"
      "x' = x3\<lparr>coa_disconnects := coa_disconnects x3 @ concat (map (calls_for e x3 tid) (filter (outside_hours e x3 tid) rows))\<rparr>"
      by simp_all
    with window_row_calls [OF r] show ?case by (simp add: same [abs_def])
  qed simp
  from this [of "live_rows e d tid whole_tenant" no_stats d st d'] assms show ?thesis
    by (simp add: enforce_active_session_windows_def sweep_tenants_def no_stats_def Let_def)
qed

section \<open>Witnesses\<close>

definition card_session :: acct_row where
  "card_session = blank_row\<lparr>a_username := ''c100'', a_callingstationid := r_calling_station_id card_request,
     a_nasipaddress := r_nas_ip card_request\<rparr>"


definition early_env :: env where "early_env = blank_env\<lparr>e_now := seconds 500\<rparr>"

definition one_device_db :: db where
  "one_device_db = two_sessions\<lparr>subscribers := [blank_subscriber\<lparr>s_device_count := 1, s_working_days := ''sun''\<rparr>]\<rparr>"

theorem device_limit_sweep_keeps_witness:
  "mset (filter (\<lambda>a. a_acctsessionid a \<notin> set (device_limit_violations early_env one_device_db 1 (radacct one_device_db)))
     (user_sessions (radacct one_device_db) ''ali'')) = {#blank_row#}"
proof -
  let ?sess = "user_sessions (radacct one_device_db) ''ali''"
  have f: "\<not> e_fault early_env S_sweep_limit" "''ali'' \<noteq> []" by (simp_all add: early_env_def blank_env_def)
  have i: "\<forall>a \<in> set (radacct one_device_db). a_acctsessionid a \<noteq> []" "distinct (map a_acctsessionid (radacct one_device_db))"
    by code_simp+
  let ?sub = "hd (subscribers one_device_db)"
  have s: "sweep_resolve early_env one_device_db 1 ''ali'' = Some (?sub, None, ''subscriber'')" by code_simp
  have l: "fst (effective_limit early_env one_device_db ?sub None) = 1" by code_simp
  have "take 1 (sort_key last_seen_or_min ?sess) = [blank_row]" by code_simp
  with device_limit_sweep_keeps [OF f i s] l show ?thesis by simp
qed


theorem window_sweep_exact_witness:
  "coa_disconnects (snd (enforce_active_session_windows early_env one_device_db (Some 1))) = [(1, ''ali'', ''s1''), (1, ''ali'', ''s2'')]"
proof -
  obtain st d' where r: "enforce_active_session_windows early_env one_device_db (Some 1) = (st, d')" by fastforce
  have "concat (map (calls_for early_env one_device_db 1)
      (filter (outside_hours early_env one_device_db 1) (live_rows early_env one_device_db 1 whole_tenant))) =
    [(1, ''ali'', ''s1''), (1, ''ali'', ''s2'')]" by code_simp
  with window_sweep_exact [OF r] r show ?thesis by (simp add: one_device_db_def two_sessions_def blank_db_def)
qed

text \<open>The collision is real: \<open>zaid\<close>, whose only session shares its identifier with the surplus session of \<open>ali\<close> at
  another router, is disconnected although no check objects to his session.\<close>

definition shared_identifier_db :: db where
  "shared_identifier_db = one_device_db\<lparr>
     subscribers := [blank_subscriber\<lparr>s_device_count := 1\<rparr>, blank_subscriber\<lparr>s_id := Some 8, s_username := ''zaid''\<rparr>],
     radacct := radacct two_sessions @ [blank_row\<lparr>a_radacctid := 3, a_username := ''zaid'', a_acctsessionid := ''s2'',
       a_nasipaddress := ''10.0.0.2''\<rparr>]\<rparr>"

lemma innocent_session_disconnected:
  "check_session_compliance early_env shared_identifier_db 1 (radacct shared_identifier_db ! 2) = (None, shared_identifier_db)"
  "coa_disconnects (snd (run_sweep early_env shared_identifier_db 1 whole_tenant)) = [(1, ''ali'', ''s2''), (1, ''zaid'', ''s2'')]"
  by code_simp+

end
