(* ===== verification/Accounting.thy ===== *)
theory Accounting
  imports PolicyReconciler
begin

text \<open>
  \<open>app/radius/services/accounting_events.py\<close>: accounting events written into the session table. An event names a
  session by tenant, session identifier and router; \<open>Start\<close> opens a row, \<open>Interim-Update\<close> and \<open>Stop\<close> update the open
  one, and both write a row themselves when no start was ever seen; \<open>Accounting-On\<close> and \<open>Off\<close> close what a
  restarted router left open. The counters of an event are absolute. \<open>rebalance_device_split\<close> only pushes rates to
  routers and has no counterpart here; the sweep asked for after an interim runs in a thread of its own.
\<close>

section \<open>Events\<close>

definition STATUS_START :: string where "STATUS_START = ''Start''"
definition STATUS_INTERIM :: string where "STATUS_INTERIM = ''Interim-Update''"
definition STATUS_STOP :: string where "STATUS_STOP = ''Stop''"
definition STATUS_ON :: string where "STATUS_ON = ''Accounting-On''"
definition STATUS_OFF :: string where "STATUS_OFF = ''Accounting-Off''"

lemmas status_defs = STATUS_START_def STATUS_INTERIM_def STATUS_STOP_def STATUS_ON_def STATUS_OFF_def

definition SUPPORTED_STATUS_TYPES :: "string list" where
  "SUPPORTED_STATUS_TYPES = [STATUS_START, STATUS_INTERIM, STATUS_STOP, STATUS_ON, STATUS_OFF]"

type_synonym payload = "string \<rightharpoonup> json"

text \<open>\<open>payload.get(a) or payload.get(b) or ...\<close>, where only a true value matters.\<close>

definition first_truthy :: "payload \<Rightarrow> string list \<Rightarrow> json option" where
  "first_truthy p keys = find json_truthy (List.map_filter p keys)"

definition payload_text :: "env \<Rightarrow> payload \<Rightarrow> string list \<Rightarrow> string" where
  "payload_text e p keys = (case first_truthy p keys of None \<Rightarrow> [] | Some v \<Rightarrow> str_of (e_pystr e) v)"

text \<open>\<open>_int\<close>: 0 for what is absent, false or no integer.\<close>

definition json_int :: "json option \<Rightarrow> int" where
  "json_int v =
     (case v of
        Some (JNum i) \<Rightarrow> i
      | Some (JBool True) \<Rightarrow> 1
      | Some (JStr s) \<Rightarrow> (case parse_int s of None \<Rightarrow> 0 | Some i \<Rightarrow> i)
      | _ \<Rightarrow> 0)"

definition payload_int :: "payload \<Rightarrow> string list \<Rightarrow> int" where
  "payload_int p keys = json_int (first_truthy p keys)"

definition octets :: "payload \<Rightarrow> string \<Rightarrow> string \<Rightarrow> int" where
  "octets p direction cap =
     (let oct = payload_int p [direction @ ''_octets'', ''Acct-'' @ cap @ ''-Octets''];
          giga = payload_int p [direction @ ''_gigawords'', ''Acct-'' @ cap @ ''-Gigawords'']
      in max 0 oct + max 0 giga * 4294967296)"

record acct_event =
  ev_tenant_id :: int
  ev_username :: string
  ev_session_id :: string
  ev_unique_id :: string
  ev_nas_ip :: string
  ev_calling_station_id :: string
  ev_framed_ip :: string
  ev_input_octets :: int
  ev_output_octets :: int
  ev_session_time :: int
  ev_terminate_cause :: string
  ev_status :: string

definition normalize :: "env \<Rightarrow> int \<Rightarrow> payload \<Rightarrow> acct_event res" where
  "normalize e tid p =
     (let txt = payload_text e p;
          status = strip (txt [''status_type'', ''Acct-Status-Type'', ''acct_status_type'']);
          user = strip (txt [''username'', ''User-Name'']);
          sid = strip (txt [''acct_session_id'', ''Acct-Session-Id'']);
          nas = strip (txt [''nas_ip_address'', ''NAS-IP-Address'']);
          unique = txt [''acct_unique_session_id'', ''Acct-Unique-Session-Id'']
      in if status \<notin> set SUPPORTED_STATUS_TYPES then Inl ValueError
         else if status \<in> {STATUS_START, STATUS_INTERIM, STATUS_STOP} \<and> sid = [] then Inl ValueError
         else if nas = [] then Inl ValueError
         else Inr
           \<lparr>ev_tenant_id = tid, ev_username = user, ev_session_id = sid,
            ev_unique_id = strip (or_default unique (nas @ ''-'' @ sid @ ''-'' @ user)), ev_nas_ip = nas,
            ev_calling_station_id = txt [''calling_station_id'', ''Calling-Station-Id''],
            ev_framed_ip = txt [''framed_ip_address'', ''Framed-IP-Address''],
            ev_input_octets = octets p ''input'' ''Input'', ev_output_octets = octets p ''output'' ''Output'',
            ev_session_time = payload_int p [''session_time'', ''Acct-Session-Time''],
            ev_terminate_cause = strip (txt [''terminate_cause'', ''Acct-Terminate-Cause'']), ev_status = status\<rparr>)"

section \<open>The rows of a session\<close>

definition same_session :: "acct_event \<Rightarrow> acct_row \<Rightarrow> bool" where
  "same_session ev a =
     (a_tenant_id a = ev_tenant_id ev \<and> a_acctsessionid a = ev_session_id ev \<and> a_nasipaddress a = ev_nas_ip ev)"

definition open_of :: "acct_event \<Rightarrow> acct_row \<Rightarrow> bool" where
  "open_of ev a = (same_session ev a \<and> a_stop a = None)"

definition newest :: "acct_row list \<Rightarrow> acct_row option" where
  "newest rows = (case rev (sort_key a_radacctid rows) of [] \<Rightarrow> None | a # _ \<Rightarrow> Some a)"

definition open_session :: "db \<Rightarrow> acct_event \<Rightarrow> acct_row option" where
  "open_session d ev = newest (filter (open_of ev) (radacct d))"

definition last_session_row :: "db \<Rightarrow> acct_event \<Rightarrow> acct_row option" where
  "last_session_row d ev = newest (filter (same_session ev) (radacct d))"

definition session_detail :: "db \<Rightarrow> int \<Rightarrow> string \<Rightarrow> acct_row option" where
  "session_detail d tid sid = newest (filter (\<lambda>a. a_tenant_id a = tid \<and> a_acctsessionid a = sid) (radacct d))"

definition next_radacctid :: "db \<Rightarrow> int" where
  "next_radacctid d = next_id (map a_radacctid (radacct d))"

definition event_row :: "db \<Rightarrow> acct_event \<Rightarrow> dt \<Rightarrow> dt \<Rightarrow> dt option \<Rightarrow> string \<Rightarrow> acct_row" where
  "event_row d ev start update stop cause =
     \<lparr>a_radacctid = next_radacctid d, a_tenant_id = ev_tenant_id ev, a_username = ev_username ev,
      a_acctsessionid = ev_session_id ev, a_callingstationid = ev_calling_station_id ev, a_start = Some start,
      a_update = Some update, a_stop = stop, a_sessiontime = ev_session_time ev, a_inputoctets = ev_input_octets ev,
      a_outputoctets = ev_output_octets ev, a_terminatecause = cause, a_nasipaddress = ev_nas_ip ev, a_acctinterval = 0,
      a_framedipaddress = ev_framed_ip ev, a_calledstationid = [], a_acctuniqueid = ev_unique_id ev\<rparr>"

definition insert_row :: "acct_row \<Rightarrow> db \<Rightarrow> db" where
  "insert_row a d = d\<lparr>radacct := radacct d @ [a]\<rparr>"

definition update_open :: "acct_event \<Rightarrow> (acct_row \<Rightarrow> acct_row) \<Rightarrow> db \<Rightarrow> db" where
  "update_open ev f d = d\<lparr>radacct := map (\<lambda>a. if open_of ev a then f a else a) (radacct d)\<rparr>"

section \<open>Start\<close>

text \<open>The newest card of that name that has a plan.\<close>

definition plan_requires_single_session :: "env \<Rightarrow> db \<Rightarrow> int \<Rightarrow> string \<Rightarrow> bool" where
  "plan_requires_single_session e d tid u =
     (if u = [] then False
      else guarded False (at_site e S_shared_flag (Inr
        (let plan_of = (\<lambda>c. case c_plan_id c of None \<Rightarrow> None | Some i \<Rightarrow> find (\<lambda>p. p_id p = i) (plans d));
             cs = filter (\<lambda>c. c_tenant_id c = tid \<and> c_username c = u \<and> plan_of c \<noteq> None) (cards d)
         in case rev (sort_key c_id cs) of [] \<Rightarrow> False | c # _ \<Rightarrow> p_shared_single_session (the (plan_of c))))))"

text \<open>The sessions asked to disconnect; \<open>None\<close> where the card is not shared.\<close>

definition maybe_kick_previous :: "env \<Rightarrow> db \<Rightarrow> acct_event \<Rightarrow> string list option \<times> db" where
  "maybe_kick_previous e d ev =
     (let tid = ev_tenant_id ev; u = ev_username ev in
      if \<not> plan_requires_single_session e d tid u then (None, d)
      else if e_fault e S_shared_kick then (Some [], d)
      else
        let ids = other_sessions (e_nas_reachable e) d tid u (ev_session_id ev)
        in (Some ids, d\<lparr>coa_disconnects := coa_disconnects d @ map (\<lambda>s. (tid, u, s)) ids\<rparr>))"

text \<open>\<open>Raised\<close>: the exception of a statement no handler catches. What was written before it stays written, since every
  statement commits by itself, so the result comes with the database all the same.\<close>

datatype acct_result =
    Idempotent acct_row
  | Started acct_row "string list option"
  | StartedLate acct_row
  | Updated "acct_row option"
  | AlreadyStopped acct_row
  | Stopped "acct_row option"
  | StoppedLate acct_row
  | NasReset nat nat
  | Raised pyerr

text \<open>The rows an answer reads back after its write: a read that fails raises and leaves the write in place.\<close>

definition answered :: "env \<Rightarrow> acct_result \<Rightarrow> db \<Rightarrow> acct_result \<times> db" where
  "answered e r d = (if e_fault e S_acct_reply then Raised DbError else r, d)"

definition acct_start :: "env \<Rightarrow> db \<Rightarrow> acct_event \<Rightarrow> acct_result \<times> db" where
  "acct_start e d ev =
     (if e_fault e S_acct_open then (Raised DbError, d)
      else
        (case open_session d ev of
           Some a \<Rightarrow> (Idempotent a, d)
         | None \<Rightarrow>
             let (kick, d1) = maybe_kick_previous e d ev; row = event_row d1 ev (e_now e) (e_now e) None []
             in if e_fault e S_acct_insert then (Raised DbError, d1) else answered e (Started row kick) (insert_row row d1)))"

section \<open>Interim and stop\<close>

definition note_quota_baseline :: "env \<Rightarrow> db \<Rightarrow> acct_event \<Rightarrow> db" where
  "note_quota_baseline e d ev =
     (if e_fault e S_quota_baseline then d else note_pre_interim e d (ev_tenant_id ev) (open_session d ev))"

definition missing_start :: "env \<Rightarrow> acct_event \<Rightarrow> dt" where
  "missing_start e ev =
     (let start = e_now e - seconds (max 0 (ev_session_time ev)) in if start < DT_MIN then e_now e else start)"

definition insert_missing_start :: "env \<Rightarrow> db \<Rightarrow> acct_event \<Rightarrow> bool \<Rightarrow> acct_row" where
  "insert_missing_start e d ev ended =
     event_row d ev (missing_start e ev) (e_now e) (if ended then Some (e_now e) else None)
       (if ended then or_default (ev_terminate_cause ev) ''User-Request'' else [])"

text \<open>An event of a session without an open row: the row that was closed before, or a new one.\<close>

definition without_open_row :: "env \<Rightarrow> db \<Rightarrow> acct_event \<Rightarrow> bool \<Rightarrow> (acct_row \<Rightarrow> acct_result) \<Rightarrow> acct_result \<times> db" where
  "without_open_row e d ev ended result =
     (if e_fault e S_acct_last then (Raised DbError, d)
      else
        (case last_session_row d ev of
           Some a \<Rightarrow> (AlreadyStopped a, d)
         | None \<Rightarrow>
             let row = insert_missing_start e d ev ended
             in if e_fault e S_acct_insert then (Raised DbError, d) else answered e (result row) (insert_row row d)))"

definition interim_row :: "env \<Rightarrow> acct_event \<Rightarrow> acct_row \<Rightarrow> acct_row" where
  "interim_row e ev a =
     a\<lparr>a_update := Some (e_now e), a_inputoctets := ev_input_octets ev, a_outputoctets := ev_output_octets ev,
       a_sessiontime := ev_session_time ev, a_framedipaddress := or_default (ev_framed_ip ev) (a_framedipaddress a)\<rparr>"

definition acct_interim :: "env \<Rightarrow> db \<Rightarrow> acct_event \<Rightarrow> acct_result \<times> db" where
  "acct_interim e d ev =
     (let d1 = note_quota_baseline e d ev in
      if e_fault e S_acct_update then (Raised DbError, d1)
      else if filter (open_of ev) (radacct d1) = [] then without_open_row e d1 ev False StartedLate
      else
        let d2 = update_open ev (interim_row e ev) d1;
            d3 = (if ev_username ev = [] then d2 else snd (enforce_after_interim e d2 (ev_tenant_id ev) (ev_username ev)))
        in answered e (Updated (open_session d3 ev)) d3)"

definition stop_row :: "env \<Rightarrow> acct_event \<Rightarrow> acct_row \<Rightarrow> acct_row" where
  "stop_row e ev a =
     a\<lparr>a_stop := Some (e_now e), a_update := Some (e_now e), a_inputoctets := ev_input_octets ev,
       a_outputoctets := ev_output_octets ev, a_sessiontime := ev_session_time ev,
       a_terminatecause := or_default (a_terminatecause a) (or_default (ev_terminate_cause ev) ''User-Request'')\<rparr>"

definition acct_stop :: "env \<Rightarrow> db \<Rightarrow> acct_event \<Rightarrow> acct_result \<times> db" where
  "acct_stop e d ev =
     (let d1 = note_quota_baseline e d ev in
      if e_fault e S_acct_update then (Raised DbError, d1)
      else if filter (open_of ev) (radacct d1) = [] then without_open_row e d1 ev True StoppedLate
      else
        let d2 = update_open ev (stop_row e ev) d1;
            d3 = (if e_fault e S_on_disconnect then d2
                  else on_disconnect (e_nas_reachable e) e d2 (ev_tenant_id ev) (ev_username ev)
                         (ev_calling_station_id ev) (ev_session_id ev))
        in answered e (Stopped (session_detail d3 (ev_tenant_id ev) (ev_session_id ev))) d3)"

section \<open>A restarted router\<close>

definition onoff_debounce :: "env \<Rightarrow> int" where
  "onoff_debounce e =
     (let raw = (case e_osenv e ''HOBERADIUS_ACCT_ONOFF_DEBOUNCE_SEC'' of None \<Rightarrow> ''60'' | Some s \<Rightarrow> s)
      in max 0 (case parse_int raw of None \<Rightarrow> 60 | Some n \<Rightarrow> n))"

definition open_at_nas :: "acct_event \<Rightarrow> acct_row \<Rightarrow> bool" where
  "open_at_nas ev a = (a_tenant_id a = ev_tenant_id ev \<and> a_nasipaddress a = ev_nas_ip ev \<and> a_stop a = None)"

text \<open>A comparison with \<open>NULL\<close> selects nothing, so a row without any instant is on neither side.\<close>

definition seen_before :: "dt \<Rightarrow> acct_row \<Rightarrow> bool" where
  "seen_before t a = (case last_seen a of None \<Rightarrow> False | Some x \<Rightarrow> x < t)"

definition seen_since :: "dt \<Rightarrow> acct_row \<Rightarrow> bool" where
  "seen_since t a = (case last_seen a of None \<Rightarrow> False | Some x \<Rightarrow> t \<le> x)"

definition reset_rows :: "env \<Rightarrow> acct_event \<Rightarrow> (acct_row \<Rightarrow> bool) \<Rightarrow> db \<Rightarrow> nat \<times> db" where
  "reset_rows e ev P d =
     (length (filter (\<lambda>a. open_at_nas ev a \<and> P a) (radacct d)),
      d\<lparr>radacct := map (\<lambda>a. if open_at_nas ev a \<and> P a
          then a\<lparr>a_stop := Some (e_now e), a_terminatecause := ev_status ev\<rparr> else a) (radacct d)\<rparr>)"

definition accounting_on_off :: "env \<Rightarrow> db \<Rightarrow> acct_event \<Rightarrow> acct_result \<times> db" where
  "accounting_on_off e d ev =
     (let debounce = onoff_debounce e in
      if e_fault e S_acct_reset then (Raised DbError, d)
      else if debounce \<le> 0 then (let (n_closed, d1) = reset_rows e ev (\<lambda>_. True) d in (NasReset n_closed 0, d1))
      else
        let cutoff = e_now e - seconds debounce;
            preserved = length (filter (\<lambda>a. open_at_nas ev a \<and> seen_since cutoff a) (radacct d));
            (n_closed, d1) = reset_rows e ev (seen_before cutoff) d
        in (NasReset n_closed preserved, d1))"

section \<open>Ingestion\<close>

definition handle_event :: "env \<Rightarrow> db \<Rightarrow> acct_event \<Rightarrow> (acct_result \<times> db) res" where
  "handle_event e d ev =
     (if ev_status ev = STATUS_START then Inr (acct_start e d ev)
      else if ev_status ev = STATUS_INTERIM then Inr (acct_interim e d ev)
      else if ev_status ev = STATUS_STOP then Inr (acct_stop e d ev)
      else if ev_status ev \<in> {STATUS_ON, STATUS_OFF} then Inr (accounting_on_off e d ev)
      else Inl ValueError)"

definition ingest :: "env \<Rightarrow> db \<Rightarrow> int \<Rightarrow> payload \<Rightarrow> (acct_result \<times> db) res" where
  "ingest e d tid p = res_bind (normalize e tid p) (handle_event e d)"

definition mark_stale :: "env \<Rightarrow> db \<Rightarrow> int \<Rightarrow> int \<Rightarrow> nat \<times> db" where
  "mark_stale e d tid older_than =
     (let cutoff = e_now e - seconds (max 60 (or_int older_than 3600));
          hit = (\<lambda>a. a_tenant_id a = tid \<and> a_stop a = None \<and> seen_before cutoff a)
      in (length (filter hit (radacct d)),
          d\<lparr>radacct := map (\<lambda>a. if hit a
              then a\<lparr>a_stop := opt_or (last_seen a) (Some (e_now e)), a_terminatecause := CAUSE_INTERIM\<rparr> else a) (radacct d)\<rparr>))"

end
