(* ===== verification/AccountingProperties.thy ===== *)
theory AccountingProperties
  imports Accounting LoginProperties "HOL-Library.Word"
begin

text \<open>
  What the accounting events guarantee: the rows of one session follow an automaton of their own whatever the other
  sessions do, a session is charged exactly once, and a restarted router loses only what went silent.
\<close>

section \<open>What the events leave alone\<close>

lemma sweep_frame_note [simp]: "sweep_frame (note_quota_baseline e d ev) = sweep_frame d"
  by (auto simp: note_quota_baseline_def note_pre_interim_def Let_def split: option.split)

lemma sweep_frame_enforce [simp]: "sweep_frame (snd (enforce_after_interim e d tid u)) = sweep_frame d"
  unfolding enforce_after_interim_def quota_violator_def
  by (auto simp: case_prod_unfold Let_def split: option.split)

lemma radacct_of_frame: "sweep_frame d' = sweep_frame d \<Longrightarrow> radacct d' = radacct d"
  by (simp add: sweep_frame_def)

lemmas radacct_note [simp] = radacct_of_frame [OF sweep_frame_note]
lemmas radacct_enforce [simp] = radacct_of_frame [OF sweep_frame_enforce]

lemma radacct_on_disconnect [simp]: "radacct (on_disconnect r e d tid u mac sid) = radacct d"
  by (auto simp: on_disconnect_def bind_on_flag_def bind_card_to_mac_def replace_user_check_def set_card_locked_mac_def
      Let_def split: prod.split option.split)

lemma radacct_kick [simp]: "radacct (snd (maybe_kick_previous e d ev)) = radacct d"
  by (simp add: maybe_kick_previous_def Let_def)

section \<open>The automaton of one session\<close>

type_synonym session_key = "int \<times> string \<times> string"
type_synonym reading = "bool \<times> int \<times> int \<times> int"

definition row_key :: "acct_row \<Rightarrow> session_key" where
  "row_key a = (a_tenant_id a, a_acctsessionid a, a_nasipaddress a)"

definition ev_key :: "acct_event \<Rightarrow> session_key" where
  "ev_key ev = (ev_tenant_id ev, ev_session_id ev, ev_nas_ip ev)"

text \<open>What a row says of its session: whether it is open, and its counters.\<close>

definition row_view :: "acct_row \<Rightarrow> reading" where
  "row_view a = (a_stop a = None, a_inputoctets a, a_outputoctets a, a_sessiontime a)"

definition ev_view :: "bool \<Rightarrow> acct_event \<Rightarrow> reading" where
  "ev_view up ev = (up, ev_input_octets ev, ev_output_octets ev, ev_session_time ev)"

definition session_of :: "db \<Rightarrow> session_key \<Rightarrow> reading list" where
  "session_of d k = map row_view (filter (\<lambda>a. row_key a = k) (radacct d))"

definition any_open :: "reading list \<Rightarrow> bool" where "any_open vs = (\<exists>v \<in> set vs. fst v)"

definition track_reading :: "bool \<Rightarrow> acct_event \<Rightarrow> reading list \<Rightarrow> reading list" where
  "track_reading up ev vs =
     (if any_open vs then map (\<lambda>v. if fst v then ev_view up ev else v) vs else if vs = [] then [ev_view up ev] else vs)"

definition track :: "acct_event \<Rightarrow> reading list \<Rightarrow> reading list" where
  "track ev vs =
     (if ev_status ev = STATUS_START then (if any_open vs then vs else vs @ [ev_view True ev])
      else if ev_status ev = STATUS_INTERIM then track_reading True ev vs
      else if ev_status ev = STATUS_STOP then track_reading False ev vs
      else vs)"

definition session_event :: "acct_event \<Rightarrow> bool" where
  "session_event ev = (ev_status ev \<in> {STATUS_START, STATUS_INTERIM, STATUS_STOP})"

lemma same_session_key: "same_session ev a \<longleftrightarrow> row_key a = ev_key ev"
  by (auto simp: same_session_def row_key_def ev_key_def)

lemma open_of_key: "open_of ev a \<longleftrightarrow> row_key a = ev_key ev \<and> a_stop a = None"
  by (simp add: open_of_def same_session_key)

lemma any_open_session: "any_open (session_of d (ev_key ev)) \<longleftrightarrow> filter (open_of ev) (radacct d) \<noteq> []"
  by (auto simp: any_open_def session_of_def row_view_def open_of_key filter_empty_conv)

lemma newest_None: "newest rows = None \<longleftrightarrow> rows = []"
proof -
  have "(rev (sort_key a_radacctid rows) = []) = (rows = [])" by (metis length_0_conv length_rev length_sort)
  then show ?thesis by (auto simp: newest_def split: list.split)
qed

lemma open_session_None: "open_session d ev = None \<longleftrightarrow> \<not> any_open (session_of d (ev_key ev))"
  by (simp add: open_session_def newest_None any_open_session)

lemma last_session_None: "last_session_row d ev = None \<longleftrightarrow> session_of d (ev_key ev) = []"
  by (simp add: last_session_row_def newest_None session_of_def same_session_key [abs_def])

lemma session_of_insert:
  "session_of (insert_row a d) k = session_of d k @ (if row_key a = k then [row_view a] else [])"
  by (simp add: session_of_def insert_row_def)

lemma fst_row_view [simp]: "fst (row_view a) \<longleftrightarrow> a_stop a = None"
  by (simp add: row_view_def)

lemma session_of_update:
  assumes "\<And>a. row_key (f a) = row_key a" "\<And>a. a_stop a = None \<Longrightarrow> row_view (f a) = v"
  shows "session_of (update_open ev f d) k =
    (if k = ev_key ev then map (\<lambda>w. if fst w then v else w) (session_of d k) else session_of d k)"
proof -
  let ?g = "\<lambda>a. if open_of ev a then f a else a"
  have "filter (\<lambda>a. row_key a = k) (map ?g (radacct d)) = map ?g (filter (\<lambda>a. row_key a = k) (radacct d))"
    by (rule filter_map_preserving) (simp add: assms(1))
  then show ?thesis
    by (auto simp: session_of_def update_open_def open_of_key assms(2) intro!: map_cong)
qed

lemma event_row_key [simp]: "row_key (event_row d ev s u t c) = ev_key ev"
  by (simp add: row_key_def ev_key_def event_row_def)

lemma event_row_view [simp]: "row_view (event_row d ev s u t c) = ev_view (t = None) ev"
  by (simp add: row_view_def ev_view_def event_row_def)

lemma reading_rows:
  "row_key (interim_row e ev a) = row_key a" "row_key (stop_row e ev a) = row_key a"
  "a_stop a = None \<Longrightarrow> row_view (interim_row e ev a) = ev_view True ev" "row_view (stop_row e ev a) = ev_view False ev"
  by (simp_all add: row_key_def row_view_def ev_view_def interim_row_def stop_row_def)

lemma session_of_cong: "radacct d' = radacct d \<Longrightarrow> session_of d' k = session_of d k"
  by (simp add: session_of_def)

text \<open>An event that a failing statement keeps from the table: a start whose lookup or insertion fails, a reading whose
  update fails, or one without an open row whose lookup or insertion fails.\<close>

definition lost :: "env \<Rightarrow> acct_event \<Rightarrow> reading list \<Rightarrow> bool" where
  "lost e ev vs =
     (if ev_status ev = STATUS_START then e_fault e S_acct_open \<or> (\<not> any_open vs \<and> e_fault e S_acct_insert)
      else e_fault e S_acct_update \<or>
        (\<not> any_open vs \<and> (e_fault e S_acct_last \<or> (vs = [] \<and> e_fault e S_acct_insert))))"

definition track_event :: "reading list \<Rightarrow> env \<times> acct_event \<Rightarrow> reading list" where
  "track_event vs x = (if lost (fst x) (snd x) vs then vs else track (snd x) vs)"

lemma answered_db [simp]: "snd (answered e r d) = d"
  by (simp add: answered_def)

lemma snd_if: "snd (if b then p else q) = (if b then snd p else snd q)" by simp

lemma session_without_open:
  assumes "\<not> any_open (session_of d (ev_key ev))"
  shows "session_of (snd (without_open_row e d ev ended result)) k =
    (if k = ev_key ev \<and> session_of d k = [] \<and> \<not> e_fault e S_acct_last \<and> \<not> e_fault e S_acct_insert
     then [ev_view (\<not> ended) ev] else session_of d k)"
proof (cases "last_session_row d ev")
  case None
  then have "session_of d (ev_key ev) = []" by (simp add: last_session_None)
  with None show ?thesis by (auto simp: without_open_row_def Let_def session_of_insert insert_missing_start_def snd_if)
next
  case (Some a)
  then have "session_of d (ev_key ev) \<noteq> []" using last_session_None [of d ev] by simp
  with Some show ?thesis by (auto simp: without_open_row_def)
qed

lemma acct_start_track:
  assumes "ev_status ev = STATUS_START"
  shows "session_of (snd (acct_start e d ev)) k = (if k = ev_key ev then track_event (session_of d k) (e, ev) else session_of d k)"
proof -
  obtain kick d1 where kd: "maybe_kick_previous e d ev = (kick, d1)" by fastforce
  then have "radacct d1 = radacct d" by (metis radacct_kick snd_conv)
  then have d1: "session_of d1 = session_of d" by (simp add: session_of_def fun_eq_iff)
  show ?thesis
  proof (cases "open_session d ev")
    case None
    then have "\<not> any_open (session_of d (ev_key ev))" by (simp add: open_session_None)
    with assms kd None show ?thesis
      by (auto simp: acct_start_def track_event_def lost_def track_def session_of_insert d1 Let_def snd_if)
  next
    case (Some a)
    then have "any_open (session_of d (ev_key ev))" by (metis open_session_None option.distinct(1))
    with assms Some show ?thesis by (auto simp: acct_start_def track_event_def lost_def track_def)
  qed
qed

text \<open>A reading, whether an interim or a stop: \<open>f\<close> is its update and \<open>h\<close> what follows the update.\<close>

lemma reading_track:
  assumes "ev_status ev \<noteq> STATUS_START" "\<And>vs. track ev vs = track_reading up ev vs"
    and f: "\<And>a. row_key (f a) = row_key a" "\<And>a. a_stop a = None \<Longrightarrow> row_view (f a) = ev_view up ev"
    and h: "radacct (h (update_open ev f (note_quota_baseline e d ev))) = radacct (update_open ev f (note_quota_baseline e d ev))"
    and d': "d' = (let d1 = note_quota_baseline e d ev in
      if e_fault e S_acct_update then d1
      else if filter (open_of ev) (radacct d1) = [] then snd (without_open_row e d1 ev (\<not> up) res)
      else h (update_open ev f d1))"
  shows "session_of d' k = (if k = ev_key ev then track_event (session_of d k) (e, ev) else session_of d k)"
proof -
  let ?d1 = "note_quota_baseline e d ev"
  let ?vs = "session_of d (ev_key ev)"
  have d1: "session_of ?d1 = session_of d" by (simp add: session_of_def fun_eq_iff)
  have up1: "filter (open_of ev) (radacct d) = [] \<longleftrightarrow> \<not> any_open ?vs" by (simp add: any_open_session)
  consider (fault) "e_fault e S_acct_update" | (running) "\<not> e_fault e S_acct_update" "any_open ?vs"
    | (none) "\<not> e_fault e S_acct_update" "\<not> any_open ?vs" by blast
  then show ?thesis
  proof cases
    case fault
    then show ?thesis using assms(1) by (simp add: d' Let_def d1 track_event_def lost_def)
  next
    case running
    then have "session_of d' k = session_of (update_open ev f ?d1) k"
      using h by (intro session_of_cong) (simp add: d' Let_def up1)
    also have "\<dots> = (if k = ev_key ev then map (\<lambda>w. if fst w then ev_view up ev else w) (session_of d k) else session_of d k)"
      by (subst session_of_update [where v = "ev_view up ev"]) (simp_all add: f d1)
    finally show ?thesis using running assms(1,2) by (simp add: track_event_def lost_def track_reading_def)
  next
    case none
    then have d'_eq: "session_of d' k = session_of (snd (without_open_row e ?d1 ev (\<not> up) res)) k" by (simp add: d' Let_def up1)
    have "\<not> any_open (session_of ?d1 (ev_key ev))" using none by (simp add: d1)
    from session_without_open [OF this, of e "\<not> up" res k]
    have eq: "session_of d' k = (if k = ev_key ev \<and> session_of d k = [] \<and> \<not> e_fault e S_acct_last \<and> \<not> e_fault e S_acct_insert
        then [ev_view up ev] else session_of d k)"
      unfolding d'_eq d1 not_not .
    show ?thesis unfolding eq using none assms(1,2) by (cases "k = ev_key ev") (auto simp: track_event_def lost_def track_reading_def)
  qed
qed

lemma acct_interim_track:
  assumes "ev_status ev = STATUS_INTERIM"
  shows "session_of (snd (acct_interim e d ev)) k = (if k = ev_key ev then track_event (session_of d k) (e, ev) else session_of d k)"
proof (rule reading_track [where up = True and f = "interim_row e ev" and res = StartedLate and h =
    "\<lambda>d2. if ev_username ev = [] then d2 else snd (enforce_after_interim e d2 (ev_tenant_id ev) (ev_username ev))"])
  show "track ev vs = track_reading True ev vs" for vs using assms by (simp add: track_def status_defs)
qed (use assms in \<open>simp_all add: reading_rows status_defs acct_interim_def Let_def snd_if\<close>)

lemma acct_stop_track:
  assumes "ev_status ev = STATUS_STOP"
  shows "session_of (snd (acct_stop e d ev)) k = (if k = ev_key ev then track_event (session_of d k) (e, ev) else session_of d k)"
proof (rule reading_track [where up = False and f = "stop_row e ev" and res = StoppedLate and h =
    "\<lambda>d2. if e_fault e S_on_disconnect then d2 else on_disconnect (e_nas_reachable e) e d2 (ev_tenant_id ev) (ev_username ev)
       (ev_calling_station_id ev) (ev_session_id ev)"])
  show "track ev vs = track_reading False ev vs" for vs using assms by (simp add: track_def status_defs)
qed (use assms in \<open>simp_all add: reading_rows status_defs acct_stop_def Let_def snd_if\<close>)

text \<open>One event: its own session makes the step of the automaton, every other session stays as it is.\<close>

lemma handle_event_track:
  assumes "handle_event e d ev = Inr (r, d')" "session_event ev"
  shows "session_of d' k = (if k = ev_key ev then track_event (session_of d k) (e, ev) else session_of d k)"
proof -
  consider (start) "ev_status ev = STATUS_START" | (interim) "ev_status ev = STATUS_INTERIM" | (stop) "ev_status ev = STATUS_STOP"
    using assms(2) by (auto simp: session_event_def)
  then show ?thesis
  proof cases
    case start
    then have "acct_start e d ev = (r, d')" using assms(1) by (simp add: handle_event_def)
    then show ?thesis using acct_start_track [OF start, of e d k] by simp
  next
    case interim
    then have "acct_interim e d ev = (r, d')" using assms(1) by (simp add: handle_event_def status_defs)
    then show ?thesis using acct_interim_track [OF interim, of e d k] by simp
  next
    case stop
    then have "acct_stop e d ev = (r, d')" using assms(1) by (simp add: handle_event_def status_defs)
    then show ?thesis using acct_stop_track [OF stop, of e d k] by simp
  qed
qed

section \<open>Streams of events\<close>

text \<open>The events of all sessions in the order they arrive, each with the surroundings of its moment.\<close>

definition acct_step :: "db \<Rightarrow> env \<times> acct_event \<Rightarrow> db" where
  "acct_step d x = (case handle_event (fst x) d (snd x) of Inl _ \<Rightarrow> d | Inr (_, d') \<Rightarrow> d')"

definition acct_run :: "db \<Rightarrow> (env \<times> acct_event) list \<Rightarrow> db" where
  "acct_run d xs = foldl acct_step d xs"

definition own_events :: "session_key \<Rightarrow> (env \<times> acct_event) list \<Rightarrow> (env \<times> acct_event) list" where
  "own_events k xs = filter (\<lambda>x. ev_key (snd x) = k) xs"

lemma handle_event_total: "session_event ev \<Longrightarrow> \<exists>r d'. handle_event e d ev = Inr (r, d')"
  by (auto simp: handle_event_def session_event_def status_defs)

lemma acct_step_track:
  assumes "session_event (snd x)"
  shows "session_of (acct_step d x) k = (if k = ev_key (snd x) then track_event (session_of d k) x else session_of d k)"
proof -
  obtain r d' where h: "handle_event (fst x) d (snd x) = Inr (r, d')" using handle_event_total [OF assms] by blast
  then show ?thesis using handle_event_track [OF h assms] by (simp add: acct_step_def)
qed

lemma stream_refines:
  assumes "\<forall>x \<in> set xs. session_event (snd x)"
  shows "session_of (acct_run d xs) k = foldl track_event (session_of d k) (own_events k xs)"
  using assms
proof (induction xs rule: rev_induct)
  case Nil
  then show ?case by (simp add: acct_run_def own_events_def)
next
  case (snoc x xs)
  then have IH: "session_of (acct_run d xs) k = foldl track_event (session_of d k) (own_events k xs)"
    and x: "session_event (snd x)" by simp_all
  have "session_of (acct_run d (xs @ [x])) k =
      (if k = ev_key (snd x) then track_event (session_of (acct_run d xs) k) x else session_of (acct_run d xs) k)"
    by (simp add: acct_run_def acct_step_track [OF x])
  then show ?case unfolding IH by (auto simp: own_events_def)
qed

text \<open>C1. The accounting of many sessions refines one automaton per session: under any interleaving of starts, interims
  and stops of all sessions, with every statement failing wherever it may, the rows of a session are those its own
  events give, taken alone and in their order; an event whose own statement fails (\<open>lost\<close>: the lookup or the insertion
  of a start, the update of a reading, the lookup or the insertion that replaces a missing start) changes nothing.\<close>

theorem accounting_refines:
  assumes "\<forall>x \<in> set xs. session_event (snd x)"
  shows "session_of (acct_run d xs) k = foldl track_event (session_of d k) (own_events k xs)"
  using assms by (rule stream_refines)

text \<open>No event is lost silently: the call raises, so the router repeats the event.\<close>

lemma lost_raises:
  assumes "handle_event e d ev = Inr (r, d')" "session_event ev" "lost e ev (session_of d (ev_key ev))"
  shows "\<exists>x. r = Raised x"
proof -
  let ?vs = "session_of d (ev_key ev)" and ?d1 = "note_quota_baseline e d ev"
  have "session_of ?d1 (ev_key ev) = ?vs" by (simp add: session_of_def)
  then have last: "last_session_row ?d1 ev = None \<longleftrightarrow> ?vs = []" by (simp add: last_session_None)
  have last': "?vs = [] \<Longrightarrow> last_session_row ?d1 ev = None" using last by blast
  have up: "filter (open_of ev) (radacct d) = [] \<longleftrightarrow> \<not> any_open ?vs" by (simp add: any_open_session)
  have open': "\<not> any_open ?vs \<Longrightarrow> open_session d ev = None" by (simp add: open_session_None)
  from assms show ?thesis
    by (auto simp: handle_event_def lost_def session_event_def status_defs acct_start_def acct_interim_def acct_stop_def
        without_open_row_def Let_def up last' open' split: if_splits prod.splits option.splits)
qed

section \<open>Charged once\<close>

definition single :: "bool \<Rightarrow> reading list \<Rightarrow> bool" where
  "single up vs = (\<exists>c. vs = [(up, c)])"

lemma track_before:
  assumes "session_event (snd x)" "ev_status (snd x) \<noteq> STATUS_STOP" "vs = [] \<or> single True vs"
  shows "track_event vs x = [] \<or> single True (track_event vs x)"
  using assms by (auto simp: track_event_def track_def track_reading_def single_def any_open_def ev_view_def session_event_def)

lemma track_late:
  assumes "session_event (snd x)" "ev_status (snd x) \<noteq> STATUS_START"
  shows "track_event [(False, c)] x = [(False, c)]"
  using assms by (auto simp: track_event_def track_def track_reading_def any_open_def)

text \<open>The statements a stop may need.\<close>

definition stop_written :: "env \<Rightarrow> bool" where
  "stop_written e = (\<not> e_fault e S_acct_update \<and> \<not> e_fault e S_acct_last \<and> \<not> e_fault e S_acct_insert)"

lemma track_stop:
  assumes "ev_status (snd x) = STATUS_STOP" "vs = [] \<or> single True vs" "stop_written (fst x)"
  shows "track_event vs x = [ev_view False (snd x)]"
  using assms
  by (auto simp: track_event_def lost_def stop_written_def track_def track_reading_def single_def any_open_def status_defs)

text \<open>C39. A session without a row before is charged exactly once: if its events are any starts and interims (none at all when the start was
  lost), then a stop that is written, then late or repeated interims and stops, it has one closed row with the counters
  of that stop, whatever else is accounted in between and whichever statements of the other events fail.\<close>

theorem session_charged_once:
  assumes "\<forall>x \<in> set xs. session_event (snd x)" "session_of d k = []"
    and "own_events k xs = before @ (e, stop) # late"
    and "\<forall>x \<in> set before. ev_status (snd x) \<noteq> STATUS_STOP" "ev_status stop = STATUS_STOP" "stop_written e"
    and "\<forall>x \<in> set late. ev_status (snd x) \<noteq> STATUS_START"
  shows "session_of (acct_run d xs) k = [(False, ev_input_octets stop, ev_output_octets stop, ev_session_time stop)]"
proof -
  have own: "session_event (snd x)" if "x \<in> set (before @ (e, stop) # late)" for x
    using that assms(1) unfolding assms(3) [symmetric] by (auto simp: own_events_def)
  then have own_late: "\<forall>x \<in> set late. session_event (snd x)" by simp
  have "foldl track_event [] before = [] \<or> single True (foldl track_event [] before)"
    using own assms(4)
  proof (induction before rule: rev_induct)
    case (snoc x evs)
    then show ?case using track_before [of x] by simp
  qed simp
  then have "foldl track_event [] (before @ [(e, stop)]) = [ev_view False stop]"
    using track_stop [of "(e, stop)"] assms(5,6) by simp
  moreover have "foldl track_event [ev_view False stop] late = [ev_view False stop]"
    using own_late assms(7)
  proof (induction late)
    case (Cons x evs)
    then show ?case using track_late [of x] by (simp add: ev_view_def)
  qed simp
  ultimately have "foldl track_event [] (before @ (e, stop) # late) = [ev_view False stop]"
    by (metis append.assoc append_Cons append_Nil foldl_append)
  then show ?thesis using stream_refines [OF assms(1), of d k] by (simp add: assms(2,3) ev_view_def)
qed

text \<open>A start delivered again after the stop opens a second row for the same session, which only the sweep over
  silent sessions will close.\<close>

lemma late_start_reopens:
  assumes "ev_status start = STATUS_START"
  shows "track start [(False, c)] = [(False, c), ev_view True start]"
  using assms by (simp add: track_def any_open_def)

section \<open>A restarted router\<close>

definition reset_hit :: "env \<Rightarrow> acct_event \<Rightarrow> acct_row \<Rightarrow> bool" where
  "reset_hit e ev a =
     (open_at_nas ev a \<and> (onoff_debounce e \<le> 0 \<or> seen_before (e_now e - seconds (onoff_debounce e)) a))"

lemma on_off_reset:
  "\<not> e_fault e S_acct_reset \<Longrightarrow> accounting_on_off e d ev =
     (NasReset (length (filter (reset_hit e ev) (radacct d)))
        (if onoff_debounce e \<le> 0 then 0
         else length (filter (\<lambda>a. open_at_nas ev a \<and> seen_since (e_now e - seconds (onoff_debounce e)) a) (radacct d))),
      d\<lparr>radacct := map (\<lambda>a. if reset_hit e ev a then a\<lparr>a_stop := Some (e_now e), a_terminatecause := ev_status ev\<rparr> else a)
          (radacct d)\<rparr>)"
  by (simp add: accounting_on_off_def reset_rows_def reset_hit_def [abs_def] Let_def)

text \<open>A router that announces a restart, where the statement does not fail, loses exactly its open sessions that showed no sign of life within the
  debounce window (all of them when the window is 0): they are closed now with the announcement as their cause. Sessions
  of other routers and of this one that just started are untouched, the answer counts the closed and the preserved
  sessions of the router, which are all its open sessions that carry an instant, and repeating the announcement at once
  closes nothing more.\<close>

theorem restart_closes_silent:
  assumes "accounting_on_off e d ev = (r, d')" "\<not> e_fault e S_acct_reset"
  shows "list_all2 (\<lambda>a a'. if reset_hit e ev a
      then a' = a\<lparr>a_stop := Some (e_now e), a_terminatecause := ev_status ev\<rparr> else a' = a) (radacct d) (radacct d') \<and>
    (\<exists>n p. r = NasReset n p \<and> n = length (filter (reset_hit e ev) (radacct d)) \<and>
      (0 < onoff_debounce e \<longrightarrow>
         n + p = length (filter (\<lambda>a. open_at_nas ev a \<and> last_seen a \<noteq> None) (radacct d))) \<and>
      (\<exists>q. accounting_on_off e d' ev = (NasReset 0 q, d')))"
proof -
  let ?f = "\<lambda>a. if reset_hit e ev a then a\<lparr>a_stop := Some (e_now e), a_terminatecause := ev_status ev\<rparr> else a"
  let ?cut = "e_now e - seconds (onoff_debounce e)"
  have d': "d' = d\<lparr>radacct := map ?f (radacct d)\<rparr>" using assms by (simp add: on_off_reset)
  have none: "\<not> reset_hit e ev (a\<lparr>a_stop := Some u, a_terminatecause := c\<rparr>)" for a u c by (simp add: reset_hit_def open_at_nas_def)
  then have "filter (reset_hit e ev) (radacct d') = []" "map ?f (radacct d') = radacct d'"
    by (auto simp: d' filter_empty_conv)
  then have again: "\<exists>q. accounting_on_off e d' ev = (NasReset 0 q, d')" by (simp add: on_off_reset [OF assms(2), of d'])
  have split: "length (filter (reset_hit e ev) (radacct d)) + length (filter (\<lambda>a. open_at_nas ev a \<and> seen_since ?cut a) (radacct d)) =
      length (filter (\<lambda>a. open_at_nas ev a \<and> last_seen a \<noteq> None) (radacct d))" if "0 < onoff_debounce e"
  proof -
    let ?Q = "\<lambda>a. open_at_nas ev a \<and> last_seen a \<noteq> None"
    have "filter (reset_hit e ev) (radacct d) = filter (seen_before ?cut) (filter ?Q (radacct d))"
      "filter (\<lambda>a. open_at_nas ev a \<and> seen_since ?cut a) (radacct d) = filter (\<lambda>a. \<not> seen_before ?cut a) (filter ?Q (radacct d))"
      using that by (auto simp: reset_hit_def seen_before_def seen_since_def intro!: filter_cong split: option.splits)
    then show ?thesis by (simp only: length_filter_partition)
  qed
  show ?thesis using assms again split by (auto simp: on_off_reset d' list_all2_conv_all_nth)
qed

section \<open>Counters of 64 bits\<close>

text \<open>The payload of a router: the low 32 bits of the counter, and the number of wraps where there was one.\<close>

definition counter_payload :: "64 word \<Rightarrow> payload" where
  "counter_payload w =
     [''Acct-Input-Octets'' \<mapsto> JNum (uint w mod 2 ^ 32), ''Acct-Input-Gigawords'' \<mapsto> JNum (uint w div 2 ^ 32)]"

text \<open>The octets of an event are the router's 64-bit counter: splitting it into octets and gigawords and reading
  them back loses nothing.\<close>

theorem octets_roundtrip: "octets (counter_payload w) ''input'' ''Input'' = uint w"
proof -
  have lookup: "counter_payload w ''input_octets'' = None" "counter_payload w ''input_gigawords'' = None"
    "counter_payload w ''Acct-Input-Octets'' = Some (JNum (uint w mod 2 ^ 32))"
    "counter_payload w ''Acct-Input-Gigawords'' = Some (JNum (uint w div 2 ^ 32))"
    by (simp_all add: counter_payload_def)
  have two: "first_truthy p [k1, k2] = (if json_truthy v then Some v else None)" if "p k1 = None" "p k2 = Some v" for p k1 k2 v
    using that by (simp add: first_truthy_def List.map_filter_simps)
  have "payload_int (counter_payload w) [''input_octets'', ''Acct-Input-Octets''] = uint w mod 2 ^ 32"
    "payload_int (counter_payload w) [''input_gigawords'', ''Acct-Input-Gigawords''] = uint w div 2 ^ 32"
    by (simp_all add: payload_int_def two [OF lookup(1,3)] two [OF lookup(2,4)] json_int_def)
  moreover have "0 \<le> uint w mod 2 ^ 32" "0 \<le> uint w div 2 ^ 32" by (simp_all add: pos_imp_zdiv_nonneg_iff)
  ultimately show ?thesis by (simp add: octets_def)
qed

section \<open>Witnesses\<close>

definition event_at :: "string \<Rightarrow> string \<Rightarrow> int \<Rightarrow> acct_event" where
  "event_at status sid n =
     \<lparr>ev_tenant_id = 1, ev_username = ''c100'', ev_session_id = sid, ev_unique_id = sid, ev_nas_ip = ''10.0.0.1'',
      ev_calling_station_id = ''AA:BB'', ev_framed_ip = [], ev_input_octets = n, ev_output_octets = 2 * n,
      ev_session_time = 60, ev_terminate_cause = [], ev_status = status\<rparr>"

definition two_streams :: "(env \<times> acct_event) list" where
  "two_streams = map (Pair blank_env)
     [event_at STATUS_INTERIM ''s1'' 5, event_at STATUS_START ''s2'' 0, event_at STATUS_STOP ''s1'' 9,
      event_at STATUS_INTERIM ''s2'' 70, event_at STATUS_INTERIM ''s1'' 7, event_at STATUS_STOP ''s1'' 9]"

lemma two_streams_events: "\<forall>x \<in> set two_streams. session_event (snd x)"
  by (simp add: two_streams_def session_event_def event_at_def)

text \<open>The first reading of the second session fails to be written, and is made good by the next one.\<close>

definition failing_env :: env where "failing_env = blank_env\<lparr>e_fault := (\<lambda>s. s = S_acct_update)\<rparr>"

theorem accounting_refines_witness:
  "session_of (acct_run card_db ((failing_env, event_at STATUS_INTERIM ''s2'' 40) # two_streams)) (1, ''s2'', ''10.0.0.1'') =
    [(True, 70, 140, 60)]"
proof -
  let ?k = "(1, ''s2'', ''10.0.0.1'')" and ?xs = "(failing_env, event_at STATUS_INTERIM ''s2'' 40) # two_streams"
  have "foldl track_event (session_of card_db ?k) (own_events ?k ?xs) = [(True, 70, 140, 60)]" by code_simp
  moreover have "\<forall>x \<in> set ?xs. session_event (snd x)" using two_streams_events by (simp add: session_event_def event_at_def)
  ultimately show ?thesis using accounting_refines [of ?xs card_db ?k] by simp
qed

theorem session_charged_once_witness:
  "session_of (acct_run card_db two_streams) (1, ''s1'', ''10.0.0.1'') = [(False, 9, 18, 60)]"
proof -
  let ?k = "(1, ''s1'', ''10.0.0.1'')"
  have own: "own_events ?k two_streams = [(blank_env, event_at STATUS_INTERIM ''s1'' 5)] @ (blank_env, event_at STATUS_STOP ''s1'' 9) #
      [(blank_env, event_at STATUS_INTERIM ''s1'' 7), (blank_env, event_at STATUS_STOP ''s1'' 9)]"
    by (simp add: own_events_def two_streams_def ev_key_def event_at_def)
  have "session_of card_db ?k = []" by (simp add: session_of_def card_db_def blank_db_def)
  from session_charged_once [OF two_streams_events this own] show ?thesis
    by (simp add: event_at_def status_defs stop_written_def blank_env_def)
qed

theorem restart_closes_silent_witness:
  "\<exists>q. accounting_on_off blank_env (snd (accounting_on_off blank_env two_sessions (event_at STATUS_ON [] 0\<lparr>ev_nas_ip := []\<rparr>)))
     (event_at STATUS_ON [] 0\<lparr>ev_nas_ip := []\<rparr>) =
   (NasReset 0 q, snd (accounting_on_off blank_env two_sessions (event_at STATUS_ON [] 0\<lparr>ev_nas_ip := []\<rparr>)))"
proof -
  let ?ev = "event_at STATUS_ON [] 0\<lparr>ev_nas_ip := []\<rparr>"
  obtain r d' where r: "accounting_on_off blank_env two_sessions ?ev = (r, d')" by fastforce
  have "\<not> e_fault blank_env S_acct_reset" by (simp add: blank_env_def)
  from restart_closes_silent [OF r this] r show ?thesis by auto
qed

end
