(* ===== verification/TableProgress.thy ===== *)
theory TableProgress
  imports AccountingProperties SweepProperties "HOL-Library.Sublist"
begin

text \<open>
  What a part of the program may do to the rows of the session table, the cards and the log: rows are updated in place,
  a closed session stays as it is, and what a card remembers of its first use is kept. A login and a sweep do only that.
\<close>

section \<open>How the tables may change\<close>

definition row_progress :: "acct_row \<Rightarrow> acct_row \<Rightarrow> bool" where
  "row_progress a a' =
     (a_radacctid a' = a_radacctid a \<and> row_key a' = row_key a \<and> a_username a' = a_username a \<and> a_start a' = a_start a \<and>
      (a_stop a \<noteq> None \<longrightarrow> a' = a))"

definition card_progress :: "card \<Rightarrow> card \<Rightarrow> bool" where
  "card_progress c c' =
     (c_id c' = c_id c \<and> c_tenant_id c' = c_tenant_id c \<and> c_username c' = c_username c \<and> c_batch_id c' = c_batch_id c \<and>
      (c_first_used_at c \<noteq> None \<longrightarrow> c_first_used_at c' = c_first_used_at c) \<and>
      (c_locked_mac c \<noteq> [] \<longrightarrow> c_locked_mac c' = c_locked_mac c) \<and> (c_used c \<longrightarrow> c_used c'))"

lemma row_progress_refl [simp]: "row_progress a a" by (simp add: row_progress_def)
lemma card_progress_refl [simp]: "card_progress c c" by (simp add: card_progress_def)

lemma row_progress_trans: "row_progress a b \<Longrightarrow> row_progress b c \<Longrightarrow> row_progress a c"
  by (auto simp: row_progress_def)

lemma card_progress_trans: "card_progress a b \<Longrightarrow> card_progress b c \<Longrightarrow> card_progress a c"
  by (auto simp: card_progress_def)

lemma rows_progress_trans:
  "list_all2 row_progress xs ys \<Longrightarrow> list_all2 row_progress ys zs \<Longrightarrow> list_all2 row_progress xs zs"
  by (rule list_all2_trans [of row_progress row_progress]) (rule row_progress_trans)

lemma cards_progress_trans:
  "list_all2 card_progress xs ys \<Longrightarrow> list_all2 card_progress ys zs \<Longrightarrow> list_all2 card_progress xs zs"
  by (rule list_all2_trans [of card_progress card_progress]) (rule card_progress_trans)

text \<open>Rows are only updated in place, and the log only grows.\<close>

definition settles :: "db \<Rightarrow> db \<Rightarrow> bool" where
  "settles d d' = (list_all2 row_progress (radacct d) (radacct d') \<and> list_all2 card_progress (cards d) (cards d') \<and>
     prefix (radpostauth d) (radpostauth d'))"

lemma settles_refl [simp]: "settles d d"
  by (simp add: settles_def list.rel_refl)

lemma settles_trans [trans]: "settles d d1 \<Longrightarrow> settles d1 d2 \<Longrightarrow> settles d d2"
  unfolding settles_def by (blast intro: rows_progress_trans cards_progress_trans prefix_order.trans)

lemma settles_same:
  "radacct d' = radacct d \<Longrightarrow> cards d' = cards d \<Longrightarrow> radpostauth d' = radpostauth d \<Longrightarrow> settles d d'"
  by (simp add: settles_def list.rel_refl)

lemma list_all2_map_self: "(\<And>x. x \<in> set xs \<Longrightarrow> P x (f x)) \<Longrightarrow> list_all2 P xs (map f xs)"
  by (simp add: list_all2_map2 list.rel_refl_strong)

lemma settles_rows:
  assumes "radacct d' = map f (radacct d)" "cards d' = cards d" "radpostauth d' = radpostauth d"
    and "\<And>a. row_progress a (f a)"
  shows "settles d d'"
  using assms by (simp add: settles_def list.rel_refl list_all2_map_self)

lemma settles_cards:
  assumes "radacct d' = radacct d" "cards d' = map f (cards d)" "radpostauth d' = radpostauth d"
    and "\<And>c. c \<in> set (cards d) \<Longrightarrow> card_progress c (f c)"
  shows "settles d d'"
  using assms by (simp add: settles_def list.rel_refl list_all2_map_self)

lemma settles_master: "master d' = master d \<Longrightarrow> radacct d' = radacct d \<Longrightarrow> settles d d'"
  by (rule settles_same) (simp_all add: master_def)

section \<open>Card identifiers\<close>

definition card_ids :: "db \<Rightarrow> bool" where
  "card_ids d = distinct (map (\<lambda>c. (c_tenant_id c, c_id c)) (cards d))"

lemma card_ids_settles: "settles d d' \<Longrightarrow> card_ids d' = card_ids d"
proof -
  assume "settles d d'"
  then have "list_all2 card_progress (cards d) (cards d')" by (simp add: settles_def)
  then have "map (\<lambda>c. (c_tenant_id c, c_id c)) (cards d') = map (\<lambda>c. (c_tenant_id c, c_id c)) (cards d)"
    by (induction rule: list_all2_induct) (auto simp: card_progress_def)
  then show ?thesis by (simp only: card_ids_def)
qed

lemma card_ids_eq:
  "card_ids d \<Longrightarrow> c \<in> set (cards d) \<Longrightarrow> c' \<in> set (cards d) \<Longrightarrow> c_tenant_id c = c_tenant_id c' \<Longrightarrow> c_id c = c_id c' \<Longrightarrow> c = c'"
  by (auto simp: card_ids_def distinct_map inj_on_def)

lemma settles_bind:
  assumes "card_ids d" "c \<in> set (cards d)" "c_tenant_id c = tid"
  shows "settles d (bind_on_flag e s flag d tid u c mac)"
proof (cases "e_fault e s \<or> \<not> flag \<or> c_locked_mac c \<noteq> [] \<or> norm_mac mac = []")
  case True
  then show ?thesis by (simp add: bind_on_flag_def)
next
  case False
  let ?f = "\<lambda>x. if c_tenant_id x = tid \<and> c_id x = c_id c then x\<lparr>c_locked_mac := strip (norm_mac mac)\<rparr> else x"
  have "card_progress x (?f x)" if "x \<in> set (cards d)" for x
    using card_ids_eq [OF assms(1) that assms(2)] assms(3) False by (auto simp: card_progress_def)
  then show ?thesis
    using False by (intro settles_cards [where f = ?f])
      (simp_all add: bind_on_flag_def bind_card_to_mac_def set_card_locked_mac_def replace_user_check_def Let_def)
qed

lemma get_card_row: "get_card_by_username d tid u = Some c \<Longrightarrow> c \<in> set (cards d) \<and> c_tenant_id c = tid"
  by (auto simp: get_card_by_username_def dest: find_Some_first)

lemma get_card_and_batch_row: "get_card_and_batch e d tid u = (Some c, b) \<Longrightarrow> c \<in> set (cards d) \<and> c_tenant_id c = tid"
  by (auto simp: get_card_and_batch_def guarded_def at_site_def Let_def dest!: get_card_row
      split: option.splits sum.splits if_splits prod.splits)

lemma settles_set_expiry: "settles d (set_expiry d tid cid u x)"
  by (rule settles_cards [where f = "\<lambda>c. if c_tenant_id c = tid \<and> c_id c = cid then c\<lparr>c_expire_at := Some x\<rparr> else c"])
    (auto simp: set_expiry_def card_progress_def)

lemma settles_mark_used: "settles d (mark_used d tid cid)"
  by (rule settles_cards [where f = "\<lambda>c. if c_tenant_id c = tid \<and> c_id c = cid then c\<lparr>c_used := True\<rparr> else c"])
    (auto simp: mark_used_def card_progress_def)

lemma settles_auto_renew: "maybe_auto_renew e d sub source = (sub', d') \<Longrightarrow> settles d d'"
  by (erule auto_renew_db) (auto intro: settles_trans settles_set_expiry settles_mark_used)

lemma settles_first_connect:
  assumes "card_ids d"
  shows "settles d (on_first_connect e d tid u mac)"
proof -
  obtain oc ob where cb: "get_card_and_batch e d tid u = (oc, ob)" by fastforce
  show ?thesis
  proof (cases "oc = None \<or> ob = None")
    case False
    then obtain c b where cb': "get_card_and_batch e d tid u = (Some c, Some b)" using cb by auto
    let ?d1 = "bind_on_flag e S_bind_mac (b_switch_to_mac_on_connect b) d tid u c mac"
    let ?d2 = "if e_fault e S_transfer_student \<or> \<not> b_transfer_to_student_status_on_connect b then ?d1
               else ?d1\<lparr>subscribers := map (\<lambda>s. if s_tenant_id s = tid \<and> s_username s = u
                      then s\<lparr>s_account_type := ''student''\<rparr> else s) (subscribers ?d1)\<rparr>"
    have "settles d ?d1" using assms get_card_and_batch_row [OF cb'] by (intro settles_bind) auto
    moreover have "settles ?d1 ?d2" by (rule settles_same) simp_all
    moreover have "settles ?d2 (materialize_first_login_validity e ?d2 tid u c b (e_now e))"
      by (simp add: materialize_first_login_validity_def settles_set_expiry split: option.split)
    ultimately show ?thesis
      by (auto simp: on_first_connect_def cb' Let_def intro: settles_trans)
  qed (use cb in \<open>auto simp: on_first_connect_def split: option.splits\<close>)
qed

lemma settles_on_disconnect:
  assumes "card_ids d"
  shows "settles d (on_disconnect r e d tid u mac sid)"
proof -
  obtain oc ob where cb: "get_card_and_batch e d tid u = (oc, ob)" by fastforce
  show ?thesis
  proof (cases "oc = None \<or> ob = None")
    case False
    then obtain c b where cb': "get_card_and_batch e d tid u = (Some c, Some b)" using cb by auto
    let ?d1 = "bind_on_flag e S_lock_mac (b_lock_to_mac_on_close b) d tid u c mac"
    have "settles d ?d1" using assms get_card_and_batch_row [OF cb'] by (intro settles_bind) auto
    moreover have "settles ?d1 (?d1\<lparr>coa_disconnects := x\<rparr>)" for x by (rule settles_same) simp_all
    ultimately show ?thesis by (auto simp: on_disconnect_def cb' Let_def intro: settles_trans)
  qed (use cb in \<open>auto simp: on_disconnect_def split: option.splits\<close>)
qed

section \<open>Closing sessions\<close>

lemma settles_close_rows: "settles d (fst (close_rows bad now cause stop d rows))"
proof (induction rows arbitrary: d)
  case (Cons a rows)
  let ?f = "\<lambda>x. if a_radacctid x = a_radacctid a \<and> a_stop x = None then closed_row now a cause stop x else x"
  let ?d1 = "if bad (a_radacctid a) then d else fst (close_session_row now d a cause stop)"
  have "row_progress x (?f x)" for x by (simp add: row_progress_def row_key_def)
  then have "settles d (fst (close_session_row now d a cause stop))"
    by (intro settles_rows [where f = ?f]) (simp_all add: close_session_row_def Let_def)
  then have "settles d ?d1" by simp
  moreover have "fst (close_rows bad now cause stop d (a # rows)) = fst (close_rows bad now cause stop ?d1 rows)"
    by (simp add: case_prod_unfold Let_def)
  ultimately show ?case using Cons settles_trans by metis
qed simp

lemma settles_force_close: "settles d (fst (force_close e d tid u sid cause))"
  by (cases "e_fault e S_force_close") (simp_all add: force_close_def settles_close_rows)

lemma settles_stale_sweep: "settles d (fst (reconcile_stale_interim e d tid thr cause))"
  by (cases "e_fault e S_stale_query") (simp_all add: reconcile_stale_interim_def Let_def settles_close_rows)

lemma settles_mark_stale: "settles d (snd (mark_stale e d tid age))"
proof -
  let ?hit = "\<lambda>a. a_tenant_id a = tid \<and> a_stop a = None \<and> seen_before (e_now e - seconds (max 60 (or_int age 3600))) a"
  let ?f = "\<lambda>a. if ?hit a then a\<lparr>a_stop := opt_or (last_seen a) (Some (e_now e)), a_terminatecause := CAUSE_INTERIM\<rparr> else a"
  have "row_progress a (?f a)" for a by (simp add: row_progress_def row_key_def)
  then show ?thesis by (intro settles_rows [where f = ?f]) (simp_all add: mark_stale_def Let_def)
qed

section \<open>A login\<close>

text \<open>Checks whose effect stays within a preorder: so does a pipeline of them.\<close>

locale ordered_checks =
  fixes R :: "db \<Rightarrow> db \<Rightarrow> bool"
    and cs :: "check list"
  assumes reflexive: "R d d"
    and transitive: "R d d1 \<Longrightarrow> R d1 d2 \<Longrightarrow> R d d2"
    and within: "c \<in> set cs \<Longrightarrow> c d = Inr (r, d') \<Longrightarrow> R d d'"
begin

lemma run_sublist_within: "set xs \<subseteq> set cs \<Longrightarrow> run_checks xs d = Inr (r, d') \<Longrightarrow> R d d'"
proof (induction xs arbitrary: d)
  case (Cons x xs)
  then obtain r1 d1 where x: "x d = Inr (r1, d1)" by (auto simp: res_bind_Inr)
  then have t: "R d d1" using Cons.prems(1) by (intro within [of x]) auto
  show ?case
  proof (cases r1)
    case None
    with Cons x have "R d1 d'" by auto
    with t show ?thesis by (rule transitive)
  next
    case (Some bad)
    with Cons.prems(2) x t show ?thesis by simp
  qed
qed (simp add: reflexive)

lemma run_within: "run_checks cs d = Inr (r, d') \<Longrightarrow> R d d'"
  by (rule run_sublist_within) simp_all

end

text \<open>A frame is the preorder of equality on a part of the tables.\<close>

sublocale framed_checks \<subseteq> same: ordered_checks "\<lambda>d d'. tbl d' = tbl d" cs
  by unfold_locales (simp_all add: frame)

lemma radacct_touch [simp]: "radacct (touch_device e d i) = radacct d"
  by (simp add: touch_device_def)

lemma radacct_add_device [simp]: "radacct (snd (add_device d tid pid u mac)) = radacct d"
  by (auto simp: add_device_def Let_def split: option.splits)

lemma radacct_tofu_bind [simp]: "radacct (snd (tofu_bind e d p u mac)) = radacct d"
  by (auto simp: tofu_bind_def split: prod.splits option.splits) (metis radacct_add_device snd_conv)+

lemma radacct_allow_mode [simp]: "radacct (snd (check_allow_mode e d sub req)) = radacct d"
proof -
  have "radacct (snd (let (v, d1) = tofu_bind e d p u m in (Some v, d1))) = radacct d" for p u m
    using radacct_tofu_bind [of e d p u m] by (cases "tofu_bind e d p u m") simp
  then have c: "radacct (snd (evaluate e d tid u pid bid mac)) = radacct d" for tid u pid bid mac
    by (auto simp: evaluate_def Let_def split: option.splits)
  have "radacct (snd (check_after_password e d tid u pid bid mac)) = radacct d" for tid u pid bid mac
    by (auto simp: check_after_password_def split: prod.splits option.splits) (metis c snd_conv)+
  then show ?thesis
    by (auto simp: check_allow_mode_def Let_def split: prod.splits option.splits) (metis snd_conv)+
qed

lemma radacct_update_binding [simp]: "radacct (update_binding e d tid u live v) = radacct d"
  using update_binding_only [of e d tid u live v] by (auto simp del: surjective)

lemma radacct_kicks [simp]: "radacct (fold (kick_session e tid u live v) ks d) = radacct d"
  by (induction ks arbitrary: d) (simp_all add: kick_session_def log_event_def Let_def)

lemma radacct_anti_clone [simp]: "radacct (snd (check_anti_mac_clone e d req sub)) = radacct d"
proof -
  have "radacct (apply_decision e d tid u live v) = radacct d" for tid u live v
    by (simp add: apply_decision_def log_event_def Let_def)
  then have "radacct (snd (check_after_auth e d tid u pid g req)) = radacct d" for tid u pid g
    by (auto simp: check_after_auth_def Let_def split: option.split)
  then show ?thesis
    by (auto simp: check_anti_mac_clone_def Let_def split: prod.splits option.splits) (metis snd_conv)+
qed

lemma radacct_claims: "radacct (d\<lparr>device_limit_claims := x\<rparr>) = radacct d"
  by simp

lemma radacct_claim_slot [simp]: "radacct (snd (claim_slot e d tid u req l m r)) = radacct d"
  unfolding claim_slot_def Let_def
  by (simp only: if_distrib [of snd] if_distrib [of radacct] snd_conv radacct_claims if_cancel)

lemma radacct_claim [simp]: "radacct (snd (claim_device_slot e d sub plan req)) = radacct d"
  by (auto simp: claim_device_slot_def Let_def split: prod.splits) (metis radacct_claim_slot snd_conv)+

lemma settles_replace_oldest: "settles d (fst (replace_oldest e d tid u rows))"
proof (cases rows)
  case (Cons a rest)
  let ?d1 = "if e_fault e S_coa then d else d\<lparr>coa_disconnects := coa_disconnects d @ [(tid, u, strip (a_acctsessionid a))]\<rparr>"
  have "settles d ?d1" by (rule settles_same) simp_all
  also have "settles ?d1 (fst (force_close e ?d1 tid u (strip (a_acctsessionid a)) CAUSE_REPLACE))"
    by (rule settles_force_close)
  finally show ?thesis unfolding replace_oldest_def Cons list.case Let_def .
qed (simp add: replace_oldest_def)

lemma settles_concurrent: "settles d (snd (check_concurrent e d sub plan req))"
  using settles_replace_oldest by (simp add: check_concurrent_def Let_def split: prod.split)

interpretation login: ordered_checks settles "checks e sub plan req source" for e sub plan req source
proof
  show "settles d d" for d by simp
  show "settles d d1 \<Longrightarrow> settles d1 d2 \<Longrightarrow> settles d d2" for d d1 d2 by (rule settles_trans)
  fix c d r d' assume c: "c \<in> set (checks e sub plan req source)" and r: "c d = Inr (r, d')"
  have m: "master d' = master d" using engine.frame [OF c r] .
  have "d' = snd (check_concurrent e d sub plan req) \<or> radacct d' = radacct d"
    using c r unfolding checks_def reading_def
    by (auto simp: res_bind_Inr)
      (metis snd_conv radacct_of_frame [OF sweep_frame_quota] radacct_allow_mode radacct_anti_clone radacct_claim)+
  with m show "settles d d'" using settles_concurrent settles_master by blast
qed

lemma settles_log: "settles d (log_attempt e req b r d)"
  by (simp add: settles_def log_attempt_def list.rel_refl)

lemma settles_if:
  "settles d (snd x) \<Longrightarrow> settles d (snd y) \<Longrightarrow> settles d (snd (if c then x else y))"
  "settles d d1 \<Longrightarrow> settles d d2 \<Longrightarrow> settles d (if c then d1 else d2)"
  by simp_all

lemma settles_fold:
  assumes "\<And>x s. settles (snd s) (snd (f x s))"
  shows "settles (snd s) (snd (fold f xs s))"
proof (induction xs arbitrary: s)
  case (Cons x xs)
  then show ?case using settles_trans [OF assms [where x = x and s = s]] by simp
qed simp

lemma settles_block_if_over: "settles (snd acc) (snd (block_if_over tid th w since ex want acc))"
  by (rule settles_same) (simp_all add: block_if_over_def create_block_def Let_def case_prod_unfold)

lemma settles_blocks: "settles d d1 \<Longrightarrow> settles d (snd (fold (block_if_over tid th w since ex) wants (x, d1)))"
  using settles_fold [where s = "(x, d1)" and f = "block_if_over tid th w since ex" and xs = wants, OF settles_block_if_over]
  by (auto intro: settles_trans)

lemma settles_record: "settles d (record_failure d tid ip mac u now)"
  by (rule settles_same) (simp_all add: record_failure_def)

lemma settles_purge: "settles d d1 \<Longrightarrow> settles d (purge_old_failures d1 tid t)"
  by (erule settles_trans, rule settles_same) (simp_all add: purge_old_failures_def)

lemma settles_register_failure: "settles d (register_failure e req d)"
  unfolding register_failure_def register_failed_attempt_def Let_def
  by (intro settles_if settles_blocks settles_purge) (simp_all add: settles_record)

lemma settles_do_update:
  assumes "card_ids d" "do_update_login_timestamps e i d req source = Inr d'"
  shows "settles d d'"
proof -
  let ?tid = "r_tenant_id req" and ?u = "r_username req"
  let ?d1 = "stamp_subscribers e req d"
  have s1: "settles d ?d1" by (rule settles_same) (simp_all add: stamp_subscribers_def)
  show ?thesis
  proof (cases "source = ''card''")
    case False
    with assms(2) have "d' = ?d1" by (auto simp: do_update_login_timestamps_def Let_def split: if_splits)
    with s1 show ?thesis by simp
  next
    case True
    define first where "first = (case get_card_by_username ?d1 ?tid ?u of None \<Rightarrow> True | Some c \<Rightarrow> c_first_used_at c = None)"
    define stamp where "stamp = stamp_instant e ?d1 req first"
    let ?f = "\<lambda>c. if named req (c_tenant_id c) (c_username c) then stamp_card req stamp c else c"
    define d2 where "d2 = ?d1\<lparr>cards := map ?f (cards ?d1)\<rparr>"
    define d3 where "d3 = stamp_expiry e req stamp (stamp_window d2 ?tid ?u) d2"
    have "card_progress c (?f c)" for c by (auto simp: card_progress_def stamp_card_def Let_def opt_or_def split: option.split)
    then have s2: "settles ?d1 d2" by (intro settles_cards [where f = ?f]) (simp_all add: d2_def)
    have s3: "settles d2 d3"
    proof (cases "stamp_window d2 ?tid ?u \<le> 0")
      case True
      then show ?thesis by (simp add: d3_def stamp_expiry_def)
    next
      case False
      then show ?thesis
        by (intro settles_cards [where f = "\<lambda>c. if named req (c_tenant_id c) (c_username c) \<and> c_expire_at c = None
             then c\<lparr>c_expire_at := Some (clamp_expiry (e_expiry_limit e) stamp (stamp_window d2 ?tid ?u))\<rparr> else c"])
          (auto simp: d3_def stamp_expiry_def Let_def card_progress_def)
    qed
    have s123: "settles d d3" by (rule settles_trans [OF settles_trans [OF s1 s2] s3])
    have "do_update_login_timestamps e i d req source =
        (if e_stamp_fault e i \<noteq> None then Inl DbError
         else if get_card_by_username ?d1 ?tid ?u = None then Inl RuntimeError
         else if \<not> first then Inr d2 else Inr (on_first_connect e d3 ?tid ?u (r_calling_station_id req)))"
      unfolding do_update_login_timestamps_def Let_def d3_def d2_def stamp_def first_def using True
      by (simp only: simp_thms if_False)
    with assms(2) have "d' = d2 \<or> d' = on_first_connect e d3 ?tid ?u (r_calling_station_id req)"
      by (simp split: if_splits)
    moreover have "settles d3 (on_first_connect e d3 ?tid ?u (r_calling_station_id req))"
      using assms(1) card_ids_settles [OF s123] by (intro settles_first_connect) simp
    ultimately show ?thesis using s123 settles_trans [OF s1 s2] settles_trans by blast
  qed
qed

lemma settles_stamps: "card_ids d \<Longrightarrow> settles d (snd (update_login_timestamps e d req source))"
proof -
  assume "card_ids d"
  then have "settles d (snd (stamp_attempts e ks d req source))" for ks
    by (induction ks) (auto split: sum.split dest: settles_do_update)
  then show ?thesis by (simp add: update_login_timestamps_def del: stamp_attempts.simps)
qed

lemma settles_accept_attrs:
  assumes "build_accept_attrs e d sub plan = Inr (reply, d')"
  shows "settles d d'"
proof -
  have d': "d' = snd (quota_exhaustion e d sub plan)"
    using assms by (auto simp: build_accept_attrs_def is_quota_exhausted_def Let_def res_bind_Inr split: prod.splits)
  have "sweep_frame (snd (window_exhaustion e d sub plan)) = sweep_frame d"
    by (auto simp: window_exhaustion_def Let_def split: prod.splits) (metis sweep_frame_usage snd_conv)
  then have "sweep_frame d' = sweep_frame d" unfolding d' by (simp add: quota_exhaustion_def case_prod_unfold Let_def)
  then show ?thesis by (intro settles_master) (simp_all add: sweep_frame_def)
qed

lemma settles_authorize:
  assumes "card_ids d" "authorize e d req0 = Inr (dec, d')"
  shows "settles d d'"
proof (cases "r_username req0 = []")
  case True
  with assms(2) show ?thesis by (simp add: authorize_def)
next
  case False
  from assms(2) False show ?thesis
  proof (cases rule: authorize_cases)
    case unknown
    then show ?thesis by (simp add: settles_register_failure)
  next
    case (stopped sub0 source req sub d1 d2)
    have s: "settles d d2" by (rule settles_trans [OF settles_auto_renew [OF stopped(2)] login.run_within [OF stopped(3)]])
    have "settles d2 (finish_reject e req dec d2)"
      by (auto simp: finish_reject_def Let_def intro: settles_log settles_trans [OF settles_log settles_register_failure])
    with s show ?thesis unfolding stopped(4) by (rule settles_trans)
  next
    case (accepted sub0 source req sub d1 d2 reply d3)
    have s: "settles d d3"
      by (rule settles_trans [OF settles_trans [OF settles_auto_renew [OF accepted(2)] login.run_within [OF accepted(3)]]
            settles_accept_attrs [OF accepted(4)]])
    then have "settles d (log_attempt e req True [] d3)" using settles_log by (rule settles_trans)
    then show ?thesis
      unfolding accepted(6) using card_ids_settles assms(1) settles_stamps settles_trans by blast
  qed
qed

section \<open>Sweeps\<close>

lemma settles_frame: "master d' = master d \<and> radacct d' = radacct d \<Longrightarrow> settles d d'"
  by (blast intro: settles_master)

lemma settles_sweep: "settles d (snd (run_sweep e d tid sc))"
proof -
  have "master d' = master d \<and> radacct d' = radacct d" if "fold (run_row e tid v) rows (no_stats, d) = (st', d')" for v rows st' d'
    using fold_rows_sound [OF that] by (simp add: no_stats_def)
  then show ?thesis by (metis run_sweep_def prod.collapse settles_frame)
qed

lemma settles_coa [simp]: "settles d (d\<lparr>coa_disconnects := x\<rparr>)"
  by (rule settles_same) simp_all

lemma settles_window_row: "settles (snd sd) (snd (window_row e tid a sd))"
  by (auto simp: window_row_def disconnect_live_def case_prod_unfold Let_def split: option.split)

lemma settles_window_sweep: "settles d (snd (enforce_active_session_windows e d tid))"
proof -
  have "settles (snd sd) (snd (fold (window_row e t) (live_rows e (snd sd) t whole_tenant) sd))" for t sd
    by (rule settles_fold) (rule settles_window_row)
  then have "settles (snd (no_stats, d)) (snd (enforce_active_session_windows e d tid))"
    unfolding enforce_active_session_windows_def by (rule settles_fold)
  then show ?thesis by simp
qed

lemma settles_violators: "settles d (snd (quota_violators e tid us d))"
proof (induction us arbitrary: d)
  case (Cons u us)
  obtain bad d1 where q: "quota_violator e d tid u = (bad, d1)" by fastforce
  have "sweep_frame (snd (quota_violator e d tid u)) = sweep_frame d"
    by (simp add: quota_violator_def case_prod_unfold Let_def split: option.split)
  then have "sweep_frame d1 = sweep_frame d" by (simp add: q)
  then have "settles d d1" by (intro settles_master) (simp_all add: sweep_frame_def)
  with Cons [of d1] q show ?case by (auto simp: Let_def split: prod.split intro: settles_trans)
qed simp

lemma settles_tenant_quota: "settles (snd cd) (snd (enforce_tenant_quota e tid cd))"
  using settles_violators [of "snd cd" e tid "clean_names (map a_username (live_rows e (snd cd) tid whole_tenant))"]
  by (auto simp: enforce_tenant_quota_def Let_def split: prod.split intro: settles_trans settles_sweep)

lemma settles_quota_sweep: "settles d (fst (snd (enforce_live_quota e d tid pr)))"
proof -
  define d1 where "d1 = (if tid = None \<and> (case pr of None \<Rightarrow> True | Some t \<Rightarrow> e_now e - t > 6 * 60 * minute_us)
    then snd (prune_session_marks e d MARK_RETENTION_DAYS) else d)"
  have "settles d d1" by (rule settles_same) (simp_all add: d1_def prune_session_marks_def Let_def)
  also have "settles d1 (snd (fold (enforce_tenant_quota e) (sweep_tenants e d1 tid) ((0, 0), d1)))"
    using settles_fold [where s = "((0, 0), d1)", OF settles_tenant_quota] by simp
  finally show ?thesis by (simp add: enforce_live_quota_def Let_def d1_def case_prod_unfold)
qed

end
