(* ===== verification/System.thy ===== *)
theory System
  imports TableProgress
begin

text \<open>
  The running system: logins, accounting events, the sweeps and the manual closes, in any order, at any time, for any
  user, with the database failing wherever it may. The step relation has one rule per entry point of the modelled
  services; its invariants say what no sequence of them can do to the session table, the cards and the log.
\<close>

section \<open>Accounting events\<close>

text \<open>An event either only updates rows in place or appends one new row, under the next identifier, for a session that
  has no open row if the new one is open.\<close>

definition appends :: "db \<Rightarrow> db \<Rightarrow> bool" where
  "appends d d' =
     (\<exists>d1 a. settles d d1 \<and> d' = insert_row a d1 \<and> a_radacctid a = next_radacctid d1 \<and>
        (a_stop a = None \<longrightarrow> (\<forall>b \<in> set (radacct d1). row_key b = row_key a \<longrightarrow> a_stop b \<noteq> None)))"

lemma settles_sweep_frame: "sweep_frame d' = sweep_frame d \<Longrightarrow> settles d d'"
  by (intro settles_master) (simp_all add: sweep_frame_def)

lemma settles_update_open:
  assumes "\<And>a. a_stop a = None \<Longrightarrow> row_progress a (f a)"
  shows "settles d (update_open ev f d)"
  using assms
  by (intro settles_rows [where f = "\<lambda>a. if open_of ev a then f a else a"]) (simp_all add: update_open_def open_of_def)

lemma next_radacctid_fresh: "a \<in> set (radacct d) \<Longrightarrow> a_radacctid a < next_radacctid d"
  unfolding next_radacctid_def by (simp add: next_id_fresh)

lemma ids_identify_same: "map a_radacctid (radacct d') = map a_radacctid (radacct d) \<Longrightarrow> ids_identify d' = ids_identify d"
  by (simp only: ids_identify_def)

lemma ids_identify_insert: "ids_identify d \<Longrightarrow> a_radacctid a = next_radacctid d \<Longrightarrow> ids_identify (insert_row a d)"
proof -
  assume i: "ids_identify d" and a: "a_radacctid a = next_radacctid d"
  have "a_radacctid b \<noteq> a_radacctid a" if "b \<in> set (radacct d)" for b using next_radacctid_fresh [OF that] a by simp
  then have "a_radacctid a \<notin> a_radacctid ` set (radacct d)" by force
  then show ?thesis using i by (simp add: ids_identify_def insert_row_def)
qed

lemma event_row_stop [simp]: "a_stop (event_row d ev s u t c) = t" "a_radacctid (event_row d ev s u t c) = next_radacctid d"
  by (simp_all add: event_row_def)

lemma appendsI:
  assumes "settles d d1" "t = None \<Longrightarrow> filter (open_of ev) (radacct d1) = []"
  shows "appends d (insert_row (event_row d1 ev s u t c) d1)"
  unfolding appends_def using assms
  by (intro exI [of _ d1] exI [of _ "event_row d1 ev s u t c"]) (auto simp: open_of_key filter_empty_conv)

lemma start_effect:
  assumes "acct_start e d ev = (r, d')"
  shows "settles d d' \<or> appends d d'"
proof (cases "e_fault e S_acct_open \<or> open_session d ev \<noteq> None")
  case True
  with assms show ?thesis by (auto simp: acct_start_def split: if_splits)
next
  case False
  obtain kick d1 where k: "maybe_kick_previous e d ev = (kick, d1)" by fastforce
  have "settles d (snd (maybe_kick_previous e d ev))" by (simp add: maybe_kick_previous_def Let_def)
  then have s1: "settles d d1" using k by simp
  moreover have "radacct d1 = radacct d" by (metis k radacct_kick snd_conv)
  moreover have "filter (open_of ev) (radacct d) = []" using False by (simp add: open_session_def newest_None)
  ultimately have "appends d (insert_row (event_row d1 ev (e_now e) (e_now e) None []) d1)" by (intro appendsI) simp_all
  then show ?thesis using assms False k s1 by (auto simp: acct_start_def answered_def Let_def split: if_splits)
qed

lemma without_open_row_effect:
  assumes "settles d d1"
  shows "settles d (snd (without_open_row e d1 ev ended res)) \<or> appends d (snd (without_open_row e d1 ev ended res))"
proof -
  have "appends d (insert_row (event_row d1 ev s u t c) d1)" if "last_session_row d1 ev = None" for s u t c
    using that assms by (intro appendsI) (auto simp: last_session_row_def newest_None open_of_def filter_empty_conv)
  then show ?thesis
    using assms by (auto simp: without_open_row_def insert_missing_start_def snd_if Let_def split: option.split)
qed

lemma reading_effect:
  assumes "card_ids d" "acct_interim e d ev = (r, d') \<or> acct_stop e d ev = (r, d')"
  shows "settles d d' \<or> appends d d'"
proof -
  let ?d1 = "note_quota_baseline e d ev"
  have s1: "settles d ?d1" by (rule settles_sweep_frame) simp
  have i: "settles d (update_open ev (interim_row e ev) ?d1)"
    by (rule settles_trans [OF s1 settles_update_open]) (simp add: row_progress_def row_key_def interim_row_def)
  have s: "settles d (update_open ev (stop_row e ev) ?d1)"
    by (rule settles_trans [OF s1 settles_update_open]) (simp add: row_progress_def row_key_def stop_row_def)
  have i3: "settles d (snd (enforce_after_interim e (update_open ev (interim_row e ev) ?d1) t u))" for t u
    by (rule settles_trans [OF i settles_sweep_frame]) simp
  have s3: "settles d (on_disconnect r' e (update_open ev (stop_row e ev) ?d1) t u m x)" for r' t u m x
    using assms(1) card_ids_settles [OF s] by (intro settles_trans [OF s settles_on_disconnect]) simp
  have "settles d (snd (acct_interim e d ev)) \<or> appends d (snd (acct_interim e d ev))"
    using s1 i i3 without_open_row_effect [OF s1, of e ev False StartedLate] by (auto simp: acct_interim_def Let_def)
  moreover have "settles d (snd (acct_stop e d ev)) \<or> appends d (snd (acct_stop e d ev))"
    using s1 s s3 without_open_row_effect [OF s1, of e ev True StoppedLate] by (auto simp: acct_stop_def Let_def)
  ultimately show ?thesis using assms(2) by auto
qed

lemma settles_on_off: "settles d (snd (accounting_on_off e d ev))"
proof (cases "e_fault e S_acct_reset")
  case True
  then show ?thesis by (simp add: accounting_on_off_def)
next
  case False
  let ?f = "\<lambda>a. if reset_hit e ev a then a\<lparr>a_stop := Some (e_now e), a_terminatecause := ev_status ev\<rparr> else a"
  have "row_progress a (?f a)" for a by (simp add: row_progress_def row_key_def reset_hit_def open_at_nas_def)
  then show ?thesis using False by (intro settles_rows [where f = ?f]) (simp_all add: on_off_reset)
qed

lemma handle_event_effect:
  assumes "card_ids d" "handle_event e d ev = Inr (r, d')"
  shows "settles d d' \<or> appends d d'"
proof -
  consider "acct_start e d ev = (r, d')" | "acct_interim e d ev = (r, d') \<or> acct_stop e d ev = (r, d')"
    | "accounting_on_off e d ev = (r, d')"
    using assms(2) by (auto simp: handle_event_def split: if_splits)
  then show ?thesis
  proof cases
    case 3
    then show ?thesis using settles_on_off [of d e ev] by simp
  qed (use start_effect reading_effect [OF assms(1)] in blast)+
qed

section \<open>The step relation\<close>

inductive step :: "db \<Rightarrow> db \<Rightarrow> bool" where
  login: "authorize e d req = Inr (dec, d') \<Longrightarrow> step d d'"
| account: "ingest e d tid p = Inr (r, d') \<Longrightarrow> step d d'"
| stale_sweep: "reconcile_stale_interim e d tid thr cause = (d', k) \<Longrightarrow> step d d'"
| stale_mark: "mark_stale e d t age = (k, d') \<Longrightarrow> step d d'"
| operator_close: "force_close e d t u sid cause = (d', k) \<Longrightarrow> step d d'"
| policy_sweep: "run_sweep e d t sc = (st, d') \<Longrightarrow> step d d'"
| window_sweep: "enforce_active_session_windows e d tid = (st, d') \<Longrightarrow> step d d'"
| quota_sweep: "enforce_live_quota e d tid pruned = (counts, d', pruned') \<Longrightarrow> step d d'"

text \<open>The service: identifiers of rows and cards are keys, and no session has two open rows.\<close>

definition one_open_each :: "acct_row list \<Rightarrow> bool" where
  "one_open_each rows = distinct (map row_key (filter (\<lambda>a. a_stop a = None) rows))"

definition wf_db :: "db \<Rightarrow> bool" where
  "wf_db d = (ids_identify d \<and> card_ids d \<and> one_open_each (radacct d))"

text \<open>What a later state keeps of an earlier one.\<close>

definition keeps_history :: "db \<Rightarrow> db \<Rightarrow> bool" where
  "keeps_history d d' =
     (list_all2 row_progress (radacct d) (take (length (radacct d)) (radacct d')) \<and>
      list_all2 card_progress (cards d) (cards d') \<and> prefix (radpostauth d) (radpostauth d'))"

lemma keeps_history_refl [simp]: "keeps_history d d"
  by (simp add: keeps_history_def list.rel_refl)

lemma keeps_history_trans:
  assumes "keeps_history d d1" "keeps_history d1 d2"
  shows "keeps_history d d2"
proof -
  let ?n = "length (radacct d)" and ?m = "length (radacct d1)"
  have r: "list_all2 row_progress (radacct d) (take ?n (radacct d1))" "list_all2 row_progress (radacct d1) (take ?m (radacct d2))"
    using assms by (simp_all add: keeps_history_def)
  have "?n \<le> ?m" using list_all2_lengthD [OF r(1)] by simp
  then have "list_all2 row_progress (take ?n (radacct d1)) (take ?n (radacct d2))"
    using list_all2_takeI [OF r(2), of ?n] by (simp add: min_absorb1)
  with r(1) have "list_all2 row_progress (radacct d) (take ?n (radacct d2))"
    by (rule rows_progress_trans)
  moreover have "list_all2 card_progress (cards d) (cards d1)" "list_all2 card_progress (cards d1) (cards d2)"
    using assms by (simp_all add: keeps_history_def)
  then have "list_all2 card_progress (cards d) (cards d2)" by (rule cards_progress_trans)
  moreover have "prefix (radpostauth d) (radpostauth d2)"
    using assms by (auto simp: keeps_history_def intro: prefix_order.trans)
  ultimately show ?thesis by (simp add: keeps_history_def)
qed

lemma history_at:
  assumes "keeps_history d d'" "i < length (radacct d)"
  shows "i < length (radacct d') \<and> a_radacctid (radacct d' ! i) = a_radacctid (radacct d ! i) \<and>
    row_key (radacct d' ! i) = row_key (radacct d ! i) \<and> a_username (radacct d' ! i) = a_username (radacct d ! i) \<and>
    a_start (radacct d' ! i) = a_start (radacct d ! i) \<and>
    (a_stop (radacct d ! i) \<noteq> None \<longrightarrow> radacct d' ! i = radacct d ! i) \<and> prefix (radpostauth d) (radpostauth d')"
proof -
  have l: "list_all2 row_progress (radacct d) (take (length (radacct d)) (radacct d'))" using assms(1) by (simp add: keeps_history_def)
  then have "i < length (radacct d')" using list_all2_lengthD [OF l] assms(2) by simp
  then show ?thesis using assms list_all2_nthD [OF l assms(2)] by (simp add: keeps_history_def row_progress_def)
qed

lemma settles_keeps: "settles d d' \<Longrightarrow> keeps_history d d'"
  unfolding settles_def keeps_history_def by (metis list_all2_lengthD order_refl take_all)

lemma insert_keeps: "keeps_history d (insert_row a d)"
  by (simp add: keeps_history_def insert_row_def list.rel_refl)

lemma one_open_progress: "list_all2 row_progress rows rows' \<Longrightarrow> one_open_each rows \<Longrightarrow> one_open_each rows'"
proof (induction rule: list_all2_induct)
  case (Cons a rows a' rows')
  have sub: "row_key ` {b \<in> set ys. a_stop b = None} \<subseteq> row_key ` {b \<in> set xs. a_stop b = None}"
    if "list_all2 row_progress xs ys" for xs ys
    using that by (induction rule: list_all2_induct) (auto simp: row_progress_def)
  from Cons sub [OF Cons(2)] show ?case
    by (auto simp: one_open_each_def row_progress_def split: if_splits)
qed (simp add: one_open_each_def)

lemma ids_settles: "settles d d' \<Longrightarrow> ids_identify d' = ids_identify d"
proof -
  assume "settles d d'"
  then have "list_all2 row_progress (radacct d) (radacct d')" by (simp add: settles_def)
  then have "map a_radacctid (radacct d') = map a_radacctid (radacct d)"
    by (induction rule: list_all2_induct) (simp_all add: row_progress_def)
  then show ?thesis by (rule ids_identify_same)
qed

lemma keys_appends: "appends d d' \<Longrightarrow> ids_identify d \<Longrightarrow> ids_identify d' \<and> card_ids d' = card_ids d"
proof -
  assume "appends d d'" and i: "ids_identify d"
  then obtain d1 a where s: "settles d d1" and d1: "d' = insert_row a d1" "a_radacctid a = next_radacctid d1"
    unfolding appends_def by (elim exE conjE) (rule that)
  have "card_ids (insert_row a d1) = card_ids d1" by (simp add: card_ids_def insert_row_def)
  then show ?thesis
    using ids_settles [OF s] i ids_identify_insert [OF _ d1(2)] card_ids_settles [OF s] by (simp add: d1(1))
qed

lemma wf_settles: "settles d d' \<Longrightarrow> wf_db d \<Longrightarrow> wf_db d'"
  using one_open_progress card_ids_settles ids_settles by (auto simp: wf_db_def settles_def)

lemma wf_appends: "appends d d' \<Longrightarrow> wf_db d \<Longrightarrow> wf_db d'"
proof -
  assume app: "appends d d'" and w: "wf_db d"
  then obtain d1 a where s: "settles d d1" and d1: "d' = insert_row a d1"
    "a_stop a = None \<longrightarrow> (\<forall>b \<in> set (radacct d1). row_key b = row_key a \<longrightarrow> a_stop b \<noteq> None)"
    unfolding appends_def by (elim exE conjE) (rule that)
  have o: "row_key a \<notin> row_key ` {b \<in> set (radacct d1). a_stop b = None}" if "a_stop a = None" using d1(2) that by auto
  have "one_open_each (radacct d1)" using wf_settles [OF s w] by (simp add: wf_db_def)
  with o have "one_open_each (radacct d')" by (simp add: d1(1) insert_row_def one_open_each_def)
  then show ?thesis using keys_appends [OF app] w by (simp add: wf_db_def)
qed

lemma appends_keeps: "appends d d' \<Longrightarrow> keeps_history d d'"
  unfolding appends_def using settles_keeps insert_keeps keeps_history_trans by blast

lemma step_effect: "step d d' \<Longrightarrow> card_ids d \<Longrightarrow> settles d d' \<or> appends d d'"
proof (induction rule: step.induct)
  case (login e d req dec d')
  then show ?case using settles_authorize by auto
next
  case (account e d tid p r d')
  then obtain ev where "handle_event e d ev = Inr (r, d')" "card_ids d" by (auto simp: ingest_def res_bind_Inr)
  then show ?case by (intro handle_event_effect)
next
  case (stale_sweep e d tid thr cause d' k)
  then show ?case using settles_stale_sweep [of d e tid thr cause] by simp
next
  case (stale_mark e d t age k d')
  then show ?case using settles_mark_stale [of d e t age] by simp
next
  case (operator_close e d t u sid cause d' k)
  then show ?case using settles_force_close [of d e t u sid cause] by simp
next
  case (policy_sweep e d t sc st d')
  then show ?case using settles_sweep [of d e t sc] by simp
next
  case (window_sweep e d tid st d')
  then show ?case using settles_window_sweep [of d e tid] by simp
next
  case (quota_sweep e d tid pruned counts d' pruned')
  then show ?case using settles_quota_sweep [of d e tid pruned] by simp
qed

lemma step_keeps_keys:
  assumes "step d d'" "ids_identify d" "card_ids d"
  shows "ids_identify d' \<and> card_ids d' \<and> keeps_history d d'"
  using step_effect [OF assms(1,3)] assms(2,3) ids_settles card_ids_settles keys_appends settles_keeps appends_keeps by blast

section \<open>Every run\<close>

interpretation service: progressing step wf_db keeps_history
proof
  show "keeps_history d d" for d by simp
  show "keeps_history d d1 \<Longrightarrow> keeps_history d1 d2 \<Longrightarrow> keeps_history d d2" for d d1 d2 by (rule keeps_history_trans)
  show "wf_db d' \<and> keeps_history d d'" if "step d d'" "wf_db d" for d d'
    using step_effect [OF that(1)] that(2) wf_settles wf_appends settles_keeps appends_keeps by (auto simp: wf_db_def)
qed

text \<open>C3. The tables stay well formed between the polls of routers (a poll can enter one session twice): in a run of
  whatever logins, accounting events, sweeps and manual closes and whatever
  fails in them, identifiers of session rows and of cards stay keys and no session (tenant, session identifier and router) ever
  has two open rows.\<close>

theorem service_stays_well_formed: "step\<^sup>*\<^sup>* d d' \<Longrightarrow> wf_db d \<Longrightarrow> wf_db d'"
  using service.every_run by blast

text \<open>The books are final: from any state on, every session row keeps its place, its identifier, its session, its
  user and its start, a closed row never changes again (neither its counters nor the instant and the cause of its end),
  and the log of login attempts is only appended to.\<close>

theorem closed_sessions_final:
  assumes "step\<^sup>*\<^sup>* d d'" "wf_db d" "i < length (radacct d)"
  shows "i < length (radacct d') \<and> a_radacctid (radacct d' ! i) = a_radacctid (radacct d ! i) \<and>
    row_key (radacct d' ! i) = row_key (radacct d ! i) \<and> a_username (radacct d' ! i) = a_username (radacct d ! i) \<and>
    a_start (radacct d' ! i) = a_start (radacct d ! i) \<and>
    (a_stop (radacct d ! i) \<noteq> None \<longrightarrow> radacct d' ! i = radacct d ! i) \<and> prefix (radpostauth d) (radpostauth d')"
proof -
  have h: "keeps_history d d'" using service.every_run [OF assms(1,2)] by simp
  show ?thesis using history_at [OF h assms(3)] by simp
qed

text \<open>C4. What a card remembers of its first use is not lost by the service itself: in a run of logins, accounting events,
  sweeps and manual closes, without an operator who resets the card or releases its device, every card keeps its name and batch,
  the instant of its first use once it has one, the device it is locked to once it is locked, and that it was used.\<close>

theorem card_first_use_kept:
  assumes "step\<^sup>*\<^sup>* d d'" "wf_db d" "i < length (cards d)"
  shows "i < length (cards d') \<and> c_username (cards d' ! i) = c_username (cards d ! i) \<and>
    c_batch_id (cards d' ! i) = c_batch_id (cards d ! i) \<and>
    (c_first_used_at (cards d ! i) \<noteq> None \<longrightarrow> c_first_used_at (cards d' ! i) = c_first_used_at (cards d ! i)) \<and>
    (c_locked_mac (cards d ! i) \<noteq> [] \<longrightarrow> c_locked_mac (cards d' ! i) = c_locked_mac (cards d ! i)) \<and>
    (c_used (cards d ! i) \<longrightarrow> c_used (cards d' ! i))"
proof -
  have l: "list_all2 card_progress (cards d) (cards d')"
    using service.every_run [OF assms(1,2)] by (simp add: keeps_history_def)
  then show ?thesis
    using list_all2_nthD [OF l assms(3)] list_all2_lengthD [OF l] assms(3) by (simp add: card_progress_def)
qed

section \<open>Instances\<close>

definition session_payload :: "string \<Rightarrow> payload" where
  "session_payload status = [''status_type'' \<mapsto> JStr status, ''username'' \<mapsto> JStr ''u'', ''acct_session_id'' \<mapsto> JStr ''s'',
     ''nas_ip_address'' \<mapsto> JStr ''n'', ''session_time'' \<mapsto> JNum 60, ''input_octets'' \<mapsto> JNum 9]"

definition after :: "('r \<times> db) res \<Rightarrow> db option" where
  "after x = (case x of Inl _ \<Rightarrow> None | Inr (_, d') \<Rightarrow> Some d')"

lemma after_step: "after (ingest e d tid p) = Some d' \<Longrightarrow> step d d'"
  by (auto simp: after_def split: sum.splits prod.splits intro: step.account)

definition started_db :: db where "started_db = the (after (ingest blank_env blank_db 1 (session_payload ''Start'')))"
definition stopped_db :: db where "stopped_db = the (after (ingest blank_env started_db 1 (session_payload ''Stop'')))"

lemma session_steps: "step blank_db started_db" "step started_db stopped_db"
proof -
  have "after (ingest blank_env blank_db 1 (session_payload ''Start'')) \<noteq> None"
    "after (ingest blank_env started_db 1 (session_payload ''Stop'')) \<noteq> None" by code_simp+
  then show "step blank_db started_db" "step started_db stopped_db"
    unfolding started_db_def [symmetric] by (auto intro: after_step simp: started_db_def stopped_db_def)
qed

theorem service_stays_well_formed_witness: "wf_db stopped_db \<and> length (radacct stopped_db) = 1"
proof -
  have "wf_db blank_db" "length (radacct stopped_db) = 1" by code_simp+
  moreover have "step\<^sup>*\<^sup>* blank_db stopped_db" using session_steps by (meson rtranclp.simps)
  ultimately show ?thesis using service_stays_well_formed by blast
qed

theorem closed_sessions_final_witness:
  "\<exists>d'. step stopped_db d' \<and> length (radacct d') = 2 \<and> radacct d' ! 0 = radacct stopped_db ! 0 \<and> a_stop (radacct d' ! 0) \<noteq> None"
proof -
  let ?x = "after (ingest blank_env stopped_db 1 (session_payload ''Start''))"
  have c: "?x \<noteq> None" "length (radacct (the ?x)) = 2" "wf_db stopped_db" "0 < length (radacct stopped_db)"
    "a_stop (radacct stopped_db ! 0) \<noteq> None" by code_simp+
  then have s: "step stopped_db (the ?x)" by (auto intro: after_step)
  from closed_sessions_final [OF r_into_rtranclp [of step, OF s] c(3,4)] s c show ?thesis by auto
qed

theorem card_first_use_kept_witness:
  "\<exists>d'. step revoked_db d' \<and> c_first_used_at (cards d' ! 0) = Some 0"
proof -
  from outcome_Some [OF revived_login] obtain dec d' where "authorize blank_env revoked_db card_request = Inr (dec, d')" by auto
  then have s: "step revoked_db d'" by (rule step.login)
  have "wf_db revoked_db" "0 < length (cards revoked_db)" "c_first_used_at (cards revoked_db ! 0) = Some 0" by code_simp+
  with card_first_use_kept [OF r_into_rtranclp [of step, OF s]] s show ?thesis by auto
qed

end
