(* ===== verification/Bytes.thy ===== *)
theory Bytes
  imports Prelude "HOL-Library.Word"
begin

unbundle bit_operations_syntax

text \<open>
  Byte strings, as the wire formats use them: numbers in big-endian order (\<open>int.to_bytes\<close>, \<open>struct.pack\<close>) and texts by
  their bytes. A character of HOL is a byte, so a text of the model is its UTF-8 encoding and \<open>encode\<close> and
  \<open>decode(errors="replace")\<close> change no byte; a sequence that is not UTF-8 is kept instead of replaced.
\<close>

type_synonym byte = "8 word"

section \<open>Numbers\<close>

text \<open>\<open>v.to_bytes(n, "big")\<close> of a number that fits.\<close>

primrec to_bytes :: "nat \<Rightarrow> int \<Rightarrow> byte list" where
  "to_bytes 0 v = []"
| "to_bytes (Suc n) v = to_bytes n (v div 256) @ [word_of_int v]"

text \<open>The number a big-endian byte string stands for.\<close>

definition of_bytes :: "byte list \<Rightarrow> int" where
  "of_bytes bs = foldl (\<lambda>v b. push_bit 8 v OR uint b) 0 bs"

lemma length_to_bytes [simp]: "length (to_bytes n v) = n"
  by (induction n arbitrary: v) simp_all

lemma or_disjoint: "0 \<le> y \<Longrightarrow> y < 2 ^ n \<Longrightarrow> push_bit n x OR y = x * 2 ^ n + (y :: int)"
proof -
  assume "0 \<le> y" "y < 2 ^ n"
  then have y: "take_bit n y = y" by (simp add: take_bit_int_eq_self)
  have "push_bit n x AND take_bit n y = 0" by (rule bit_eqI) (auto simp: bit_simps)
  then have "push_bit n x + y = push_bit n x OR y" unfolding y by (rule disjunctive_add_eq_or)
  then show ?thesis by (simp add: push_bit_eq_mult)
qed

lemma uint_byte_bounds [simp]: "0 \<le> uint (b :: byte)" "uint (b :: byte) < 256"
  using uint_lt2p [of b] by simp_all

lemma push_byte: "push_bit 8 x OR uint (b :: byte) = x * 256 + uint b"
  using or_disjoint [of "uint b" 8 x] uint_byte_bounds [of b] by simp

lemma of_bytes_snoc [simp]: "of_bytes (bs @ [b]) = of_bytes bs * 256 + uint b"
  by (simp add: of_bytes_def push_byte)

lemma of_bytes_Nil [simp]: "of_bytes [] = 0"
  by (simp add: of_bytes_def)

lemma uint_of_int_byte [simp]: "uint (word_of_int v :: byte) = v mod 256"
  by (simp add: uint_word_of_int)

lemma of_bytes_to_bytes: "of_bytes (to_bytes n v) = v mod 256 ^ n"
proof (induction n arbitrary: v)
  case (Suc n)
  have "(v div 256 mod 256 ^ n) * 256 + v mod 256 = v mod (256 * 256 ^ n)"
    by (simp add: zmod_zmult2_eq)
  with Suc show ?case by simp
qed simp

lemma of_bytes_bounds: "0 \<le> of_bytes bs \<and> of_bytes bs < 256 ^ length bs"
proof (induction bs rule: rev_induct)
  case (snoc b bs)
  have "0 \<le> uint b" "uint b < 256" by simp_all
  moreover have "of_bytes bs + 1 \<le> 256 ^ length bs" using snoc by simp
  ultimately show ?case using snoc unfolding of_bytes_snoc length_append_singleton power_Suc by linarith
qed simp

lemma to_bytes_of_bytes: "length bs = n \<Longrightarrow> to_bytes n (of_bytes bs) = bs"
proof (induction bs arbitrary: n rule: rev_induct)
  case (snoc b bs)
  have "(of_bytes bs * 256 + uint b) div 256 = of_bytes bs" by simp
  moreover have "word_of_int (of_bytes bs * 256 + uint b) = b"
    by (rule word_uint_eqI) (simp only: uint_of_int_byte mod_mult_self3, simp add: mod_pos_pos_trivial)
  ultimately show ?case using snoc by (cases n) simp_all
qed simp

section \<open>Texts\<close>

definition text_bytes :: "string \<Rightarrow> byte list" where
  "text_bytes s = map of_char s"

definition bytes_text :: "byte list \<Rightarrow> string" where
  "bytes_text bs = map (\<lambda>b. char_of (unat b)) bs"

lemma unat_of_char [simp]: "unat (of_char c :: byte) = of_char c"
proof -
  have "(of_char c :: byte) = of_nat (of_char c)" by (rule of_nat_of_char [symmetric])
  moreover have "(of_char c :: nat) < 256" by simp
  ultimately show ?thesis by (simp add: unat_of_nat)
qed

lemma bytes_text_bytes [simp]: "bytes_text (text_bytes s) = s"
  by (simp add: bytes_text_def text_bytes_def comp_def)

lemma text_bytes_text [simp]: "text_bytes (bytes_text bs) = bs"
proof -
  have "of_char (char_of (unat b)) = b" for b :: byte
  proof -
    have "(of_char (char_of (unat b)) :: byte) = of_nat (of_char (char_of (unat b)))" by (rule of_nat_of_char [symmetric])
    then show ?thesis using unsigned_less [of b, where ?'a = nat] by simp
  qed
  then show ?thesis by (simp add: bytes_text_def text_bytes_def comp_def)
qed

lemma text_bytes_simps [simp]:
  "text_bytes [] = []" "text_bytes (s @ t) = text_bytes s @ text_bytes t" "length (text_bytes s) = length s"
  "text_bytes s = [] \<longleftrightarrow> s = []"
  by (simp_all add: text_bytes_def)

end
