(* ===== verification/RouterOsProtocol.thy ===== *)
theory RouterOsProtocol
  imports Bytes
begin

text \<open>
  \<open>app/radius/integration/mikrotik/protocol.py\<close>, \<open>errors.py\<close> and the exchange of \<open>client.py\<close>: the RouterOS API. A
  sentence is a list of words, each behind its length, closed by an empty word; a reply is a list of sentences up to
  \<open>!done\<close>. The stream is the bytes still to arrive and what happens after them. Both reading loops of the code are
  \<open>while True\<close>, so they are partial functions here: that they return is a theorem. Establishing the TCP or TLS
  connection is not modelled.
\<close>

section \<open>Errors and the connection\<close>

type_synonym word_dict = "string \<rightharpoonup> string"

record sentence =
  se_reply :: "string option"
  se_attrs :: word_dict
  se_api :: word_dict
  se_extras :: "string list"

datatype mt_error =
    ProtocolError
  | ConnectError string
  | AuthError string
  | MikrotikTrap string "int option" sentence
  | OverflowError

text \<open>The open stream (\<open>_stream\<close>): what is still to be read, whether the end is a time-out or a closed socket, whether
  writing works, and what was written.\<close>

record conn =
  cn_open :: bool
  cn_in :: "byte list"
  cn_timeout :: bool
  cn_broken :: bool
  cn_out :: "byte list"

type_synonym 'a io = "conn \<Rightarrow> (mt_error + 'a) \<times> conn"

definition read_byte :: "byte io" where
  "read_byte c =
     (if \<not> cn_open c then (Inl (ConnectError ''closed''), c)
      else (case cn_in c of
              [] \<Rightarrow> (Inl (if cn_timeout c then ConnectError ''read'' else ProtocolError), c)
            | b # bs \<Rightarrow> (Inr b, c\<lparr>cn_in := bs\<rparr>)))"

section \<open>Lengths\<close>

definition encode_length :: "int \<Rightarrow> mt_error + byte list" where
  "encode_length n =
     (if n < 0 then Inl ProtocolError
      else if n < 0x80 then Inr [word_of_int n]
      else if n < 0x4000 then Inr (to_bytes 2 (n OR 0x8000))
      else if n < 0x200000 then Inr (to_bytes 3 (n OR 0xC00000))
      else if n < 0x10000000 then Inr (to_bytes 4 (n OR 0xE0000000))
      else if n < 2 ^ 32 then Inr (0xF0 # to_bytes 4 n)
      else Inl OverflowError)"

text \<open>What follows the first byte.\<close>

definition length_tail :: "byte \<Rightarrow> int io" where
  "length_tail w =
     (let b0 = uint w in
       if b0 < 0x80 then io_return b0
       else if b0 AND 0xC0 = 0x80 then
         io_bind read_byte (\<lambda>b1. io_return (push_bit 8 (b0 AND 0x3F) OR uint b1))
       else if b0 AND 0xE0 = 0xC0 then
         io_bind read_byte (\<lambda>b1. io_bind read_byte (\<lambda>b2.
           io_return (push_bit 16 (b0 AND 0x1F) OR push_bit 8 (uint b1) OR uint b2)))
       else if b0 AND 0xF0 = 0xE0 then
         io_bind read_byte (\<lambda>b1. io_bind read_byte (\<lambda>b2. io_bind read_byte (\<lambda>b3.
           io_return (push_bit 24 (b0 AND 0x0F) OR push_bit 16 (uint b1) OR push_bit 8 (uint b2) OR uint b3))))
       else if b0 = 0xF0 then
         io_bind read_byte (\<lambda>b1. io_bind read_byte (\<lambda>b2. io_bind read_byte (\<lambda>b3. io_bind read_byte (\<lambda>b4.
           io_return (push_bit 24 (uint b1) OR push_bit 16 (uint b2) OR push_bit 8 (uint b3) OR uint b4)))))
       else io_raise ProtocolError)"

definition decode_length :: "int io" where
  "decode_length = io_bind read_byte length_tail"

section \<open>Words and sentences\<close>

definition encode_word :: "byte list \<Rightarrow> mt_error + byte list" where
  "encode_word w = (case encode_length (int (length w)) of Inl e \<Rightarrow> Inl e | Inr bs \<Rightarrow> Inr (bs @ w))"

fun encode_sentence :: "byte list list \<Rightarrow> mt_error + byte list" where
  "encode_sentence [] = encode_length 0"
| "encode_sentence (w # ws) =
     (case encode_word w of
        Inl e \<Rightarrow> Inl e
      | Inr bs \<Rightarrow> (case encode_sentence ws of Inl e \<Rightarrow> Inl e | Inr rest \<Rightarrow> Inr (bs @ rest)))"

primrec read_bytes :: "nat \<Rightarrow> byte list io" where
  "read_bytes 0 = io_return []"
| "read_bytes (Suc n) = io_bind read_byte (\<lambda>b. io_bind (read_bytes n) (\<lambda>bs. io_return (b # bs)))"

definition decode_word :: "byte list option io" where
  "decode_word =
     io_bind decode_length (\<lambda>n.
       if n = 0 then io_return None else io_bind (read_bytes (nat n)) (\<lambda>bs. io_return (Some bs)))"

partial_function (option) decode_sentence :: "byte list list \<Rightarrow> conn \<Rightarrow> ((mt_error + byte list list) \<times> conn) option" where
  "decode_sentence words c =
     (case decode_word c of
        (Inl e, c1) \<Rightarrow> Some (Inl e, c1)
      | (Inr w, c1) \<Rightarrow> (case w of None \<Rightarrow> Some (Inr words, c1) | Some bs \<Rightarrow> decode_sentence (words @ [bs]) c1))"

section \<open>The parts of a sentence\<close>

definition dict_put :: "string \<Rightarrow> word_dict \<Rightarrow> word_dict" where
  "dict_put body m = (case split_first (CHR ''='') body of None \<Rightarrow> m(body \<mapsto> []) | Some (k, v) \<Rightarrow> m(k \<mapsto> v))"

definition add_word :: "byte list \<Rightarrow> sentence \<Rightarrow> sentence" where
  "add_word w s =
     (case bytes_text w of
        [] \<Rightarrow> s\<lparr>se_extras := se_extras s @ [[]]\<rparr>
      | c # body \<Rightarrow>
          if c = CHR ''!'' then s\<lparr>se_reply := Some (c # body)\<rparr>
          else if c = CHR ''='' then s\<lparr>se_attrs := dict_put body (se_attrs s)\<rparr>
          else if c = CHR ''.'' then s\<lparr>se_api := dict_put body (se_api s)\<rparr>
          else s\<lparr>se_extras := se_extras s @ [c # body]\<rparr>)"

definition no_words :: sentence where
  "no_words = \<lparr>se_reply = None, se_attrs = Map.empty, se_api = Map.empty, se_extras = []\<rparr>"

definition words_to_dict :: "byte list list \<Rightarrow> sentence" where
  "words_to_dict ws = fold add_word ws no_words"

definition build_attr :: "string \<Rightarrow> string \<Rightarrow> string" where
  "build_attr k v = ''='' @ k @ ''='' @ v"

definition build_api_attr :: "string \<Rightarrow> string \<Rightarrow> string" where
  "build_api_attr k v = ''.'' @ k @ ''='' @ v"

definition build_query :: "string \<Rightarrow> string option \<Rightarrow> string \<Rightarrow> string" where
  "build_query name value oper =
     (if oper = ''-'' then ''?-'' @ name
      else if oper = ''#'' then ''?#'' @ name
      else (case value of
              None \<Rightarrow> ''?'' @ name
            | Some v \<Rightarrow> if oper = ''='' then ''?='' @ name @ ''='' @ v else ''?'' @ oper @ name @ ''='' @ v))"

section \<open>The exchange\<close>

definition send :: "byte list list \<Rightarrow> unit io" where
  "send ws c =
     (if \<not> cn_open c then (Inl (ConnectError ''closed''), c)
      else (case encode_sentence ws of
              Inl e \<Rightarrow> (Inl e, c)
            | Inr bs \<Rightarrow> if cn_broken c then (Inl (ConnectError ''send''), c) else (Inr (), c\<lparr>cn_out := cn_out c @ bs\<rparr>)))"

definition recv_sentence :: "conn \<Rightarrow> ((mt_error + sentence) \<times> conn) option" where
  "recv_sentence c = map_option (\<lambda>(r, c1). (map_sum id words_to_dict r, c1)) (decode_sentence [] c)"

definition get_attr :: "sentence \<Rightarrow> string \<Rightarrow> string \<Rightarrow> string" where
  "get_attr s k d = (case se_attrs s k of None \<Rightarrow> d | Some v \<Rightarrow> v)"

definition trap_category :: "sentence \<Rightarrow> int option" where
  "trap_category s =
     (case se_attrs s ''category'' of
        None \<Rightarrow> None
      | Some v \<Rightarrow> if str_isdigit v then parse_int v else None)"

definition finish_exchange :: "sentence option \<Rightarrow> sentence list \<Rightarrow> mt_error + sentence list" where
  "finish_exchange trap out =
     (case trap of
        None \<Rightarrow> Inr out
      | Some t \<Rightarrow> Inl (MikrotikTrap (get_attr t ''message'' ''trap'') (trap_category t) t))"

partial_function (option) replies ::
    "sentence option \<Rightarrow> sentence list \<Rightarrow> conn \<Rightarrow> ((mt_error + sentence list) \<times> conn) option" where
  "replies trap out c =
     (case recv_sentence c of
        None \<Rightarrow> None
      | Some (r, c1) \<Rightarrow>
          (case r of
             Inl e \<Rightarrow> Some (Inl e, c1)
           | Inr s \<Rightarrow>
               (case se_reply s of
                  None \<Rightarrow> Some (Inl ProtocolError, c1)
                | Some rep \<Rightarrow>
                    if rep = ''!trap'' then replies (Some s) (out @ [s]) c1
                    else if rep = ''!fatal'' then Some (Inl (ConnectError (get_attr s ''message'' ''!fatal'')), c1)
                    else if rep = ''!done'' then Some (finish_exchange trap (out @ [s]), c1)
                    else replies trap (out @ [s]) c1)))"

definition exchange :: "byte list list \<Rightarrow> string option \<Rightarrow> conn \<Rightarrow> ((mt_error + sentence list) \<times> conn) option" where
  "exchange ws tag c =
     (let ws' = (case tag of None \<Rightarrow> ws | Some t \<Rightarrow> ws @ [text_bytes (build_api_attr ''tag'' t)]) in
      case send ws' c of
        (Inl e, c1) \<Rightarrow> Some (Inl e, c1)
      | (Inr _, c1) \<Rightarrow> replies None [] c1)"

section \<open>Commands\<close>

definition login_words :: "string \<Rightarrow> string \<Rightarrow> byte list list" where
  "login_words u p = map text_bytes [''/login'', build_attr ''name'' u, build_attr ''password'' p]"

definition login_result :: "mt_error + sentence list \<Rightarrow> mt_error + unit" where
  "login_result r =
     (case r of
        Inl (MikrotikTrap m _ _) \<Rightarrow> Inl (AuthError m)
      | Inl e \<Rightarrow> Inl e
      | Inr ss \<Rightarrow> if \<exists>s \<in> set ss. se_reply s = Some ''!done'' then Inr () else Inl (AuthError ''login''))"

definition login :: "string \<Rightarrow> string \<Rightarrow> conn \<Rightarrow> ((mt_error + unit) \<times> conn) option" where
  "login u p c = map_option (\<lambda>(r, c1). (login_result r, c1)) (exchange (login_words u p) None c)"

definition run_command ::
    "string \<Rightarrow> (string \<times> string) list \<Rightarrow> string list \<Rightarrow> conn \<Rightarrow> ((mt_error + sentence list) \<times> conn) option" where
  "run_command cmd attrs queries c =
     exchange (map text_bytes (cmd # map (\<lambda>(k, v). build_attr k v) attrs @ queries)) None c"

definition data_rows :: "sentence list \<Rightarrow> word_dict list" where
  "data_rows ss = map se_attrs (filter (\<lambda>s. se_reply s = Some ''!re'') ss)"

definition print_rows ::
    "string \<Rightarrow> string list \<Rightarrow> string list \<Rightarrow> conn \<Rightarrow> ((mt_error + word_dict list) \<times> conn) option" where
  "print_rows path proplist queries c =
     map_option (\<lambda>(r, c1). (map_sum id data_rows r, c1))
       (run_command path (if proplist = [] then [] else [(''.proplist'', join_with '','' proplist)]) queries c)"

definition healthcheck :: "conn \<Rightarrow> (bool \<times> conn) option" where
  "healthcheck c =
     map_option (\<lambda>(r, c1). (\<not> isl r, c1)) (print_rows ''/system/identity/print'' [] [] c)"

end
