(* ===== verification/RouterOsProperties.thy ===== *)
theory RouterOsProperties
  imports RouterOsProtocol
begin

text \<open>
  What the RouterOS client guarantees: what was encoded is decoded whatever follows it, both reading loops return on
  every stream, an exchange returns the sentences up to \<open>!done\<close>, and no value can be taken for another word.
\<close>

section \<open>Lengths\<close>

lemma mask_classes:
  "0 \<le> x \<Longrightarrow> x < 64 \<Longrightarrow> (0x80 + x) AND 0xC0 = 0x80 \<and> (0x80 + x) AND 0x3F = (x :: int)"
  "0 \<le> x \<Longrightarrow> x < 32 \<Longrightarrow> (0xC0 + x) AND 0xC0 = 0xC0 \<and> (0xC0 + x) AND 0xE0 = 0xC0 \<and> (0xC0 + x) AND 0x1F = (x :: int)"
  "0 \<le> x \<Longrightarrow> x < 16 \<Longrightarrow> (0xE0 + x) AND 0xC0 = 0xC0 \<and> (0xE0 + x) AND 0xE0 = 0xE0 \<and> (0xE0 + x) AND 0xF0 = 0xE0 \<and>
     (0xE0 + x) AND 0x0F = (x :: int)"
proof -
  have "\<forall>x \<in> set [0..63]. (0x80 + x) AND 0xC0 = 0x80 \<and> (0x80 + x) AND 0x3F = (x :: int)" by code_simp
  then show "0 \<le> x \<Longrightarrow> x < 64 \<Longrightarrow> (0x80 + x) AND 0xC0 = 0x80 \<and> (0x80 + x) AND 0x3F = (x :: int)" by simp
  have "\<forall>x \<in> set [0..31]. (0xC0 + x) AND 0xC0 = 0xC0 \<and> (0xC0 + x) AND 0xE0 = 0xC0 \<and> (0xC0 + x) AND 0x1F = (x :: int)"
    by code_simp
  then show "0 \<le> x \<Longrightarrow> x < 32 \<Longrightarrow>
      (0xC0 + x) AND 0xC0 = 0xC0 \<and> (0xC0 + x) AND 0xE0 = 0xC0 \<and> (0xC0 + x) AND 0x1F = (x :: int)" by simp
  have "\<forall>x \<in> set [0..15]. (0xE0 + x) AND 0xC0 = 0xC0 \<and> (0xE0 + x) AND 0xE0 = 0xE0 \<and> (0xE0 + x) AND 0xF0 = 0xE0 \<and>
      (0xE0 + x) AND 0x0F = (x :: int)" by code_simp
  then show "0 \<le> x \<Longrightarrow> x < 16 \<Longrightarrow> (0xE0 + x) AND 0xC0 = 0xC0 \<and> (0xE0 + x) AND 0xE0 = 0xE0 \<and> (0xE0 + x) AND 0xF0 = 0xE0 \<and>
      (0xE0 + x) AND 0x0F = (x :: int)" by simp
qed

lemma or_prefix: "0 \<le> n \<Longrightarrow> n < 2 ^ k \<Longrightarrow> n OR push_bit k p = p * 2 ^ k + (n :: int)"
  using or_disjoint [of n k p] by (simp add: or.commute)

lemma length_prefixes:
  "0 \<le> n \<Longrightarrow> n < 0x4000 \<Longrightarrow> n OR 0x8000 = 0x8000 + (n :: int)"
  "0 \<le> n \<Longrightarrow> n < 0x200000 \<Longrightarrow> n OR 0xC00000 = 0xC00000 + (n :: int)"
  "0 \<le> n \<Longrightarrow> n < 0x10000000 \<Longrightarrow> n OR 0xE0000000 = 0xE0000000 + (n :: int)"
  using or_prefix [of n 14 2] or_prefix [of n 21 6] or_prefix [of n 28 14] by (simp_all add: push_bit_eq_mult)

lemma push_bytes:
  "push_bit 16 x OR push_bit 8 (uint (b :: byte)) OR uint (c :: byte) = (x * 256 + uint b) * 256 + uint c"
  "push_bit 24 x OR push_bit 16 (uint b) OR push_bit 8 (uint c) OR uint (d :: byte) =
     ((x * 256 + uint b) * 256 + uint c) * 256 + uint d"
proof -
  have "push_bit 16 x OR push_bit 8 (uint b) OR uint c = push_bit 8 (push_bit 8 x OR uint b) OR uint c"
    by (simp add: push_bit_or or.assoc)
  then show 1: "push_bit 16 x OR push_bit 8 (uint b) OR uint c = (x * 256 + uint b) * 256 + uint c" by (simp only: push_byte)
  have "push_bit 24 x OR push_bit 16 (uint b) OR push_bit 8 (uint c) OR uint d =
      push_bit 8 (push_bit 16 x OR push_bit 8 (uint b) OR uint c) OR uint d"
    by (simp add: push_bit_or or.assoc)
  then show "push_bit 24 x OR push_bit 16 (uint b) OR push_bit 8 (uint c) OR uint d =
     ((x * 256 + uint b) * 256 + uint c) * 256 + uint d" by (simp only: 1) (simp only: push_byte)
qed

lemma to_bytes_numeral:
  "to_bytes 2 v = [word_of_int (v div 256), word_of_int v]"
  "to_bytes 3 v = [word_of_int (v div 256 div 256), word_of_int (v div 256), word_of_int v]"
  "to_bytes 4 v = [word_of_int (v div 256 div 256 div 256), word_of_int (v div 256 div 256), word_of_int (v div 256), word_of_int v]"
  by (simp_all add: numeral_eq_Suc)

lemma read_byte_Cons [simp]:
  "cn_open c \<Longrightarrow> cn_in c = b # bs \<Longrightarrow> io_bind read_byte f c = f b (c\<lparr>cn_in := bs\<rparr>)"
  by (simp add: io_bind_def read_byte_def)

lemma io_return_simp [simp]: "io_return x c = (Inr x, c)"
  by (simp add: io_return_def)

text \<open>The five forms of a length, by the value of the first byte.\<close>

lemma decode_length_1: "cn_open c \<Longrightarrow> cn_in c = w # rest \<Longrightarrow> uint w < 0x80 \<Longrightarrow> decode_length c = (Inr (uint w), c\<lparr>cn_in := rest\<rparr>)"
  by (simp add: decode_length_def length_tail_def Let_def)

lemma decode_length_2:
  assumes "cn_open c" "cn_in c = w # b1 # rest" "uint w = 0x80 + x" "0 \<le> x" "x < 64"
  shows "decode_length c = (Inr (x * 256 + uint b1), c\<lparr>cn_in := rest\<rparr>)"
  using assms mask_classes(1) [OF assms(4,5)] push_byte [of x b1] by (simp add: decode_length_def length_tail_def Let_def)

lemma decode_length_3:
  assumes "cn_open c" "cn_in c = w # b1 # b2 # rest" "uint w = 0xC0 + x" "0 \<le> x" "x < 32"
  shows "decode_length c = (Inr ((x * 256 + uint b1) * 256 + uint b2), c\<lparr>cn_in := rest\<rparr>)"
  using assms mask_classes(2) [OF assms(4,5)] push_bytes(1) [of x b1 b2] by (simp add: decode_length_def length_tail_def Let_def)

lemma decode_length_4:
  assumes "cn_open c" "cn_in c = w # b1 # b2 # b3 # rest" "uint w = 0xE0 + x" "0 \<le> x" "x < 16"
  shows "decode_length c = (Inr (((x * 256 + uint b1) * 256 + uint b2) * 256 + uint b3), c\<lparr>cn_in := rest\<rparr>)"
  using assms mask_classes(3) [OF assms(4,5)] push_bytes(2) [of x b1 b2 b3] by (simp add: decode_length_def length_tail_def Let_def)

lemma decode_length_5:
  assumes "cn_open c" "cn_in c = 0xF0 # b1 # b2 # b3 # b4 # rest"
  shows "decode_length c = (Inr (((uint b1 * 256 + uint b2) * 256 + uint b3) * 256 + uint b4), c\<lparr>cn_in := rest\<rparr>)"
  using assms push_bytes(2) [of "uint b1" b2 b3 b4] by (simp add: decode_length_def length_tail_def Let_def)

lemma shift_256: "(k * 256 + n) mod 256 = n mod (256 :: int) \<and> (k * 256 + n) div 256 = k + n div (256 :: int)"
  by simp

lemma prefix_split:
  "(0x8000 + n) mod 256 = n mod (256 :: int)" "(0x8000 + n) div 256 = 0x80 + n div (256 :: int)"
  "(0xC00000 + n) mod 256 = n mod (256 :: int)" "(0xC00000 + n) div 256 = 0xC000 + n div (256 :: int)"
  "(0xC000 + n) mod 256 = n mod (256 :: int)" "(0xC000 + n) div 256 = 0xC0 + n div (256 :: int)"
  "(0xE0000000 + n) mod 256 = n mod (256 :: int)" "(0xE0000000 + n) div 256 = 0xE00000 + n div (256 :: int)"
  "(0xE00000 + n) mod 256 = n mod (256 :: int)" "(0xE00000 + n) div 256 = 0xE000 + n div (256 :: int)"
  "(0xE000 + n) mod 256 = n mod (256 :: int)" "(0xE000 + n) div 256 = 0xE0 + n div (256 :: int)"
  using shift_256 [of "0x80" n] shift_256 [of "0xC000" n] shift_256 [of "0xC0" n]
    shift_256 [of "0xE00000" n] shift_256 [of "0xE000" n] shift_256 [of "0xE0" n] by simp_all

lemma decode_encode_length:
  assumes "encode_length n = Inr bs" "cn_open c" "cn_in c = bs @ rest"
  shows "decode_length c = (Inr n, c\<lparr>cn_in := rest\<rparr>)"
proof -
  consider "0 \<le> n" "n < 0x80" "bs = [word_of_int n]" | "0x80 \<le> n" "n < 0x4000" "bs = to_bytes 2 (0x8000 + n)"
    | "0x4000 \<le> n" "n < 0x200000" "bs = to_bytes 3 (0xC00000 + n)"
    | "0x200000 \<le> n" "n < 0x10000000" "bs = to_bytes 4 (0xE0000000 + n)"
    | "0x10000000 \<le> n" "n < 2 ^ 32" "bs = 0xF0 # to_bytes 4 n"
    using assms(1) by (auto simp: encode_length_def length_prefixes split: if_splits)
  then show ?thesis
  proof cases
    case 1
    with assms show ?thesis using decode_length_1 [of c "word_of_int n" rest] by simp
  next
    case 2
    let ?v = "0x8000 + n"
    have u: "uint (word_of_int (?v div 256) :: byte) = 0x80 + n div 256" "uint (word_of_int ?v :: byte) = n mod 256"
      and x: "0 \<le> n div 256" "n div 256 < 64"
      using 2 by (simp_all only: uint_of_int_byte prefix_split) simp_all
    have c: "cn_in c = word_of_int (?v div 256) # word_of_int ?v # rest"
      by (simp only: assms(3) 2(3) to_bytes_numeral append_Cons append_Nil)
    from decode_length_2 [OF assms(2) c u(1) x] show ?thesis by (simp only: u(2) div_mult_mod_eq)
  next
    case 3
    let ?v = "0xC00000 + n"
    have u: "uint (word_of_int (?v div 256 div 256) :: byte) = 0xC0 + n div 256 div 256"
      "uint (word_of_int (?v div 256) :: byte) = n div 256 mod 256" "uint (word_of_int ?v :: byte) = n mod 256"
      and x: "0 \<le> n div 256 div 256" "n div 256 div 256 < 32"
      using 3 by (simp_all only: uint_of_int_byte prefix_split) simp_all
    have c: "cn_in c = word_of_int (?v div 256 div 256) # word_of_int (?v div 256) # word_of_int ?v # rest"
      by (simp only: assms(3) 3(3) to_bytes_numeral append_Cons append_Nil)
    from decode_length_3 [OF assms(2) c u(1) x] show ?thesis by (simp only: u(2,3) div_mult_mod_eq)
  next
    case 4
    let ?v = "0xE0000000 + n"
    have u: "uint (word_of_int (?v div 256 div 256 div 256) :: byte) = 0xE0 + n div 256 div 256 div 256"
      "uint (word_of_int (?v div 256 div 256) :: byte) = n div 256 div 256 mod 256"
      "uint (word_of_int (?v div 256) :: byte) = n div 256 mod 256" "uint (word_of_int ?v :: byte) = n mod 256"
      and x: "0 \<le> n div 256 div 256 div 256" "n div 256 div 256 div 256 < 16"
      using 4 by (simp_all only: uint_of_int_byte prefix_split) simp_all
    have c: "cn_in c = word_of_int (?v div 256 div 256 div 256) # word_of_int (?v div 256 div 256) # word_of_int (?v div 256) #
        word_of_int ?v # rest"
      by (simp only: assms(3) 4(3) to_bytes_numeral append_Cons append_Nil)
    from decode_length_4 [OF assms(2) c u(1) x] show ?thesis by (simp only: u(2-4) div_mult_mod_eq)
  next
    case 5
    have u: "uint (word_of_int (n div 256 div 256 div 256) :: byte) = n div 256 div 256 div 256"
      using 5 by (simp only: uint_of_int_byte) simp
    have c: "cn_in c = 0xF0 # word_of_int (n div 256 div 256 div 256) # word_of_int (n div 256 div 256) # word_of_int (n div 256) #
        word_of_int n # rest"
      by (simp only: assms(3) 5(3) to_bytes_numeral append_Cons append_Nil)
    from decode_length_5 [OF assms(2) c] show ?thesis by (simp only: u) (simp only: uint_of_int_byte div_mult_mod_eq)
  qed
qed

section \<open>Words and sentences\<close>

lemma io_bind_Inr: "m c = (Inr x, c1) \<Longrightarrow> io_bind m f c = f x c1"
  by (simp add: io_bind_def)

lemma decode_read_bytes: "cn_open c \<Longrightarrow> cn_in c = w @ rest \<Longrightarrow> read_bytes (length w) c = (Inr w, c\<lparr>cn_in := rest\<rparr>)"
proof (induction w arbitrary: c)
  case (Cons b w)
  then show ?case using Cons.IH [of "c\<lparr>cn_in := w @ rest\<rparr>"] by (simp add: io_bind_Inr)
qed simp

lemma decode_encode_word:
  assumes "encode_word w = Inr bs" "cn_open c" "cn_in c = bs @ rest"
  shows "decode_word c = (Inr (if w = [] then None else Some w), c\<lparr>cn_in := rest\<rparr>)"
proof -
  obtain ls where l: "encode_length (int (length w)) = Inr ls" "bs = ls @ w"
    using assms(1) by (auto simp: encode_word_def split: sum.splits)
  have "decode_length c = (Inr (int (length w)), c\<lparr>cn_in := w @ rest\<rparr>)"
    using decode_encode_length [OF l(1) assms(2), of "w @ rest"] assms(3) l(2) by simp
  moreover have "read_bytes (length w) (c\<lparr>cn_in := w @ rest\<rparr>) = (Inr w, c\<lparr>cn_in := rest\<rparr>)"
    using decode_read_bytes [of "c\<lparr>cn_in := w @ rest\<rparr>" w rest] assms(2) by simp
  ultimately show ?thesis by (simp add: decode_word_def io_bind_Inr)
qed

lemma decode_terminator: "cn_open c \<Longrightarrow> cn_in c = 0 # rest \<Longrightarrow> decode_word c = (Inr None, c\<lparr>cn_in := rest\<rparr>)"
  using decode_encode_word [of "[]" "[0]" c rest] by (simp add: encode_word_def encode_length_def)

lemma decode_sentence_word:
  "decode_word c = (Inr (Some w), c1) \<Longrightarrow> decode_sentence ws c = decode_sentence (ws @ [w]) c1"
  "decode_word c = (Inr None, c1) \<Longrightarrow> decode_sentence ws c = Some (Inr ws, c1)"
  "decode_word c = (Inl e, c1) \<Longrightarrow> decode_sentence ws c = Some (Inl e, c1)"
  by (subst decode_sentence.simps, simp)+

lemma decode_encode_sentence:
  assumes "encode_sentence ws = Inr bs" "[] \<notin> set ws" "cn_open c" "cn_in c = bs @ rest"
  shows "decode_sentence acc c = Some (Inr (acc @ ws), c\<lparr>cn_in := rest\<rparr>)"
  using assms
proof (induction ws arbitrary: acc bs c)
  case Nil
  then have "decode_word c = (Inr None, c\<lparr>cn_in := rest\<rparr>)" by (intro decode_terminator) (simp_all add: encode_length_def)
  then show ?case by (simp add: decode_sentence_word)
next
  case (Cons w ws)
  then obtain b1 b2 where b: "encode_word w = Inr b1" "encode_sentence ws = Inr b2" "bs = b1 @ b2"
    by (auto split: sum.splits)
  have "decode_word c = (Inr (Some w), c\<lparr>cn_in := b2 @ rest\<rparr>)"
    using decode_encode_word [OF b(1) Cons.prems(3), of "b2 @ rest"] Cons.prems b(3) by auto
  then show ?case
    using Cons.IH [OF b(2), of "c\<lparr>cn_in := b2 @ rest\<rparr>" "acc @ [w]"] Cons.prems by (simp add: decode_sentence_word)
qed

text \<open>C14. A sentence survives the wire: what \<open>encode_sentence\<close> writes for words that are not empty (each shorter than
  $2^{32}$ bytes, or it raises) is read back word for word, whatever bytes follow, and the reader stops at the last byte
  of the sentence.\<close>

theorem sentence_roundtrip:
  assumes "encode_sentence ws = Inr bs" "[] \<notin> set ws" "cn_open c" "cn_in c = bs @ rest"
  shows "decode_sentence [] c = Some (Inr ws, c\<lparr>cn_in := rest\<rparr>)"
  using decode_encode_sentence [OF assms, of "[]"] by simp

text \<open>An empty word closes the sentence early: the words behind it are read as a sentence of their own.\<close>

lemma empty_word_splits:
  assumes "encode_sentence (ws1 @ [] # ws2) = Inr bs" "[] \<notin> set ws1" "cn_open c" "cn_in c = bs"
  shows "\<exists>rest. encode_sentence ws2 = Inr rest \<and> decode_sentence [] c = Some (Inr ws1, c\<lparr>cn_in := rest\<rparr>)"
proof -
  have "\<exists>b1 rest. encode_sentence ws1 = Inr b1 \<and> encode_sentence ws2 = Inr rest \<and> bs = b1 @ rest"
    using assms(1)
  proof (induction ws1 arbitrary: bs)
    case Nil
    then show ?case by (auto simp: encode_word_def encode_length_def split: sum.splits)
  next
    case (Cons w ws1)
    then show ?case by (fastforce split: sum.splits)
  qed
  then show ?thesis using sentence_roundtrip [OF _ assms(2,3)] assms(4) by auto
qed

section \<open>Reading terminates\<close>

text \<open>Reading drops bytes from the front of the stream and changes nothing else.\<close>

definition read_on :: "conn \<Rightarrow> conn \<Rightarrow> bool" where
  "read_on c c' = (\<exists>n. c' = c\<lparr>cn_in := drop n (cn_in c)\<rparr>)"

lemma read_on_refl [simp]: "read_on c c"
  unfolding read_on_def by (rule exI [of _ 0]) simp

lemma read_on_trans: "read_on c c1 \<Longrightarrow> read_on c1 c2 \<Longrightarrow> read_on c c2"
  by (auto simp: read_on_def)

lemma read_on_length: "read_on c c' \<Longrightarrow> length (cn_in c') \<le> length (cn_in c)"
  by (auto simp: read_on_def)

definition reads :: "'a io \<Rightarrow> bool" where
  "reads m = (\<forall>c. read_on c (snd (m c)))"

lemma readsD: "reads m \<Longrightarrow> m c = (r, c1) \<Longrightarrow> read_on c c1"
  by (metis reads_def snd_conv)

lemma reads_return [simp]: "reads (Pair r)" "reads (io_return x)" "reads (io_raise e)"
  by (simp_all add: reads_def io_raise_def)

lemma reads_byte [simp]: "reads read_byte"
proof -
  have "read_on c (c\<lparr>cn_in := bs\<rparr>)" if "cn_in c = b # bs" for c b bs
    unfolding read_on_def using that by (intro exI [of _ 1]) simp
  then show ?thesis by (auto simp: reads_def read_byte_def split: list.split)
qed

lemma reads_bind [simp]: "reads m \<Longrightarrow> (\<And>x. reads (f x)) \<Longrightarrow> reads (io_bind m f)"
proof -
  assume m: "reads m" and f: "\<And>x. reads (f x)"
  have "read_on c (snd (io_bind m f c))" for c
  proof -
    obtain r c1 where r: "m c = (r, c1)" by fastforce
    with m have "read_on c c1" by (rule readsD)
    moreover have "read_on c1 (snd (f x c1))" for x using f by (simp add: reads_def)
    ultimately show ?thesis using r by (cases r) (auto simp: io_bind_def intro: read_on_trans)
  qed
  then show ?thesis by (simp add: reads_def)
qed

lemma reads_if [simp]: "reads m \<Longrightarrow> reads m' \<Longrightarrow> reads (if b then m else m')"
  by simp

lemma reads_bytes [simp]: "reads (read_bytes n)"
  by (induction n) simp_all

lemma decode_length_reads:
  assumes "decode_length c = (Inr n, c1)"
  shows "length (cn_in c1) < length (cn_in c)"
proof -
  have f: "reads (length_tail x)" for x by (simp add: length_tail_def Let_def)
  obtain b bs where b: "cn_open c" "cn_in c = b # bs"
    using assms by (auto simp: decode_length_def io_bind_def read_byte_def split: if_splits list.splits)
  then have "length_tail b (c\<lparr>cn_in := bs\<rparr>) = (Inr n, c1)" using assms by (simp add: decode_length_def)
  then have "read_on (c\<lparr>cn_in := bs\<rparr>) c1" using f readsD by metis
  then show ?thesis using read_on_length b by fastforce
qed

lemma reads_decode_length [simp]: "reads decode_length"
  by (simp add: decode_length_def length_tail_def Let_def)

lemma reads_decode_word [simp]: "reads decode_word"
  by (simp add: decode_word_def)

lemma decode_word_reads: "decode_word c = (Inr w, c1) \<Longrightarrow> length (cn_in c1) < length (cn_in c)"
proof -
  assume d: "decode_word c = (Inr w, c1)"
  then obtain n c2 where n: "decode_length c = (Inr n, c2)"
    by (auto simp: decode_word_def io_bind_def split: prod.splits sum.splits)
  let ?k = "\<lambda>n. if n = 0 then io_return None else io_bind (read_bytes (nat n)) (\<lambda>bs. io_return (Some bs))"
  have "io_bind decode_length ?k c = ?k n c2" using n by (rule io_bind_Inr)
  then have "?k n c2 = (Inr w, c1)" using d by (simp only: decode_word_def)
  moreover have "reads (?k n)" by simp
  ultimately have "read_on c2 c1" using readsD by metis
  then show ?thesis using read_on_length decode_length_reads [OF n] by fastforce
qed

lemma decode_sentence_returns:
  "\<exists>r c1. decode_sentence ws c = Some (r, c1) \<and> read_on c c1 \<and> (\<not> isl r \<longrightarrow> length (cn_in c1) < length (cn_in c))"
proof (induction "length (cn_in c)" arbitrary: ws c rule: less_induct)
  case less
  obtain r c1 where d: "decode_word c = (r, c1)" by fastforce
  then have o: "read_on c c1" by (intro readsD [OF reads_decode_word])
  show ?case
  proof (cases r)
    case (Inl e)
    with d o show ?thesis by (simp add: decode_sentence_word)
  next
    case (Inr w)
    with d have l: "length (cn_in c1) < length (cn_in c)" by (intro decode_word_reads) simp
    show ?thesis
    proof (cases w)
      case None
      with Inr d o l show ?thesis by (simp add: decode_sentence_word)
    next
      case (Some bs)
      obtain r2 c2 where "decode_sentence (ws @ [bs]) c1 = Some (r2, c2)" "read_on c1 c2" using less [OF l] by blast
      with Some Inr d o l show ?thesis
        using read_on_trans [OF o] read_on_length [of c1 c2] by (auto simp: decode_sentence_word)
    qed
  qed
qed

lemma recv_sentence_returns:
  "\<exists>r c1. recv_sentence c = Some (r, c1) \<and> read_on c c1 \<and> (\<not> isl r \<longrightarrow> length (cn_in c1) < length (cn_in c))"
proof -
  obtain r c1 where "decode_sentence [] c = Some (r, c1)" "read_on c c1" "\<not> isl r \<longrightarrow> length (cn_in c1) < length (cn_in c)"
    using decode_sentence_returns by blast
  then show ?thesis by (cases r) (auto simp: recv_sentence_def)
qed

lemma replies_returns: "\<exists>r c1. replies trap out c = Some (r, c1) \<and> read_on c c1"
proof (induction "length (cn_in c)" arbitrary: trap out c rule: less_induct)
  case less
  obtain r c1 where d: "recv_sentence c = Some (r, c1)" "read_on c c1" "\<not> isl r \<longrightarrow> length (cn_in c1) < length (cn_in c)"
    using recv_sentence_returns by blast
  have again: "\<exists>r2 c2. replies t ou c1 = Some (r2, c2) \<and> read_on c c2" if "r = Inr s" for t ou s
    using less [of c1 t ou] d(2,3) that read_on_trans by fastforce
  show ?case
  proof (cases r)
    case (Inl e)
    with d show ?thesis by (subst replies.simps) simp
  next
    case (Inr s)
    show ?thesis by (subst replies.simps) (use d Inr again [OF Inr] in \<open>auto split: option.splits\<close>)
  qed
qed

text \<open>Over any finite stream an exchange returns: the two unbounded reading loops come to a result, a reply or an error,
  after reading a prefix of what arrived. (A router that never stops sending sentences keeps the loop running; an endless
  stream is no value of the model.)\<close>

theorem exchange_returns:
  "\<exists>r c1 n. exchange ws tag c = Some (r, c1) \<and> cn_in c1 = drop n (cn_in c)"
proof -
  define w where "w = (case tag of None \<Rightarrow> ws | Some t \<Rightarrow> ws @ [text_bytes (build_api_attr ''tag'' t)])"
  obtain r c1 where s: "send w c = (r, c1)" by fastforce
  then have i: "cn_in c1 = cn_in c" by (auto simp: send_def split: if_splits sum.splits)
  show ?thesis
  proof (cases r)
    case (Inl e)
    with s i show ?thesis by (auto simp: exchange_def w_def [symmetric] Let_def intro: exI [of _ 0])
  next
    case (Inr u)
    obtain r2 c2 where "replies None [] c1 = Some (r2, c2)" "read_on c1 c2" using replies_returns by blast
    with s i Inr show ?thesis by (auto simp: exchange_def w_def [symmetric] Let_def read_on_def)
  qed
qed

section \<open>The reply of the router\<close>

fun encode_all :: "byte list list list \<Rightarrow> mt_error + byte list" where
  "encode_all [] = Inr []"
| "encode_all (s # ss) =
     (case encode_sentence s of
        Inl e \<Rightarrow> Inl e
      | Inr bs \<Rightarrow> (case encode_all ss of Inl e \<Rightarrow> Inl e | Inr rest \<Rightarrow> Inr (bs @ rest)))"

definition kind :: "byte list list \<Rightarrow> string option" where
  "kind ws = se_reply (words_to_dict ws)"

definition trap_of :: "byte list list list \<Rightarrow> sentence option \<Rightarrow> sentence option" where
  "trap_of ss t = fold (\<lambda>s t. if kind s = Some ''!trap'' then Some (words_to_dict s) else t) ss t"

text \<open>A sentence that does not end the reply.\<close>

definition goes_on :: "byte list list \<Rightarrow> bool" where
  "goes_on s = ([] \<notin> set s \<and> kind s \<notin> {None, Some ''!fatal'', Some ''!done''})"

lemma recv_encoded:
  assumes "encode_sentence s = Inr bs" "[] \<notin> set s" "cn_open c" "cn_in c = bs @ rest"
  shows "recv_sentence c = Some (Inr (words_to_dict s), c\<lparr>cn_in := rest\<rparr>)"
  using decode_encode_sentence [OF assms, of "[]"] by (simp add: recv_sentence_def)

lemma replies_read:
  assumes "encode_all (ss @ [fin]) = Inr bs" "\<forall>s \<in> set ss. goes_on s" "[] \<notin> set fin" "kind fin = Some ''!done''"
    and "cn_open c" "cn_in c = bs @ rest"
  shows "replies trap out c = Some (finish_exchange (trap_of ss trap) (out @ map words_to_dict (ss @ [fin])), c\<lparr>cn_in := rest\<rparr>)"
  using assms
proof (induction ss arbitrary: bs c trap out)
  case Nil
  then have "encode_sentence fin = Inr bs" by (auto split: sum.splits)
  with Nil have "recv_sentence c = Some (Inr (words_to_dict fin), c\<lparr>cn_in := rest\<rparr>)" by (intro recv_encoded)
  with Nil show ?case by (subst replies.simps) (simp add: kind_def trap_of_def)
next
  case (Cons s ss)
  then obtain b1 b2 where b: "encode_sentence s = Inr b1" "encode_all (ss @ [fin]) = Inr b2" "bs = b1 @ b2"
    by (auto split: sum.splits)
  have r: "recv_sentence c = Some (Inr (words_to_dict s), c\<lparr>cn_in := b2 @ rest\<rparr>)"
    using Cons.prems b by (intro recv_encoded) (simp_all add: goes_on_def)
  have IH: "replies t out' (c\<lparr>cn_in := b2 @ rest\<rparr>) =
      Some (finish_exchange (trap_of ss t) (out' @ map words_to_dict (ss @ [fin])), c\<lparr>cn_in := rest\<rparr>)" for t out'
    using Cons.IH [OF b(2), of "c\<lparr>cn_in := b2 @ rest\<rparr>" t out'] Cons.prems by simp
  obtain rep where "se_reply (words_to_dict s) = Some rep" "rep \<noteq> ''!fatal''" "rep \<noteq> ''!done''"
    using Cons.prems(2) by (auto simp: goes_on_def kind_def)
  then show ?case by (subst replies.simps) (simp add: r IH trap_of_def kind_def)
qed

text \<open>C15. An exchange sends its command as one sentence and returns exactly the sentences of the reply up to and
  including \<open>!done\<close>, or, if one of them was a trap, raises the last trap with its message and category once the whole
  reply was read; either way the stream stands at the first byte after the reply, so the next exchange finds its own.\<close>

theorem exchange_reads_reply:
  assumes "cn_open c" "\<not> cn_broken c" "encode_sentence ws = Inr w"
    and "encode_all (ss @ [fin]) = Inr bs" "\<forall>s \<in> set ss. goes_on s" "[] \<notin> set fin" "kind fin = Some ''!done''"
    and "cn_in c = bs @ rest"
  shows "exchange ws None c =
    Some (finish_exchange (trap_of ss None) (map words_to_dict (ss @ [fin])), c\<lparr>cn_in := rest, cn_out := cn_out c @ w\<rparr>)"
  using replies_read [OF assms(4-7), of "c\<lparr>cn_out := cn_out c @ w\<rparr>" rest None "[]"] assms(1-3,8)
  by (simp add: exchange_def send_def)

section \<open>No value is taken for another word\<close>

lemma split_first_key: "c \<notin> set k \<Longrightarrow> split_first c (k @ c # v) = Some (k, v)"
  by (induction k) auto

lemma add_attr:
  "CHR ''='' \<notin> set k \<Longrightarrow> add_word (text_bytes (build_attr k v)) s = s\<lparr>se_attrs := (se_attrs s)(k \<mapsto> v)\<rparr>"
  using split_first_key [of "CHR ''=''" k v] by (simp add: add_word_def build_attr_def dict_put_def del: text_bytes_simps(2))

lemma add_attrs:
  "\<forall>(k, v) \<in> set kvs. CHR ''='' \<notin> set k \<Longrightarrow>
   fold add_word (map (text_bytes \<circ> (\<lambda>(k, v). build_attr k v)) kvs) s = s\<lparr>se_attrs := se_attrs s ++ map_of (rev kvs)\<rparr>"
proof (induction kvs arbitrary: s)
  case (Cons kv kvs)
  obtain k v where kv: "kv = (k, v)" by fastforce
  have "(se_attrs s)(k \<mapsto> v) ++ map_of (rev kvs) = se_attrs s ++ (map_of (rev kvs @ [(k, v)]))"
    by (auto simp: fun_eq_iff map_add_def split: option.split)
  with Cons kv show ?case by (simp add: add_attr)
qed simp

text \<open>The words of a command arrive as they were meant: whatever text the values of its attributes hold (line ends,
  equal signs, slashes), the other end reads back the one command word and each attribute with its full value, the last
  one where a name occurs twice, and nothing else.\<close>

theorem command_attributes_roundtrip:
  assumes "encode_sentence (map text_bytes ((CHR ''/'' # cmd) # map (\<lambda>(k, v). build_attr k v) kvs)) = Inr bs"
    and "\<forall>(k, v) \<in> set kvs. CHR ''='' \<notin> set k" "cn_open c" "cn_in c = bs @ rest"
  shows "recv_sentence c = Some (Inr (no_words\<lparr>se_attrs := map_of (rev kvs), se_extras := [CHR ''/'' # cmd]\<rparr>), c\<lparr>cn_in := rest\<rparr>)"
proof -
  let ?ws = "map text_bytes ((CHR ''/'' # cmd) # map (\<lambda>(k, v). build_attr k v) kvs)"
  have "[] \<notin> set ?ws" by (auto simp: build_attr_def text_bytes_def)
  with assms have "recv_sentence c = Some (Inr (words_to_dict ?ws), c\<lparr>cn_in := rest\<rparr>)" by (intro recv_encoded)
  moreover have "add_word (text_bytes (CHR ''/'' # cmd)) no_words = no_words\<lparr>se_extras := [CHR ''/'' # cmd]\<rparr>"
    by (simp add: add_word_def no_words_def)
  ultimately show ?thesis using add_attrs [OF assms(2)] by (simp add: words_to_dict_def no_words_def)
qed

section \<open>Login\<close>

lemma finish_done: "finish_exchange trap out = Inr ss \<Longrightarrow> ss = out"
  by (auto simp: finish_exchange_def split: option.splits)

text \<open>An exchange that returns sentences ends with \<open>!done\<close>, so the last check of the login never fails: a login
  succeeds exactly when its exchange returns.\<close>

lemma replies_done:
  "replies trap out c = Some (Inr ss, c1) \<Longrightarrow> \<exists>s \<in> set ss. se_reply s = Some ''!done''"
proof (induction "length (cn_in c)" arbitrary: trap out c rule: less_induct)
  case less
  obtain r c2 where d: "recv_sentence c = Some (r, c2)" "\<not> isl r \<longrightarrow> length (cn_in c2) < length (cn_in c)"
    using recv_sentence_returns by blast
  show ?case
  proof (cases r)
    case (Inl e)
    with less.prems d show ?thesis by (subst (asm) replies.simps) simp
  next
    case (Inr s)
    with d have l: "length (cn_in c2) < length (cn_in c)" by simp
    show ?thesis using less.prems less.hyps [OF l]
      unfolding replies.simps [of trap out c] d(1) Inr by (auto split: option.splits if_splits dest!: finish_done)
  qed
qed

lemma login_result_Inr: "login_result r = Inr () \<longleftrightarrow> (\<exists>ss. r = Inr ss \<and> (\<exists>s \<in> set ss. se_reply s = Some ''!done''))"
  by (auto simp: login_result_def split: sum.splits mt_error.splits)

lemma login_succeeds:
  "login u p c = Some (Inr (), c1) \<longleftrightarrow> (\<exists>ss. exchange (login_words u p) None c = Some (Inr ss, c1))"
proof -
  have "\<exists>s \<in> set ss. se_reply s = Some ''!done''" if "exchange (login_words u p) None c = Some (Inr ss, c2)" for ss c2
    using that replies_done by (auto simp: exchange_def split: prod.splits sum.splits)
  then show ?thesis by (auto simp: login_def login_result_Inr)
qed

section \<open>Instances\<close>

definition on_wire :: "mt_error + byte list \<Rightarrow> byte list" where
  "on_wire r = (case r of Inl _ \<Rightarrow> [] | Inr bs \<Rightarrow> bs)"

lemma on_wire: "\<not> isl r \<Longrightarrow> r = Inr (on_wire r)"
  by (cases r) (simp_all add: on_wire_def)

definition reading_conn :: "byte list \<Rightarrow> conn" where
  "reading_conn bs = \<lparr>cn_open = True, cn_in = bs, cn_timeout = False, cn_broken = False, cn_out = []\<rparr>"

lemma reading_conn [simp]: "cn_open (reading_conn bs)" "\<not> cn_broken (reading_conn bs)" "cn_in (reading_conn bs) = bs"
  by (simp_all add: reading_conn_def)

definition re_words :: "byte list list" where "re_words = map text_bytes [''!re'', ''=a=b'']"
definition done_words :: "byte list list" where "done_words = [text_bytes ''!done'']"

theorem sentence_roundtrip_witness:
  "decode_sentence [] (reading_conn (on_wire (encode_sentence re_words) @ [7])) = Some (Inr re_words, reading_conn [7])"
proof -
  have "\<not> isl (encode_sentence re_words)" "[] \<notin> set re_words" by code_simp+
  from sentence_roundtrip [OF on_wire [OF this(1)] this(2), of "reading_conn (on_wire (encode_sentence re_words) @ [7])" "[7]"]
  show ?thesis by (simp add: reading_conn_def)
qed

theorem exchange_reads_reply_witness:
  "\<exists>bs c. exchange [text_bytes ''/x''] None (reading_conn (bs @ [9])) = Some (Inr (map words_to_dict [re_words, done_words]), c) \<and>
     cn_in c = [9]"
proof -
  have "\<not> isl (encode_sentence [text_bytes ''/x''])" "\<not> isl (encode_all ([re_words] @ [done_words]))" by code_simp+
  then obtain w bs where w: "encode_sentence [text_bytes ''/x''] = Inr w" "encode_all ([re_words] @ [done_words]) = Inr bs"
    by (metis on_wire)
  have "[] \<notin> set done_words" "[] \<notin> set re_words" "kind re_words = Some ''!re''" "kind done_words = Some ''!done''" by code_simp+
  then have k: "\<forall>s \<in> set [re_words]. goes_on s" "[] \<notin> set done_words" "kind done_words = Some ''!done''"
      "trap_of [re_words] None = None"
    by (simp_all add: goes_on_def trap_of_def)
  from exchange_reads_reply [OF _ _ w k(1-3), of "reading_conn (bs @ [9])" "[9]"] show ?thesis
    unfolding k(4) by (intro exI [of _ bs]) (simp add: finish_exchange_def)
qed

theorem command_attributes_roundtrip_witness:
  "\<exists>bs c. recv_sentence (reading_conn bs) = Some (Inr (no_words\<lparr>se_attrs := [''k'' \<mapsto> ''v=!''], se_extras := [''/x'']\<rparr>), c)"
proof -
  let ?e = "encode_sentence (map text_bytes (''/x'' # map (\<lambda>(k, v). build_attr k v) [(''k'', ''v=!'')]))"
  have "\<not> isl ?e" "\<forall>(k, v) \<in> set [(''k'', ''v=!'')]. CHR ''='' \<notin> set k" by code_simp+
  from command_attributes_roundtrip [OF on_wire [OF this(1)] this(2), of "reading_conn (on_wire ?e)" "[]"] show ?thesis by auto
qed

end
