(* ===== verification/Digest.thy ===== *)
theory Digest
  imports Bytes
begin

text \<open>
  \<open>hashlib.md5\<close> and \<open>hmac.new(key, message, md5)\<close> as RFC 1321 and RFC 2104 define them. The RADIUS code uses them for
  its authenticators and for hiding passwords. Test values of RFC 1321 close the theory.
\<close>

section \<open>MD5\<close>

type_synonym word32 = "32 word"

definition md5_consts :: "word32 list" where
  "md5_consts =
    [0xD76AA478, 0xE8C7B756, 0x242070DB, 0xC1BDCEEE, 0xF57C0FAF, 0x4787C62A, 0xA8304613, 0xFD469501,
     0x698098D8, 0x8B44F7AF, 0xFFFF5BB1, 0x895CD7BE, 0x6B901122, 0xFD987193, 0xA679438E, 0x49B40821,
     0xF61E2562, 0xC040B340, 0x265E5A51, 0xE9B6C7AA, 0xD62F105D, 0x02441453, 0xD8A1E681, 0xE7D3FBC8,
     0x21E1CDE6, 0xC33707D6, 0xF4D50D87, 0x455A14ED, 0xA9E3E905, 0xFCEFA3F8, 0x676F02D9, 0x8D2A4C8A,
     0xFFFA3942, 0x8771F681, 0x6D9D6122, 0xFDE5380C, 0xA4BEEA44, 0x4BDECFA9, 0xF6BB4B60, 0xBEBFBC70,
     0x289B7EC6, 0xEAA127FA, 0xD4EF3085, 0x04881D05, 0xD9D4D039, 0xE6DB99E5, 0x1FA27CF8, 0xC4AC5665,
     0xF4292244, 0x432AFF97, 0xAB9423A7, 0xFC93A039, 0x655B59C3, 0x8F0CCC92, 0xFFEFF47D, 0x85845DD1,
     0x6FA87E4F, 0xFE2CE6E0, 0xA3014314, 0x4E0811A1, 0xF7537E82, 0xBD3AF235, 0x2AD7D2BB, 0xEB86D391]"

definition md5_shifts :: "nat list" where
  "md5_shifts = concat (map (\<lambda>r. concat (replicate 4 r)) [[7, 12, 17, 22], [5, 9, 14, 20], [4, 11, 16, 23], [6, 10, 15, 21]])"

definition rotl :: "nat \<Rightarrow> word32 \<Rightarrow> word32" where
  "rotl n w = push_bit n w OR drop_bit (32 - n) w"

type_synonym md5_state = "word32 \<times> word32 \<times> word32 \<times> word32"

definition md5_init :: md5_state where
  "md5_init = (0x67452301, 0xEFCDAB89, 0x98BADCFE, 0x10325476)"

text \<open>The mixing function of a step and the word of the block it takes.\<close>

definition md5_mix :: "nat \<Rightarrow> word32 \<Rightarrow> word32 \<Rightarrow> word32 \<Rightarrow> word32" where
  "md5_mix i b c d =
     (if i < 16 then (b AND c) OR (NOT b AND d)
      else if i < 32 then (d AND b) OR (NOT d AND c)
      else if i < 48 then b XOR c XOR d
      else c XOR (b OR NOT d))"

definition md5_index :: "nat \<Rightarrow> nat" where
  "md5_index i =
     (if i < 16 then i else if i < 32 then (5 * i + 1) mod 16 else if i < 48 then (3 * i + 5) mod 16 else 7 * i mod 16)"

definition md5_step :: "word32 list \<Rightarrow> nat \<Rightarrow> md5_state \<Rightarrow> md5_state" where
  "md5_step m i s =
     (let (a, b, c, d) = s
      in (d, b + rotl (md5_shifts ! i) (a + md5_mix i b c d + md5_consts ! i + m ! md5_index i), b, c))"

fun chunks :: "nat \<Rightarrow> 'a list \<Rightarrow> 'a list list" where
  "chunks n xs = (if n = 0 \<or> xs = [] then [] else take n xs # chunks n (drop n xs))"

declare chunks.simps [simp del]

definition le_word :: "byte list \<Rightarrow> word32" where
  "le_word bs = word_of_int (of_bytes (rev bs))"

definition le_bytes :: "word32 \<Rightarrow> byte list" where
  "le_bytes w = rev (to_bytes 4 (uint w))"

definition md5_block :: "md5_state \<Rightarrow> byte list \<Rightarrow> md5_state" where
  "md5_block s block =
     (let (a, b, c, d) = s; (a', b', c', d') = fold (md5_step (map le_word (chunks 4 block))) [0..<64] s
      in (a + a', b + b', c + c', d + d'))"

definition md5_pad :: "byte list \<Rightarrow> byte list" where
  "md5_pad msg =
     msg @ [0x80] @ replicate ((119 - length msg mod 64) mod 64) 0 @ rev (to_bytes 8 (8 * int (length msg)))"

definition md5 :: "byte list \<Rightarrow> byte list" where
  "md5 msg =
     (let (a, b, c, d) = fold (\<lambda>blk s. md5_block s blk) (chunks 64 (md5_pad msg)) md5_init
      in le_bytes a @ le_bytes b @ le_bytes c @ le_bytes d)"

lemma length_md5 [simp]: "length (md5 msg) = 16"
  by (simp add: md5_def le_bytes_def Let_def split: prod.split)

section \<open>HMAC\<close>

definition hmac_pad :: "byte \<Rightarrow> byte list \<Rightarrow> byte list" where
  "hmac_pad x key = (let k = (if length key > 64 then md5 key else key) in map (\<lambda>b. b XOR x) (k @ replicate (64 - length k) 0))"

definition hmac_md5 :: "byte list \<Rightarrow> byte list \<Rightarrow> byte list" where
  "hmac_md5 key msg = md5 (hmac_pad 0x5C key @ md5 (hmac_pad 0x36 key @ msg))"

lemma length_hmac [simp]: "length (hmac_md5 key msg) = 16"
  by (simp add: hmac_md5_def)

section \<open>Test values\<close>

lemma md5_empty:
  "map uint (md5 []) = [0xd4, 0x1d, 0x8c, 0xd9, 0x8f, 0x00, 0xb2, 0x04, 0xe9, 0x80, 0x09, 0x98, 0xec, 0xf8, 0x42, 0x7e]"
  by code_simp

lemma md5_abc:
  "map uint (md5 (text_bytes ''abc'')) =
     [0x90, 0x01, 0x50, 0x98, 0x3c, 0xd2, 0x4f, 0xb0, 0xd6, 0x96, 0x3f, 0x7d, 0x28, 0xe1, 0x7f, 0x72]"
  by code_simp

end
