(* ===== verification/VpnAccounts.thy ===== *)
theory VpnAccounts
  imports Prelude
begin

text \<open>
  \<open>app/radius/services/vpn_account_service.py\<close>: the VPN accounts of a tenant, each in an allocation that the licence
  panel grants with a status, a speed and a greatest number of accounts. Passwords are stored encrypted by Fernet
  (\<open>cryptography\<close>), a parameter here: how it encrypts a text, and how it decrypts one or refuses. Passwords
  are ASCII here: on any other text \<open>hmac.compare_digest\<close> raises \<open>TypeError\<close>. The listing queries for the pages are not
  modelled.
\<close>

section \<open>Rows\<close>

record allocation =
  al_id :: int
  al_tenant_id :: int
  al_status :: string
  al_service_type :: string
  al_max_accounts :: int
  al_speed_limit_mbps :: int

record vpn_account =
  va_id :: int
  va_tenant_id :: int
  va_allocation_id :: int
  va_username :: string
  va_password_hash :: string
  va_display_name :: string
  va_max_concurrent :: int
  va_speed_limit_mbps :: "int option"
  va_status :: string

record vpn_db =
  allocations :: "allocation list"
  vpn_accounts :: "vpn_account list"
  service_audit_log :: "(int \<times> int \<times> string) list"

record fernet =
  fe_encrypt :: "string \<Rightarrow> string"
  fe_decrypt :: "string \<Rightarrow> string option"

text \<open>\<open>_decrypt\<close>: the empty text for what cannot be decrypted.\<close>

definition decrypt_text :: "fernet \<Rightarrow> string \<Rightarrow> string" where
  "decrypt_text f s = (case fe_decrypt f s of None \<Rightarrow> [] | Some t \<Rightarrow> t)"

section \<open>Creating an account\<close>

definition get_allocation :: "vpn_db \<Rightarrow> int \<Rightarrow> int \<Rightarrow> allocation option" where
  "get_allocation v tid aid = find (\<lambda>a. al_id a = aid \<and> al_tenant_id a = tid) (allocations v)"

definition active_in :: "int \<Rightarrow> int \<Rightarrow> vpn_account \<Rightarrow> bool" where
  "active_in tid aid a = (va_tenant_id a = tid \<and> va_allocation_id a = aid \<and> va_status a = ''active'')"

definition count_active_accounts :: "vpn_db \<Rightarrow> int \<Rightarrow> int \<Rightarrow> int" where
  "count_active_accounts v tid aid = int (length (filter (active_in tid aid) (vpn_accounts v)))"

definition next_account_id :: "vpn_db \<Rightarrow> int" where
  "next_account_id v = next_id (map va_id (vpn_accounts v))"

definition create_account ::
    "fernet \<Rightarrow> vpn_db \<Rightarrow> int \<Rightarrow> int \<Rightarrow> string \<Rightarrow> string \<Rightarrow> string \<Rightarrow> int \<Rightarrow> int option \<Rightarrow> (int \<times> vpn_db) res" where
  "create_account f v tid aid username0 raw_password display_name max_concurrent speed =
     (case get_allocation v tid aid of
        None \<Rightarrow> Inl ValueError
      | Some alloc \<Rightarrow>
          if al_status alloc \<notin> {''active'', ''pending''} then Inl ValueError
          else if al_max_accounts alloc > 0 \<and> count_active_accounts v tid aid \<ge> al_max_accounts alloc then Inl ValueError
          else
            let username = lower (strip username0) in
            if username = [] \<or> length username > 64 \<or> length raw_password < 8 then Inl ValueError
            else if \<exists>a \<in> set (vpn_accounts v). va_tenant_id a = tid \<and> va_username a = username \<and> va_allocation_id a = aid
            then Inl ValueError
            else
              let i = next_account_id v;
                  row = \<lparr>va_id = i, va_tenant_id = tid, va_allocation_id = aid, va_username = username,
                         va_password_hash = fe_encrypt f raw_password, va_display_name = or_default display_name username,
                         va_max_concurrent = max_concurrent, va_speed_limit_mbps = speed, va_status = ''active''\<rparr>
              in Inr (i, v\<lparr>vpn_accounts := vpn_accounts v @ [row],
                           service_audit_log := service_audit_log v @ [(tid, i, ''create'')]\<rparr>))"

section \<open>The status of an account\<close>

definition set_status :: "string \<Rightarrow> vpn_db \<Rightarrow> int \<Rightarrow> int \<Rightarrow> bool \<times> vpn_db" where
  "set_status st v tid i =
     (let hit = (\<lambda>a. va_id a = i \<and> va_tenant_id a = tid)
      in (\<exists>a \<in> set (vpn_accounts v). hit a,
          v\<lparr>vpn_accounts := map (\<lambda>a. if hit a then a\<lparr>va_status := st\<rparr> else a) (vpn_accounts v)\<rparr>))"

definition delete_account :: "vpn_db \<Rightarrow> int \<Rightarrow> int \<Rightarrow> bool \<times> vpn_db" where
  "delete_account v tid i =
     (let (ok, v1) = set_status ''expired'' v tid i
      in (ok, if ok then v1\<lparr>service_audit_log := service_audit_log v1 @ [(tid, i, ''delete'')]\<rparr> else v1))"

definition suspend_account :: "vpn_db \<Rightarrow> int \<Rightarrow> int \<Rightarrow> bool \<times> vpn_db" where
  "suspend_account = set_status ''suspended''"

definition activate_account :: "vpn_db \<Rightarrow> int \<Rightarrow> int \<Rightarrow> bool \<times> vpn_db" where
  "activate_account = set_status ''active''"

section \<open>Credentials for the RADIUS server\<close>

text \<open>The accounts joined with their allocation, where both are active. The queries have no \<open>ORDER BY\<close>: the first row in
  the order of the table.\<close>

definition joined_account :: "vpn_db \<Rightarrow> int \<Rightarrow> string \<Rightarrow> (vpn_account \<times> allocation) option" where
  "joined_account v tid u =
     find (\<lambda>_. True) (concat (map (\<lambda>a. map (\<lambda>al. (a, al)) (filter (\<lambda>al. al_id al = va_allocation_id a \<and> al_status al = ''active'') (allocations v)))
        (filter (\<lambda>a. va_tenant_id a = tid \<and> va_username a = u \<and> va_status a = ''active'') (vpn_accounts v))))"

definition verify_password_for_radius :: "fernet \<Rightarrow> vpn_db \<Rightarrow> int \<Rightarrow> string \<Rightarrow> string \<Rightarrow> (vpn_account \<times> allocation) option" where
  "verify_password_for_radius f v tid u raw =
     (case joined_account v tid u of
        None \<Rightarrow> None
      | Some (a, al) \<Rightarrow>
          let stored = decrypt_text f (va_password_hash a)
          in if stored = [] \<or> stored \<noteq> raw then None else Some (a, al))"

definition get_decrypted_password :: "fernet \<Rightarrow> vpn_db \<Rightarrow> int \<Rightarrow> string \<Rightarrow> string option" where
  "get_decrypted_password f v tid u =
     (case find (\<lambda>a. va_tenant_id a = tid \<and> va_username a = u \<and> va_status a = ''active'') (vpn_accounts v) of
        None \<Rightarrow> None
      | Some a \<Rightarrow> (let s = decrypt_text f (va_password_hash a) in if s = [] then None else Some s))"

section \<open>The limit of an allocation\<close>

definition keys_unique :: "vpn_db \<Rightarrow> bool" where
  "keys_unique v =
     (distinct (map va_id (vpn_accounts v)) \<and>
      distinct (map (\<lambda>a. (va_tenant_id a, va_username a, va_allocation_id a)) (vpn_accounts v)))"

lemma next_account_id_fresh: "a \<in> set (vpn_accounts v) \<Longrightarrow> va_id a < next_account_id v"
  unfolding next_account_id_def by (simp add: next_id_fresh)

text \<open>Creating an account: it succeeds only in an active or pending allocation with room, adds exactly one active row,
  under a fresh identifier and a user name that is lower case, not empty and new in the allocation, keeps both keys of
  the table, and the active accounts never exceed the limit of the allocation by it. An operator who reactivates a
  suspended account is not held to that limit.\<close>

theorem create_account_admits:
  assumes "create_account f v tid aid u pw dn mc sp = Inr (i, v')" "keys_unique v"
  shows "\<exists>al row. get_allocation v tid aid = Some al \<and> al_status al \<in> {''active'', ''pending''} \<and>
    vpn_accounts v' = vpn_accounts v @ [row] \<and> va_id row = i \<and> va_status row = ''active'' \<and>
    va_username row = lower (strip u) \<and> va_username row \<noteq> [] \<and> va_password_hash row = fe_encrypt f pw \<and>
    keys_unique v' \<and> count_active_accounts v' tid aid = count_active_accounts v tid aid + 1 \<and>
    (0 < al_max_accounts al \<longrightarrow> count_active_accounts v' tid aid \<le> al_max_accounts al)"
proof -
  obtain al where al: "get_allocation v tid aid = Some al"
    using assms(1) by (auto simp: create_account_def split: option.splits)
  define row where "row = \<lparr>va_id = next_account_id v, va_tenant_id = tid, va_allocation_id = aid, va_username = lower (strip u),
     va_password_hash = fe_encrypt f pw, va_display_name = or_default dn (lower (strip u)), va_max_concurrent = mc,
     va_speed_limit_mbps = sp, va_status = ''active''\<rparr>"
  have c: "al_status al \<in> {''active'', ''pending''}" "lower (strip u) \<noteq> []" "i = next_account_id v"
    "al_max_accounts al > 0 \<longrightarrow> count_active_accounts v tid aid < al_max_accounts al"
    "\<forall>a \<in> set (vpn_accounts v). \<not> (va_tenant_id a = tid \<and> va_username a = lower (strip u) \<and> va_allocation_id a = aid)"
    "vpn_accounts v' = vpn_accounts v @ [row]"
    using assms(1) al by (auto simp: create_account_def Let_def row_def split: if_splits)
  have "next_account_id v \<notin> va_id ` set (vpn_accounts v)" using next_account_id_fresh by fastforce
  then have k: "keys_unique v'" using assms(2) c(5,6) by (auto simp: keys_unique_def row_def)
  have n: "count_active_accounts v' tid aid = count_active_accounts v tid aid + 1"
    by (simp add: count_active_accounts_def c(6) active_in_def row_def)
  show ?thesis using al c k n by (intro exI [of _ al] exI [of _ row]) (auto simp: row_def)
qed

section \<open>Instances\<close>

definition plain_fernet :: fernet where
  "plain_fernet = \<lparr>fe_encrypt = (\<lambda>s. CHR ''#'' # s), fe_decrypt = (\<lambda>s. case s of [] \<Rightarrow> None | c # t \<Rightarrow> if c = CHR ''#'' then Some t else None)\<rparr>"

definition one_seat :: vpn_db where
  "one_seat = \<lparr>allocations = [\<lparr>al_id = 1, al_tenant_id = 1, al_status = ''active'', al_service_type = ''sstp'', al_max_accounts = 1,
     al_speed_limit_mbps = 5\<rparr>], vpn_accounts = [], service_audit_log = []\<rparr>"

definition made :: "(int \<times> vpn_db) res \<Rightarrow> vpn_db" where
  "made r = (case r of Inl _ \<Rightarrow> one_seat | Inr (_, v) \<Rightarrow> v)"

definition with_ali :: vpn_db where
  "with_ali = made (create_account plain_fernet one_seat 1 1 '' Ali'' ''password'' [] 1 None)"

theorem create_account_admits_witness: "count_active_accounts with_ali 1 1 = 1 \<and> keys_unique with_ali"
proof -
  have "\<not> isl (create_account plain_fernet one_seat 1 1 '' Ali'' ''password'' [] 1 None)" by code_simp
  then obtain i v where c: "create_account plain_fernet one_seat 1 1 '' Ali'' ''password'' [] 1 None = Inr (i, v)"
    by (metis sum.collapse(2) surj_pair)
  have "keys_unique one_seat" "count_active_accounts one_seat 1 1 = 0" by code_simp+
  with create_account_admits [OF c this(1)] c show ?thesis by (auto simp: with_ali_def made_def)
qed

text \<open>Suspend, create, reactivate: two active accounts where the allocation allows one.\<close>

lemma activation_exceeds_limit:
  "count_active_accounts
     (snd (activate_account (made (create_account plain_fernet (snd (suspend_account with_ali 1 1)) 1 1 ''b'' ''password'' [] 1 None)) 1 1))
     1 1 = 2"
  by code_simp

end
