(* ===== verification/RadiusServer.thy ===== *)
theory RadiusServer
  imports Digest VpnAccounts
begin

text \<open>
  \<open>app/radius/services/radius_auth_server.py\<close>: the RADIUS server of the VPN accounts. A datagram is parsed, the
  account's password is checked by PAP or MS-CHAPv2, and the reply is built with its authenticator. MD4 (which OpenSSL
  may refuse), SHA-1 and the DES of \<open>pycryptodome\<close> (which may be missing) are parameters; MD5 is \<open>Digest.md5\<close>. The
  sockets and the event loop are not modelled: a datagram goes in, the answer (if any) comes out. User names and
  passwords are ASCII texts.
\<close>

section \<open>Constants\<close>

definition ACCESS_REQUEST :: nat where "ACCESS_REQUEST = 1"
definition ACCESS_ACCEPT :: nat where "ACCESS_ACCEPT = 2"
definition ACCESS_REJECT :: nat where "ACCESS_REJECT = 3"
definition ACCOUNTING_REQUEST :: nat where "ACCOUNTING_REQUEST = 4"
definition ACCOUNTING_RESPONSE :: nat where "ACCOUNTING_RESPONSE = 5"
definition ATTR_USER_NAME :: nat where "ATTR_USER_NAME = 1"
definition ATTR_USER_PASSWORD :: nat where "ATTR_USER_PASSWORD = 2"
definition ATTR_SESSION_TIMEOUT :: nat where "ATTR_SESSION_TIMEOUT = 27"
definition ATTR_REPLY_MESSAGE :: nat where "ATTR_REPLY_MESSAGE = 18"
definition ATTR_VENDOR_SPECIFIC :: nat where "ATTR_VENDOR_SPECIFIC = 26"
definition ATTR_MS_CHAP_CHALLENGE :: nat where "ATTR_MS_CHAP_CHALLENGE = 60"
definition VENDOR_MIKROTIK :: int where "VENDOR_MIKROTIK = 14988"
definition MT_RATE_LIMIT :: nat where "MT_RATE_LIMIT = 8"
definition VENDOR_MICROSOFT :: int where "VENDOR_MICROSOFT = 311"
definition MS_CHAP2_RESPONSE :: nat where "MS_CHAP2_RESPONSE = 25"

lemmas radius_consts =
  ACCESS_REQUEST_def ACCESS_ACCEPT_def ACCESS_REJECT_def ACCOUNTING_REQUEST_def ACCOUNTING_RESPONSE_def
  ATTR_USER_NAME_def ATTR_USER_PASSWORD_def ATTR_SESSION_TIMEOUT_def ATTR_REPLY_MESSAGE_def ATTR_VENDOR_SPECIFIC_def
  ATTR_MS_CHAP_CHALLENGE_def VENDOR_MIKROTIK_def MT_RATE_LIMIT_def VENDOR_MICROSOFT_def MS_CHAP2_RESPONSE_def

record crypto =
  cr_md4 :: "(byte list \<Rightarrow> byte list) option"
  cr_sha1 :: "byte list \<Rightarrow> byte list"
  cr_des :: "(byte list \<Rightarrow> byte list \<Rightarrow> byte list) option"

section \<open>Parsing\<close>

text \<open>\<open>data[i:j]\<close>.\<close>

definition slice :: "nat \<Rightarrow> nat \<Rightarrow> 'a list \<Rightarrow> 'a list" where
  "slice i j xs = take (j - i) (drop i xs)"

type_synonym radius_attr = "nat \<times> byte list"

text \<open>The loop stops at the first attribute whose length is below 2 or runs past the data.\<close>

function attrs_from :: "byte list \<Rightarrow> nat \<Rightarrow> radius_attr list" where
  "attrs_from data i =
     (if i + 2 \<le> length data
      then let len = unat (data ! (i + 1)) in
           if len < 2 \<or> i + len > length data then []
           else (unat (data ! i), slice (i + 2) (i + len) data) # attrs_from data (i + len)
      else [])"
  by pat_completeness auto
termination by (relation "measure (\<lambda>(data, i). length data - i)") auto

declare attrs_from.simps [simp del]

definition parse_attrs :: "byte list \<Rightarrow> radius_attr list" where
  "parse_attrs data = attrs_from data 0"

record radius_packet =
  pk_code :: nat
  pk_id :: byte
  pk_auth :: "byte list"
  pk_attrs :: "radius_attr list"

definition parse_packet :: "byte list \<Rightarrow> radius_packet option" where
  "parse_packet data =
     (if length data < 20 then None
      else
        let len = nat (of_bytes (slice 2 4 data)) in
        if len < 20 \<or> len > length data then None
        else Some \<lparr>pk_code = unat (data ! 0), pk_id = data ! 1, pk_auth = slice 4 20 data,
                   pk_attrs = parse_attrs (slice 20 len data)\<rparr>)"

definition get_attr_value :: "radius_attr list \<Rightarrow> nat \<Rightarrow> byte list option" where
  "get_attr_value attrs t = map_option snd (find (\<lambda>a. fst a = t) attrs)"

definition get_attr_str :: "radius_attr list \<Rightarrow> nat \<Rightarrow> string" where
  "get_attr_str attrs t = (case get_attr_value attrs t of None \<Rightarrow> [] | Some v \<Rightarrow> bytes_text v)"

section \<open>PAP\<close>

definition xor_bytes :: "byte list \<Rightarrow> byte list \<Rightarrow> byte list" where
  "xor_bytes xs ys = map (\<lambda>(x, y). x XOR y) (zip xs ys)"

fun pap_blocks :: "byte list \<Rightarrow> byte list \<Rightarrow> byte list \<Rightarrow> byte list" where
  "pap_blocks secret prev enc =
     (if enc = [] then []
      else let block = take 16 enc in xor_bytes block (md5 (secret @ prev)) @ pap_blocks secret block (drop 16 enc))"

declare pap_blocks.simps [simp del]

definition rstrip_zero :: "byte list \<Rightarrow> byte list" where
  "rstrip_zero bs = rev (dropWhile (\<lambda>b. b = 0) (rev bs))"

definition decrypt_user_password :: "byte list \<Rightarrow> byte list \<Rightarrow> byte list \<Rightarrow> string" where
  "decrypt_user_password enc request_auth secret = bytes_text (rstrip_zero (pap_blocks secret request_auth enc))"

section \<open>MS-CHAPv2\<close>

definition nt_hash :: "crypto \<Rightarrow> string \<Rightarrow> byte list" where
  "nt_hash cr password =
     (case cr_md4 cr of None \<Rightarrow> [] | Some md4 \<Rightarrow> md4 (concat (map (\<lambda>b. [b, 0]) (text_bytes password))))"

definition challenge_hash :: "crypto \<Rightarrow> byte list \<Rightarrow> byte list \<Rightarrow> string \<Rightarrow> byte list" where
  "challenge_hash cr peer auth username = take 8 (cr_sha1 cr (peer @ auth @ text_bytes username))"

definition ljust :: "nat \<Rightarrow> byte list \<Rightarrow> byte list" where
  "ljust n bs = bs @ replicate (n - length bs) 0"

text \<open>Seven bytes spread over eight, the parity bits left zero.\<close>

definition des_key :: "byte list \<Rightarrow> byte list" where
  "des_key k =
     [k ! 0,
      push_bit 7 (k ! 0 AND 0x01) OR drop_bit 1 (k ! 1),
      push_bit 6 (k ! 1 AND 0x03) OR drop_bit 2 (k ! 2),
      push_bit 5 (k ! 2 AND 0x07) OR drop_bit 3 (k ! 3),
      push_bit 4 (k ! 3 AND 0x0F) OR drop_bit 4 (k ! 4),
      push_bit 3 (k ! 4 AND 0x1F) OR drop_bit 5 (k ! 5),
      push_bit 2 (k ! 5 AND 0x3F) OR drop_bit 6 (k ! 6),
      push_bit 1 (k ! 6 AND 0x7F)]"

definition desl :: "crypto \<Rightarrow> byte list \<Rightarrow> byte list \<Rightarrow> byte list" where
  "desl cr hash21 data =
     (case cr_des cr of
        None \<Rightarrow> []
      | Some des \<Rightarrow>
          (let padded = ljust 21 hash21
           in des (des_key (slice 0 7 padded)) data @ des (des_key (slice 7 14 padded)) data @
              des (des_key (slice 14 21 padded)) data))"

fun get_ms_vendor_attr :: "radius_attr list \<Rightarrow> nat \<Rightarrow> byte list option" where
  "get_ms_vendor_attr [] t = None"
| "get_ms_vendor_attr ((ty, av) # attrs) t =
     (if ty = ATTR_VENDOR_SPECIFIC \<and> length av \<ge> 6 \<and> of_bytes (slice 0 4 av) = VENDOR_MICROSOFT \<and> unat (av ! 4) = t
      then Some (drop 6 av) else get_ms_vendor_attr attrs t)"

definition verify_ms_chapv2 :: "crypto \<Rightarrow> string \<Rightarrow> string \<Rightarrow> radius_attr list \<Rightarrow> bool" where
  "verify_ms_chapv2 cr username password attrs =
     (case get_attr_value attrs ATTR_MS_CHAP_CHALLENGE of
        None \<Rightarrow> False
      | Some chap \<Rightarrow>
          if length chap < 8 then False
          else
            (case get_ms_vendor_attr attrs MS_CHAP2_RESPONSE of
               None \<Rightarrow> False
             | Some resp \<Rightarrow>
                 if length resp < 50 then False
                 else
                   let challenge = challenge_hash cr (slice 2 18 resp) chap username; nt = nt_hash cr password in
                   if nt = [] then False
                   else
                     let expected = desl cr (ljust 21 nt) challenge
                     in expected \<noteq> [] \<and> expected = slice 26 50 resp))"

section \<open>Building replies\<close>

text \<open>\<open>struct.pack\<close> raises when a number does not fit.\<close>

definition pack_attr :: "nat \<Rightarrow> byte list \<Rightarrow> byte list res" where
  "pack_attr t v = (if 2 + length v > 255 then Inl StructError else Inr ([word_of_nat t, word_of_nat (2 + length v)] @ v))"

definition pack_vendor_attr :: "int \<Rightarrow> nat \<Rightarrow> byte list \<Rightarrow> byte list res" where
  "pack_vendor_attr vendor vt v =
     res_bind (pack_attr vt v) (\<lambda>inner. pack_attr ATTR_VENDOR_SPECIFIC (to_bytes 4 vendor @ inner))"

definition packet_head :: "nat \<Rightarrow> byte \<Rightarrow> nat \<Rightarrow> byte list" where
  "packet_head pc ident len = [word_of_nat pc, ident] @ to_bytes 2 (int len)"

definition response_authenticator :: "nat \<Rightarrow> byte \<Rightarrow> nat \<Rightarrow> byte list \<Rightarrow> byte list \<Rightarrow> byte list \<Rightarrow> byte list" where
  "response_authenticator pc ident len request_auth payload secret =
     md5 (packet_head pc ident len @ request_auth @ payload @ secret)"

definition build_response :: "nat \<Rightarrow> byte \<Rightarrow> byte list \<Rightarrow> byte list \<Rightarrow> byte list list \<Rightarrow> byte list res" where
  "build_response pc ident request_auth secret attrs =
     (let payload = concat attrs; len = 20 + length payload in
      if len > 65535 then Inl StructError
      else Inr (packet_head pc ident len @ response_authenticator pc ident len request_auth payload secret @ payload))"

text \<open>The speed of an account: its own, that of its allocation, or none; a login without a row has none.\<close>

definition account_speed :: "(vpn_account \<times> allocation) option \<Rightarrow> int" where
  "account_speed r =
     (case r of
        None \<Rightarrow> 0
      | Some (a, al) \<Rightarrow>
          (case va_speed_limit_mbps a of None \<Rightarrow> al_speed_limit_mbps al | Some s \<Rightarrow> if s = 0 then al_speed_limit_mbps al else s))"

definition rate_text :: "int \<Rightarrow> string" where
  "rate_text speed = str_of_int speed @ ''M/'' @ str_of_int speed @ ''M''"

definition build_accept :: "byte \<Rightarrow> byte list \<Rightarrow> byte list \<Rightarrow> (vpn_account \<times> allocation) option \<Rightarrow> byte list res" where
  "build_accept ident auth secret account =
     res_bind (pack_attr ATTR_SESSION_TIMEOUT (to_bytes 4 86400)) (\<lambda>timeout.
       let speed = account_speed account in
       if speed = 0 then build_response ACCESS_ACCEPT ident auth secret [timeout]
       else res_bind (pack_vendor_attr VENDOR_MIKROTIK MT_RATE_LIMIT (text_bytes (rate_text speed))) (\<lambda>rate.
              build_response ACCESS_ACCEPT ident auth secret [timeout, rate]))"

definition build_reject :: "byte \<Rightarrow> byte list \<Rightarrow> byte list \<Rightarrow> string \<Rightarrow> byte list res" where
  "build_reject ident auth secret msg =
     (if msg = [] then build_response ACCESS_REJECT ident auth secret []
      else res_bind (pack_attr ATTR_REPLY_MESSAGE (take 253 (text_bytes msg))) (\<lambda>m.
             build_response ACCESS_REJECT ident auth secret [m]))"

definition acct_response :: "byte \<Rightarrow> byte list \<Rightarrow> byte list \<Rightarrow> byte list res" where
  "acct_response ident auth secret = build_response ACCOUNTING_RESPONSE ident auth secret []"

section \<open>The server\<close>

definition login_name :: "string \<Rightarrow> string" where
  "login_name full = (if CHR ''@'' \<in> set full then lower (hd (split_on (CHR ''@'') full)) else lower full)"

definition handle_auth :: "crypto \<Rightarrow> fernet \<Rightarrow> vpn_db \<Rightarrow> byte list \<Rightarrow> int \<Rightarrow> radius_packet \<Rightarrow> byte list res" where
  "handle_auth cr f v secret tid pkt =
     (let ident = pk_id pkt; auth = pk_auth pkt; attrs = pk_attrs pkt;
          username = login_name (get_attr_str attrs ATTR_USER_NAME);
          enc = (case get_attr_value attrs ATTR_USER_PASSWORD of None \<Rightarrow> [] | Some e \<Rightarrow> e);
          chap = (case get_ms_vendor_attr attrs MS_CHAP2_RESPONSE of None \<Rightarrow> [] | Some r \<Rightarrow> r) in
      if enc \<noteq> [] then
        (case verify_password_for_radius f v tid username (decrypt_user_password enc auth secret) of
           Some account \<Rightarrow> build_accept ident auth secret (Some account)
         | None \<Rightarrow> build_reject ident auth secret ''Access Denied'')
      else if chap \<noteq> [] then
        (case get_decrypted_password f v tid username of
           None \<Rightarrow> build_reject ident auth secret ''Access Denied''
         | Some pw \<Rightarrow>
             if verify_ms_chapv2 cr username pw attrs then build_accept ident auth secret (joined_account v tid username)
             else build_reject ident auth secret ''Access Denied'')
      else build_reject ident auth secret ''No supported auth'')"

definition datagram_received :: "crypto \<Rightarrow> fernet \<Rightarrow> vpn_db \<Rightarrow> byte list \<Rightarrow> int \<Rightarrow> byte list \<Rightarrow> byte list option res" where
  "datagram_received cr f v secret tid data =
     (case parse_packet data of
        None \<Rightarrow> Inr None
      | Some pkt \<Rightarrow>
          if pk_code pkt = ACCESS_REQUEST then map_sum id Some (handle_auth cr f v secret tid pkt)
          else if pk_code pkt = ACCOUNTING_REQUEST then map_sum id Some (acct_response (pk_id pkt) (pk_auth pkt) secret)
          else Inr None)"

end
