(* ===== verification/RadiusServerProperties.thy ===== *)
theory RadiusServerProperties
  imports RadiusServer
begin

text \<open>
  What the RADIUS server guarantees: it reads back what was packed, its PAP inverts the hiding of RFC 2865, and a login
  by PAP is accepted exactly under the stored password of an active account of an active allocation.
\<close>

section \<open>Attributes\<close>

text \<open>An attribute on the wire, and what fits there.\<close>

definition wire_attr :: "radius_attr \<Rightarrow> byte list" where
  "wire_attr a = [word_of_nat (fst a), word_of_nat (2 + length (snd a))] @ snd a"

definition fits :: "radius_attr \<Rightarrow> bool" where
  "fits a = (fst a < 256 \<and> length (snd a) \<le> 253)"

lemma length_wire [simp]: "length (wire_attr a) = 2 + length (snd a)"
  by (simp add: wire_attr_def)

lemma pack_attr_wire: "pack_attr t v = Inr b \<Longrightarrow> b = wire_attr (t, v) \<and> length v \<le> 253"
  by (auto simp: pack_attr_def wire_attr_def split: if_splits)

lemma unat_small_byte [simp]: "n < 256 \<Longrightarrow> unat (word_of_nat n :: byte) = n"
  by (simp add: unat_of_nat)

lemma attrs_from_wire: "\<forall>a \<in> set as. fits a \<Longrightarrow> attrs_from (pre @ concat (map wire_attr as)) (length pre) = as"
proof (induction as arbitrary: pre)
  case Nil
  then show ?case by (subst attrs_from.simps) simp
next
  case (Cons a as)
  obtain t v where a: "a = (t, v)" by fastforce
  with Cons.prems have f: "t < 256" "length v \<le> 253" by (simp_all add: fits_def)
  let ?data = "pre @ concat (map wire_attr (a # as))"
  have w: "?data = pre @ [word_of_nat t, word_of_nat (2 + length v)] @ v @ concat (map wire_attr as)"
    by (simp add: a wire_attr_def)
  have "?data ! (length pre + 1) = word_of_nat (2 + length v)" "?data ! length pre = word_of_nat t"
    unfolding w by (simp_all add: nth_append)
  moreover have "unat (word_of_nat (2 + length v) :: byte) = 2 + length v" using f by (intro unat_small_byte) simp
  ultimately have len: "unat (?data ! (length pre + 1)) = 2 + length v" "unat (?data ! length pre) = t" using f by simp_all
  have val: "slice (length pre + 2) (length pre + (2 + length v)) ?data = v" unfolding w by (simp add: slice_def)
  have rest: "attrs_from ?data (length pre + (2 + length v)) = as"
    using Cons.IH [of "pre @ wire_attr a"] Cons.prems by (simp add: a)
  show ?case by (subst attrs_from.simps) (simp only: Let_def len val rest, simp add: a wire_attr_def)
qed

lemma parse_wire_attrs: "\<forall>a \<in> set as. fits a \<Longrightarrow> parse_attrs (concat (map wire_attr as)) = as"
  using attrs_from_wire [of as "[]"] by (simp add: parse_attrs_def)

lemma slice_simps [simp]:
  "slice 0 (length xs) (xs @ ys) = xs" "length xs = i \<Longrightarrow> slice i (i + length ys) (xs @ ys) = ys"
  by (simp_all add: slice_def)

lemma parse_packet_head:
  assumes "c < 256" "length auth = 16" "20 + length body \<le> 65535"
  shows "parse_packet (packet_head c ident (20 + length body) @ auth @ body) =
    Some \<lparr>pk_code = c, pk_id = ident, pk_auth = auth, pk_attrs = parse_attrs body\<rparr>"
proof -
  let ?h = "packet_head c ident (20 + length body)" and ?n = "20 + length body"
  have h: "length ?h = 4" "?h ! 0 = word_of_nat c" "?h ! 1 = ident" by (simp_all add: packet_head_def)
  have "of_bytes (to_bytes 2 (int ?n)) = int ?n" using assms(3) by (simp add: of_bytes_to_bytes)
  moreover have "slice 2 4 (?h @ auth @ body) = to_bytes 2 (int ?n)" by (simp add: slice_def packet_head_def)
  ultimately have n: "nat (of_bytes (slice 2 4 (?h @ auth @ body))) = ?n" by simp
  have a: "slice 4 20 (?h @ auth @ body) = auth" using h(1) assms(2) by (simp add: slice_def)
  have b: "slice 20 ?n (?h @ auth @ body) = body" using h(1) assms(2) by (simp add: slice_def)
  show ?thesis using h assms by (simp add: parse_packet_def n a b Let_def nth_append)
qed

text \<open>What the server sends is what a client reads: a reply built from attributes that fit parses back to its code,
  its identifier and exactly those attributes in order, and its authenticator is the one of RFC 2865 for the request.\<close>

theorem response_roundtrip:
  assumes "build_response c ident auth secret (map wire_attr as) = Inr resp" "c < 256" "\<forall>a \<in> set as. fits a"
  shows "parse_packet resp = Some \<lparr>pk_code = c, pk_id = ident,
    pk_auth = md5 (take 4 resp @ auth @ drop 20 resp @ secret), pk_attrs = as\<rparr>"
proof -
  let ?body = "concat (map wire_attr as)"
  let ?h = "packet_head c ident (20 + length ?body)"
  have r: "resp = ?h @ md5 (?h @ auth @ ?body @ secret) @ ?body" "20 + length ?body \<le> 65535"
    using assms(1) by (auto simp: build_response_def response_authenticator_def Let_def split: if_splits)
  have "length ?h = 4" by (simp add: packet_head_def)
  then have "take 4 resp = ?h" "drop 20 resp = ?body" by (simp_all add: r(1))
  then show ?thesis
    using parse_packet_head [OF assms(2) _ r(2), of "md5 (?h @ auth @ ?body @ secret)" ident] parse_wire_attrs [OF assms(3)]
    by (simp add: r(1))
qed

theorem response_roundtrip_witness:
  "\<exists>resp. build_response 2 7 (replicate 16 0) [1] (map wire_attr [(18, [65, 66])]) = Inr resp \<and>
     map_option pk_attrs (parse_packet resp) = Some [(18, [65, 66])]"
proof -
  obtain resp where r: "build_response 2 7 (replicate 16 0) [1] (map wire_attr [(18, [65, 66])]) = Inr resp"
    by (simp add: build_response_def wire_attr_def Let_def)
  have "parse_packet resp = Some \<lparr>pk_code = 2, pk_id = 7,
    pk_auth = md5 (take 4 resp @ replicate 16 0 @ drop 20 resp @ [1]), pk_attrs = [(18, [65, 66])]\<rparr>"
    using response_roundtrip [OF r] by (simp add: fits_def)
  then show ?thesis using r by (intro exI [of _ resp] conjI) (simp_all only: option.map radius_packet.simps)
qed

section \<open>PAP\<close>

text \<open>RFC 2865, 5.2: how a router hides a password.\<close>

fun hide_blocks :: "byte list \<Rightarrow> byte list \<Rightarrow> byte list \<Rightarrow> byte list" where
  "hide_blocks secret prev p =
     (if p = [] then []
      else let block = xor_bytes (take 16 p) (md5 (secret @ prev)) in block @ hide_blocks secret block (drop 16 p))"

declare hide_blocks.simps [simp del]

definition pad16 :: "byte list \<Rightarrow> byte list" where
  "pad16 p = p @ replicate ((16 - length p mod 16) mod 16) 0"

definition hide_password :: "byte list \<Rightarrow> byte list \<Rightarrow> string \<Rightarrow> byte list" where
  "hide_password secret auth pw = hide_blocks secret auth (pad16 (text_bytes pw))"

lemma length_xor [simp]: "length (xor_bytes xs ys) = min (length xs) (length ys)"
  by (simp add: xor_bytes_def)

lemma xor_twice: "length xs \<le> length ys \<Longrightarrow> xor_bytes (xor_bytes xs ys) ys = xs"
proof (induction xs arbitrary: ys)
  case (Cons x xs)
  then show ?case by (cases ys) (auto simp: xor_bytes_def xor.assoc)
qed (simp add: xor_bytes_def)

lemma pap_inverts: "16 dvd length p \<Longrightarrow> pap_blocks secret prev (hide_blocks secret prev p) = p"
proof (induction secret prev p rule: hide_blocks.induct)
  case (1 secret prev p)
  show ?case
  proof (cases "p = []")
    case True
    then show ?thesis by (simp add: hide_blocks.simps pap_blocks.simps)
  next
    case False
    then have l: "16 \<le> length p" using 1(2) by (simp add: dvd_imp_le)
    define c where "c = xor_bytes (take 16 p) (md5 (secret @ prev))"
    have c: "length c = 16" using l by (simp add: c_def)
    have "16 dvd length (drop 16 p)" using 1(2) l by (simp add: dvd_diff_nat)
    then have IH: "pap_blocks secret c (hide_blocks secret c (drop 16 p)) = drop 16 p"
      using 1(1) [OF False] by (simp add: c_def)
    have h: "hide_blocks secret prev p = c @ hide_blocks secret c (drop 16 p)"
      using False by (subst hide_blocks.simps) (simp add: c_def Let_def)
    have "xor_bytes c (md5 (secret @ prev)) = take 16 p" using l by (simp add: c_def xor_twice)
    then show ?thesis using c IH by (subst pap_blocks.simps) (auto simp: h Let_def)
  qed
qed

lemma pad16_dvd: "16 dvd length (pad16 p)"
proof -
  define m where "m = length p mod 16"
  have "m < 16" by (simp add: m_def)
  then have "(m + (16 - m) mod 16) mod 16 = 0" by (cases "m = 0") simp_all
  then have "(length p + (16 - length p mod 16) mod 16) mod 16 = 0" unfolding m_def by (simp only: mod_add_left_eq)
  moreover have "length (pad16 p) = length p + (16 - length p mod 16) mod 16" by (simp add: pad16_def)
  ultimately show ?thesis by (simp only: mod_0_imp_dvd)
qed

lemma rstrip_padded: "p = [] \<or> last p \<noteq> 0 \<Longrightarrow> rstrip_zero (p @ replicate n 0) = p"
proof -
  assume p: "p = [] \<or> last p \<noteq> 0"
  have "dropWhile (\<lambda>b. b = 0) (rev p) = rev p" using p by (cases "rev p") (auto simp: last_rev)
  then show ?thesis by (simp add: rstrip_zero_def dropWhile_append)
qed

text \<open>The server reads the password the router hid (RFC 2865, 5.2), whatever its length, when it does not end in a
  zero byte.\<close>

theorem pap_roundtrip:
  assumes "text_bytes pw = [] \<or> last (text_bytes pw) \<noteq> 0"
  shows "decrypt_user_password (hide_password secret auth pw) auth secret = pw"
  using assms by (simp add: decrypt_user_password_def hide_password_def pap_inverts pad16_dvd)
    (simp add: pad16_def rstrip_padded)

theorem pap_roundtrip_witness: "decrypt_user_password (hide_password [1] (replicate 16 2) ''ab'') (replicate 16 2) [1] = ''ab''"
  by (rule pap_roundtrip) code_simp

section \<open>A login by PAP\<close>

text \<open>The Access-Request a router sends: user name and hidden password.\<close>

definition access_request :: "byte \<Rightarrow> byte list \<Rightarrow> byte list \<Rightarrow> string \<Rightarrow> string \<Rightarrow> byte list" where
  "access_request ident auth secret u pw =
     (let body = concat (map wire_attr
            [(ATTR_USER_NAME, text_bytes u), (ATTR_USER_PASSWORD, hide_password secret auth pw)])
      in packet_head ACCESS_REQUEST ident (20 + length body) @ auth @ body)"

lemma length_hide_blocks: "length (hide_blocks secret prev p) = length p"
proof (induction secret prev p rule: hide_blocks.induct)
  case (1 secret prev p)
  then show ?case by (subst hide_blocks.simps) (auto simp: Let_def)
qed

lemma length_hide: "length pw \<le> n * 16 \<Longrightarrow> length (hide_password secret auth pw) \<le> n * 16"
proof -
  assume "length pw \<le> n * 16"
  moreover obtain k where k: "length (pad16 (text_bytes pw)) = 16 * k" using pad16_dvd by (auto simp: dvd_def)
  moreover have "length (pad16 (text_bytes pw)) < length pw + 16" by (simp add: pad16_def)
  ultimately show ?thesis by (simp add: hide_password_def length_hide_blocks)
qed

lemma hide_nonempty: "pw \<noteq> [] \<Longrightarrow> hide_password secret auth pw \<noteq> []"
proof -
  assume "pw \<noteq> []"
  then have "0 < length (hide_password secret auth pw)" by (simp add: hide_password_def length_hide_blocks pad16_def)
  then show ?thesis by simp
qed

lemma parse_access_request:
  assumes "length auth = 16" "length u \<le> 253" "length pw \<le> 128"
  shows "parse_packet (access_request ident auth secret u pw) =
    Some \<lparr>pk_code = ACCESS_REQUEST, pk_id = ident, pk_auth = auth,
      pk_attrs = [(ATTR_USER_NAME, text_bytes u), (ATTR_USER_PASSWORD, hide_password secret auth pw)]\<rparr>"
proof -
  let ?as = "[(ATTR_USER_NAME, text_bytes u), (ATTR_USER_PASSWORD, hide_password secret auth pw)]"
  have h: "length (hide_password secret auth pw) \<le> 128" using length_hide [of pw 8] assms(3) by simp
  then have "\<forall>a \<in> set ?as. fits a" using assms(2) by (simp add: fits_def radius_consts)
  then show ?thesis
    using parse_packet_head [of ACCESS_REQUEST auth "concat (map wire_attr ?as)" ident] parse_wire_attrs [of ?as] assms(1,2) h
    by (simp add: access_request_def radius_consts)
qed

lemma handle_access_request:
  assumes "length auth = 16" "length u \<le> 253" "pw \<noteq> []" "length pw \<le> 128" "last (text_bytes pw) \<noteq> 0"
  shows "datagram_received cr f v secret tid (access_request ident auth secret u pw) =
    map_sum id Some (case verify_password_for_radius f v tid (login_name u) pw of
      Some account \<Rightarrow> build_accept ident auth secret (Some account)
    | None \<Rightarrow> build_reject ident auth secret ''Access Denied'')"
proof -
  have "decrypt_user_password (hide_password secret auth pw) auth secret = pw"
    using assms(5) by (simp add: decrypt_user_password_def hide_password_def pap_inverts pad16_dvd)
      (simp add: pad16_def rstrip_padded)
  then show ?thesis
    using parse_access_request [OF assms(1,2,4)] hide_nonempty [OF assms(3)]
    by (simp add: datagram_received_def handle_auth_def get_attr_str_def get_attr_value_def radius_consts Let_def)
qed

lemma only_account:
  assumes "vpn_accounts v' = vpn_accounts v @ [row]" "allocations v' = allocations v"
    and "\<forall>a \<in> set (vpn_accounts v). \<not> (va_tenant_id a = tid \<and> va_username a = va_username row \<and> va_status a = ''active'')"
    and "va_tenant_id row = tid" "va_status row = ''active''"
    and "get_allocation v tid (va_allocation_id row) = Some al" "al_status al = ''active''" "distinct (map al_id (allocations v))"
  shows "joined_account v' tid (va_username row) = Some (row, al)"
proof -
  have al: "al \<in> set (allocations v)" "al_id al = va_allocation_id row"
    using assms(6) by (auto simp: get_allocation_def find_Some_iff)
  have "filter (\<lambda>x. al_id x = va_allocation_id row \<and> al_status x = ''active'') (allocations v) = [al]"
  proof -
    have "filter (\<lambda>x. al_id x = va_allocation_id row \<and> al_status x = ''active'') (allocations v) = filter (\<lambda>x. x = al) (allocations v)"
    proof (rule filter_cong [OF refl])
      fix x assume "x \<in> set (allocations v)"
      then have "al_id x = al_id al \<longrightarrow> x = al" using assms(8) al(1) by (meson distinct_map inj_onD)
      then show "(al_id x = va_allocation_id row \<and> al_status x = ''active'') = (x = al)"
        using assms(7) al(2) by metis
    qed
    then show ?thesis using filter_eq_single [OF _ al(1)] assms(8) by (simp add: distinct_map)
  qed
  moreover have "filter (\<lambda>a. va_tenant_id a = tid \<and> va_username a = va_username row \<and> va_status a = ''active'') (vpn_accounts v') = [row]"
    using assms(1,3-5) by (simp add: filter_empty_conv)
  ultimately show ?thesis by (simp add: joined_account_def assms(2))
qed

lemma lower_at: "CHR ''@'' \<in> set (lower w) \<longleftrightarrow> CHR ''@'' \<in> set w"
proof -
  have at: "code (CHR ''@'') = 64" "\<not> is_upper (CHR ''@'')" by code_simp+
  have "code (lower_char c) \<noteq> 64" if "is_upper c" for c
    using that by (simp add: lower_char_def is_upper_def code_def)
  then have up: "lower_char c \<noteq> CHR ''@''" if "is_upper c" for c using that at(1) by metis
  have low: "lower_char c = c" if "\<not> is_upper c" for c using that by (simp add: lower_char_def)
  have "lower_char c = CHR ''@'' \<longleftrightarrow> c = CHR ''@''" for c
    using up [of c] low [of c] at(2) by metis
  then show ?thesis unfolding lower_def set_map image_iff by metis
qed

lemma login_name_realm:
  assumes "CHR ''@'' \<notin> set w"
  shows "login_name w = lower w" "login_name (w @ ''@'' @ realm) = lower w"
  using assms by (simp_all add: login_name_def split_on_append)

text \<open>A user name with an at sign is cut before the lookup, so the account that the form accepts under such a name is never
  found.\<close>

lemma at_sign_never_logs_in:
  assumes "CHR ''@'' \<in> set name"
  shows "login_name u \<noteq> lower name"
proof -
  have "CHR ''@'' \<notin> set (hd (split_on (CHR ''@'') t))" for t
    by (induction t) (auto split: list.split)
  then have "CHR ''@'' \<notin> set (login_name u)" by (simp add: login_name_def lower_at)
  then show ?thesis using assms lower_at by metis
qed

text \<open>C11. From the form to the wire, by PAP: take an account created in an active allocation under a name without an at
  sign which no other active account of the tenant has. The router logs it in under its name in any case, with or without
  a realm, and its password, and only with it: the datagram is answered by an Access-Accept with the speed of the account,
  with any other password by an Access-Reject. (The encryption at rest is undone by its decryption, and a password on the
  wire does not end in a zero byte.)\<close>

theorem created_account_logs_in:
  assumes "create_account f v tid aid u0 pw0 dn mc sp = Inr (i, v')"
    and "\<forall>s. fe_decrypt f (fe_encrypt f s) = Some s"
    and "get_allocation v tid aid = Some al" "al_status al = ''active''" "distinct (map al_id (allocations v))"
    and "\<forall>a \<in> set (vpn_accounts v). \<not> (va_tenant_id a = tid \<and> va_username a = lower (strip u0) \<and> va_status a = ''active'')"
    and "CHR ''@'' \<notin> set (strip u0)" "lower w = lower (strip u0)" "u = w \<or> u = w @ ''@'' @ realm"
    and "length auth = 16" "length u \<le> 253" "pw \<noteq> []" "length pw \<le> 128" "last (text_bytes pw) \<noteq> 0"
  shows "\<exists>row. va_id row = i \<and> va_speed_limit_mbps row = sp \<and>
    datagram_received cr f v' secret tid (access_request ident auth secret u pw) =
      map_sum id Some (if pw = pw0 then build_accept ident auth secret (Some (row, al))
                       else build_reject ident auth secret ''Access Denied'')"
proof -
  define row where "row = \<lparr>va_id = i, va_tenant_id = tid, va_allocation_id = aid, va_username = lower (strip u0),
     va_password_hash = fe_encrypt f pw0, va_display_name = or_default dn (lower (strip u0)), va_max_concurrent = mc,
     va_speed_limit_mbps = sp, va_status = ''active''\<rparr>"
  have v': "vpn_accounts v' = vpn_accounts v @ [row]" "allocations v' = allocations v" "pw0 \<noteq> []"
    using assms(1,3) by (auto simp: create_account_def Let_def row_def split: if_splits)
  have "joined_account v' tid (lower (strip u0)) = Some (row, al)"
    using only_account [OF v'(1,2), of tid al] assms(3-6) by (simp add: row_def)
  moreover have "login_name u = lower (strip u0)" using login_name_realm [of w] lower_at [of w] lower_at [of "strip u0"] assms(7-9) by auto
  ultimately have "verify_password_for_radius f v' tid (login_name u) pw = (if pw = pw0 then Some (row, al) else None)"
    using assms(2) v'(3) by (auto simp: verify_password_for_radius_def decrypt_text_def row_def Let_def)
  then show ?thesis
    using handle_access_request [OF assms(10-14)] by (intro exI [of _ row]) (simp add: row_def)
qed

definition no_crypto :: crypto where
  "no_crypto = \<lparr>cr_md4 = None, cr_sha1 = id, cr_des = None\<rparr>"

text \<open>One account, two logins: with the name in capitals and a realm and the right password, and with a guess.\<close>

theorem created_account_logs_in_witness:
  "(\<exists>row. va_id row = 1 \<and> va_speed_limit_mbps row = None \<and>
     datagram_received no_crypto plain_fernet with_ali [1] 1 (access_request 9 (replicate 16 0) [1] ''ALI@x'' ''password'') =
       map_sum id Some (build_accept 9 (replicate 16 0) [1] (Some (row, hd (allocations one_seat))))) \<and>
   datagram_received no_crypto plain_fernet with_ali [1] 1 (access_request 9 (replicate 16 0) [1] ''ALI@x'' ''guess'') =
     map_sum id Some (build_reject 9 (replicate 16 0) [1] ''Access Denied'')"
proof -
  have made: "create_account plain_fernet one_seat 1 1 '' Ali'' ''password'' [] 1 None = Inr (1, with_ali)" by code_simp
  have fernet: "\<forall>s. fe_decrypt plain_fernet (fe_encrypt plain_fernet s) = Some s" by (simp add: plain_fernet_def)
  have seat: "get_allocation one_seat 1 1 = Some (hd (allocations one_seat))" "al_status (hd (allocations one_seat)) = ''active''"
    "distinct (map al_id (allocations one_seat))"
    by code_simp+
  have none: "\<forall>a \<in> set (vpn_accounts one_seat).
      \<not> (va_tenant_id a = 1 \<and> va_username a = lower (strip '' Ali'') \<and> va_status a = ''active'')"
    by (simp add: one_seat_def)
  have name: "CHR ''@'' \<notin> set (strip '' Ali'')" "lower ''ALI'' = lower (strip '' Ali'')"
    "last (text_bytes ''guess'') \<noteq> 0" "last (text_bytes ''password'') \<noteq> 0" by code_simp+
  have u: "''ALI@x'' = ''ALI'' \<or> ''ALI@x'' = ''ALI'' @ ''@'' @ ''x''" by simp
  have len: "length (replicate 16 (0::byte)) = 16" "length ''ALI@x'' \<le> 253"
    "''guess'' \<noteq> []" "length ''guess'' \<le> 128" "''password'' \<noteq> []" "length ''password'' \<le> 128"
    "(''guess'' = ''password'') = False"
    by simp_all
  note logs_in = created_account_logs_in [OF made fernet seat none name(1,2) u len(1,2)]
  show ?thesis
    using logs_in [OF len(3,4) name(3), of no_crypto "[1]" 9] logs_in [OF len(5,6) name(4), of no_crypto "[1]" 9]
    unfolding len(7) if_False simp_thms if_True by blast
qed

section \<open>MS-CHAPv2\<close>

text \<open>By MS-CHAPv2 an account of an allocation that is suspended or cancelled is still accepted, and without the speed
  limit, because only the query for the reply joins the allocation; by PAP it is rejected whatever the password.\<close>

lemma mschap_ignores_allocation:
  assumes "get_attr_value (pk_attrs pkt) ATTR_USER_PASSWORD = None"
    and "get_ms_vendor_attr (pk_attrs pkt) MS_CHAP2_RESPONSE = Some resp" "resp \<noteq> []"
    and "get_decrypted_password f v tid (login_name (get_attr_str (pk_attrs pkt) ATTR_USER_NAME)) = Some pw"
    and "verify_ms_chapv2 cr (login_name (get_attr_str (pk_attrs pkt) ATTR_USER_NAME)) pw (pk_attrs pkt)"
    and "joined_account v tid (login_name (get_attr_str (pk_attrs pkt) ATTR_USER_NAME)) = None"
  shows "handle_auth cr f v secret tid pkt = build_accept (pk_id pkt) (pk_auth pkt) secret None"
    and "verify_password_for_radius f v tid (login_name (get_attr_str (pk_attrs pkt) ATTR_USER_NAME)) raw = None"
  using assms by (simp_all add: handle_auth_def verify_password_for_radius_def Let_def)

end
