(* ===== verification/CoaPackets.thy ===== *)
theory CoaPackets
  imports RadiusServerProperties
begin

text \<open>
  \<open>app/radius/integration/radius_coa.py\<close>, the wire: Disconnect- and CoA-Requests (RFC 5176) with their two digests, and
  the reading of what the router answers. The network is a parameter: what comes back for a datagram sent to an address
  and a port. The panel's own messages are not modelled beyond the code name they go with.
\<close>

section \<open>Codes\<close>

definition CODE_DISCONNECT_REQUEST :: nat where "CODE_DISCONNECT_REQUEST = 40"
definition CODE_DISCONNECT_ACK :: nat where "CODE_DISCONNECT_ACK = 41"
definition CODE_DISCONNECT_NAK :: nat where "CODE_DISCONNECT_NAK = 42"
definition CODE_COA_REQUEST :: nat where "CODE_COA_REQUEST = 43"
definition CODE_COA_ACK :: nat where "CODE_COA_ACK = 44"
definition CODE_COA_NAK :: nat where "CODE_COA_NAK = 45"
definition ATTR_NAS_IP_ADDRESS :: nat where "ATTR_NAS_IP_ADDRESS = 4"
definition ATTR_FRAMED_IP_ADDRESS :: nat where "ATTR_FRAMED_IP_ADDRESS = 8"
definition ATTR_CALLING_STATION_ID :: nat where "ATTR_CALLING_STATION_ID = 31"
definition ATTR_ACCT_SESSION_ID :: nat where "ATTR_ACCT_SESSION_ID = 44"
definition ATTR_MESSAGE_AUTHENTICATOR :: nat where "ATTR_MESSAGE_AUTHENTICATOR = 80"

lemmas coa_consts =
  CODE_DISCONNECT_REQUEST_def CODE_DISCONNECT_ACK_def CODE_DISCONNECT_NAK_def CODE_COA_REQUEST_def CODE_COA_ACK_def
  CODE_COA_NAK_def ATTR_NAS_IP_ADDRESS_def ATTR_FRAMED_IP_ADDRESS_def ATTR_CALLING_STATION_ID_def
  ATTR_ACCT_SESSION_ID_def ATTR_MESSAGE_AUTHENTICATOR_def

section \<open>Encoding attributes\<close>

definition encode_string_attr :: "nat \<Rightarrow> string \<Rightarrow> byte list" where
  "encode_string_attr t value =
     (let bs = text_bytes value; raw = (if length bs > 253 then take 253 bs else bs)
      in [word_of_nat t, word_of_nat (length raw + 2)] @ raw)"

text \<open>Four integers between 0 and 255; \<open>int\<close> and \<open>bytes\<close> raise \<open>ValueError\<close> for the others.\<close>

definition ipv4_part :: "string \<Rightarrow> byte res" where
  "ipv4_part p =
     (case parse_int p of None \<Rightarrow> Inl ValueError | Some n \<Rightarrow> if 0 \<le> n \<and> n < 256 then Inr (word_of_int n) else Inl ValueError)"

definition encode_ipv4_attr :: "nat \<Rightarrow> string \<Rightarrow> byte list res" where
  "encode_ipv4_attr t ip =
     (let parts = split_on (CHR ''.'') ip in
      if length parts \<noteq> 4 then Inl ValueError
      else res_bind (map_res ipv4_part parts) (\<lambda>raw. Inr ([word_of_nat t, 6] @ raw)))"

definition encode_uint32_attr :: "nat \<Rightarrow> int \<Rightarrow> byte list" where
  "encode_uint32_attr t value = [word_of_nat t, 6] @ to_bytes 4 (value mod 2 ^ 32)"

definition encode_vendor_attr :: "int \<Rightarrow> nat \<Rightarrow> string \<Rightarrow> byte list" where
  "encode_vendor_attr vendor_id subtype value =
     (let bs = text_bytes value; raw = (if length bs > 247 then take 247 bs else bs);
          sub = [word_of_nat subtype, word_of_nat (length raw + 2)] @ raw;
          body = to_bytes 4 vendor_id @ sub
      in [word_of_nat ATTR_VENDOR_SPECIFIC, word_of_nat (length body + 2)] @ body)"

section \<open>Packets\<close>

definition build_packet :: "nat \<Rightarrow> byte \<Rightarrow> byte list \<Rightarrow> byte list \<Rightarrow> byte list res" where
  "build_packet pc ident attrs secret =
     (let full_attrs = attrs @ [word_of_nat ATTR_MESSAGE_AUTHENTICATOR, 18] @ replicate 16 0;
          len = 20 + length full_attrs in
      if len > 65535 then Inl StructError
      else
        let header = packet_head pc ident len; zero_auth = replicate 16 0;
            msg_auth = hmac_md5 secret (header @ zero_auth @ full_attrs);
            signed = attrs @ [word_of_nat ATTR_MESSAGE_AUTHENTICATOR, 18] @ msg_auth;
            auth = md5 (header @ zero_auth @ signed @ secret)
        in Inr (header @ auth @ signed))"

definition verify_response :: "byte list \<Rightarrow> byte list \<Rightarrow> byte list \<Rightarrow> bool" where
  "verify_response resp request_auth secret =
     (20 \<le> length resp \<and> slice 4 20 resp = md5 (take 4 resp @ request_auth @ drop 20 resp @ secret))"

text \<open>A dictionary: a repeated type keeps its last value.\<close>

function coa_attrs_from :: "byte list \<Rightarrow> nat \<Rightarrow> (nat \<rightharpoonup> byte list) \<Rightarrow> (nat \<rightharpoonup> byte list)" where
  "coa_attrs_from payload i out =
     (if i < length payload then
        if i + 2 > length payload then out
        else
          let t = unat (payload ! i); ln = unat (payload ! (i + 1)) in
          if ln < 2 \<or> i + ln > length payload then out
          else coa_attrs_from payload (i + ln) (out(t \<mapsto> slice (i + 2) (i + ln) payload))
      else out)"
  by pat_completeness auto
termination by (relation "measure (\<lambda>(payload, i, out). length payload - i)") auto

declare coa_attrs_from.simps [simp del]

definition coa_parse_attrs :: "byte list \<Rightarrow> (nat \<rightharpoonup> byte list)" where
  "coa_parse_attrs payload = coa_attrs_from payload 0 Map.empty"

section \<open>Results\<close>

datatype coa_message = Panel | FromRouter string | FromSystem string

record coa_result =
  cr_ok :: bool
  cr_code :: nat
  cr_code_name :: string
  cr_reply_message :: coa_message
  cr_raw_attrs :: "nat \<rightharpoonup> byte list"
  cr_timed_out :: bool

definition coa_failure :: "string \<Rightarrow> coa_message \<Rightarrow> coa_result" where
  "coa_failure name msg =
     \<lparr>cr_ok = False, cr_code = 0, cr_code_name = name, cr_reply_message = msg, cr_raw_attrs = Map.empty, cr_timed_out = False\<rparr>"

definition response_name :: "nat \<Rightarrow> string" where
  "response_name c =
     (if c = CODE_DISCONNECT_ACK then ''Disconnect-ACK'' else if c = CODE_DISCONNECT_NAK then ''Disconnect-NAK''
      else if c = CODE_COA_ACK then ''CoA-ACK'' else if c = CODE_COA_NAK then ''CoA-NAK''
      else ''unknown-code-'' @ str_of_int (int c))"

text \<open>A wrong authenticator is logged and nothing else.\<close>

definition parse_response :: "byte list \<Rightarrow> byte list \<Rightarrow> byte list \<Rightarrow> coa_result" where
  "parse_response resp request_auth secret =
     (if length resp < 20 then coa_failure ''malformed'' Panel
      else
        let c = unat (resp ! 0); attrs = coa_parse_attrs (drop 20 resp);
            msg = (case attrs ATTR_REPLY_MESSAGE of None \<Rightarrow> [] | Some raw \<Rightarrow> bytes_text raw)
        in \<lparr>cr_ok = (c \<in> {CODE_DISCONNECT_ACK, CODE_COA_ACK}), cr_code = c, cr_code_name = response_name c,
            cr_reply_message = FromRouter msg, cr_raw_attrs = attrs, cr_timed_out = False\<rparr>)"

section \<open>Sending\<close>

datatype udp_answer = Datagram "byte list" | UdpTimeout | UdpError string

type_synonym udp = "string \<times> int \<Rightarrow> byte list \<Rightarrow> udp_answer"

definition receive :: "udp_answer \<Rightarrow> byte list \<Rightarrow> byte list \<Rightarrow> coa_result" where
  "receive answer packet secret =
     (case answer of
        Datagram resp \<Rightarrow> parse_response resp (slice 4 20 packet) secret
      | UdpTimeout \<Rightarrow> coa_failure ''timeout'' Panel
      | UdpError err \<Rightarrow> coa_failure ''socket_error'' (FromSystem err))"

text \<open>An address that is not an IPv4 address is left out.\<close>

definition ipv4_or_nothing :: "nat \<Rightarrow> string \<Rightarrow> byte list" where
  "ipv4_or_nothing t ip = (case encode_ipv4_attr t ip of Inl _ \<Rightarrow> [] | Inr bs \<Rightarrow> bs)"

definition optional_string :: "nat \<Rightarrow> string \<Rightarrow> byte list" where
  "optional_string t s = (if s = [] then [] else encode_string_attr t s)"

definition disconnect_packet ::
    "byte \<Rightarrow> string \<Rightarrow> byte list \<Rightarrow> string \<Rightarrow> string \<Rightarrow> string \<Rightarrow> string \<Rightarrow> byte list res" where
  "disconnect_packet ident nas_ip secret username session_id framed_ip calling =
     (if username = [] \<and> session_id = [] then Inl ValueError
      else
        build_packet CODE_DISCONNECT_REQUEST ident
          (optional_string ATTR_USER_NAME username @ optional_string ATTR_ACCT_SESSION_ID session_id @
           ipv4_or_nothing ATTR_NAS_IP_ADDRESS nas_ip @
           (if framed_ip = [] then [] else ipv4_or_nothing ATTR_FRAMED_IP_ADDRESS framed_ip) @
           optional_string ATTR_CALLING_STATION_ID calling)
          secret)"

definition send_disconnect ::
    "udp \<Rightarrow> byte \<Rightarrow> string \<Rightarrow> string \<Rightarrow> string \<Rightarrow> string \<Rightarrow> string \<Rightarrow> string \<Rightarrow> int \<Rightarrow> coa_result res" where
  "send_disconnect net ident nas_ip nas_secret username session_id framed_ip calling port =
     res_bind (disconnect_packet ident nas_ip (text_bytes nas_secret) username session_id framed_ip calling) (\<lambda>packet.
       Inr (receive (net (nas_ip, port) packet) packet (text_bytes nas_secret)))"

definition coa_packet ::
    "byte \<Rightarrow> string \<Rightarrow> byte list \<Rightarrow> string \<Rightarrow> string \<Rightarrow> string \<Rightarrow> string \<Rightarrow> string \<Rightarrow> string \<Rightarrow> int \<Rightarrow> byte list res" where
  "coa_packet ident nas_ip secret username session_id framed_ip calling rate new_framed_ip session_timeout =
     (let target = strip (or_default new_framed_ip framed_ip) in
      build_packet CODE_COA_REQUEST ident
        (encode_string_attr ATTR_USER_NAME username @ optional_string ATTR_ACCT_SESSION_ID session_id @
         ipv4_or_nothing ATTR_NAS_IP_ADDRESS nas_ip @
         (if target = [] then [] else ipv4_or_nothing ATTR_FRAMED_IP_ADDRESS target) @
         optional_string ATTR_CALLING_STATION_ID calling @
         (if rate = [] then [] else encode_vendor_attr VENDOR_MIKROTIK MT_RATE_LIMIT rate) @
         (if 0 < session_timeout then encode_uint32_attr ATTR_SESSION_TIMEOUT (max 1 (min session_timeout 0xFFFFFFFF)) else []))
        secret)"

definition send_coa ::
    "udp \<Rightarrow> byte \<Rightarrow> string \<Rightarrow> string \<Rightarrow> string \<Rightarrow> string \<Rightarrow> string \<Rightarrow> string \<Rightarrow> string \<Rightarrow> string \<Rightarrow> int \<Rightarrow> int \<Rightarrow> coa_result res" where
  "send_coa net ident nas_ip nas_secret username session_id framed_ip calling rate new_framed_ip session_timeout port =
     res_bind (coa_packet ident nas_ip (text_bytes nas_secret) username session_id framed_ip calling rate new_framed_ip session_timeout) (\<lambda>packet.
       Inr (receive (net (nas_ip, port) packet) packet (text_bytes nas_secret)))"

section \<open>The outcome of a broadcast\<close>

definition broadcast :: "coa_result list \<Rightarrow> nat \<Rightarrow> coa_result" where
  "broadcast results sent =
     (if results = [] \<and> sent = 0 then coa_failure ''no_active_session'' Panel
      else
        let ok_count = length (filter cr_ok results); fail_count = length results - ok_count in
        if fail_count = 0 then (coa_failure ''all_ok'' Panel)\<lparr>cr_ok := True\<rparr>
        else if ok_count = 0 then
          (coa_failure ''all_failed'' Panel)\<lparr>cr_timed_out := list_all (\<lambda>r. cr_code_name r = ''timeout'') results\<rparr>
        else (coa_failure ''partial'' Panel)\<lparr>cr_ok := True\<rparr>)"

end
