(* ===== verification/CoaSessions.thy ===== *)
theory CoaSessions
  imports CoaPackets SessionReconciler
begin

text \<open>
  \<open>app/radius/integration/radius_coa.py\<close>, the sessions: which router a session of \<open>radacct\<close> is on and how it is
  signalled, the broadcast over all sessions of a user, and the change of the speed or of the remaining time of a live
  session; \<open>app/radius/services/nas_connection.py\<close>, the address a router is dialled at. The threads of \<open>_run_all\<close> keep
  the order of the results, so they are a map over the sessions.
\<close>

section \<open>Routers\<close>

record nas_device =
  nd_id :: int
  nd_tenant_id :: int
  nd_enabled :: bool
  nd_address :: string
  nd_connection_mode :: string
  nd_vpn_peer_address :: string
  nd_secret :: string
  nd_coa_port :: "int option"
  nd_api_user :: string
  nd_api_password :: string
  nd_api_port :: int
  nd_api_use_tls :: bool
  nd_deleted :: bool

text \<open>A row of \<open>nas_devices\<close> or of \<open>nas\<close> as a dictionary; an absent column is no entry.\<close>

type_synonym nas_dict = "string \<rightharpoonup> string"

definition dict_text :: "nas_dict \<Rightarrow> string \<Rightarrow> string" where
  "dict_text nas k = (case nas k of None \<Rightarrow> [] | Some v \<Rightarrow> v)"

definition connection_mode :: "nas_dict \<Rightarrow> string" where
  "connection_mode nas = lower (strip (or_default (dict_text nas ''connection_mode'') ''direct''))"

definition is_vpn_mode :: "nas_dict \<Rightarrow> bool" where
  "is_vpn_mode nas = (connection_mode nas = ''vpn'')"

definition public_address :: "nas_dict \<Rightarrow> string" where
  "public_address nas =
     (case find (\<lambda>k. dict_text nas k \<noteq> []) [''address'', ''nasname'', ''ip'', ''host''] of
        None \<Rightarrow> [] | Some k \<Rightarrow> strip (dict_text nas k))"

definition resolve_connection_address :: "nas_dict \<Rightarrow> string" where
  "resolve_connection_address nas =
     (let vpn_ip = strip (dict_text nas ''vpn_peer_address'')
      in if connection_mode nas = ''vpn'' \<and> vpn_ip \<noteq> [] then vpn_ip else public_address nas)"

definition nas_dict_of :: "nas_device \<Rightarrow> nas_dict" where
  "nas_dict_of n =
     map_of [(''address'', nd_address n), (''connection_mode'', nd_connection_mode n), (''vpn_peer_address'', nd_vpn_peer_address n)]"

text \<open>The row of the router a packet came from: its public address or its peer address in the tunnel, the public one
  first.\<close>

definition nas_hit :: "int \<Rightarrow> string \<Rightarrow> nas_device \<Rightarrow> bool" where
  "nas_hit tid ip n =
     (nd_tenant_id n = tid \<and> nd_enabled n \<and>
      (nd_address n = ip \<or> (nd_vpn_peer_address n = ip \<and> nd_vpn_peer_address n \<noteq> [])))"

definition nas_lookup :: "nas_device list \<Rightarrow> int \<Rightarrow> string \<Rightarrow> nas_device option" where
  "nas_lookup nasses tid ip =
     (let hits = filter (nas_hit tid ip) nasses in
      case find (\<lambda>n. nd_address n = ip) hits of Some n \<Rightarrow> Some n | None \<Rightarrow> find (\<lambda>_. True) hits)"

definition nas_coa_port :: "nas_device \<Rightarrow> int" where
  "nas_coa_port n = (case nd_coa_port n of None \<Rightarrow> 3799 | Some p \<Rightarrow> if p = 0 then 3799 else p)"

definition dial_address :: "nas_device \<Rightarrow> string \<Rightarrow> string" where
  "dial_address n ip = or_default (resolve_connection_address (nas_dict_of n)) ip"

section \<open>Sessions\<close>

record coa_target =
  ct_nas_ip :: string
  ct_secret :: string
  ct_port :: int
  ct_session_id :: string
  ct_framed_ip :: string
  ct_calling :: string

definition open_rows_desc :: "db \<Rightarrow> int \<Rightarrow> string \<Rightarrow> acct_row list" where
  "open_rows_desc d tid user = filter (\<lambda>a. a_stop a = None) (rev (sort_key a_radacctid (user_rows d tid user)))"

text \<open>A heartbeat that is blank or the epoch itself counts as stale.\<close>

definition fresh :: "env \<Rightarrow> acct_row \<Rightarrow> bool" where
  "fresh e a =
     (case last_seen a of None \<Rightarrow> False | Some t \<Rightarrow> t \<noteq> 0 \<and> t \<ge> e_now e - seconds (stale_threshold_sec e))"

definition session_target :: "nas_device list \<Rightarrow> int \<Rightarrow> acct_row \<Rightarrow> coa_target option" where
  "session_target nasses tid a =
     (case nas_lookup nasses tid (a_nasipaddress a) of
        None \<Rightarrow> None
      | Some n \<Rightarrow>
          if nd_secret n = [] then None
          else Some \<lparr>ct_nas_ip = dial_address n (a_nasipaddress a), ct_secret = nd_secret n, ct_port = nas_coa_port n,
                     ct_session_id = a_acctsessionid a, ct_framed_ip = a_framedipaddress a, ct_calling = a_callingstationid a\<rparr>)"

definition find_session_targets :: "env \<Rightarrow> db \<Rightarrow> nas_device list \<Rightarrow> int \<Rightarrow> string \<Rightarrow> bool \<Rightarrow> coa_target list" where
  "find_session_targets e d nasses tid user fresh_only =
     List.map_filter (session_target nasses tid) (filter (\<lambda>a. fresh_only \<longrightarrow> fresh e a) (open_rows_desc d tid user))"

definition find_nas_for_session :: "env \<Rightarrow> db \<Rightarrow> nas_device list \<Rightarrow> int \<Rightarrow> string \<Rightarrow> coa_target option" where
  "find_nas_for_session e d nasses tid user =
     (case find_session_targets e d nasses tid user False of
        t # _ \<Rightarrow> Some t
      | [] \<Rightarrow>
          (case open_rows_desc d tid user of
             [] \<Rightarrow> None
           | a # _ \<Rightarrow> Some \<lparr>ct_nas_ip = a_nasipaddress a, ct_secret = [], ct_port = 3799, ct_session_id = a_acctsessionid a,
                            ct_framed_ip = a_framedipaddress a, ct_calling = a_callingstationid a\<rparr>))"

section \<open>Broadcasts\<close>

text \<open>The network, and the random identifier of the n-th packet of a call.\<close>

record coa_env =
  ce_udp :: udp
  ce_ident :: "nat \<Rightarrow> byte"

definition run_all :: "(nat \<Rightarrow> 'a \<Rightarrow> coa_result res) \<Rightarrow> 'a list \<Rightarrow> coa_result list res" where
  "run_all call xs = map_res (\<lambda>(n, x). call n x) (enumerate 0 xs)"

definition broadcast_all :: "(nat \<Rightarrow> 'a \<Rightarrow> coa_result res) \<Rightarrow> 'a list \<Rightarrow> coa_result res" where
  "broadcast_all call xs = res_bind (run_all call xs) (\<lambda>results. Inr (broadcast results (length xs)))"

definition disconnect_target :: "coa_env \<Rightarrow> string \<Rightarrow> nat \<Rightarrow> coa_target \<Rightarrow> coa_result res" where
  "disconnect_target c user n t =
     send_disconnect (ce_udp c) (ce_ident c n) (ct_nas_ip t) (ct_secret t) user (ct_session_id t) (ct_framed_ip t) (ct_calling t) (ct_port t)"

definition coa_target_call :: "coa_env \<Rightarrow> string \<Rightarrow> string \<Rightarrow> int \<Rightarrow> nat \<Rightarrow> coa_target \<Rightarrow> coa_result res" where
  "coa_target_call c user rate session_timeout n t =
     send_coa (ce_udp c) (ce_ident c n) (ct_nas_ip t) (ct_secret t) user (ct_session_id t) (ct_framed_ip t) (ct_calling t) rate []
       session_timeout (ct_port t)"

definition wanted_ids :: "string list \<Rightarrow> string list" where
  "wanted_ids sids = map strip (filter (\<lambda>s. strip s \<noteq> []) sids)"

definition unsignalable_open_session :: "db \<Rightarrow> int \<Rightarrow> string \<Rightarrow> string list \<Rightarrow> coa_result option" where
  "unsignalable_open_session d tid user sids =
     (let wanted = wanted_ids sids;
          rows = filter (\<lambda>a. a_stop a = None \<and> (wanted = [] \<or> a_acctsessionid a \<in> set wanted)) (user_rows d tid user)
      in if rows = [] then None else Some (coa_failure ''router_not_configured'' Panel))"

definition disconnect_from_radacct ::
    "coa_env \<Rightarrow> env \<Rightarrow> db \<Rightarrow> nas_device list \<Rightarrow> int \<Rightarrow> string \<Rightarrow> string list \<Rightarrow> bool \<Rightarrow> coa_result res" where
  "disconnect_from_radacct c e d nasses tid user sids fresh_only =
     (let wanted = wanted_ids sids;
          sessions = filter (\<lambda>t. wanted = [] \<or> ct_session_id t \<in> set wanted) (find_session_targets e d nasses tid user fresh_only) in
      if sessions = [] then
        (case (if fresh_only then None else unsignalable_open_session d tid user sids) of
           Some r \<Rightarrow> Inr r
         | None \<Rightarrow> Inr (coa_failure ''no_active_session'' Panel))
      else broadcast_all (disconnect_target c user) sessions)"

definition change_user_rate :: "coa_env \<Rightarrow> env \<Rightarrow> db \<Rightarrow> nas_device list \<Rightarrow> int \<Rightarrow> string \<Rightarrow> string \<Rightarrow> coa_result res" where
  "change_user_rate c e d nasses tid user rate =
     (if strip rate = [] then Inr (coa_failure ''empty_rate'' Panel)
      else
        let sessions = find_session_targets e d nasses tid user False in
        if sessions = [] then Inr (coa_failure ''no_active_session'' Panel)
        else broadcast_all (coa_target_call c user rate 0) sessions)"

definition change_user_session_timeout :: "coa_env \<Rightarrow> env \<Rightarrow> db \<Rightarrow> nas_device list \<Rightarrow> int \<Rightarrow> string \<Rightarrow> int \<Rightarrow> coa_result res" where
  "change_user_session_timeout c e d nasses tid user session_timeout =
     (if session_timeout \<le> 0 then Inr (coa_failure ''empty_timeout'' Panel)
      else
        let sessions = find_session_targets e d nasses tid user False in
        if sessions = [] then Inr (coa_failure ''no_active_session'' Panel)
        else broadcast_all (coa_target_call c user [] session_timeout) sessions)"

section \<open>Lemmas\<close>

lemma nas_lookup_hit: "nas_lookup nasses tid ip = Some n \<Longrightarrow> n \<in> set nasses \<and> nas_hit tid ip n"
  by (auto simp: nas_lookup_def Let_def split: option.splits dest!: find_Some_first)

lemma session_target_signed:
  assumes "session_target nasses tid a = Some t"
  shows "\<exists>n \<in> set nasses. nas_hit tid (a_nasipaddress a) n \<and> ct_secret t = nd_secret n \<and> nd_secret n \<noteq> [] \<and>
    ct_session_id t = a_acctsessionid a"
  using assms by (auto simp: session_target_def split: option.splits if_splits dest: nas_lookup_hit)

lemma broadcast_ok: "results \<noteq> [] \<Longrightarrow> cr_ok (broadcast results n) = (\<exists>r \<in> set results. cr_ok r)"
proof -
  assume "results \<noteq> []"
  moreover have "length (filter cr_ok results) = 0 \<longleftrightarrow> \<not> (\<exists>r \<in> set results. cr_ok r)" by (simp add: filter_empty_conv)
  moreover have "length (filter cr_ok results) = length results \<Longrightarrow> results \<noteq> [] \<Longrightarrow> \<exists>r \<in> set results. cr_ok r"
    by (metis filter_id_conv last_in_set length_filter_less less_irrefl_nat)
  ultimately show ?thesis by (auto simp: broadcast_def Let_def coa_failure_def)
qed

end
