(* ===== verification/NasLiveness.thy ===== *)
theory NasLiveness
  imports Tables
begin

text \<open>
  \<open>app/radius/services/nas_liveness.py\<close>: what the last poll of each router said, in the shared table
  \<open>nas_liveness_state\<close>. The fallback in process memory, for a database without the table, has the same operations and
  is not modelled apart; instants are microseconds.
\<close>

section \<open>The register\<close>

record liveness =
  lv_tenant_id :: int
  lv_nas_ip :: string
  lv_last_ok :: "dt option"
  lv_last_fail :: "dt option"
  lv_active :: int
  lv_last_event :: string

definition liveness_key :: "liveness \<Rightarrow> int \<times> string" where
  "liveness_key r = (lv_tenant_id r, lv_nas_ip r)"

definition DEFAULT_WINDOW_SEC :: int where "DEFAULT_WINDOW_SEC = 90"

definition window_sec :: "string option \<Rightarrow> int" where
  "window_sec raw =
     (case parse_int (strip (case raw of None \<Rightarrow> [] | Some s \<Rightarrow> s)) of
        None \<Rightarrow> DEFAULT_WINDOW_SEC | Some v \<Rightarrow> if v > 0 then v else DEFAULT_WINDOW_SEC)"

definition liveness_entry :: "liveness list \<Rightarrow> int \<Rightarrow> string \<Rightarrow> liveness option" where
  "liveness_entry t tid ip = lookup_row liveness_key (tid, strip ip) t"

text \<open>The insertion, or the update of the columns that the conflict clause names.\<close>

definition put_liveness :: "int \<Rightarrow> string \<Rightarrow> bool \<Rightarrow> dt \<Rightarrow> int \<Rightarrow> liveness list \<Rightarrow> liveness list" where
  "put_liveness tid ip ok ts active t =
     (let old = liveness_entry t tid ip in
      upsert liveness_key
        \<lparr>lv_tenant_id = tid, lv_nas_ip = strip ip,
         lv_last_ok = (if ok then Some ts else Option.bind old lv_last_ok),
         lv_last_fail = (if ok then Option.bind old lv_last_fail else Some ts),
         lv_active = (if ok then active else 0), lv_last_event = (if ok then ''ok'' else ''fail'')\<rparr> t)"

definition record_reachable :: "int \<Rightarrow> string \<Rightarrow> int \<Rightarrow> dt \<Rightarrow> liveness list \<Rightarrow> liveness list" where
  "record_reachable tid ip active ts t = (if strip ip = [] then t else put_liveness tid ip True ts (max 0 active) t)"

definition record_unreachable :: "int \<Rightarrow> string \<Rightarrow> dt \<Rightarrow> liveness list \<Rightarrow> liveness list" where
  "record_unreachable tid ip ts t = (if strip ip = [] then t else put_liveness tid ip False ts 0 t)"

section \<open>Reading it\<close>

definition classify :: "dt \<Rightarrow> int \<Rightarrow> liveness option \<Rightarrow> bool option" where
  "classify now win entry =
     (case entry of
        None \<Rightarrow> None
      | Some r \<Rightarrow>
          if lv_last_event r = ''fail'' then Some False
          else if lv_last_event r = ''ok'' then
            Some (case lv_last_ok r of None \<Rightarrow> False | Some t \<Rightarrow> now - t \<le> seconds win)
          else None)"

definition is_reachable :: "liveness list \<Rightarrow> int \<Rightarrow> string \<Rightarrow> dt \<Rightarrow> int \<Rightarrow> bool option" where
  "is_reachable t tid ip now win = classify now win (liveness_entry t tid ip)"

definition active_for :: "liveness list \<Rightarrow> int \<Rightarrow> string \<Rightarrow> dt \<Rightarrow> int \<Rightarrow> int" where
  "active_for t tid ip now win =
     (case liveness_entry t tid ip of
        None \<Rightarrow> 0
      | Some r \<Rightarrow> if classify now win (Some r) = Some True then lv_active r else 0)"

definition has_data :: "liveness list \<Rightarrow> int \<Rightarrow> bool" where
  "has_data t tid = (\<exists>r \<in> set t. lv_tenant_id r = tid)"

definition live_connected_count :: "liveness list \<Rightarrow> int \<Rightarrow> dt \<Rightarrow> int \<Rightarrow> int" where
  "live_connected_count t tid now win =
     sum_list (map lv_active (filter (\<lambda>r. lv_tenant_id r = tid \<and> classify now win (Some r) = Some True) t))"

section \<open>Lemmas\<close>

lemma liveness_after_put:
  "liveness_entry (put_liveness tid ip ok ts n t) tid' ip' =
     (if tid' = tid \<and> strip ip' = strip ip
      then Some \<lparr>lv_tenant_id = tid, lv_nas_ip = strip ip,
         lv_last_ok = (if ok then Some ts else Option.bind (liveness_entry t tid ip) lv_last_ok),
         lv_last_fail = (if ok then Option.bind (liveness_entry t tid ip) lv_last_fail else Some ts),
         lv_active = (if ok then n else 0), lv_last_event = (if ok then ''ok'' else ''fail'')\<rparr>
      else liveness_entry t tid' ip')"
  unfolding put_liveness_def Let_def liveness_entry_def by (subst upsert_table.get_put) (simp add: liveness_key_def)

lemma unique_put_liveness: "unique_keys liveness_key t \<Longrightarrow> unique_keys liveness_key (put_liveness tid ip ok ts n t)"
  unfolding put_liveness_def Let_def by (rule upsert_table.inv_put)

text \<open>The last event decides: an unreachable router has no active session, a reachable one its count while the poll is
  younger than the window, and no other router is touched.\<close>

lemma liveness_last_event:
  assumes "strip ip \<noteq> []"
  shows "is_reachable (record_unreachable tid ip ts t) tid ip now win = Some False"
    and "active_for (record_unreachable tid ip ts t) tid ip now win = 0"
    and "is_reachable (record_reachable tid ip n ts t) tid ip now win = Some (now - ts \<le> seconds win)"
    and "active_for (record_reachable tid ip n ts t) tid ip now win = (if now - ts \<le> seconds win then max 0 n else 0)"
  using assms
  by (simp_all add: is_reachable_def active_for_def record_unreachable_def record_reachable_def liveness_after_put classify_def)

end
