(* ===== verification/MtReconciler.thy ===== *)
theory MtReconciler
  imports Accounting RouterOsProtocol Digest CoaSessions NasLiveness
begin

text \<open>
  \<open>app/workers/mt_reconciler.py\<close>: the session table is compared with what each router reports. A session that the
  router does not list on two passes is closed, a session the router lists and the table lacks gets a synthetic row
  (\<open>mtsync:\<close>), which later passes refresh. The webhooks are the list of session identifiers they are sent for, the
  heartbeat and the thread are not modelled.
\<close>

section \<open>What a router reports\<close>

definition mt_norm_mac :: "string \<Rightarrow> string" where
  "mt_norm_mac s =
     (let cleaned = filter is_alnum s in
      if length cleaned \<noteq> 12 then upper (strip s)
      else upper (join_with '':'' (map (\<lambda>i. take 2 (drop i cleaned)) [0, 2, 4, 6, 8, 10])))"

text \<open>\<open>int(float(str(v).strip()))\<close>, zero for what is not a number.\<close>

definition trunc_rat :: "rat \<Rightarrow> int" where
  "trunc_rat x = (if 0 \<le> x then floor x else - floor (- x))"

definition safe_int :: "env \<Rightarrow> string option \<Rightarrow> int" where
  "safe_int e v =
     (case v of
        None \<Rightarrow> 0
      | Some s \<Rightarrow> (case parse_decimal (strip s) of None \<Rightarrow> 0 | Some r \<Rightarrow> trunc_rat (e_fl e r)))"

text \<open>\<open>re.findall\<close> of a number, spaces and a unit.\<close>

lemma after_number_shorter: "dropWhile is_space (dropWhile is_digit cs) = u # r \<Longrightarrow> Suc (length r) \<le> length cs"
  using length_dropWhile_le [of is_space "dropWhile is_digit cs"] length_dropWhile_le [of is_digit cs] by simp

function ros_units :: "string \<Rightarrow> (string \<times> char) list" where
  "ros_units [] = []"
| "ros_units (c # cs) =
     (if is_digit c then
        (case dropWhile is_space (dropWhile is_digit cs) of
           [] \<Rightarrow> []
         | u # r \<Rightarrow>
             if u \<in> set ''wdhms'' then (c # takeWhile is_digit cs, u) # ros_units r
             else ros_units (u # r))
      else ros_units cs)"
  by pat_completeness auto
termination by (relation "measure length") (auto dest: after_number_shorter)

definition unit_seconds :: "char \<Rightarrow> int" where
  "unit_seconds u =
     (if u = CHR ''w'' then 604800 else if u = CHR ''d'' then 86400 else if u = CHR ''h'' then 3600
      else if u = CHR ''m'' then 60 else 1)"

definition parse_ros_uptime :: "env \<Rightarrow> string \<Rightarrow> int" where
  "parse_ros_uptime e s0 =
     (let s = lower (strip s0) in
      if s = [] then 0
      else if ros_units s \<noteq> [] then sum_list (map (\<lambda>(n, u). int (nat_of_digits n) * unit_seconds u) (ros_units s))
      else if CHR '':'' \<in> set s then
        (case map_res (\<lambda>p. case parse_int p of None \<Rightarrow> Inl ValueError | Some n \<Rightarrow> Inr n) (split_on (CHR '':'') s) of
           Inl _ \<Rightarrow> 0
         | Inr parts \<Rightarrow> foldl (\<lambda>total p. total * 60 + p) 0 parts)
      else safe_int e (Some s))"

record live_row =
  lr_username :: string
  lr_mac :: string
  lr_framed_ip :: string
  lr_uptime_sec :: int
  lr_bytes_in :: int
  lr_bytes_out :: int
  lr_source :: string

definition word_text :: "word_dict \<Rightarrow> string \<Rightarrow> string" where
  "word_text r k = (case r k of None \<Rightarrow> [] | Some v \<Rightarrow> v)"

definition map_active_row :: "env \<Rightarrow> string \<Rightarrow> string \<Rightarrow> string \<Rightarrow> word_dict \<Rightarrow> live_row option" where
  "map_active_row e user_key mac_key source r =
     (let user = strip (word_text r user_key) in
      if user = [] then None
      else Some \<lparr>lr_username = user, lr_mac = mt_norm_mac (word_text r mac_key), lr_framed_ip = strip (word_text r ''address''),
                 lr_uptime_sec = parse_ros_uptime e (word_text r ''uptime''), lr_bytes_in = safe_int e (r ''bytes-in''),
                 lr_bytes_out = safe_int e (r ''bytes-out''), lr_source = source\<rparr>)"

definition map_active_rows :: "env \<Rightarrow> word_dict list \<Rightarrow> word_dict list \<Rightarrow> live_row list" where
  "map_active_rows e hotspot ppp =
     List.map_filter (map_active_row e ''user'' ''mac-address'' ''hotspot'') hotspot @
     List.map_filter (map_active_row e ''name'' ''caller-id'' ''ppp'') ppp"

text \<open>On an acquired connection; a router without the PPP list has only its hotspot. \<open>None\<close> outside: the reading does
  not return.\<close>

definition active_lists :: "mt_error + conn \<Rightarrow> (mt_error + word_dict list \<times> word_dict list) option" where
  "active_lists acquired =
     (case acquired of
        Inl err \<Rightarrow> Some (Inl err)
      | Inr c \<Rightarrow>
          (case print_rows ''/ip/hotspot/active/print'' [] [] c of
             None \<Rightarrow> None
           | Some (Inl err, _) \<Rightarrow> Some (Inl err)
           | Some (Inr hotspot, c1) \<Rightarrow>
               (case print_rows ''/ppp/active/print'' [] [] c1 of
                  None \<Rightarrow> None
                | Some (Inl _, _) \<Rightarrow> Some (Inr (hotspot, []))
                | Some (Inr ppp, _) \<Rightarrow> Some (Inr (hotspot, ppp)))))"

definition fetch_active_rows :: "env \<Rightarrow> mt_error + conn \<Rightarrow> live_row list option option" where
  "fetch_active_rows e acquired =
     map_option (\<lambda>r. case r of Inl _ \<Rightarrow> None | Inr (hotspot, ppp) \<Rightarrow> Some (map_active_rows e hotspot ppp)) (active_lists acquired)"

type_synonym user_mac = "string \<times> string"

definition keys_from_rows :: "live_row list \<Rightarrow> user_mac set" where
  "keys_from_rows rows =
     set (map (\<lambda>r. (lower (strip (lr_username r)), lr_mac r)) (filter (\<lambda>r. strip (lr_username r) \<noteq> []) rows))"

section \<open>The routers of a tenant\<close>

record mikrotik_config =
  mc_id :: int
  mc_tenant_id :: int
  mc_enabled :: bool
  mc_host :: string
  mc_port :: int
  mc_username :: string
  mc_password :: string
  mc_use_tls :: bool
  mc_verify_tls :: bool
  mc_timeout_sec :: int

record router_cfg =
  rc_id :: int
  rc_host :: string
  rc_port :: int
  rc_username :: string
  rc_password :: string
  rc_use_tls :: bool
  rc_verify_tls :: bool
  rc_timeout_sec :: int

definition config_of_mikrotik :: "mikrotik_config \<Rightarrow> router_cfg option" where
  "config_of_mikrotik r =
     (let host = strip (mc_host r) in
      if \<not> mc_enabled r \<or> host = [] then None
      else Some \<lparr>rc_id = mc_id r, rc_host = host, rc_port = or_int (mc_port r) 8728,
                 rc_username = or_default (mc_username r) ''admin'', rc_password = mc_password r, rc_use_tls = mc_use_tls r,
                 rc_verify_tls = mc_verify_tls r, rc_timeout_sec = or_int (mc_timeout_sec r) 20\<rparr>)"

definition config_of_nas :: "nas_device \<Rightarrow> router_cfg option" where
  "config_of_nas n =
     (let host = strip (nd_address n) in
      if \<not> nd_enabled n \<or> host = [] \<or> nd_api_user n = [] then None
      else Some \<lparr>rc_id = nd_id n, rc_host = host, rc_port = or_int (nd_api_port n) 8728, rc_username = nd_api_user n,
                 rc_password = nd_api_password n, rc_use_tls = nd_api_use_tls n, rc_verify_tls = True, rc_timeout_sec = 20\<rparr>)"

text \<open>A dictionary by host: a later configuration replaces an earlier one in its place, and a router of \<open>nas_devices\<close>
  is added only under a host that is not there yet. A table that cannot be read gives no router.\<close>

definition collect_router_configs :: "mikrotik_config list option \<Rightarrow> nas_device list option \<Rightarrow> int \<Rightarrow> router_cfg list" where
  "collect_router_configs configs nasses tid =
     (let mine = (case configs of
          None \<Rightarrow> []
        | Some cs \<Rightarrow> List.map_filter config_of_mikrotik (sort_key mc_id (filter (\<lambda>c. mc_tenant_id c = tid) cs)));
          devices = (case nasses of
          None \<Rightarrow> []
        | Some ns \<Rightarrow> List.map_filter config_of_nas (take 1000 (sort_key nd_id (filter (\<lambda>n. nd_tenant_id n = tid \<and> \<not> nd_deleted n) ns))));
          out = fold (upsert rc_host) mine []
      in fold (\<lambda>c out. if \<exists>o' \<in> set out. rc_host o' = rc_host c then out else out @ [c]) devices out)"

section \<open>Closing what the router does not list\<close>

definition CAUSE_NAS_LOST :: string where "CAUSE_NAS_LOST = ''NAS-Lost-Session''"

text \<open>The keys that were absent on the last pass, by tenant and router: the state of the worker.\<close>

type_synonym absences = "int \<times> string \<Rightarrow> user_mac set"

definition live_key :: "acct_row \<Rightarrow> user_mac" where
  "live_key a = (lower (strip (a_username a)), mt_norm_mac (a_callingstationid a))"

definition is_active_on :: "user_mac set \<Rightarrow> acct_row \<Rightarrow> bool" where
  "is_active_on keys a =
     (live_key a \<in> keys \<or> (snd (live_key a) = [] \<and> (\<exists>k \<in> keys. fst k = fst (live_key a))))"

fun nas_rows :: "env \<Rightarrow> user_mac set \<Rightarrow> user_mac set \<Rightarrow> acct_row list \<Rightarrow> db \<Rightarrow> db \<times> user_mac set \<times> nat \<times> string list" where
  "nas_rows e keys before [] d = (d, {}, 0, [])"
| "nas_rows e keys before (a # rows) d =
     (if fst (live_key a) = [] \<or> is_active_on keys a then nas_rows e keys before rows d
      else
        let (d1, n) =
              (if live_key a \<notin> before \<or> e_row_fault e (a_radacctid a) then (d, 0)
               else close_session_row (e_now e) d a CAUSE_NAS_LOST None);
            (d2, absent, closed, sids) = nas_rows e keys before rows d1
        in (d2, insert (live_key a) absent, (if n > 0 then Suc closed else closed),
            (if n > 0 \<and> a_acctsessionid a \<noteq> [] then a_acctsessionid a # sids else sids)))"

definition open_on_nas :: "int \<Rightarrow> string \<Rightarrow> acct_row \<Rightarrow> bool" where
  "open_on_nas tid nas a = (a_tenant_id a = tid \<and> a_nasipaddress a = nas \<and> a_stop a = None)"

definition reconcile_nas ::
    "env \<Rightarrow> int \<Rightarrow> string \<Rightarrow> user_mac set \<Rightarrow> db \<times> absences \<Rightarrow> nat \<times> string list \<times> db \<times> absences" where
  "reconcile_nas e tid nas keys st =
     (case st of (d, absent) \<Rightarrow>
        let rows = filter (open_on_nas tid nas) (radacct d) in
        if rows = [] \<or> keys = {} then (0, [], d, absent)
        else
          let (d1, now_absent, closed, sids) = nas_rows e keys (absent (tid, nas)) rows d
          in (closed, sids, d1, absent((tid, nas) := now_absent)))"

section \<open>Rows for what the table lacks\<close>

definition materialize_enabled :: "env \<Rightarrow> bool" where
  "materialize_enabled e =
     (lower (strip (or_default (case e_osenv e ''HOBERADIUS_SESSION_SYNC_MATERIALIZE'' of None \<Rightarrow> [] | Some s \<Rightarrow> s) ''1''))
        \<notin> {''0'', ''false'', ''no'', ''off''})"

definition MTSYNC_PREFIX :: string where "MTSYNC_PREFIX = ''mtsync:''"

definition is_mtsync :: "string \<Rightarrow> bool" where
  "is_mtsync uniq = (take 7 uniq = MTSYNC_PREFIX)"

text \<open>Whether a row that FreeRADIUS wrote is this session: it is open and starts within five minutes of it, or
  overlaps it by a minute. The stamps of the table are read to the second; \<open>LIKE\<close> ignores case.\<close>

definition is_real_session :: "acct_row \<Rightarrow> bool" where
  "is_real_session a = (take 7 (lower (a_acctsessionid a)) \<noteq> ''mtsync-'')"

definition covers :: "dt \<Rightarrow> string \<Rightarrow> dt \<Rightarrow> acct_row \<Rightarrow> bool" where
  "covers now want start a =
     ((want = [] \<or> mt_norm_mac (a_callingstationid a) = want) \<and>
      (case a_start a of
         None \<Rightarrow> False
       | Some s \<Rightarrow>
           (a_stop a = None \<and> \<bar>floor_sec s - start\<bar> \<le> seconds 300) \<or>
           min (case a_stop a of None \<Rightarrow> now | Some t \<Rightarrow> floor_sec t) now - max (floor_sec s) start \<ge> seconds 60))"

definition covered_by_real_row :: "env \<Rightarrow> db \<Rightarrow> int \<Rightarrow> string \<Rightarrow> string \<Rightarrow> dt \<Rightarrow> bool" where
  "covered_by_real_row e d tid user mac start =
     (\<exists>a \<in> set (radacct d). a_tenant_id a = tid \<and> a_username a = user \<and> is_real_session a \<and>
        (case a_start a of None \<Rightarrow> False | Some s \<Rightarrow> s \<ge> floor_sec (start - 2 * day_us)) \<and>
        covers (e_now e) (mt_norm_mac mac) start a)"

definition hex_text :: "byte list \<Rightarrow> string" where
  "hex_text bs = concat (map (\<lambda>b. [''0123456789abcdef'' ! (unat b div 16), ''0123456789abcdef'' ! (unat b mod 16)]) bs)"

definition synthetic_uniq :: "string \<Rightarrow> string \<Rightarrow> string \<Rightarrow> string" where
  "synthetic_uniq nas user mac = MTSYNC_PREFIX @ nas @ '':'' @ lower user @ '':'' @ mac"

definition synthetic_row :: "env \<Rightarrow> db \<Rightarrow> int \<Rightarrow> string \<Rightarrow> string \<Rightarrow> dt \<Rightarrow> live_row \<Rightarrow> acct_row" where
  "synthetic_row e d tid nas user start r =
     (let uniq = synthetic_uniq nas user (lr_mac r) in
      \<lparr>a_radacctid = next_radacctid d, a_tenant_id = tid, a_username = user,
       a_acctsessionid = ''mtsync-'' @ take 16 (hex_text (md5 (text_bytes uniq))), a_callingstationid = lr_mac r,
       a_start = Some start, a_update = Some (e_now e), a_stop = None, a_sessiontime = lr_uptime_sec r,
       a_inputoctets = lr_bytes_in r, a_outputoctets = lr_bytes_out r, a_terminatecause = [], a_nasipaddress = nas,
       a_acctinterval = 0, a_framedipaddress = lr_framed_ip r, a_calledstationid = [], a_acctuniqueid = uniq\<rparr>)"

definition refreshed_row :: "env \<Rightarrow> live_row \<Rightarrow> acct_row \<Rightarrow> acct_row" where
  "refreshed_row e r a =
     a\<lparr>a_update := Some (e_now e), a_inputoctets := lr_bytes_in r, a_outputoctets := lr_bytes_out r,
       a_sessiontime := lr_uptime_sec r, a_framedipaddress := or_default (lr_framed_ip r) (a_framedipaddress a)\<rparr>"

text \<open>The open rows of the tenant by key, the last one winning: identifier and \<open>acctuniqueid\<close>.\<close>

type_synonym known_rows = "user_mac \<Rightarrow> (int option \<times> string) option"

definition existing_rows :: "db \<Rightarrow> int \<Rightarrow> known_rows" where
  "existing_rows d tid =
     map_of (rev (map (\<lambda>a. (live_key a, (Some (a_radacctid a), a_acctuniqueid a)))
       (filter (\<lambda>a. a_tenant_id a = tid \<and> a_stop a = None) (radacct d))))"

definition matching_row :: "known_rows \<Rightarrow> user_mac \<Rightarrow> live_row \<Rightarrow> (int option \<times> string) option" where
  "matching_row known key r =
     (case known key of
        None \<Rightarrow> None
      | Some (i, uniq) \<Rightarrow> if lr_uptime_sec r > 0 \<and> \<not> is_mtsync uniq then None else Some (i, uniq))"

text \<open>An insertion fails for its own row of the list: insertions are numbered from the end, by negative numbers that no
  stored row has.\<close>

fun materialize_rows ::
    "env \<Rightarrow> int \<Rightarrow> string \<Rightarrow> live_row list \<Rightarrow> known_rows \<Rightarrow> db \<Rightarrow> (nat \<times> nat) \<times> db" where
  "materialize_rows e tid nas [] known d = ((0, 0), d)"
| "materialize_rows e tid nas (r # rows) known d =
     (let user = strip (lr_username r); key = (lower user, lr_mac r) in
      if user = [] then materialize_rows e tid nas rows known d
      else
        (case matching_row known key r of
           Some (i, uniq) \<Rightarrow>
             if is_mtsync uniq then
               let d1 = d\<lparr>radacct := map (\<lambda>a. if Some (a_radacctid a) = i then refreshed_row e r a else a) (radacct d)\<rparr>;
                   ((ins, upd), d2) = materialize_rows e tid nas rows known d1
               in ((ins, Suc upd), d2)
             else materialize_rows e tid nas rows known d
         | None \<Rightarrow>
             let start = e_now e - seconds (lr_uptime_sec r) in
             if covered_by_real_row e d tid user (lr_mac r) start then materialize_rows e tid nas rows known d
             else if e_row_fault e (- 1 - int (length rows)) then
               materialize_rows e tid nas rows (known(key := Some (None, []))) d
             else
               let d1 = insert_row (synthetic_row e d tid nas user start r) d;
                   ((ins, upd), d2) = materialize_rows e tid nas rows known d1
               in ((Suc ins, upd), d2)))"

definition materialize_nas :: "env \<Rightarrow> int \<Rightarrow> string \<Rightarrow> live_row list \<Rightarrow> db \<Rightarrow> (nat \<times> nat) \<times> db" where
  "materialize_nas e tid nas rows d =
     (if \<not> materialize_enabled e \<or> rows = [] then ((0, 0), d)
      else materialize_rows e tid nas rows (existing_rows d tid) d)"

section \<open>A pass over a tenant\<close>

record reconcile_stats =
  rs_routers_ok :: nat
  rs_routers_skipped :: nat
  rs_routers_blind :: nat
  rs_closed :: nat
  rs_materialized :: nat

record worker_state =
  ws_db :: db
  ws_absent :: absences
  ws_liveness :: "liveness list"

text \<open>What the pass gets from outside: what each router answers, and the number of real sessions among its names
  (\<open>live_sessions\<close>, \<open>None\<close> where that raises).\<close>

definition reconcile_router ::
    "env \<Rightarrow> (router_cfg \<Rightarrow> live_row list option) \<Rightarrow> (string list \<Rightarrow> int option) \<Rightarrow> int \<Rightarrow> router_cfg \<Rightarrow>
       reconcile_stats \<times> worker_state \<Rightarrow> reconcile_stats \<times> worker_state" where
  "reconcile_router e fetch count_real tid cfg st =
     (case st of (s, w) \<Rightarrow>
        (case fetch cfg of
           None \<Rightarrow> (s\<lparr>rs_routers_skipped := Suc (rs_routers_skipped s)\<rparr>,
                    w\<lparr>ws_liveness := record_unreachable tid (rc_host cfg) (e_now e) (ws_liveness w)\<rparr>)
         | Some rows \<Rightarrow>
             let active = (case count_real (map lr_username rows) of None \<Rightarrow> int (length rows) | Some n \<Rightarrow> n);
                 live = record_reachable tid (rc_host cfg) active (e_now e) (ws_liveness w);
                 (closed, sids, d1, absent) =
                   (if rows = [] then (0, [], ws_db w, ws_absent w)
                    else reconcile_nas e tid (rc_host cfg) (keys_from_rows rows) (ws_db w, ws_absent w));
                 ((ins, upd), d2) = materialize_nas e tid (rc_host cfg) rows d1
             in (s\<lparr>rs_routers_ok := Suc (rs_routers_ok s),
                   rs_routers_blind := (if rows = [] then Suc (rs_routers_blind s) else rs_routers_blind s),
                   rs_closed := rs_closed s + closed, rs_materialized := rs_materialized s + ins\<rparr>,
                 \<lparr>ws_db = d2, ws_absent = absent, ws_liveness = live\<rparr>)))"

definition reconcile_tenant ::
    "env \<Rightarrow> (router_cfg \<Rightarrow> live_row list option) \<Rightarrow> (string list \<Rightarrow> int option) \<Rightarrow> router_cfg list \<Rightarrow> int \<Rightarrow>
       worker_state \<Rightarrow> reconcile_stats \<times> worker_state" where
  "reconcile_tenant e fetch count_real cfgs tid w =
     fold (reconcile_router e fetch count_real tid) cfgs (\<lparr>rs_routers_ok = 0, rs_routers_skipped = 0, rs_routers_blind = 0, rs_closed = 0, rs_materialized = 0\<rparr>, w)"

definition add_stats :: "reconcile_stats \<Rightarrow> reconcile_stats \<Rightarrow> reconcile_stats" where
  "add_stats s t =
     \<lparr>rs_routers_ok = rs_routers_ok s + rs_routers_ok t, rs_routers_skipped = rs_routers_skipped s + rs_routers_skipped t,
      rs_routers_blind = rs_routers_blind s + rs_routers_blind t, rs_closed = rs_closed s + rs_closed t,
      rs_materialized = rs_materialized s + rs_materialized t\<rparr>"

definition reconcile_once ::
    "env \<Rightarrow> (int \<Rightarrow> router_cfg \<Rightarrow> live_row list option) \<Rightarrow> (int \<Rightarrow> string list \<Rightarrow> int option) \<Rightarrow> (int \<Rightarrow> router_cfg list) \<Rightarrow>
       int list \<Rightarrow> worker_state \<Rightarrow> reconcile_stats \<times> worker_state" where
  "reconcile_once e fetch count_real cfgs tids w =
     fold (\<lambda>tid (s, w). let (t, w1) = reconcile_tenant e (fetch tid) (count_real tid) (cfgs tid) tid w in (add_stats s t, w1)) tids
       (\<lparr>rs_routers_ok = 0, rs_routers_skipped = 0, rs_routers_blind = 0, rs_closed = 0, rs_materialized = 0\<rparr>, w)"

end
