(* ===== verification/MtReconcilerProperties.thy ===== *)
theory MtReconcilerProperties
  imports MtReconciler
begin

text \<open>
  What a pass of the reconciler does to the session table: which rows it closes and when, and which rows it adds.
\<close>

section \<open>Closing\<close>

text \<open>A row with a user name that the router does not list.\<close>

definition ghost :: "user_mac set \<Rightarrow> acct_row \<Rightarrow> bool" where
  "ghost keys a = (fst (live_key a) \<noteq> [] \<and> \<not> is_active_on keys a)"

lemma nas_rows_closes:
  "fst (nas_rows e keys before rows d) =
     fst (close_rows (e_row_fault e) (e_now e) CAUSE_NAS_LOST None d (filter (\<lambda>a. ghost keys a \<and> live_key a \<in> before) rows))"
  "fst (snd (snd (nas_rows e keys before rows d))) =
     snd (close_rows (e_row_fault e) (e_now e) CAUSE_NAS_LOST None d (filter (\<lambda>a. ghost keys a \<and> live_key a \<in> before) rows))"
  "fst (snd (nas_rows e keys before rows d)) = live_key ` set (filter (ghost keys) rows)"
proof (induction rows arbitrary: d)
  case (Cons a rows)
  {
    case 1
    show ?case using Cons by (cases "live_key a \<in> before") (simp_all add: ghost_def split_beta Let_def)
  next
    case 2
    show ?case using Cons by (cases "live_key a \<in> before") (simp_all add: ghost_def split_beta Let_def)
  next
    case 3
    show ?case using Cons by (auto simp: ghost_def split_beta Let_def)
  }
qed simp_all

lemma live_key_closed [simp]: "live_key (close_where now cause stop P a) = live_key a"
  by (simp add: live_key_def close_where_def closed_row_def Let_def)

lemma open_on_nas_closed: "open_on_nas tid nas (close_where now cause stop P a) = (open_on_nas tid nas a \<and> \<not> P a)"
  by (simp add: open_on_nas_def close_where_def)

text \<open>The rows a pass closes.\<close>

definition lost :: "env \<Rightarrow> int \<Rightarrow> string \<Rightarrow> user_mac set \<Rightarrow> absences \<Rightarrow> acct_row \<Rightarrow> bool" where
  "lost e tid nas keys absent a =
     (keys \<noteq> {} \<and> open_on_nas tid nas a \<and> ghost keys a \<and> live_key a \<in> absent (tid, nas) \<and> \<not> e_row_fault e (a_radacctid a))"

lemma reconcile_nas_conj:
  assumes "ids_identify d" "reconcile_nas e tid nas keys (d, absent) = (n, sids, d', absent')"
  shows "d' = d\<lparr>radacct := map (close_where (e_now e) CAUSE_NAS_LOST None (lost e tid nas keys absent)) (radacct d)\<rparr> \<and>
    n = length (filter (lost e tid nas keys absent) (radacct d)) \<and>
    absent' = (if keys = {} \<or> filter (open_on_nas tid nas) (radacct d) = [] then absent
       else absent((tid, nas) := live_key ` {a \<in> set (radacct d). open_on_nas tid nas a \<and> ghost keys a}))"
proof (cases "keys = {} \<or> filter (open_on_nas tid nas) (radacct d) = []")
  case True
  have none: "lost e tid nas keys absent a = False" if "a \<in> set (radacct d)" for a
    using True that by (auto simp: lost_def filter_empty_conv)
  have "d' = d" "n = 0" "absent' = absent" using assms(2) True by (auto simp: reconcile_nas_def Let_def)
  moreover have "map (close_where (e_now e) CAUSE_NAS_LOST None (lost e tid nas keys absent)) (radacct d) = radacct d"
    using none by (intro map_idI) (simp add: close_where_def)
  moreover have "filter (lost e tid nas keys absent) (radacct d) = []" using none by (simp add: filter_empty_conv)
  ultimately show ?thesis using True by simp
next
  case False
  let ?rows = "filter (open_on_nas tid nas) (radacct d)"
  define P where "P a = (open_on_nas tid nas a \<and> ghost keys a \<and> live_key a \<in> absent (tid, nas))" for a
  have P: "filter (\<lambda>a. ghost keys a \<and> live_key a \<in> absent (tid, nas)) ?rows = filter P (radacct d)"
    by (auto simp: P_def intro!: filter_cong)
  have lost: "lost e tid nas keys absent = (\<lambda>a. P a \<and> \<not> e_row_fault e (a_radacctid a))"
    using False by (auto simp: lost_def P_def fun_eq_iff)
  have op: "P a \<Longrightarrow> a_stop a = None" for a by (simp add: P_def open_on_nas_def)
  have r: "d' = fst (nas_rows e keys (absent (tid, nas)) ?rows d)" "n = fst (snd (snd (nas_rows e keys (absent (tid, nas)) ?rows d)))"
    "absent' = absent((tid, nas) := fst (snd (nas_rows e keys (absent (tid, nas)) ?rows d)))"
    using assms(2) False by (auto simp: reconcile_nas_def Let_def split: prod.splits)
  have "d' = d\<lparr>radacct := map (close_where (e_now e) CAUSE_NAS_LOST None (lost e tid nas keys absent)) (radacct d)\<rparr>"
    unfolding r(1) nas_rows_closes(1) P lost by (simp add: close_rows_where [OF assms(1) op] Let_def)
  moreover have "n = length (filter (lost e tid nas keys absent) (radacct d))"
    unfolding r(2) nas_rows_closes(2) P lost by (simp add: close_rows_where [OF assms(1) op] Let_def)
  moreover have "absent' = absent((tid, nas) := live_key ` {a \<in> set (radacct d). open_on_nas tid nas a \<and> ghost keys a})"
    unfolding r(3) nas_rows_closes(3) by (simp add: conj_commute)
  ultimately show ?thesis using False by simp
qed

lemmas reconcile_nas_eq =
  reconcile_nas_conj [THEN conjunct1] reconcile_nas_conj [THEN conjunct2, THEN conjunct1]
  reconcile_nas_conj [THEN conjunct2, THEN conjunct2]

text \<open>C5. A pass closes a row only if the router listed something, the row is an open session of this tenant on this
  router with a user name, the router does not list it, and it was absent on the pass before: it is stopped at its last
  sign of life with the cause \<open>NAS-Lost-Session\<close> and keeps at least its seconds. Every other row is unchanged, the
  result counts the closed rows, and the memory for the next pass holds exactly the sessions the router did not list.\<close>

theorem reconcile_closes_lost:
  assumes "ids_identify d" "reconcile_nas e tid nas keys (d, absent) = (n, sids, d', absent')"
  shows "list_all2 (\<lambda>a a'. if lost e tid nas keys absent a
            then a_stop a' = Some (case last_seen a of None \<Rightarrow> e_now e | Some t \<Rightarrow> t) \<and> a_terminatecause a' = ''NAS-Lost-Session'' \<and>
                 a_sessiontime a \<le> a_sessiontime a' \<and> a_radacctid a' = a_radacctid a
            else a' = a) (radacct d) (radacct d') \<and>
    n = length (filter (lost e tid nas keys absent) (radacct d)) \<and>
    (keys \<noteq> {} \<longrightarrow> filter (open_on_nas tid nas) (radacct d) \<noteq> [] \<longrightarrow>
       absent' (tid, nas) = live_key ` {a \<in> set (radacct d). open_on_nas tid nas a \<and> ghost keys a}) \<and>
    (\<forall>k. k \<noteq> (tid, nas) \<longrightarrow> absent' k = absent k)"
proof -
  have "\<forall>k. k \<noteq> (tid, nas) \<longrightarrow> absent' k = absent k" by (auto simp: reconcile_nas_eq(3) [OF assms])
  then show ?thesis
    using close_where_spec [where P = "lost e tid nas keys absent" and stop = None and now = "e_now e" and cause = CAUSE_NAS_LOST
        and rows = "radacct d"] reconcile_nas_eq [OF assms]
    by (simp add: CAUSE_NAS_LOST_def cong: if_cong split del: if_split)
qed

definition lost_db :: db where
  "lost_db = blank_db\<lparr>radacct := [blank_row]\<rparr>"

definition other_key :: "user_mac set" where
  "other_key = {(''b'', [])}"

definition ali_absent :: absences where
  "ali_absent = (\<lambda>_. {live_key blank_row})"

theorem reconcile_closes_lost_witness:
  "a_terminatecause (hd (radacct (fst (snd (snd (reconcile_nas blank_env 1 [] other_key (lost_db, ali_absent))))))) = ''NAS-Lost-Session''"
proof -
  obtain n sids d' absent' where r: "reconcile_nas blank_env 1 [] other_key (lost_db, ali_absent) = (n, sids, d', absent')"
    by (metis prod_cases4)
  have "ids_identify lost_db" "lost blank_env 1 [] other_key ali_absent blank_row" by code_simp+
  moreover have "radacct lost_db = [blank_row]" by (simp add: lost_db_def)
  ultimately show ?thesis using reconcile_closes_lost [OF _ r] r by (auto simp: list_all2_Cons1)
qed

text \<open>C6. A session that the router no longer lists is closed by the second pass: where identifiers are keys, after two passes in a row with the same list,
  which is not empty, and when the second pass writes without an error, no open row of this router with a user name is
  missing from the list.\<close>

theorem two_passes_close:
  assumes "ids_identify d" "keys \<noteq> {}" "\<forall>i. \<not> e_row_fault e' i"
    and "reconcile_nas e tid nas keys (d, absent) = (n, sids, d1, absent1)"
    and "reconcile_nas e' tid nas keys (d1, absent1) = (n', sids', d2, absent2)"
  shows "\<forall>a \<in> set (radacct d2). open_on_nas tid nas a \<longrightarrow> fst (live_key a) \<noteq> [] \<longrightarrow> is_active_on keys a"
proof (intro ballI impI, rule ccontr)
  fix a assume a: "a \<in> set (radacct d2)" "open_on_nas tid nas a" "fst (live_key a) \<noteq> []" "\<not> is_active_on keys a"
  note one = reconcile_nas_eq [OF assms(1,4)]
  have "ids_identify d1" using assms(1) by (simp add: one(1))
  note two = reconcile_nas_eq [OF this assms(5)]
  obtain b where b: "b \<in> set (radacct d1)" "a = close_where (e_now e') CAUSE_NAS_LOST None (lost e' tid nas keys absent1) b"
    using a(1) by (auto simp: two(1))
  obtain c where c: "c \<in> set (radacct d)" "b = close_where (e_now e) CAUSE_NAS_LOST None (lost e tid nas keys absent) c"
    using b(1) by (auto simp: one(1))
  have ob: "open_on_nas tid nas b" "\<not> lost e' tid nas keys absent1 b" using a(2) by (simp_all add: b(2) open_on_nas_closed)
  have oc: "open_on_nas tid nas c" using ob(1) by (simp add: c(2) open_on_nas_closed)
  have k: "live_key c = live_key a" "live_key b = live_key a" by (simp_all add: b(2) c(2))
  have g: "ghost keys c" "ghost keys b" using a(3,4) k by (simp_all add: ghost_def is_active_on_def)
  have "filter (open_on_nas tid nas) (radacct d) \<noteq> []" using c(1) oc by (auto simp: filter_empty_conv)
  then have "absent1 (tid, nas) = live_key ` {a \<in> set (radacct d). open_on_nas tid nas a \<and> ghost keys a}"
    using one(3) assms(2) by simp
  then have "live_key c \<in> absent1 (tid, nas)" using c(1) oc g(1) by blast
  then have "live_key b \<in> absent1 (tid, nas)" using k by simp
  then show False using ob g(2) assms(2,3) by (simp add: lost_def)
qed

definition second_pass :: "nat \<times> string list \<times> db \<times> absences" where
  "second_pass = reconcile_nas blank_env 1 [] other_key (snd (snd (reconcile_nas blank_env 1 [] other_key (lost_db, \<lambda>_. {}))))"

theorem two_passes_close_witness: "\<exists>a. radacct (fst (snd (snd second_pass))) = [a] \<and> a_username a = ''ali'' \<and> a_stop a \<noteq> None"
proof -
  obtain n sids d1 absent1 where r: "reconcile_nas blank_env 1 [] other_key (lost_db, \<lambda>_. {}) = (n, sids, d1, absent1)"
    by (metis prod_cases4)
  obtain n' sids' d2 absent2 where r': "reconcile_nas blank_env 1 [] other_key (d1, absent1) = (n', sids', d2, absent2)"
    by (metis prod_cases4)
  have i: "ids_identify lost_db" by code_simp
  have key: "live_key blank_row = (''ali'', ''AA:BB:CC:DD:EE:01'')" "\<not> is_active_on other_key blank_row" by code_simp+
  note one = reconcile_nas_eq(1) [OF i r]
  have "ids_identify d1" using i by (simp add: one)
  note two = reconcile_nas_eq(1) [OF this r']
  obtain a where a: "radacct d2 = [a]" "live_key a = live_key blank_row" "a_tenant_id a = 1" "a_nasipaddress a = []" "a_username a = ''ali''"
    by (simp add: two one lost_db_def close_where_def closed_row_def blank_row_def Let_def live_key_def)
  have "\<forall>i. \<not> e_row_fault blank_env i" "other_key \<noteq> {}" by (simp_all add: blank_env_def other_key_def)
  from two_passes_close [OF i this(2,1) r r'] have "open_on_nas 1 [] a \<longrightarrow> fst (live_key a) \<noteq> [] \<longrightarrow> is_active_on other_key a"
    by (simp add: a(1))
  then have "\<not> open_on_nas 1 [] a" using key a(2) by (simp add: is_active_on_def)
  then show ?thesis using a r r' by (simp add: second_pass_def open_on_nas_def)
qed

text \<open>The memory outlives the session it was made for: a pass that finds no open row of the router does not clear it, so the
  next session of the same user and device is closed on its first absence.\<close>

lemma stale_absence_closes_at_once:
  assumes "filter (open_on_nas tid nas) (radacct d) = []"
    and "ids_identify (insert_row a d)" "open_on_nas tid nas a" "ghost keys a" "live_key a \<in> absent (tid, nas)"
    and "\<not> e_row_fault e (a_radacctid a)" "keys \<noteq> {}"
  shows "reconcile_nas e tid nas keys (d, absent) = (0, [], d, absent)"
    and "fst (reconcile_nas e tid nas keys (insert_row a d, absent)) = 1"
proof -
  show "reconcile_nas e tid nas keys (d, absent) = (0, [], d, absent)" using assms(1) by (simp add: reconcile_nas_def)
  obtain n sids d' absent' where r: "reconcile_nas e tid nas keys (insert_row a d, absent) = (n, sids, d', absent')"
    by (metis prod_cases4)
  have "filter (lost e tid nas keys absent) (radacct d) = []" using assms(1) by (auto simp: lost_def filter_empty_conv)
  moreover have "lost e tid nas keys absent a" using assms(3-7) by (simp add: lost_def)
  ultimately show "fst (reconcile_nas e tid nas keys (insert_row a d, absent)) = 1"
    using reconcile_nas_eq(2) [OF assms(2) r] r by (simp add: insert_row_def)
qed

text \<open>A router that does not answer or answers with nothing closes no session.\<close>

lemma blind_pass_keeps_rows:
  assumes "fetch cfg = None \<or> fetch cfg = Some []"
  shows "ws_db (snd (reconcile_router e fetch count_real tid cfg (s, w))) = ws_db w \<and>
         ws_absent (snd (reconcile_router e fetch count_real tid cfg (s, w))) = ws_absent w"
  using assms by (auto simp: reconcile_router_def materialize_nas_def Let_def)


section \<open>Adding\<close>

text \<open>What the reconciler never changes in a row, and what its own rows look like.\<close>

definition same_row :: "acct_row \<Rightarrow> acct_row \<Rightarrow> bool" where
  "same_row a a' =
     (a_radacctid a' = a_radacctid a \<and> a_tenant_id a' = a_tenant_id a \<and> a_username a' = a_username a \<and>
      a_acctsessionid a' = a_acctsessionid a \<and> a_callingstationid a' = a_callingstationid a \<and> a_start a' = a_start a \<and>
      a_stop a' = a_stop a \<and> a_nasipaddress a' = a_nasipaddress a \<and> a_acctuniqueid a' = a_acctuniqueid a)"

lemma same_row_refl [simp]: "same_row a a" and same_row_trans: "same_row a b \<Longrightarrow> same_row b c \<Longrightarrow> same_row a c"
  by (simp_all add: same_row_def)

lemma same_row_refreshed [simp]: "same_row a (refreshed_row e r a)"
  by (simp add: same_row_def refreshed_row_def)

definition synthetic_of :: "int \<Rightarrow> string \<Rightarrow> acct_row \<Rightarrow> bool" where
  "synthetic_of tid nas a =
     (a_tenant_id a = tid \<and> a_nasipaddress a = nas \<and> a_stop a = None \<and> is_mtsync (a_acctuniqueid a) \<and> \<not> is_real_session a)"

lemma synthetic_same: "same_row a a' \<Longrightarrow> synthetic_of tid nas a' = synthetic_of tid nas a"
  by (simp add: same_row_def synthetic_of_def is_real_session_def)

lemma synthetic_row_synthetic: "synthetic_of tid nas (synthetic_row e d tid nas user start r)"
proof -
  have "lower ''mtsync-'' = ''mtsync-''" by code_simp
  then have "take 7 (lower (''mtsync-'' @ s)) = ''mtsync-''" for s by (simp only: lower_def map_append) (simp add: numeral_eq_Suc)
  moreover have "is_mtsync (''mtsync:'' @ s)" for s by (simp add: is_mtsync_def MTSYNC_PREFIX_def)
  ultimately show ?thesis
    unfolding synthetic_of_def synthetic_row_def synthetic_uniq_def MTSYNC_PREFIX_def Let_def is_real_session_def by simp
qed

text \<open>The table grows by synthetic rows at its end, and every row it had keeps its identity; a row written by FreeRADIUS
  or closed is not changed at all.\<close>

definition grown :: "int \<Rightarrow> string \<Rightarrow> db \<Rightarrow> db \<Rightarrow> bool" where
  "grown tid nas d d' =
     (\<exists>f news. radacct d' = map f (radacct d) @ news \<and> (\<forall>a. same_row a (f a)) \<and> (\<forall>a \<in> set news. synthetic_of tid nas a))"

lemma grown_refl: "grown tid nas d d"
  unfolding grown_def by (intro exI [of _ id] exI [of _ "[]"]) simp

lemma grown_trans: "grown tid nas d d1 \<Longrightarrow> grown tid nas d1 d2 \<Longrightarrow> grown tid nas d d2"
proof -
  assume "grown tid nas d d1" "grown tid nas d1 d2"
  then obtain f n g m where s: "radacct d1 = map f (radacct d) @ n" "\<forall>a. same_row a (f a)" "\<forall>a \<in> set n. synthetic_of tid nas a"
    "radacct d2 = map g (radacct d1) @ m" "\<forall>a. same_row a (g a)" "\<forall>a \<in> set m. synthetic_of tid nas a"
    unfolding grown_def by blast
  then have "radacct d2 = map (g \<circ> f) (radacct d) @ map g n @ m" by simp
  moreover have "\<forall>a. same_row a ((g \<circ> f) a)" using s(2,5) same_row_trans by (metis comp_apply)
  moreover have "synthetic_of tid nas (g a)" if "a \<in> set n" for a using s(3,5) synthetic_same that by blast
  then have "\<forall>a \<in> set (map g n @ m). synthetic_of tid nas a" using s(6) by auto
  ultimately show ?thesis unfolding grown_def by blast
qed

lemma grown_refresh:
  "grown tid nas d (d\<lparr>radacct := map (\<lambda>a. if P a then refreshed_row e r a else a) (radacct d)\<rparr>)"
  unfolding grown_def by (intro exI [of _ "\<lambda>a. if P a then refreshed_row e r a else a"] exI [of _ "[]"]) simp

lemma grown_insert: "grown tid nas d (insert_row (synthetic_row e d tid nas user start r) d)"
  unfolding grown_def insert_row_def
  by (intro exI [of _ id] exI [of _ "[synthetic_row e d tid nas user start r]"]) (simp add: synthetic_row_synthetic)

lemma materialize_rows_grown: "grown tid nas d (snd (materialize_rows e tid nas rows known d))"
proof (induction rows arbitrary: known d)
  case Nil
  then show ?case by (simp add: grown_refl)
next
  case (Cons r rows)
  show ?case
    using Cons grown_trans [OF grown_refresh Cons] grown_trans [OF grown_insert Cons]
    by (auto simp: Let_def split_beta split: option.split)
qed

text \<open>Whether a real row covers a session does not change while rows are added.\<close>

lemma covers_same: "same_row a a' \<Longrightarrow> covers now want start a' = covers now want start a"
  by (cases "a_start a"; cases "a_stop a") (simp_all add: same_row_def covers_def)

lemma covered_grown: "grown tid nas d d' \<Longrightarrow> covered_by_real_row e d' t user mac start = covered_by_real_row e d t user mac start"
proof -
  assume "grown tid nas d d'"
  then obtain f news where g: "radacct d' = map f (radacct d) @ news" "\<forall>a. same_row a (f a)" "\<forall>a \<in> set news. synthetic_of tid nas a"
    unfolding grown_def by blast
  let ?hit = "\<lambda>a. a_tenant_id a = t \<and> a_username a = user \<and> is_real_session a \<and>
        (case a_start a of None \<Rightarrow> False | Some s \<Rightarrow> s \<ge> floor_sec (start - 2 * day_us)) \<and> covers (e_now e) (mt_norm_mac mac) start a"
  have same: "?hit (f a) = ?hit a" for a
  proof -
    have r: "same_row a (f a)" using g(2) by blast
    then have "a_tenant_id (f a) = a_tenant_id a" "a_username (f a) = a_username a" "a_start (f a) = a_start a"
      "is_real_session (f a) = is_real_session a"
      by (simp_all add: same_row_def is_real_session_def)
    then show ?thesis by (simp only: covers_same [OF r])
  qed
  have none: "\<not> ?hit a" if "a \<in> set news" for a using g(3) that by (auto simp: synthetic_of_def)
  have "(\<exists>a \<in> set (map f (radacct d) @ news). ?hit a) = (\<exists>a \<in> set (radacct d). ?hit a)"
    using same none by (simp only: set_append set_map bex_Un bex_simps(7)) blast
  then show ?thesis unfolding covered_by_real_row_def g(1) .
qed

section \<open>Real rows stay\<close>

text \<open>A row is kept, or it is an open synthetic row of which only the update time, the counters and the device's IP
  address moved.\<close>

definition recounted :: "acct_row \<Rightarrow> acct_row \<Rightarrow> bool" where
  "recounted a a' =
     (\<exists>upd inp out secs ip. a' = a\<lparr>a_update := upd, a_inputoctets := inp, a_outputoctets := out, a_sessiontime := secs,
        a_framedipaddress := ip\<rparr>)"

definition kept_row :: "acct_row \<Rightarrow> acct_row \<Rightarrow> bool" where
  "kept_row a a' = (a' = a \<or> (is_mtsync (a_acctuniqueid a) \<and> a_stop a = None \<and> recounted a a'))"

lemma recounted_refreshed [simp]: "recounted a (refreshed_row e r a)"
  unfolding recounted_def refreshed_row_def by blast

lemma recounted_same: "recounted a a' \<Longrightarrow> same_row a a'"
  by (auto simp: recounted_def same_row_def)

lemma recounted_trans:
  assumes "recounted a b" "recounted b c"
  shows "recounted a c"
proof -
  obtain u i out s f where b: "b = a\<lparr>a_update := u, a_inputoctets := i, a_outputoctets := out, a_sessiontime := s, a_framedipaddress := f\<rparr>"
    using assms(1) unfolding recounted_def by blast
  obtain u' i' out' s' f' where "c = b\<lparr>a_update := u', a_inputoctets := i', a_outputoctets := out', a_sessiontime := s', a_framedipaddress := f'\<rparr>"
    using assms(2) unfolding recounted_def by blast
  then have "c = a\<lparr>a_update := u', a_inputoctets := i', a_outputoctets := out', a_sessiontime := s', a_framedipaddress := f'\<rparr>"
    by (simp add: b)
  then show ?thesis unfolding recounted_def by blast
qed

lemma kept_row_trans: "kept_row a b \<Longrightarrow> kept_row b c \<Longrightarrow> kept_row a c"
  using recounted_trans [of a b c] recounted_same [of a b] by (auto simp: kept_row_def same_row_def)

definition kept :: "db \<Rightarrow> db \<Rightarrow> bool" where
  "kept d d' =
     (length (radacct d) \<le> length (radacct d') \<and> (\<forall>i < length (radacct d). kept_row (radacct d ! i) (radacct d' ! i)))"

lemma kept_refl: "kept d d"
  by (simp add: kept_def kept_row_def)

lemma kept_trans: "kept d d1 \<Longrightarrow> kept d1 d2 \<Longrightarrow> kept d d2"
  unfolding kept_def using kept_row_trans by (meson dual_order.trans less_le_trans)

lemma kept_insert: "kept d (insert_row a d)"
  by (simp add: kept_def insert_row_def nth_append kept_row_def)

text \<open>What the worker knows of a synthetic row is true of every row with that identifier.\<close>

definition known_ok :: "known_rows \<Rightarrow> db \<Rightarrow> bool" where
  "known_ok known d =
     (\<forall>key i uniq. known key = Some (Some i, uniq) \<longrightarrow> is_mtsync uniq \<longrightarrow>
        (\<forall>a \<in> set (radacct d). a_radacctid a = i \<longrightarrow> is_mtsync (a_acctuniqueid a) \<and> a_stop a = None))"

lemma known_okD:
  "known_ok known d \<Longrightarrow> known key = Some (Some i, uniq) \<Longrightarrow> is_mtsync uniq \<Longrightarrow> a \<in> set (radacct d) \<Longrightarrow> a_radacctid a = i \<Longrightarrow>
     is_mtsync (a_acctuniqueid a) \<and> a_stop a = None"
  unfolding known_ok_def by blast

lemma known_ok_existing:
  assumes "ids_identify d"
  shows "known_ok (existing_rows d tid) d"
  unfolding known_ok_def
proof (intro allI impI ballI)
  fix key i uniq a
  assume k: "existing_rows d tid key = Some (Some i, uniq)" "is_mtsync uniq" "a \<in> set (radacct d)" "a_radacctid a = i"
  from k(1) obtain b where b: "b \<in> set (radacct d)" "a_radacctid b = i" "a_acctuniqueid b = uniq" "a_stop b = None"
    unfolding existing_rows_def by (auto dest!: map_of_SomeD)
  then show "is_mtsync (a_acctuniqueid a) \<and> a_stop a = None"
    using ids_identify_inj [OF assms k(3) b(1)] k by simp
qed

lemma known_ok_grown: "known_ok known d \<Longrightarrow> grown tid nas d d' \<Longrightarrow> known_ok known d'"
proof -
  assume k: "known_ok known d" and "grown tid nas d d'"
  then obtain f news where g: "radacct d' = map f (radacct d) @ news" "\<forall>a. same_row a (f a)" "\<forall>a \<in> set news. synthetic_of tid nas a"
    unfolding grown_def by blast
  show ?thesis
    unfolding known_ok_def
  proof (intro allI impI ballI)
    fix key i uniq a
    assume a: "known key = Some (Some i, uniq)" "is_mtsync uniq" "a \<in> set (radacct d')" "a_radacctid a = i"
    then consider b where "b \<in> set (radacct d)" "a = f b" | "a \<in> set news" by (auto simp: g(1))
    then show "is_mtsync (a_acctuniqueid a) \<and> a_stop a = None"
    proof cases
      case 1
      then have "same_row b a" using g(2) by simp
      then show ?thesis using known_okD [OF k a(1,2) 1(1)] a(4) by (simp add: same_row_def)
    next
      case 2
      then show ?thesis using g(3) by (simp add: synthetic_of_def)
    qed
  qed
qed

lemma kept_refresh:
  assumes "known_ok known d" "known key = Some (i, uniq)" "is_mtsync uniq"
  shows "kept d (d\<lparr>radacct := map (\<lambda>a. if Some (a_radacctid a) = i then refreshed_row e r a else a) (radacct d)\<rparr>)"
proof -
  have "kept_row a (if Some (a_radacctid a) = i then refreshed_row e r a else a)" if "a \<in> set (radacct d)" for a
  proof (cases "Some (a_radacctid a) = i")
    case True
    then have "is_mtsync (a_acctuniqueid a) \<and> a_stop a = None" using known_okD [OF assms(1) _ assms(3) that] assms(2) by metis
    then show ?thesis by (simp add: kept_row_def)
  qed (simp add: kept_row_def)
  then show ?thesis by (simp add: kept_def)
qed

lemma matching_row_known: "matching_row known key r = Some m \<Longrightarrow> known key = Some m"
  by (auto simp: matching_row_def split: option.splits prod.splits if_splits)

lemma materialize_rows_kept:
  "known_ok known d \<Longrightarrow> kept d (snd (materialize_rows e tid nas rows known d))"
proof (induction rows arbitrary: known d)
  case Nil
  then show ?case by (simp add: kept_refl)
next
  case (Cons r rows)
  let ?user = "strip (lr_username r)"
  let ?key = "(lower ?user, lr_mac r)"
  have upd: "known_ok (known(?key := Some (None, []))) d" using Cons.prems by (simp add: known_ok_def)
  show ?case
  proof (cases "matching_row known ?key r")
    case None
    let ?d1 = "insert_row (synthetic_row e d tid nas ?user (e_now e - seconds (lr_uptime_sec r)) r) d"
    have "kept d (snd (materialize_rows e tid nas rows known ?d1))"
      using kept_trans [OF kept_insert Cons.IH [OF known_ok_grown [OF Cons.prems grown_insert]]] .
    then show ?thesis
      by (simp add: None Let_def split_beta Cons.IH [OF Cons.prems] Cons.IH [OF upd] kept_refl del: fun_upd_apply)
  next
    case (Some m)
    obtain i uniq where m: "m = (i, uniq)" by fastforce
    let ?d1 = "d\<lparr>radacct := map (\<lambda>a. if Some (a_radacctid a) = i then refreshed_row e r a else a) (radacct d)\<rparr>"
    have "is_mtsync uniq \<Longrightarrow> kept d (snd (materialize_rows e tid nas rows known ?d1))"
      using kept_trans [OF kept_refresh [OF Cons.prems matching_row_known [OF Some [unfolded m]]]
          Cons.IH [OF known_ok_grown [OF Cons.prems grown_refresh]]] .
    then show ?thesis using Some m Cons.IH [OF Cons.prems] by (simp add: Let_def split_beta)
  qed
qed

lemma materialize_rows_counts:
  "length (radacct (snd (materialize_rows e tid nas rows known d))) =
     length (radacct d) + fst (fst (materialize_rows e tid nas rows known d))"
  by (induction rows arbitrary: known d) (auto simp: Let_def split_beta insert_row_def split: option.split)

text \<open>C7. What the router lists is added without touching what FreeRADIUS wrote: where identifiers are keys, every row the table had is still there, in
  its place and unchanged, except that an open synthetic row may get another update time, other counters (octets and
  seconds) and another device IP address, and nothing else; the rows that are new are as many as the result says, stand at
  the end, and are open synthetic sessions of this tenant and this router.\<close>

theorem materialize_keeps_real_rows:
  assumes "ids_identify d" "materialize_nas e tid nas rows d = ((ins, upd), d')"
  shows "length (radacct d') = length (radacct d) + ins \<and>
    (\<forall>i < length (radacct d). kept_row (radacct d ! i) (radacct d' ! i)) \<and>
    (\<forall>a \<in> set (drop (length (radacct d)) (radacct d')). synthetic_of tid nas a)"
proof (cases "\<not> materialize_enabled e \<or> rows = []")
  case True
  then show ?thesis using assms(2) by (auto simp: materialize_nas_def kept_row_def)
next
  case False
  let ?m = "materialize_rows e tid nas rows (existing_rows d tid) d"
  have m: "d' = snd ?m" "ins = fst (fst ?m)" using assms(2) False by (auto simp: materialize_nas_def)
  obtain f news where g: "radacct d' = map f (radacct d) @ news" "\<forall>a \<in> set news. synthetic_of tid nas a"
    using materialize_rows_grown [of tid nas d e rows "existing_rows d tid"] unfolding m(1) grown_def by blast
  have "kept d d'" unfolding m(1) by (rule materialize_rows_kept [OF known_ok_existing [OF assms(1)]])
  then show ?thesis using materialize_rows_counts [of e tid nas rows "existing_rows d tid" d] m g by (simp add: kept_def)
qed

definition b_live :: live_row where
  "b_live = \<lparr>lr_username = ''b'', lr_mac = [], lr_framed_ip = [], lr_uptime_sec = 5, lr_bytes_in = 0, lr_bytes_out = 0, lr_source = ''ppp''\<rparr>"

text \<open>The table has a real row of another user, and the router lists a session that the table lacks.\<close>

theorem materialize_keeps_real_rows_witness:
  "\<exists>a. radacct (snd (materialize_nas blank_env 1 ''r'' [b_live] lost_db)) = [blank_row, a] \<and> synthetic_of 1 ''r'' a"
proof -
  obtain ins upd d' where m: "materialize_nas blank_env 1 ''r'' [b_live] lost_db = ((ins, upd), d')" by (metis surj_pair)
  have i: "ids_identify lost_db" "\<not> is_mtsync (a_acctuniqueid blank_row)" by code_simp+
  have l: "radacct lost_db = [blank_row]" by (simp add: lost_db_def)
  have "fst (fst (materialize_nas blank_env 1 ''r'' [b_live] lost_db)) = 1" by code_simp
  then have "ins = 1" by (simp add: m)
  with materialize_keeps_real_rows [OF i(1) m] have "length (radacct d') = 2" "kept_row blank_row (radacct d' ! 0)"
    "\<forall>a \<in> set (drop 1 (radacct d')). synthetic_of 1 ''r'' a" by (simp_all add: l)
  moreover from this(1) obtain x a where "radacct d' = [x, a]" by (auto simp: length_Suc_conv numeral_2_eq_2)
  ultimately show ?thesis using i(2) by (simp add: m kept_row_def)
qed

section \<open>A second pass adds nothing\<close>

definition settled :: "env \<Rightarrow> int \<Rightarrow> known_rows \<Rightarrow> db \<Rightarrow> live_row \<Rightarrow> bool" where
  "settled e tid known d r =
     (let user = strip (lr_username r) in
      user = [] \<or> matching_row known (lower user, lr_mac r) r \<noteq> None \<or>
      covered_by_real_row e d tid user (lr_mac r) (e_now e - seconds (lr_uptime_sec r)))"

lemma settled_grown: "grown tid nas d d' \<Longrightarrow> settled e tid known d' r = settled e tid known d r"
  by (simp add: settled_def covered_grown Let_def)

lemma settled_adds_nothing:
  "\<forall>r \<in> set rows. settled e tid known d r \<Longrightarrow> fst (fst (materialize_rows e tid nas rows known d)) = 0"
proof (induction rows arbitrary: d)
  case (Cons r rows)
  then have "\<forall>r \<in> set rows. settled e tid known (d\<lparr>radacct := map (\<lambda>a. if P a then refreshed_row e q a else a) (radacct d)\<rparr>) r" for P q
    using settled_grown [OF grown_refresh] by simp
  with Cons show ?case by (auto simp: Let_def split_beta settled_def split: option.splits)
qed simp

end
