(* ===== verification/MtConvergence.thy ===== *)
theory MtConvergence
  imports MtReconcilerProperties RouterOsProperties
begin

text \<open>
  A second pass with the same list adds nothing, and what the reconciler reads from a router is always complete: the two
  lists are read to their end or the router is skipped.
\<close>

section \<open>Device addresses\<close>

lemma is_alnum_upper [simp]: "is_alnum (upper_char c) = is_alnum c"
  by (auto simp: is_alnum_def is_alpha_def is_upper_def is_lower_def is_digit_def code_upper)

lemma strip_upper: "strip (upper s) = upper (strip s)"
  by (simp add: upper_def strip_map)

lemma filter_alnum_strip: "filter is_alnum (strip s) = filter is_alnum s"
proof -
  have d: "filter is_alnum (dropWhile is_space t) = filter is_alnum t" for t
    by (induction t) (auto simp: is_space_def is_alnum_def is_alpha_def is_upper_def is_lower_def is_digit_def)
  show ?thesis by (simp add: strip_def lstrip_def d flip: rev_filter)
qed

lemma filter_alnum_upper: "filter is_alnum (upper s) = upper (filter is_alnum s)"
  by (induction s) (simp_all add: upper_def)

lemma length_upper [simp]: "length (upper s) = length s"
  by (simp add: upper_def)

lemma mt_norm_mac_idem [simp]: "mt_norm_mac (mt_norm_mac s) = mt_norm_mac s"
proof (cases "length (filter is_alnum s) = 12")
  case True
  then obtain a b c d e f g h i j k l where s: "filter is_alnum s = [a, b, c, d, e, f, g, h, i, j, k, l]"
    by (auto simp: length_Suc_conv numeral_eq_Suc)
  have "\<forall>x \<in> set (filter is_alnum s). is_alnum x" by simp
  then have al: "\<forall>x \<in> {a, b, c, d, e, f, g, h, i, j, k, l}. is_alnum x" unfolding s list.set .
  have n: "mt_norm_mac s = upper [a, b, CHR '':'', c, d, CHR '':'', e, f, CHR '':'', g, h, CHR '':'', i, j, CHR '':'', k, l]"
    by (simp add: mt_norm_mac_def s Let_def)
  have colon: "\<not> is_alnum (CHR '':'')" "upper_char (CHR '':'') = CHR '':''" by code_simp+
  have "filter is_alnum (mt_norm_mac s) = upper [a, b, c, d, e, f, g, h, i, j, k, l]"
    unfolding n filter_alnum_upper using al colon by simp
  moreover have "mt_norm_mac y = mt_norm_mac s" if "filter is_alnum y = upper [a, b, c, d, e, f, g, h, i, j, k, l]" for y
    unfolding n mt_norm_mac_def that
    by (simp add: Let_def upper_def colon s)
  ultimately show ?thesis by blast
next
  case False
  then have n: "mt_norm_mac s = upper (strip s)" by (simp add: mt_norm_mac_def)
  have "length (filter is_alnum (upper (strip s))) \<noteq> 12" 
    using False by (simp only: filter_alnum_upper filter_alnum_strip length_upper not_False_eq_True)
  then show ?thesis unfolding n by (simp add: mt_norm_mac_def strip_upper) (simp add: upper_def comp_def)
qed

section \<open>A second pass\<close>

lemma live_key_same: "same_row a a' \<Longrightarrow> live_key a' = live_key a"
  by (simp add: same_row_def live_key_def)

lemma live_key_synthetic:
  "mt_norm_mac (lr_mac r) = lr_mac r \<Longrightarrow> live_key (synthetic_row e d tid nas (strip u) start r) = (lower (strip u), lr_mac r)"
  by (simp add: live_key_def synthetic_row_def Let_def)

text \<open>The rows that were added answer first.\<close>

lemma existing_rows_grown:
  assumes "radacct d' = map f (radacct d) @ news" "\<forall>a. same_row a (f a)" "\<forall>a \<in> set news. synthetic_of tid nas a"
  shows "existing_rows d' tid = existing_rows d tid ++ map_of (rev (map (\<lambda>a. (live_key a, (Some (a_radacctid a), a_acctuniqueid a))) news))"
proof -
  let ?entry = "\<lambda>a. (live_key a, (Some (a_radacctid a), a_acctuniqueid a))"
  let ?open = "\<lambda>a. a_tenant_id a = tid \<and> a_stop a = None"
  have "?open (f a) = ?open a" "?entry (f a) = ?entry a" for a
    using assms(2) [THEN spec, of a] live_key_same [of a "f a"] by (simp_all add: same_row_def)
  then have "map ?entry (filter ?open (map f (radacct d))) = map ?entry (filter ?open (radacct d))"
    by (simp add: filter_map comp_def)
  moreover have "filter ?open news = news" using assms(3) by (auto simp: synthetic_of_def filter_id_conv)
  ultimately show ?thesis by (simp add: existing_rows_def assms(1))
qed

lemma grown_length: "grown tid nas d d' \<Longrightarrow> length (radacct d) \<le> length (radacct d')"
  unfolding grown_def by (elim exE conjE) simp

text \<open>After a run without a write error, every session of the list that was not settled has a row among the new ones.\<close>

lemma unsettled_added:
  assumes "\<forall>i. \<not> e_row_fault e i" "\<forall>r \<in> set rows. mt_norm_mac (lr_mac r) = lr_mac r" "r \<in> set rows" "\<not> settled e tid known d r"
  shows "\<exists>a \<in> set (drop (length (radacct d)) (radacct (snd (materialize_rows e tid nas rows known d)))).
    live_key a = (lower (strip (lr_username r)), lr_mac r)"
  using assms(2-)
proof (induction rows arbitrary: d)
  case (Cons q rows)
  let ?d' = "snd (materialize_rows e tid nas (q # rows) known d)"
  have later: "\<exists>a \<in> set (drop (length (radacct d)) (radacct ?d')). live_key a = (lower (strip (lr_username r)), lr_mac r)"
    if sub: "r \<in> set rows" and gr: "grown tid nas d d1" and eq: "?d' = snd (materialize_rows e tid nas rows known d1)" for d1
  proof -
    have "\<not> settled e tid known d1 r" using Cons.prems(3) settled_grown [OF gr] by simp
    have n: "\<forall>x \<in> set rows. mt_norm_mac (lr_mac x) = lr_mac x" using Cons.prems(1) by simp
    from Cons.IH [OF n sub \<open>\<not> settled e tid known d1 r\<close>]
    obtain a where "a \<in> set (drop (length (radacct d1)) (radacct (snd (materialize_rows e tid nas rows known d1))))"
      and k: "live_key a = (lower (strip (lr_username r)), lr_mac r)" by (elim bexE)
    then have a: "a \<in> set (drop (length (radacct d1)) (radacct ?d'))" by (simp only: eq)
    have "length (radacct d) \<le> length (radacct d1)" using gr by (rule grown_length)
    then have "a \<in> set (drop (length (radacct d)) (radacct ?d'))" using a by (rule subsetD [OF set_drop_subset_set_drop])
    with k show ?thesis by (rule bexI)
  qed
  show ?case
  proof (cases "settled e tid known d q")
    case True
    then have r: "r \<in> set rows" using Cons.prems by auto
    show ?thesis
    proof (cases "strip (lr_username q) = [] \<or> matching_row known (lower (strip (lr_username q)), lr_mac q) q = None")
      case True
      then have "?d' = snd (materialize_rows e tid nas rows known d)"
        using \<open>settled e tid known d q\<close> by (auto simp: settled_def Let_def)
      then show ?thesis by (rule later [OF r grown_refl])
    next
      case False
      then obtain i uniq where m: "matching_row known (lower (strip (lr_username q)), lr_mac q) q = Some (i, uniq)" by auto
      let ?d1 = "if is_mtsync uniq then d\<lparr>radacct := map (\<lambda>a. if Some (a_radacctid a) = i then refreshed_row e q a else a) (radacct d)\<rparr> else d"
      have "?d' = snd (materialize_rows e tid nas rows known ?d1)" using False m by (simp add: Let_def split_beta)
      moreover have "grown tid nas d ?d1" by (simp add: grown_refl grown_refresh)
      ultimately show ?thesis by (intro later [OF r])
    qed
  next
    case False
    let ?syn = "synthetic_row e d tid nas (strip (lr_username q)) (e_now e - seconds (lr_uptime_sec q)) q"
    have d': "?d' = snd (materialize_rows e tid nas rows known (insert_row ?syn d))"
    proof -
      have "strip (lr_username q) \<noteq> []" "matching_row known (lower (strip (lr_username q)), lr_mac q) q = None"
        "\<not> covered_by_real_row e d tid (strip (lr_username q)) (lr_mac q) (e_now e - seconds (lr_uptime_sec q))"
        using False unfolding settled_def Let_def by blast+
      then show ?thesis using assms(1) by (simp add: Let_def split_beta)
    qed
    show ?thesis
    proof (cases "r = q")
      case True
      obtain f news where g: "radacct ?d' = map f (radacct (insert_row ?syn d)) @ news" "\<forall>a. same_row a (f a)"
        using materialize_rows_grown [of tid nas "insert_row ?syn d" e rows known] unfolding d' grown_def by blast
      have "live_key (f ?syn) = (lower (strip (lr_username q)), lr_mac q)"
        using live_key_same g(2) live_key_synthetic Cons.prems(1) by (metis list.set_intros(1))
      moreover have "f ?syn \<in> set (drop (length (radacct d)) (radacct ?d'))" unfolding g(1) by (simp add: insert_row_def)
      ultimately show ?thesis using True by blast
    next
      case False
      then have "r \<in> set rows" using Cons.prems(2) by simp
      then show ?thesis by (rule later [OF _ grown_insert d'])
    qed
  qed
qed simp

text \<open>The router lists the same sessions again, \<open>k\<close> seconds later.\<close>

definition relisted :: "int \<Rightarrow> live_row \<Rightarrow> live_row \<Rightarrow> bool" where
  "relisted k r r' =
     (lr_username r' = lr_username r \<and> lr_mac r' = lr_mac r \<and> lr_uptime_sec r' = lr_uptime_sec r + k \<and>
      (k = 0 \<or> 0 < lr_uptime_sec r))"

lemma covers_later: "now \<le> now' \<Longrightarrow> covers now want start a \<Longrightarrow> covers now' want start a"
  unfolding covers_def by (cases "a_start a"; cases "a_stop a") auto

lemma settled_later:
  assumes "relisted k r r'" "0 \<le> k" "e_now e' = e_now e + seconds k" "settled e tid known d r"
  shows "settled e' tid known d r'"
proof -
  have start: "e_now e' - seconds (lr_uptime_sec r') = e_now e - seconds (lr_uptime_sec r)"
    using assms(1,3) by (simp add: relisted_def seconds_def algebra_simps)
  have now: "e_now e \<le> e_now e'" using assms(2,3) by (simp add: seconds_def)
  have m: "matching_row known key r' = matching_row known key r" for key
    using assms(1,2) by (auto simp: matching_row_def relisted_def split: option.split)
  have c: "covered_by_real_row e d tid user mac start \<Longrightarrow> covered_by_real_row e' d tid user mac start" for user mac start
    unfolding covered_by_real_row_def using covers_later [OF now] by blast
  show ?thesis using assms(1,4) c unfolding settled_def start m Let_def by (auto simp: relisted_def m)
qed

text \<open>After a pass without a write error every session of the list is settled.\<close>

lemma pass_settles:
  assumes "\<forall>i. \<not> e_row_fault e i" "\<forall>r \<in> set rows. mt_norm_mac (lr_mac r) = lr_mac r"
    and d': "d' = snd (materialize_rows e tid nas rows (existing_rows d tid) d)" and r: "r \<in> set rows"
  shows "settled e tid (existing_rows d' tid) d' r"
proof -
  let ?known = "existing_rows d tid"
  have gr: "grown tid nas d d'" unfolding d' by (rule materialize_rows_grown)
  then obtain f news where g: "radacct d' = map f (radacct d) @ news" "\<forall>a. same_row a (f a)" "\<forall>a \<in> set news. synthetic_of tid nas a"
    unfolding grown_def by blast
  let ?key = "(lower (strip (lr_username r)), lr_mac r)"
  let ?new = "map_of (rev (map (\<lambda>a. (live_key a, (Some (a_radacctid a), a_acctuniqueid a))) news))"
  have ex: "existing_rows d' tid = ?known ++ ?new" by (rule existing_rows_grown [OF g])
  have new: "is_mtsync uniq" if "?new k = Some (i, uniq)" for k i uniq
    using map_of_SomeD [OF that] g(3) by (auto simp: synthetic_of_def)
  have m: "matching_row (existing_rows d' tid) ?key r \<noteq> None" if "?new ?key \<noteq> None \<or> matching_row ?known ?key r \<noteq> None"
  proof (cases "?new ?key")
    case None
    then show ?thesis using that by (simp add: ex matching_row_def map_add_def)
  next
    case (Some p)
    obtain i uniq where "p = (i, uniq)" by fastforce
    then show ?thesis using Some new [of ?key i uniq] by (simp add: ex matching_row_def map_add_def)
  qed
  show ?thesis
  proof (cases "settled e tid ?known d r")
    case True
    then show ?thesis using m covered_grown [OF gr] by (auto simp: settled_def Let_def)
  next
    case False
    then obtain a where "a \<in> set (drop (length (radacct d)) (radacct d'))" "live_key a = ?key"
      using unsettled_added [OF assms(1,2) r False, of nas] unfolding d' by blast
    then have "a \<in> set news" "live_key a = ?key" by (simp_all add: g(1))
    then have "?key \<in> live_key ` set news" by (metis imageI)
    then have "?new ?key \<noteq> None" by (auto simp: map_of_eq_None_iff image_image)
    then show ?thesis using m by (simp add: settled_def Let_def)
  qed
qed

text \<open>C8. The worker converges: what a pass has added, the next pass only refreshes. After a pass that writes without an
  error, whatever was in the table, a pass at the same instant or \<open>k\<close> seconds later over the table it left adds no row
  when the router lists the same sessions with uptimes that have grown by those \<open>k\<close> seconds (from positive uptimes,
  if \<open>k\<close> is not 0). Device addresses are in the form the reader gives them, and the setting is the same on both passes.\<close>

theorem materialize_idempotent:
  assumes "\<forall>i. \<not> e_row_fault e i" "\<forall>r \<in> set rows. mt_norm_mac (lr_mac r) = lr_mac r"
    and "materialize_nas e tid nas rows d = (counts, d')"
    and "list_all2 (relisted k) rows rows'" "0 \<le> k" "e_now e' = e_now e + seconds k" "e_osenv e' = e_osenv e"
  shows "fst (fst (materialize_nas e' tid nas rows' d')) = 0 \<and>
    length (radacct (snd (materialize_nas e' tid nas rows' d'))) = length (radacct d')"
proof -
  have count: "length (radacct (snd (materialize_nas e' tid nas rows' d'))) =
      length (radacct d') + fst (fst (materialize_nas e' tid nas rows' d'))"
    by (simp add: materialize_nas_def materialize_rows_counts)
  have on: "materialize_enabled e' = materialize_enabled e" by (simp add: materialize_enabled_def assms(7))
  have empty: "rows' = [] \<longleftrightarrow> rows = []" using list_all2_lengthD [OF assms(4)] by auto
  have "fst (fst (materialize_nas e' tid nas rows' d')) = 0"
  proof (cases "\<not> materialize_enabled e \<or> rows = []")
    case True
    then show ?thesis by (simp add: materialize_nas_def on empty)
  next
    case False
    then have d': "d' = snd (materialize_rows e tid nas rows (existing_rows d tid) d)" using assms(3) by (simp add: materialize_nas_def)
    have "settled e' tid (existing_rows d' tid) d' r'" if "r' \<in> set rows'" for r'
    proof -
      from that assms(4) obtain r where "r \<in> set rows" "relisted k r r'" unfolding list_all2_conv_all_nth by (metis in_set_conv_nth)
      with pass_settles [OF assms(1,2) d'] settled_later [OF _ assms(5,6)] show ?thesis by blast
    qed
    then show ?thesis using False settled_adds_nothing by (simp add: materialize_nas_def on empty)
  qed
  then show ?thesis using count by simp
qed

text \<open>A minute later, with the session listed a minute older.\<close>

theorem materialize_idempotent_witness:
  "fst (fst (materialize_nas (blank_env\<lparr>e_now := e_now blank_env + seconds 60\<rparr>) 1 ''r'' [b_live\<lparr>lr_uptime_sec := 65\<rparr>]
     (snd (materialize_nas blank_env 1 ''r'' [b_live] lost_db)))) = 0"
proof -
  have "\<forall>i. \<not> e_row_fault blank_env i" "\<forall>r \<in> set [b_live]. mt_norm_mac (lr_mac r) = lr_mac r"
    by (simp_all add: blank_env_def b_live_def) code_simp
  moreover have "list_all2 (relisted 60) [b_live] [b_live\<lparr>lr_uptime_sec := 65\<rparr>]" by (simp add: relisted_def b_live_def)
  ultimately show ?thesis
    using materialize_idempotent [of blank_env "[b_live]" 1 "''r''" lost_db "fst (materialize_nas blank_env 1 ''r'' [b_live] lost_db)"
        "snd (materialize_nas blank_env 1 ''r'' [b_live] lost_db)" 60 "[b_live\<lparr>lr_uptime_sec := 65\<rparr>]"
        "blank_env\<lparr>e_now := e_now blank_env + seconds 60\<rparr>"]
    by simp
qed

text \<open>Within one pass the memory of what is in the table is not extended, so a session that a router lists twice is
  entered twice.\<close>

lemma listed_twice_entered_twice:
  assumes "\<forall>i. \<not> e_row_fault e i" "\<not> settled e tid known d r"
  shows "fst (fst (materialize_rows e tid nas [r, r] known d)) = 2"
proof -
  let ?syn = "synthetic_row e d tid nas (strip (lr_username r)) (e_now e - seconds (lr_uptime_sec r)) r"
  have u: "strip (lr_username r) \<noteq> []" "matching_row known (lower (strip (lr_username r)), lr_mac r) r = None"
    "\<not> covered_by_real_row e d tid (strip (lr_username r)) (lr_mac r) (e_now e - seconds (lr_uptime_sec r))"
    using assms(2) unfolding settled_def Let_def by blast+
  moreover have "\<not> covered_by_real_row e (insert_row ?syn d) tid (strip (lr_username r)) (lr_mac r) (e_now e - seconds (lr_uptime_sec r))"
    using u(3) covered_grown [OF grown_insert] by blast
  ultimately show ?thesis using assms(1) by (simp add: Let_def split_beta)
qed

section \<open>Reading a router\<close>

lemma exchange_total: "\<exists>r c1. exchange ws tag c = Some (r, c1)"
  using replies_returns unfolding exchange_def Let_def by (fastforce split: prod.split sum.split)

lemma print_rows_returns: "\<exists>r c1. print_rows path proplist queries c = Some (r, c1)"
proof -
  obtain r c1 where "run_command path (if proplist = [] then [] else [(''.proplist'', join_with '','' proplist)]) queries c = Some (r, c1)"
    using exchange_total unfolding run_command_def by blast
  then show ?thesis by (simp add: print_rows_def)
qed

lemma fetch_active_rows_returns: "\<exists>r. fetch_active_rows e acquired = Some r"
proof (cases acquired)
  case (Inr c)
  obtain r c1 where h: "print_rows ''/ip/hotspot/active/print'' [] [] c = Some (r, c1)" using print_rows_returns by blast
  obtain r2 c2 where "print_rows ''/ppp/active/print'' [] [] c1 = Some (r2, c2)" using print_rows_returns by blast
  then show ?thesis using Inr h by (simp add: fetch_active_rows_def active_lists_def split: sum.split)
qed (simp add: fetch_active_rows_def active_lists_def)

lemma fetched_devices_normal:
  "fetch_active_rows e acquired = Some (Some rows) \<Longrightarrow> \<forall>r \<in> set rows. mt_norm_mac (lr_mac r) = lr_mac r"
proof -
  have "mt_norm_mac (lr_mac r) = lr_mac r" if "map_active_row e k m s w = Some r" for k m s w r
    using that by (auto simp: map_active_row_def Let_def split: if_splits)
  moreover assume "fetch_active_rows e acquired = Some (Some rows)"
  then obtain z :: "mt_error + word_dict list \<times> word_dict list" where z: "(case z of Inl _ \<Rightarrow> None | Inr (hotspot, ppp) \<Rightarrow> Some (map_active_rows e hotspot ppp)) = Some rows"
    unfolding fetch_active_rows_def map_option_eq_Some by (elim exE conjE)
  have "\<exists>h p. rows = map_active_rows e h p"
  proof (cases z)
    case (Inr q)
    then show ?thesis using z by (cases q) auto
  qed (use z in simp)
  then obtain h p where "rows = map_active_rows e h p" by blast
  ultimately show ?thesis by (auto simp: map_active_rows_def List.map_filter_def)
qed

end
