(* ===== verification/SystemRouters.thy ===== *)
theory SystemRouters
  imports System MtConvergence
begin

text \<open>
  The running service of \<open>System\<close> together with the worker that polls the routers
  (\<open>app/workers/mt_reconciler.py\<close>): the state is the database, what the worker remembers of the last pass and the
  register of router liveness. Its invariants hold for every answer of every router.
\<close>

section \<open>What a poll does to the tables\<close>

text \<open>A pass of the worker leaves cards and log alone, keeps the identifiers of session rows keys, and moves each row
  forward.\<close>

definition advances :: "db \<Rightarrow> db \<Rightarrow> bool" where
  "advances d d' =
     (cards d' = cards d \<and> radpostauth d' = radpostauth d \<and>
      (ids_identify d \<longrightarrow> ids_identify d' \<and> keeps_history d d'))"

lemma advances_refl [simp]: "advances d d"
  by (simp add: advances_def)

lemma advances_trans: "advances d d1 \<Longrightarrow> advances d1 d2 \<Longrightarrow> advances d d2"
  unfolding advances_def using keeps_history_trans by auto

lemma materialize_frame:
  "cards (snd (materialize_rows e tid nas rows known d)) = cards d \<and>
   radpostauth (snd (materialize_rows e tid nas rows known d)) = radpostauth d"
  by (induction rows arbitrary: known d) (auto simp: Let_def split_beta insert_row_def split: option.split)

lemma materialize_ids: "ids_identify d \<Longrightarrow> ids_identify (snd (materialize_rows e tid nas rows known d))"
proof (induction rows arbitrary: known d)
  case (Cons r rows)
  let ?user = "strip (lr_username r)"
  let ?row = "synthetic_row e d tid nas ?user (e_now e - seconds (lr_uptime_sec r)) r"
  have new: "ids_identify (insert_row ?row d)"
    by (rule ids_identify_insert [OF Cons.prems]) (simp add: synthetic_row_def Let_def)
  have old: "ids_identify (d\<lparr>radacct := map (\<lambda>a. if Some (a_radacctid a) = i then refreshed_row e r a else a) (radacct d)\<rparr>)" for i
  proof -
    let ?d = "d\<lparr>radacct := map (\<lambda>a. if Some (a_radacctid a) = i then refreshed_row e r a else a) (radacct d)\<rparr>"
    have "map a_radacctid (radacct ?d) = map a_radacctid (radacct d)" by (simp add: refreshed_row_def)
    then show ?thesis using Cons.prems ids_identify_same [of ?d d] by simp
  qed
  note ih = Cons.IH [OF Cons.prems] Cons.IH [OF new] Cons.IH [OF old]
  show ?case by (simp add: Let_def split_beta ih split: option.split)
qed simp

lemma kept_row_progress: "kept_row a a' \<Longrightarrow> row_progress a a'"
  using recounted_same [of a a'] by (auto simp: kept_row_def same_row_def row_progress_def row_key_def)

lemma kept_history:
  assumes "kept d d'" "cards d' = cards d" "radpostauth d' = radpostauth d"
  shows "keeps_history d d'"
proof -
  have "list_all2 row_progress (radacct d) (take (length (radacct d)) (radacct d'))"
    using assms(1) by (auto simp: kept_def list_all2_conv_all_nth kept_row_progress)
  then show ?thesis using assms(2,3) by (simp add: keeps_history_def list.rel_refl)
qed

lemma materialize_advances: "advances d (snd (materialize_nas e tid nas rows d))"
proof (cases "\<not> materialize_enabled e \<or> rows = []")
  case False
  let ?d' = "snd (materialize_rows e tid nas rows (existing_rows d tid) d)"
  have f: "cards ?d' = cards d" "radpostauth ?d' = radpostauth d" by (simp_all add: materialize_frame)
  have "ids_identify d \<longrightarrow> ids_identify ?d' \<and> keeps_history d ?d'"
    using materialize_ids kept_history [OF materialize_rows_kept [OF known_ok_existing] f] by blast
  moreover have "snd (materialize_nas e tid nas rows d) = ?d'" using False by (simp add: materialize_nas_def)
  ultimately show ?thesis using f by (simp add: advances_def)
qed (auto simp: materialize_nas_def)

lemma nas_rows_frame:
  "cards (fst (nas_rows e keys before rows d)) = cards d \<and> radpostauth (fst (nas_rows e keys before rows d)) = radpostauth d"
  by (induction rows arbitrary: d) (auto simp: Let_def split_beta close_session_row_def)

lemma reconcile_frame:
  assumes "reconcile_nas e tid nas keys (d, absent) = (n, sids, d', absent')"
  shows "cards d' = cards d \<and> radpostauth d' = radpostauth d"
  using assms nas_rows_frame [of e keys "absent (tid, nas)" "filter (open_on_nas tid nas) (radacct d)" d]
  by (auto simp: reconcile_nas_def Let_def split_beta split: if_splits)

lemma reconcile_advances:
  assumes "reconcile_nas e tid nas keys (d, absent) = (n, sids, d', absent')"
  shows "advances d d'"
proof -
  note f = reconcile_frame [OF assms]
  have "ids_identify d' \<and> keeps_history d d'" if i: "ids_identify d"
  proof -
    let ?f = "close_where (e_now e) CAUSE_NAS_LOST None (lost e tid nas keys absent)"
    have d': "radacct d' = map ?f (radacct d)" using reconcile_nas_eq(1) [OF i assms] by simp
    have "row_progress a (?f a)" for a
      by (auto simp: close_where_def lost_def open_on_nas_def row_progress_def row_key_def closed_row_def Let_def)
    then have "settles d d'" using f by (intro settles_rows [OF d']) simp_all
    moreover have "map a_radacctid (radacct d') = map a_radacctid (radacct d)"
      by (simp add: d' close_where_def closed_row_def Let_def)
    ultimately show ?thesis using i ids_identify_same settles_keeps by blast
  qed
  then show ?thesis using f by (simp add: advances_def)
qed

lemma poll_advances:
  assumes "reconcile_router e fetch count_real tid cfg (s, w) = (s', w')"
  shows "advances (ws_db w) (ws_db w')"
proof (cases "fetch cfg")
  case None
  then show ?thesis using assms by (auto simp: reconcile_router_def)
next
  case (Some rows)
  obtain closed sids d1 absent where r: "(if rows = [] then (0, [], ws_db w, ws_absent w)
      else reconcile_nas e tid (rc_host cfg) (keys_from_rows rows) (ws_db w, ws_absent w)) = (closed, sids, d1, absent)"
    by (metis prod_cases4)
  have "advances (ws_db w) d1"
    using r reconcile_advances [of e tid "rc_host cfg" "keys_from_rows rows" "ws_db w" "ws_absent w" closed sids d1 absent]
    by (auto split: if_splits)
  moreover have "ws_db w' = snd (materialize_nas e tid (rc_host cfg) rows d1)"
    using assms Some r by (auto simp: reconcile_router_def Let_def split_beta)
  ultimately show ?thesis using materialize_advances advances_trans by metis
qed

section \<open>Runs with the worker\<close>

inductive worker_step :: "worker_state \<Rightarrow> worker_state \<Rightarrow> bool" where
  service: "step (ws_db w) d' \<Longrightarrow> worker_step w (w\<lparr>ws_db := d'\<rparr>)"
| poll: "reconcile_router e fetch count_real tid cfg (s, w) = (s', w') \<Longrightarrow> worker_step w w'"
| restart: "worker_step w (w\<lparr>ws_absent := \<lambda>_. {}\<rparr>)"

definition keyed :: "worker_state \<Rightarrow> bool" where
  "keyed w = (ids_identify (ws_db w) \<and> card_ids (ws_db w))"

interpretation worker: progressing worker_step keyed "\<lambda>w w'. keeps_history (ws_db w) (ws_db w')"
proof
  show "keeps_history (ws_db w) (ws_db w)" for w by simp
  show "keeps_history (ws_db w) (ws_db w1) \<Longrightarrow> keeps_history (ws_db w1) (ws_db w2) \<Longrightarrow> keeps_history (ws_db w) (ws_db w2)"
    for w w1 w2 by (rule keeps_history_trans)
  show "keyed w' \<and> keeps_history (ws_db w) (ws_db w')" if "worker_step w w'" "keyed w" for w w'
    using that
  proof (induction rule: worker_step.induct)
    case (service w d')
    then show ?case using step_keeps_keys [OF service(1)] by (simp add: keyed_def)
  next
    case (poll e fetch count_real tid cfg s w s' w')
    then show ?case using poll_advances [OF poll(1)] by (auto simp: advances_def keyed_def card_ids_def)
  next
    case (restart w)
    then show ?case by (simp add: keyed_def)
  qed
qed

text \<open>C2. The books stay final when the routers are polled: in every run of logins, accounting events, sweeps, manual closes,
  polls of routers with any answer and restarts of the worker, from any state whose identifiers are keys, every session
  row keeps its place, its identifier, its session, its user and its start, a closed row never changes again, the log of
  login attempts is only appended to, and the identifiers stay keys.\<close>

theorem polled_books_final:
  assumes "worker_step\<^sup>*\<^sup>* w w'" "ids_identify (ws_db w)" "card_ids (ws_db w)" "i < length (radacct (ws_db w))"
  shows "i < length (radacct (ws_db w')) \<and> a_radacctid (radacct (ws_db w') ! i) = a_radacctid (radacct (ws_db w) ! i) \<and>
    row_key (radacct (ws_db w') ! i) = row_key (radacct (ws_db w) ! i) \<and>
    a_username (radacct (ws_db w') ! i) = a_username (radacct (ws_db w) ! i) \<and>
    a_start (radacct (ws_db w') ! i) = a_start (radacct (ws_db w) ! i) \<and>
    (a_stop (radacct (ws_db w) ! i) \<noteq> None \<longrightarrow> radacct (ws_db w') ! i = radacct (ws_db w) ! i) \<and>
    prefix (radpostauth (ws_db w)) (radpostauth (ws_db w')) \<and> ids_identify (ws_db w')"
proof -
  have k: "keyed w' \<and> keeps_history (ws_db w) (ws_db w')"
    using worker.every_run [OF assms(1)] assms(2,3) by (simp add: keyed_def)
  then have h: "keeps_history (ws_db w) (ws_db w')" by simp
  show ?thesis using history_at [OF h assms(4)] k by (simp add: keyed_def)
qed

section \<open>An instance\<close>

definition one_closed :: worker_state where
  "one_closed = \<lparr>ws_db = stopped_db, ws_absent = \<lambda>_. {}, ws_liveness = []\<rparr>"

definition a_router :: router_cfg where
  "a_router = \<lparr>rc_id = 1, rc_host = ''r'', rc_port = 8728, rc_username = ''admin'', rc_password = [], rc_use_tls = False,
     rc_verify_tls = True, rc_timeout_sec = 20\<rparr>"

definition polled :: worker_state where
  "polled = snd (reconcile_router blank_env (\<lambda>_. Some [b_live]) (\<lambda>_. None) 1 a_router
     (\<lparr>rs_routers_ok = 0, rs_routers_skipped = 0, rs_routers_blind = 0, rs_closed = 0, rs_materialized = 0\<rparr>, one_closed))"

theorem polled_books_final_witness:
  "worker_step one_closed polled \<and> length (radacct (ws_db polled)) = 2 \<and> radacct (ws_db polled) ! 0 = radacct stopped_db ! 0"
proof -
  have p: "worker_step one_closed polled" unfolding polled_def by (rule worker_step.poll [OF surjective_pairing])
  then have r: "worker_step\<^sup>*\<^sup>* one_closed polled" by (rule r_into_rtranclp [of worker_step])
  have d: "ids_identify (ws_db one_closed)" "card_ids (ws_db one_closed)" "0 < length (radacct (ws_db one_closed))"
    "a_stop (radacct (ws_db one_closed) ! 0) \<noteq> None" "length (radacct (ws_db polled)) = 2" by code_simp+
  have "radacct (ws_db polled) ! 0 = radacct (ws_db one_closed) ! 0"
    using polled_books_final [OF r d(1-3)] d(4) by blast
  then show ?thesis using p d(5) by (simp add: one_closed_def)
qed

end
