(* ===== verification/ActiveReconciler.thy ===== *)
theory ActiveReconciler
  imports MtReconciler
begin

text \<open>
  \<open>app/radius/services/mikrotik_active_reconciler.py\<close> and \<open>disconnect_user\<close> of \<open>radius_coa.py\<close>: before a session is
  cut, the routers are asked which sessions they have, and the request is built from what they say; \<open>radacct\<close> gives the
  session identifier only where it agrees. What a router answers is a parameter (\<open>MtReconciler.active_lists\<close> of an acquired
  connection, the two lists one after the other), and so is the monotonic clock of the cache.
\<close>

section \<open>Sessions of the routers\<close>

record live_session =
  ls_router_id :: int
  ls_nas_address :: string
  ls_username :: string
  ls_framed_ip :: string
  ls_calling :: string
  ls_session_id :: string
  ls_login_by :: string
  ls_uptime :: string
  ls_idle_time :: string
  ls_server :: string
  ls_secret :: string
  ls_dial_ip :: string
  ls_port :: int

definition has_disconnect_keys :: "live_session \<Rightarrow> bool" where
  "has_disconnect_keys s = (ls_session_id s \<noteq> [] \<or> ls_framed_ip s \<noteq> [] \<or> ls_calling s \<noteq> [])"

record reconcile_outcome =
  ro_error :: string
  ro_sessions :: "live_session list"
  ro_queried :: nat
  ro_reachable :: nat
  ro_unreachable :: nat
  ro_fetched :: nat

text \<open>What the panel asks its surroundings: the answer to the n-th reading, the clock at each look, the lifetime of a
  cached answer.\<close>

record router_view =
  rv_fetch :: "nat \<Rightarrow> router_cfg \<Rightarrow> word_dict list option"
  rv_clock :: "nat \<Rightarrow> dt"
  rv_ttl :: int

definition ttl_sec :: "string option \<Rightarrow> int" where
  "ttl_sec raw = (case parse_int (strip (case raw of None \<Rightarrow> [] | Some s \<Rightarrow> s)) of None \<Rightarrow> 8 | Some v \<Rightarrow> max v 0)"

type_synonym active_cache = "string \<rightharpoonup> dt \<times> word_dict list option"

definition cached_rows :: "router_view \<Rightarrow> nat \<Rightarrow> router_cfg \<Rightarrow> active_cache \<Rightarrow> word_dict list option \<times> active_cache" where
  "cached_rows v n cfg cache =
     (let host = strip (rc_host cfg);
          ask = (let rows = rv_fetch v n cfg in (rows, cache(host \<mapsto> (rv_clock v (2 * n + 1), rows)))) in
      case cache host of
        None \<Rightarrow> ask
      | Some (t, rows) \<Rightarrow> if rv_ttl v > 0 \<and> rv_clock v (2 * n) - t < seconds (rv_ttl v) then (rows, cache) else ask)"

definition to_live_session :: "router_cfg \<Rightarrow> word_dict \<Rightarrow> live_session option" where
  "to_live_session cfg r =
     (let user = strip (or_default (word_text r ''user'') (word_text r ''name'')) in
      if user = [] then None
      else Some \<lparr>ls_router_id = rc_id cfg, ls_nas_address = strip (rc_host cfg), ls_username = user,
                 ls_framed_ip = strip (word_text r ''address''),
                 ls_calling = mt_norm_mac (or_default (word_text r ''mac-address'') (word_text r ''caller-id'')),
                 ls_session_id = [], ls_login_by = strip (or_default (word_text r ''login-by'') (word_text r ''service'')),
                 ls_uptime = strip (word_text r ''uptime''), ls_idle_time = strip (word_text r ''idle-time''),
                 ls_server = strip (word_text r ''server''), ls_secret = [], ls_dial_ip = [], ls_port = 3799\<rparr>)"

definition same_user :: "string \<Rightarrow> live_session \<Rightarrow> bool" where
  "same_user uname s = (uname = [] \<or> lower (strip (ls_username s)) = lower uname)"

text \<open>The routers in turn; a router that does not answer is counted and passed over.\<close>

fun live_sessions_from ::
    "router_view \<Rightarrow> string \<Rightarrow> nat \<Rightarrow> router_cfg list \<Rightarrow> active_cache \<Rightarrow> reconcile_outcome \<Rightarrow> reconcile_outcome \<times> active_cache" where
  "live_sessions_from v uname n [] cache out = (out, cache)"
| "live_sessions_from v uname n (cfg # cfgs) cache out =
     (let (rows, cache1) = cached_rows v n cfg cache; out1 = out\<lparr>ro_queried := Suc (ro_queried out)\<rparr> in
      case rows of
        None \<Rightarrow> live_sessions_from v uname (Suc n) cfgs cache1 (out1\<lparr>ro_unreachable := Suc (ro_unreachable out1)\<rparr>)
      | Some rs \<Rightarrow>
          let sessions = List.map_filter (to_live_session cfg) rs in
          live_sessions_from v uname (Suc n) cfgs cache1
            (out1\<lparr>ro_reachable := Suc (ro_reachable out1), ro_fetched := ro_fetched out1 + length sessions,
                  ro_sessions := ro_sessions out1 @ filter (same_user uname) sessions\<rparr>))"

definition no_outcome :: reconcile_outcome where
  "no_outcome = \<lparr>ro_error = [], ro_sessions = [], ro_queried = 0, ro_reachable = 0, ro_unreachable = 0, ro_fetched = 0\<rparr>"

definition live_sessions :: "router_view \<Rightarrow> router_cfg list \<Rightarrow> string \<Rightarrow> active_cache \<Rightarrow> reconcile_outcome \<times> active_cache" where
  "live_sessions v cfgs username cache = live_sessions_from v (strip username) 0 cfgs cache no_outcome"

section \<open>Enrichment\<close>

definition agrees_with :: "live_session \<Rightarrow> acct_row \<Rightarrow> bool" where
  "agrees_with s a =
     ((ls_calling s \<noteq> [] \<and> mt_norm_mac (a_callingstationid a) = ls_calling s) \<or>
      (ls_framed_ip s \<noteq> [] \<and> strip (a_framedipaddress a) = ls_framed_ip s))"

definition synthetic_id :: "string \<Rightarrow> bool" where
  "synthetic_id sid = (take 7 sid = ''mtsync-'')"

definition usable_id :: "acct_row \<Rightarrow> bool" where
  "usable_id a = (strip (a_acctsessionid a) \<noteq> [] \<and> \<not> synthetic_id (strip (a_acctsessionid a)))"

definition open_user_rows :: "db \<Rightarrow> int \<Rightarrow> string \<Rightarrow> acct_row list" where
  "open_user_rows d tid user = filter (\<lambda>a. a_stop a = None) (user_rows d tid user)"

definition enrich_from_radacct :: "db \<Rightarrow> int \<Rightarrow> live_session \<Rightarrow> live_session" where
  "enrich_from_radacct d tid s =
     (case find (\<lambda>a. agrees_with s a \<and> usable_id a) (open_user_rows d tid (ls_username s)) of
        None \<Rightarrow> s | Some a \<Rightarrow> s\<lparr>ls_session_id := strip (a_acctsessionid a)\<rparr>)"

definition enrich_nas_creds :: "nas_device list \<Rightarrow> int \<Rightarrow> live_session \<Rightarrow> live_session" where
  "enrich_nas_creds nasses tid s =
     (case nas_lookup nasses tid (ls_nas_address s) of
        None \<Rightarrow> s
      | Some n \<Rightarrow>
          if nd_secret n = [] then s
          else s\<lparr>ls_secret := nd_secret n, ls_dial_ip := dial_address n (ls_nas_address s), ls_port := nas_coa_port n\<rparr>)"

text \<open>The devices and addresses of the requested identifiers, real or synthetic.\<close>

definition keys_for_session_ids :: "db \<Rightarrow> int \<Rightarrow> string \<Rightarrow> string list \<Rightarrow> string list \<times> string list" where
  "keys_for_session_ids d tid user sids =
     (let rows = filter (\<lambda>a. strip (a_acctsessionid a) \<in> set sids) (open_user_rows d tid user) in
      (filter (\<lambda>m. m \<noteq> []) (map (\<lambda>a. mt_norm_mac (a_callingstationid a)) rows),
       filter (\<lambda>ip. ip \<noteq> []) (map (\<lambda>a. strip (a_framedipaddress a)) rows)))"

section \<open>Targets\<close>

definition ERR_SESSION_NOT_ACTIVE :: string where "ERR_SESSION_NOT_ACTIVE = ''session_not_active''"
definition ERR_SESSION_STALE :: string where "ERR_SESSION_STALE = ''session_stale_reconcile_required''"
definition ERR_MISSING_ATTRS :: string where "ERR_MISSING_ATTRS = ''cannot_disconnect_missing_session_attributes''"
definition ERR_ROUTER_UNREACHABLE :: string where "ERR_ROUTER_UNREACHABLE = ''router_api_unreachable''"

definition select_sessions :: "db \<Rightarrow> int \<Rightarrow> string \<Rightarrow> string list \<Rightarrow> string \<Rightarrow> string \<Rightarrow> live_session list \<Rightarrow> live_session list" where
  "select_sessions d tid uname sids framed_ip mac sessions =
     (let want_mac = mt_norm_mac mac; want_ip = strip framed_ip; wanted = wanted_ids sids;
          (macs, ips) = keys_for_session_ids d tid uname wanted;
          by_id = (if wanted = [] then sessions
                   else filter (\<lambda>s. ls_session_id s \<in> set wanted \<or> (ls_calling s \<noteq> [] \<and> ls_calling s \<in> set macs) \<or>
                                    (ls_framed_ip s \<noteq> [] \<and> ls_framed_ip s \<in> set ips)) sessions);
          by_ip = (if want_ip = [] then by_id else filter (\<lambda>s. ls_framed_ip s = want_ip) by_id)
      in if want_mac = [] then by_ip else filter (\<lambda>s. ls_calling s = want_mac) by_ip)"

definition resolve_disconnect_targets ::
    "router_view \<Rightarrow> router_cfg list \<Rightarrow> db \<Rightarrow> nas_device list \<Rightarrow> int \<Rightarrow> string \<Rightarrow> string list \<Rightarrow> string \<Rightarrow> string \<Rightarrow> reconcile_outcome" where
  "resolve_disconnect_targets v cfgs d nasses tid username sids framed_ip mac =
     (let uname = strip username; (out, _) = live_sessions v cfgs uname Map.empty in
      if ro_sessions out = [] then
        out\<lparr>ro_error := (if ro_reachable out = 0 \<and> ro_unreachable out > 0 then ERR_ROUTER_UNREACHABLE else ERR_SESSION_NOT_ACTIVE)\<rparr>
      else
        let enriched = map (\<lambda>s. enrich_nas_creds nasses tid (enrich_from_radacct d tid s)) (ro_sessions out);
            selected = select_sessions d tid uname sids framed_ip mac enriched in
        if selected = [] then out\<lparr>ro_sessions := [], ro_error := ERR_SESSION_STALE\<rparr>
        else
          let signable = filter (\<lambda>s. ls_secret s \<noteq> []) (filter has_disconnect_keys selected) in
          if signable = [] then out\<lparr>ro_sessions := [], ro_error := ERR_MISSING_ATTRS\<rparr>
          else out\<lparr>ro_sessions := signable, ro_error := []\<rparr>)"

section \<open>Disconnecting a user\<close>

definition reconcile_disconnect_enabled :: "env \<Rightarrow> bool" where
  "reconcile_disconnect_enabled e =
     (lower (strip (or_default (case e_osenv e ''HOBERADIUS_DISCONNECT_RECONCILE'' of None \<Rightarrow> [] | Some s \<Rightarrow> s) ''1''))
        \<notin> {''0'', ''false'', ''no'', ''off''})"

definition disconnect_session :: "coa_env \<Rightarrow> nat \<Rightarrow> live_session \<Rightarrow> coa_result res" where
  "disconnect_session c n s =
     send_disconnect (ce_udp c) (ce_ident c n) (ls_dial_ip s) (ls_secret s) (ls_username s) (ls_session_id s) (ls_framed_ip s)
       (ls_calling s) (ls_port s)"

definition disconnect_reconciled ::
    "coa_env \<Rightarrow> router_view \<Rightarrow> router_cfg list \<Rightarrow> env \<Rightarrow> db \<Rightarrow> nas_device list \<Rightarrow> int \<Rightarrow> string \<Rightarrow> string list \<Rightarrow> coa_result option res" where
  "disconnect_reconciled c v cfgs e d nasses tid user sids =
     (let out = resolve_disconnect_targets v cfgs d nasses tid user sids [] [] in
      if ro_queried out = 0 then Inr None
      else if ro_error out = [] \<and> ro_sessions out \<noteq> [] then
        map_sum id Some (broadcast_all (disconnect_session c) (ro_sessions out))
      else if ro_unreachable out > 0 then
        res_bind (disconnect_from_radacct c e d nasses tid user sids True) (\<lambda>fb.
          Inr (Some (if cr_ok fb \<or> cr_code_name fb \<noteq> ''no_active_session'' then fb
                     else coa_failure (or_default (ro_error out) ERR_ROUTER_UNREACHABLE) Panel)))
      else Inr (Some (coa_failure (ro_error out) Panel)))"

definition disconnect_user ::
    "coa_env \<Rightarrow> router_view \<Rightarrow> router_cfg list \<Rightarrow> env \<Rightarrow> db \<Rightarrow> nas_device list \<Rightarrow> int \<Rightarrow> string \<Rightarrow> string list \<Rightarrow> coa_result res" where
  "disconnect_user c v cfgs e d nasses tid user sids =
     (if reconcile_disconnect_enabled e then
        res_bind (disconnect_reconciled c v cfgs e d nasses tid user sids) (\<lambda>r.
          case r of Some res \<Rightarrow> Inr res | None \<Rightarrow> disconnect_from_radacct c e d nasses tid user sids False)
      else disconnect_from_radacct c e d nasses tid user sids False)"

section \<open>What the targets are\<close>

text \<open>A session some router reported, among those of the list.\<close>

definition reported :: "router_view \<Rightarrow> router_cfg list \<Rightarrow> live_session \<Rightarrow> bool" where
  "reported v cfgs s =
     (\<exists>n. \<exists>cfg \<in> set cfgs. \<exists>host \<in> set cfgs. \<exists>rows r. strip (rc_host host) = strip (rc_host cfg) \<and> rv_fetch v n host = Some rows \<and>
        r \<in> set rows \<and> to_live_session cfg r = Some s)"

definition cache_reported :: "router_view \<Rightarrow> router_cfg list \<Rightarrow> active_cache \<Rightarrow> bool" where
  "cache_reported v cfgs cache =
     (\<forall>h t rows. cache h = Some (t, Some rows) \<longrightarrow>
        (\<exists>n. \<exists>cfg \<in> set cfgs. strip (rc_host cfg) = h \<and> rv_fetch v n cfg = Some rows))"

lemma cached_rows_reported:
  assumes "cached_rows v n cfg cache = (rows, cache1)" "cfg \<in> set cfgs" "cache_reported v cfgs cache"
  shows "cache_reported v cfgs cache1 \<and>
    (\<forall>rs. rows = Some rs \<longrightarrow> (\<exists>m. \<exists>host \<in> set cfgs. strip (rc_host host) = strip (rc_host cfg) \<and> rv_fetch v m host = Some rs))"
proof (cases "\<exists>t rs. cache (strip (rc_host cfg)) = Some (t, rs) \<and> rv_ttl v > 0 \<and> rv_clock v (2 * n) - t < seconds (rv_ttl v)")
  case True
  then have "cache1 = cache" "\<exists>t. cache (strip (rc_host cfg)) = Some (t, rows)"
    using assms(1) by (auto simp: cached_rows_def Let_def)
  then show ?thesis using assms(3) unfolding cache_reported_def by blast
next
  case False
  then have "rows = rv_fetch v n cfg" "cache1 = cache(strip (rc_host cfg) \<mapsto> (rv_clock v (2 * n + 1), rows))"
    using assms(1) by (auto simp: cached_rows_def Let_def split: option.splits if_splits)
  then show ?thesis using assms(2,3) unfolding cache_reported_def by (auto split: if_splits)
qed

lemma map_filter_mem: "y \<in> set (List.map_filter f xs) \<longleftrightarrow> (\<exists>x \<in> set xs. f x = Some y)"
  by (force simp: List.map_filter_def)

lemma live_sessions_reported:
  assumes "set cfgs \<subseteq> set all" "cache_reported v all cache" "\<forall>s \<in> set (ro_sessions out). reported v all s \<and> same_user u s"
  shows "\<forall>s \<in> set (ro_sessions (fst (live_sessions_from v u n cfgs cache out))). reported v all s \<and> same_user u s"
  using assms
proof (induction cfgs arbitrary: n cache out)
  case (Cons cfg cfgs)
  obtain rows cache1 where c: "cached_rows v n cfg cache = (rows, cache1)" by fastforce
  have cfg: "cfg \<in> set all" using Cons.prems(1) by simp
  note r = cached_rows_reported [OF c cfg Cons.prems(2)]
  have sub: "set cfgs \<subseteq> set all" "cache_reported v all cache1" using Cons.prems(1) r by simp_all
  show ?case
  proof (cases rows)
    case None
    let ?out = "out\<lparr>ro_queried := Suc (ro_queried out), ro_unreachable := Suc (ro_unreachable out)\<rparr>"
    have "\<forall>s \<in> set (ro_sessions ?out). reported v all s \<and> same_user u s" using Cons.prems(3) by simp
    note all = this
    have step: "live_sessions_from v u n (cfg # cfgs) cache out = live_sessions_from v u (Suc n) cfgs cache1 ?out"
      using c None by (simp add: Let_def)
    show ?thesis unfolding step by (rule Cons.IH [OF sub all])
  next
    case (Some rs)
    obtain m host where h: "host \<in> set all" "strip (rc_host host) = strip (rc_host cfg)" "rv_fetch v m host = Some rs"
      using r Some by blast
    have new: "reported v all s \<and> same_user u s" if s: "s \<in> set (filter (same_user u) (List.map_filter (to_live_session cfg) rs))" for s
    proof -
      obtain w where w: "w \<in> set rs" "to_live_session cfg w = Some s" "same_user u s" using s by (auto simp: map_filter_mem)
      have "reported v all s" unfolding reported_def using h cfg w(1,2) by blast
      then show ?thesis using w(3) by simp
    qed
    let ?out = "out\<lparr>ro_queried := Suc (ro_queried out), ro_reachable := Suc (ro_reachable out),
      ro_fetched := ro_fetched out + length (List.map_filter (to_live_session cfg) rs),
      ro_sessions := ro_sessions out @ filter (same_user u) (List.map_filter (to_live_session cfg) rs)\<rparr>"
    have "ro_sessions ?out = ro_sessions out @ filter (same_user u) (List.map_filter (to_live_session cfg) rs)" by simp
    then have o: "set (ro_sessions ?out) = set (ro_sessions out) \<union> set (filter (same_user u) (List.map_filter (to_live_session cfg) rs))"
      by (metis set_append)
    have "\<forall>s \<in> set (ro_sessions ?out). reported v all s \<and> same_user u s"
      unfolding o
    proof (rule ballI, erule UnE)
      fix s assume "s \<in> set (ro_sessions out)"
      then show "reported v all s \<and> same_user u s" by (rule bspec [OF Cons.prems(3)])
    next
      fix s assume "s \<in> set (filter (same_user u) (List.map_filter (to_live_session cfg) rs))"
      then show "reported v all s \<and> same_user u s" by (rule new)
    qed
    note all = this
    have step: "live_sessions_from v u n (cfg # cfgs) cache out = live_sessions_from v u (Suc n) cfgs cache1 ?out"
      using c Some by (simp add: Let_def)
    show ?thesis unfolding step by (rule Cons.IH [OF sub all])
  qed
qed simp

end
