(* ===== verification/CoaProperties.thy ===== *)
theory CoaProperties
  imports CoaPackets
begin

text \<open>
  What a router that implements RFC 5176 sees of the panel's requests, and what the panel makes of its answers.
\<close>

section \<open>The attributes on the wire\<close>

lemma encode_string_wire: "encode_string_attr t s = wire_attr (t, take 253 (text_bytes s))"
  by (simp add: encode_string_attr_def wire_attr_def Let_def min_def)

lemma fits_string [simp]: "t < 256 \<Longrightarrow> fits (t, take 253 bs)"
  by (simp add: fits_def)

definition string_attrs :: "nat \<Rightarrow> string \<Rightarrow> radius_attr list" where
  "string_attrs t s = (if s = [] then [] else [(t, take 253 (text_bytes s))])"

lemma optional_string_wire: "optional_string t s = concat (map wire_attr (string_attrs t s))"
  by (simp add: optional_string_def string_attrs_def encode_string_wire)

definition ipv4_attrs :: "nat \<Rightarrow> string \<Rightarrow> radius_attr list" where
  "ipv4_attrs t ip = (case encode_ipv4_attr t ip of Inl _ \<Rightarrow> [] | Inr bs \<Rightarrow> [(t, drop 2 bs)])"

lemma length_map_res: "map_res f xs = Inr ys \<Longrightarrow> length ys = length xs"
  by (induction xs arbitrary: ys) (auto simp: res_bind_Inr)

lemma encode_ipv4_shape: "encode_ipv4_attr t ip = Inr bs \<Longrightarrow> \<exists>raw. length raw = 4 \<and> bs = wire_attr (t, raw)"
  by (auto simp: encode_ipv4_attr_def wire_attr_def Let_def res_bind_Inr split: if_splits dest: length_map_res)

lemma ipv4_wire: "ipv4_or_nothing t ip = concat (map wire_attr (ipv4_attrs t ip))"
proof (cases "encode_ipv4_attr t ip")
  case (Inr bs)
  then obtain raw where "length raw = 4" "bs = wire_attr (t, raw)" using encode_ipv4_shape by blast
  then show ?thesis using Inr by (simp add: ipv4_or_nothing_def ipv4_attrs_def) (simp add: wire_attr_def)
qed (simp add: ipv4_or_nothing_def ipv4_attrs_def)

lemma ipv4_attrs_fit: "a \<in> set (ipv4_attrs t ip) \<Longrightarrow> fst a = t \<and> length (snd a) = 4"
proof (cases "encode_ipv4_attr t ip")
  case (Inr bs)
  then obtain raw where "length raw = 4" "bs = wire_attr (t, raw)" using encode_ipv4_shape by blast
  then have "length bs = 6" by simp
  moreover assume "a \<in> set (ipv4_attrs t ip)"
  ultimately show ?thesis using Inr by (simp add: ipv4_attrs_def)
qed (simp add: ipv4_attrs_def)

lemma string_attrs_fit: "a \<in> set (string_attrs t s) \<Longrightarrow> fst a = t \<and> length (snd a) \<le> 253"
  by (auto simp: string_attrs_def split: if_splits)

definition disconnect_attrs :: "string \<Rightarrow> string \<Rightarrow> string \<Rightarrow> string \<Rightarrow> string \<Rightarrow> radius_attr list" where
  "disconnect_attrs nas_ip username session_id framed_ip calling =
     string_attrs ATTR_USER_NAME username @ string_attrs ATTR_ACCT_SESSION_ID session_id @
     ipv4_attrs ATTR_NAS_IP_ADDRESS nas_ip @ (if framed_ip = [] then [] else ipv4_attrs ATTR_FRAMED_IP_ADDRESS framed_ip) @
     string_attrs ATTR_CALLING_STATION_ID calling"

lemma disconnect_packet_wire:
  "disconnect_packet ident nas_ip secret u sid fip calling =
     (if u = [] \<and> sid = [] then Inl ValueError
      else build_packet CODE_DISCONNECT_REQUEST ident (concat (map wire_attr (disconnect_attrs nas_ip u sid fip calling))) secret)"
  by (simp add: disconnect_packet_def disconnect_attrs_def optional_string_wire ipv4_wire)

lemma disconnect_attrs_fit:
  "a \<in> set (disconnect_attrs nas_ip u sid fip calling) \<Longrightarrow> fits a \<and> fst a \<noteq> ATTR_MESSAGE_AUTHENTICATOR"
  by (auto simp: disconnect_attrs_def fits_def coa_consts radius_consts split: if_splits
        dest!: string_attrs_fit ipv4_attrs_fit)

section \<open>The check of RFC 5176\<close>

text \<open>What a router does with a request: read it, compute both digests again with its own secret, compare. The
  Message-Authenticator is computed with its own value and the authenticator zeroed.\<close>

definition zeroed :: "radius_attr \<Rightarrow> radius_attr" where
  "zeroed a = (if fst a = ATTR_MESSAGE_AUTHENTICATOR then (fst a, replicate 16 0) else a)"

definition router_accepts :: "byte list \<Rightarrow> byte list \<Rightarrow> bool" where
  "router_accepts secret packet =
     (case parse_packet packet of
        None \<Rightarrow> False
      | Some p \<Rightarrow>
          pk_auth p = md5 (take 4 packet @ replicate 16 0 @ drop 20 packet @ secret) \<and>
          get_attr_value (pk_attrs p) ATTR_MESSAGE_AUTHENTICATOR =
            Some (hmac_md5 secret (take 4 packet @ replicate 16 0 @ concat (map wire_attr (map zeroed (pk_attrs p))))))"

lemma build_packet_shape:
  assumes "build_packet c ident attrs secret = Inr pkt"
  shows "\<exists>n mac auth. n = 38 + length attrs \<and> n \<le> 65535 \<and> length mac = 16 \<and> length auth = 16 \<and>
    pkt = packet_head c ident n @ auth @ attrs @ [word_of_nat ATTR_MESSAGE_AUTHENTICATOR, 18] @ mac \<and>
    mac = hmac_md5 secret (packet_head c ident n @ replicate 16 0 @ attrs @ [word_of_nat ATTR_MESSAGE_AUTHENTICATOR, 18] @ replicate 16 0) \<and>
    auth = md5 (packet_head c ident n @ replicate 16 0 @ attrs @ [word_of_nat ATTR_MESSAGE_AUTHENTICATOR, 18] @ mac @ secret)"
  (is "\<exists>n mac auth. ?P n mac auth")
proof -
  define mac where "mac = hmac_md5 secret (packet_head c ident (38 + length attrs) @ replicate 16 0 @ attrs @
    [word_of_nat ATTR_MESSAGE_AUTHENTICATOR, 18] @ replicate 16 0)"
  define auth where "auth = md5 (packet_head c ident (38 + length attrs) @ replicate 16 0 @ attrs @
    [word_of_nat ATTR_MESSAGE_AUTHENTICATOR, 18] @ mac @ secret)"
  have "?P (38 + length attrs) mac auth"
    using assms by (simp add: build_packet_def Let_def mac_def auth_def split: if_splits)
  then show ?thesis by blast
qed

lemma find_append_none: "find P xs = None \<Longrightarrow> find P (xs @ ys) = find P ys"
  by (induction xs) (auto split: if_splits)

lemma signed_packet:
  assumes "build_packet c ident (concat (map wire_attr as)) secret = Inr pkt" "c < 256"
    and "\<forall>a \<in> set as. fits a \<and> fst a \<noteq> ATTR_MESSAGE_AUTHENTICATOR"
  shows "router_accepts secret pkt \<and>
    (\<exists>mac. map_option (\<lambda>p. (pk_code p, pk_id p, pk_attrs p)) (parse_packet pkt) =
       Some (c, ident, as @ [(ATTR_MESSAGE_AUTHENTICATOR, mac)]))"
proof -
  let ?attrs = "concat (map wire_attr as)"
  obtain auth mac n where s: "n = 38 + length ?attrs" "n \<le> 65535"
    "length mac = 16" "length auth = 16"
    "pkt = packet_head c ident n @ auth @ ?attrs @ [word_of_nat ATTR_MESSAGE_AUTHENTICATOR, 18] @ mac"
    "mac = hmac_md5 secret (packet_head c ident n @ replicate 16 0 @ ?attrs @ [word_of_nat ATTR_MESSAGE_AUTHENTICATOR, 18] @ replicate 16 0)"
    "auth = md5 (packet_head c ident n @ replicate 16 0 @ ?attrs @ [word_of_nat ATTR_MESSAGE_AUTHENTICATOR, 18] @ mac @ secret)"
    using build_packet_shape [OF assms(1)] by blast
  let ?all = "as @ [(ATTR_MESSAGE_AUTHENTICATOR, mac)]"
  have body: "?attrs @ [word_of_nat ATTR_MESSAGE_AUTHENTICATOR, 18] @ mac = concat (map wire_attr ?all)"
    using s(3) by (simp add: wire_attr_def)
  have "\<forall>a \<in> set ?all. fits a" using assms(3) s(3) by (auto simp: fits_def coa_consts)
  then have p: "parse_packet pkt = Some \<lparr>pk_code = c, pk_id = ident, pk_auth = auth, pk_attrs = ?all\<rparr>"
    using parse_packet_head [OF assms(2) s(4), of "concat (map wire_attr ?all)" ident] parse_wire_attrs [of ?all] s(1-3)
    unfolding s(5) body by simp
  have h: "length (packet_head c ident n) = 4" by (simp add: packet_head_def)
  have z: "map zeroed as = as" using assms(3) by (intro map_idI) (auto simp: zeroed_def)
  have "find (\<lambda>a. fst a = ATTR_MESSAGE_AUTHENTICATOR) as = None" using assms(3) by (auto simp: find_None_iff)
  then have find: "get_attr_value ?all ATTR_MESSAGE_AUTHENTICATOR = Some mac"
    by (simp add: get_attr_value_def find_append_none)
  have parts: "take 4 pkt = packet_head c ident n" "drop 20 pkt = ?attrs @ [word_of_nat ATTR_MESSAGE_AUTHENTICATOR, 18] @ mac"
    using h s(4) by (simp_all add: s(5))
  have zero: "concat (map wire_attr (map zeroed ?all)) = ?attrs @ [word_of_nat ATTR_MESSAGE_AUTHENTICATOR, 18] @ replicate 16 0"
    by (simp add: z, simp add: zeroed_def wire_attr_def)
  have "auth = md5 (packet_head c ident n @ replicate 16 0 @ (?attrs @ [word_of_nat ATTR_MESSAGE_AUTHENTICATOR, 18] @ mac) @ secret)"
    using s(7) by (simp only: append_assoc)
  moreover note s(6)
  ultimately have "router_accepts secret pkt"
    unfolding router_accepts_def p option.case radius_packet.simps find parts zero by (intro conjI) simp_all
  then show ?thesis by (simp add: p)
qed

section \<open>CoA-Requests\<close>

lemma encode_uint32_wire: "encode_uint32_attr t n = wire_attr (t, to_bytes 4 (n mod 2 ^ 32))"
  by (simp add: encode_uint32_attr_def wire_attr_def)

lemma encode_vendor_wire:
  "encode_vendor_attr v st s = wire_attr (ATTR_VENDOR_SPECIFIC, to_bytes 4 v @ wire_attr (st, take 247 (text_bytes s)))"
  by (simp add: encode_vendor_attr_def wire_attr_def Let_def min_def)

definition coa_attrs ::
    "string \<Rightarrow> string \<Rightarrow> string \<Rightarrow> string \<Rightarrow> string \<Rightarrow> string \<Rightarrow> string \<Rightarrow> int \<Rightarrow> radius_attr list" where
  "coa_attrs nas_ip username session_id framed_ip calling rate new_framed_ip session_timeout =
     (let target = strip (or_default new_framed_ip framed_ip) in
      [(ATTR_USER_NAME, take 253 (text_bytes username))] @ string_attrs ATTR_ACCT_SESSION_ID session_id @
      ipv4_attrs ATTR_NAS_IP_ADDRESS nas_ip @ (if target = [] then [] else ipv4_attrs ATTR_FRAMED_IP_ADDRESS target) @
      string_attrs ATTR_CALLING_STATION_ID calling @
      (if rate = [] then []
       else [(ATTR_VENDOR_SPECIFIC, to_bytes 4 VENDOR_MIKROTIK @ wire_attr (MT_RATE_LIMIT, take 247 (text_bytes rate)))]) @
      (if 0 < session_timeout then [(ATTR_SESSION_TIMEOUT, to_bytes 4 (min session_timeout 0xFFFFFFFF))] else []))"

lemma coa_packet_wire:
  "coa_packet ident nas_ip secret u sid fip calling rate new_ip st =
     build_packet CODE_COA_REQUEST ident (concat (map wire_attr (coa_attrs nas_ip u sid fip calling rate new_ip st))) secret"
proof -
  have "0 < st \<Longrightarrow> max 1 (min st 4294967295) mod 4294967296 = min st (4294967295 :: int)"
    by (simp add: max_def min_def)
  then show ?thesis
    by (simp add: coa_packet_def coa_attrs_def optional_string_wire ipv4_wire encode_string_wire encode_uint32_wire
        encode_vendor_wire Let_def)
qed

lemma coa_attrs_fit:
  "a \<in> set (coa_attrs nas_ip u sid fip calling rate new_ip st) \<Longrightarrow> fits a \<and> fst a \<noteq> ATTR_MESSAGE_AUTHENTICATOR"
  by (auto simp: coa_attrs_def Let_def fits_def coa_consts radius_consts split: if_splits
        dest!: string_attrs_fit ipv4_attrs_fit)

text \<open>C12. A Disconnect-Request is what a router that follows RFC 5176 accepts: sent to the router's address and port,
  both digests are right under the shared secret, and it reads back as code 40 with exactly the session keys that were
  given (the user name, the session, the addresses that are IPv4 addresses, the station), each cut to 253 bytes, and the
  Message-Authenticator last. What the panel reports is what came back for that datagram.\<close>

theorem disconnect_request_accepted:
  assumes "send_disconnect net ident nas_ip nas_secret u sid fip calling port = Inr r"
  shows "\<exists>pkt mac. router_accepts (text_bytes nas_secret) pkt \<and>
    map_option (\<lambda>p. (pk_code p, pk_id p, pk_attrs p)) (parse_packet pkt) =
      Some (40, ident, disconnect_attrs nas_ip u sid fip calling @ [(80, mac)]) \<and>
    r = receive (net (nas_ip, port) pkt) pkt (text_bytes nas_secret)"
proof -
  obtain pkt where b: "build_packet 40 ident (concat (map wire_attr (disconnect_attrs nas_ip u sid fip calling))) (text_bytes nas_secret) = Inr pkt"
    and r: "r = receive (net (nas_ip, port) pkt) pkt (text_bytes nas_secret)"
    using assms by (auto simp: send_disconnect_def disconnect_packet_wire res_bind_Inr CODE_DISCONNECT_REQUEST_def split: if_splits)
  have "router_accepts (text_bytes nas_secret) pkt \<and> (\<exists>mac. map_option (\<lambda>p. (pk_code p, pk_id p, pk_attrs p)) (parse_packet pkt) =
      Some (40, ident, disconnect_attrs nas_ip u sid fip calling @ [(ATTR_MESSAGE_AUTHENTICATOR, mac)]))"
    using disconnect_attrs_fit by (intro signed_packet [OF b]) auto
  then show ?thesis using r by (auto simp: ATTR_MESSAGE_AUTHENTICATOR_def)
qed

theorem disconnect_request_accepted_witness:
  "\<exists>pkt. router_accepts (text_bytes ''s'') pkt \<and> map_option pk_code (parse_packet pkt) = Some 40"
proof -
  have "\<exists>r. send_disconnect (\<lambda>_ _. UdpTimeout) 1 ''n'' ''s'' ''u'' [] [] [] 3799 = Inr r"
    by (simp add: send_disconnect_def disconnect_packet_def build_packet_def Let_def optional_string_def
        encode_string_attr_def ipv4_or_nothing_def encode_ipv4_attr_def)
  then obtain r where "send_disconnect (\<lambda>_ _. UdpTimeout) 1 ''n'' ''s'' ''u'' [] [] [] 3799 = Inr r" ..
  from disconnect_request_accepted [OF this] show ?thesis by (auto simp: map_option_case split: option.splits)
qed

section \<open>Bounds\<close>

definition wire_size :: "radius_attr list \<Rightarrow> nat" where
  "wire_size as = length (concat (map wire_attr as))"

lemma wire_size_simps [simp]:
  "wire_size [] = 0" "wire_size (a # as) = 2 + length (snd a) + wire_size as" "wire_size (as @ bs) = wire_size as + wire_size bs"
  by (simp_all add: wire_size_def)

lemma build_packet_total:
  assumes "length attrs \<le> n" "38 + n \<le> 65535"
  shows "\<exists>pkt. build_packet c ident attrs secret = Inr pkt \<and> length pkt = 38 + length attrs \<and> of_bytes (slice 2 4 pkt) = int (length pkt)"
proof -
  have "\<exists>pkt. build_packet c ident attrs secret = Inr pkt" using assms by (simp add: build_packet_def Let_def)
  then obtain pkt where pkt: "build_packet c ident attrs secret = Inr pkt" ..
  obtain mac auth where s: "length mac = 16" "length auth = 16"
    "pkt = packet_head c ident (38 + length attrs) @ auth @ attrs @ [word_of_nat ATTR_MESSAGE_AUTHENTICATOR, 18] @ mac"
    using build_packet_shape [OF pkt] by blast
  have "slice 2 4 pkt = to_bytes 2 (int (38 + length attrs))" by (simp add: s(3) slice_def packet_head_def)
  then have "of_bytes (slice 2 4 pkt) = int (38 + length attrs)" using assms by (simp add: of_bytes_to_bytes)
  moreover have "length pkt = 38 + length attrs" using s by (simp add: packet_head_def)
  ultimately show ?thesis using pkt by simp
qed

lemma string_attrs_size: "wire_size (string_attrs t s) \<le> 255"
  by (simp add: string_attrs_def)

lemma ipv4_attrs_size: "wire_size (ipv4_attrs t s) \<le> 6"
proof (cases "encode_ipv4_attr t s")
  case (Inr bs)
  then obtain raw where "length raw = 4" "bs = wire_attr (t, raw)" using encode_ipv4_shape by blast
  then have "length bs = 6" by simp
  then show ?thesis using Inr by (simp add: ipv4_attrs_def)
qed (simp add: ipv4_attrs_def)

lemma disconnect_size: "wire_size (disconnect_attrs nas_ip u sid fip calling) \<le> 777"
proof -
  have "wire_size (if fip = [] then [] else ipv4_attrs ATTR_FRAMED_IP_ADDRESS fip) \<le> 6" using ipv4_attrs_size by simp
  then show ?thesis
    using string_attrs_size [of ATTR_USER_NAME u] string_attrs_size [of ATTR_ACCT_SESSION_ID sid]
      string_attrs_size [of ATTR_CALLING_STATION_ID calling] ipv4_attrs_size [of ATTR_NAS_IP_ADDRESS nas_ip]
    unfolding disconnect_attrs_def wire_size_simps by linarith
qed

lemma coa_size: "wire_size (coa_attrs nas_ip u sid fip calling rate new_ip st) \<le> 1038"
proof -
  let ?target = "strip (or_default new_ip fip)"
  have "wire_size (if ?target = [] then [] else ipv4_attrs ATTR_FRAMED_IP_ADDRESS ?target) \<le> 6" using ipv4_attrs_size by simp
  moreover have "wire_size [(ATTR_USER_NAME, take 253 (text_bytes u))] \<le> 255" by simp
  moreover have "wire_size (if rate = [] then []
       else [(ATTR_VENDOR_SPECIFIC, to_bytes 4 VENDOR_MIKROTIK @ wire_attr (MT_RATE_LIMIT, take 247 (text_bytes rate)))]) \<le> 255"
    by simp
  moreover have "wire_size (if 0 < st then [(ATTR_SESSION_TIMEOUT, to_bytes 4 (min st 0xFFFFFFFF))] else []) \<le> 6" by simp
  ultimately show ?thesis
    using string_attrs_size [of ATTR_ACCT_SESSION_ID sid]
      string_attrs_size [of ATTR_CALLING_STATION_ID calling] ipv4_attrs_size [of ATTR_NAS_IP_ADDRESS nas_ip]
    unfolding coa_attrs_def Let_def wire_size_simps(3) by linarith
qed

text \<open>C13. No request overflows: whatever the texts, a CoA-Request is built without an error and is at most 1,076 bytes,
  and a Disconnect-Request for a user or a session at most 815, within the 4,096 of RFC 2865, and the length field is
  the length of the datagram. The only error is the one for a request that names neither a user nor a session.\<close>

theorem requests_bounded:
  "(\<exists>pkt. coa_packet ident nas_ip secret u sid fip calling rate new_ip st = Inr pkt \<and>
      length pkt \<le> 1076 \<and> of_bytes (slice 2 4 pkt) = int (length pkt)) \<and>
   (case disconnect_packet ident nas_ip secret u sid fip calling of
      Inl err \<Rightarrow> err = ValueError \<and> u = [] \<and> sid = []
    | Inr pkt \<Rightarrow> length pkt \<le> 815 \<and> of_bytes (slice 2 4 pkt) = int (length pkt))"
proof -
  let ?c = "concat (map wire_attr (coa_attrs nas_ip u sid fip calling rate new_ip st))"
  let ?d = "concat (map wire_attr (disconnect_attrs nas_ip u sid fip calling))"
  have l: "length ?c \<le> 1038" "length ?d \<le> 777" using coa_size disconnect_size by (simp_all only: wire_size_def)
  obtain pkt where c: "build_packet CODE_COA_REQUEST ident ?c secret = Inr pkt" "length pkt = 38 + length ?c"
    "of_bytes (slice 2 4 pkt) = int (length pkt)"
    using build_packet_total [OF l(1), of CODE_COA_REQUEST ident secret] by auto
  obtain pkt' where d: "build_packet CODE_DISCONNECT_REQUEST ident ?d secret = Inr pkt'" "length pkt' = 38 + length ?d"
    "of_bytes (slice 2 4 pkt') = int (length pkt')"
    using build_packet_total [OF l(2), of CODE_DISCONNECT_REQUEST ident secret] by auto
  have "length pkt \<le> 1076" "length pkt' \<le> 815" using c(2) d(2) l by linarith+
  then show ?thesis using c(1,3) d(1,3) unfolding coa_packet_wire disconnect_packet_wire by auto
qed

section \<open>Answers\<close>

text \<open>An answer signed for the request is recognised as such, and the dictionary of its attributes holds the last value
  of each type that the list of the server has.\<close>

lemma signed_answer_verified:
  assumes "build_response c ident request_auth secret attrs = Inr resp"
  shows "verify_response resp request_auth secret"
proof -
  let ?h = "packet_head c ident (20 + length (concat attrs))"
  have r: "resp = ?h @ md5 (?h @ request_auth @ concat attrs @ secret) @ concat attrs"
    using assms by (auto simp: build_response_def response_authenticator_def Let_def split: if_splits)
  have "length ?h = 4" by (simp add: packet_head_def)
  then show ?thesis by (simp add: verify_response_def r slice_def)
qed

lemma coa_attrs_from_list: "coa_attrs_from p i out = out ++ map_of (rev (attrs_from p i))"
proof (induction p i out rule: coa_attrs_from.induct)
  case (1 p i out)
  show ?case
  proof (cases "i + 2 \<le> length p \<and> \<not> (unat (p ! (i + 1)) < 2 \<or> i + unat (p ! (i + 1)) > length p)")
    case True
    let ?v = "slice (i + 2) (i + unat (p ! (i + 1))) p"
    have "coa_attrs_from p i out = coa_attrs_from p (i + unat (p ! (i + 1))) (out(unat (p ! i) \<mapsto> ?v))"
      using True by (subst coa_attrs_from.simps) (simp add: Let_def)
    also have "\<dots> = out(unat (p ! i) \<mapsto> ?v) ++ map_of (rev (attrs_from p (i + unat (p ! (i + 1)))))"
      using True by (intro 1) auto
    also have "attrs_from p i = (unat (p ! i), ?v) # attrs_from p (i + unat (p ! (i + 1)))"
      using True by (subst attrs_from.simps) (simp add: Let_def)
    then have "out(unat (p ! i) \<mapsto> ?v) ++ map_of (rev (attrs_from p (i + unat (p ! (i + 1))))) = out ++ map_of (rev (attrs_from p i))"
      by (simp add: map_add_def fun_eq_iff split: option.splits)
    finally show ?thesis .
  next
    case False
    then have "coa_attrs_from p i out = out" by (subst coa_attrs_from.simps) (force simp: Let_def)
    moreover have "attrs_from p i = []" using False by (subst attrs_from.simps) (auto simp: Let_def)
    ultimately show ?thesis by simp
  qed
qed

text \<open>The two readers of attributes, the server's list and the dictionary of the Disconnect and CoA answers, agree on
  every datagram: the dictionary holds for each type the last value of the list, and nothing else; on a payload without a
  repeated type both lookups give the same.\<close>

theorem attribute_readers_agree:
  "coa_parse_attrs payload = map_of (rev (parse_attrs payload)) \<and>
   (distinct (map fst (parse_attrs payload)) \<longrightarrow>
      (\<forall>t. coa_parse_attrs payload t = get_attr_value (parse_attrs payload) t))"
proof -
  have find: "map_of as t = get_attr_value as t" for as :: "radius_attr list" and t
    by (induction as) (auto simp: get_attr_value_def)
  have a: "coa_parse_attrs payload = map_of (rev (parse_attrs payload))"
    by (simp add: coa_parse_attrs_def coa_attrs_from_list parse_attrs_def)
  moreover have "map_of (rev as) = map_of as" if "distinct (map fst as)" for as :: "radius_attr list"
    using that by (intro map_of_inject_set [THEN iffD2]) (simp_all flip: rev_map)
  ultimately show ?thesis by (simp add: find)
qed

theorem attribute_readers_agree_witness: "coa_parse_attrs [1, 3, 65, 8, 2] 1 = Some [65]"
proof -
  have "distinct (map fst (parse_attrs [1, 3, 65, 8, 2]))" "get_attr_value (parse_attrs [1, 3, 65, 8, 2]) 1 = Some [65]"
    by code_simp+
  then show ?thesis using attribute_readers_agree [of "[1, 3, 65, 8, 2]"] by metis
qed

text \<open>An answer is believed whether or not it is signed: twenty bytes that start with 41 report a disconnected session,
  under every secret.\<close>

lemma forged_answer_counts:
  "length resp = 20 \<Longrightarrow> resp ! 0 = 41 \<Longrightarrow> cr_ok (receive (Datagram resp) packet secret)"
  by (simp add: receive_def parse_response_def Let_def coa_consts)

end
