(* ===== verification/ActiveReconcilerProperties.thy ===== *)
theory ActiveReconcilerProperties
  imports ActiveReconciler CoaProperties MtReconcilerProperties
begin

text \<open>
  Which sessions a disconnection reaches: sessions a router reports, under the secret of their own router, and none when
  the routers that answered know of none.
\<close>

section \<open>Enriched sessions\<close>

lemma enriched_fields [simp]:
  "ls_username (enrich_nas_creds nasses tid s) = ls_username s" "ls_username (enrich_from_radacct d tid s) = ls_username s"
  "ls_framed_ip (enrich_nas_creds nasses tid s) = ls_framed_ip s" "ls_framed_ip (enrich_from_radacct d tid s) = ls_framed_ip s"
  "ls_calling (enrich_nas_creds nasses tid s) = ls_calling s" "ls_calling (enrich_from_radacct d tid s) = ls_calling s"
  "ls_nas_address (enrich_nas_creds nasses tid s) = ls_nas_address s" "ls_nas_address (enrich_from_radacct d tid s) = ls_nas_address s"
  "ls_session_id (enrich_nas_creds nasses tid s) = ls_session_id s" "ls_secret (enrich_from_radacct d tid s) = ls_secret s"
  by (simp_all add: enrich_nas_creds_def enrich_from_radacct_def split: option.split)

lemma agrees_enriched [simp]: "agrees_with (enrich_nas_creds nasses tid s) = agrees_with s" "agrees_with (enrich_from_radacct d tid s) = agrees_with s"
  by (simp_all add: agrees_with_def fun_eq_iff)

lemma enrich_secret:
  assumes "ls_secret (enrich_nas_creds nasses tid s) \<noteq> []" "ls_secret s = []"
  shows "\<exists>n \<in> set nasses. nas_hit tid (ls_nas_address s) n \<and> ls_secret (enrich_nas_creds nasses tid s) = nd_secret n"
  using assms by (auto simp: enrich_nas_creds_def split: option.splits if_splits dest: nas_lookup_hit)

lemma enrich_session_id:
  assumes "ls_session_id (enrich_from_radacct d tid s) \<noteq> []" "ls_session_id s = []"
  shows "\<exists>a \<in> set (radacct d). a_tenant_id a = tid \<and> a_username a = ls_username s \<and> a_stop a = None \<and> agrees_with s a \<and>
    ls_session_id (enrich_from_radacct d tid s) = strip (a_acctsessionid a) \<and> \<not> synthetic_id (strip (a_acctsessionid a))"
  using assms
  by (auto simp: enrich_from_radacct_def open_user_rows_def user_rows_def usable_id_def split: option.splits dest!: find_Some_first)

lemma reported_blank: "reported v cfgs s \<Longrightarrow> ls_session_id s = [] \<and> ls_secret s = []"
  by (auto simp: reported_def to_live_session_def Let_def split: if_splits)

lemma select_subset: "set (select_sessions d tid u sids ip mac ss) \<subseteq> set ss"
  by (auto simp: select_sessions_def Let_def split: prod.splits if_splits)

lemma live_sessions_ok: "\<forall>s \<in> set (ro_sessions (fst (live_sessions v cfgs u Map.empty))). reported v cfgs s \<and> same_user (strip u) s"
  unfolding live_sessions_def by (intro live_sessions_reported) (simp_all add: cache_reported_def no_outcome_def)

text \<open>What a target of a disconnection is.\<close>

definition live_target :: "router_view \<Rightarrow> router_cfg list \<Rightarrow> db \<Rightarrow> nas_device list \<Rightarrow> int \<Rightarrow> string \<Rightarrow> live_session \<Rightarrow> bool" where
  "live_target v cfgs d nasses tid user s =
     ((\<exists>s0. reported v cfgs s0 \<and> same_user user s0 \<and> ls_username s = ls_username s0 \<and> ls_nas_address s = ls_nas_address s0 \<and>
            ls_framed_ip s = ls_framed_ip s0 \<and> ls_calling s = ls_calling s0) \<and>
      has_disconnect_keys s \<and>
      (\<exists>n \<in> set nasses. nas_hit tid (ls_nas_address s) n \<and> ls_secret s = nd_secret n \<and> nd_secret n \<noteq> []) \<and>
      (ls_session_id s \<noteq> [] \<longrightarrow>
         (\<exists>a \<in> set (radacct d). a_tenant_id a = tid \<and> a_username a = ls_username s \<and> a_stop a = None \<and> agrees_with s a \<and>
            ls_session_id s = strip (a_acctsessionid a) \<and> \<not> synthetic_id (ls_session_id s))))"

text \<open>C9. The choice of targets over the routers only names sessions the routers have: every session that
  \<open>resolve_disconnect_targets\<close> returns is one that a router of the tenant reported under that user name (in any case), with the address and the device the router gave; it has a key by which
  the router finds it; it is signed with the secret of an enabled router of the tenant at that address; and a session
  identifier, where there is one, comes from an open row of the user that agrees with the router on the device or the
  address, never from a synthetic row. There is an error exactly when there is no target. (Where no
  router has an API, none answers or the reading over the routers is switched off, \<open>disconnect_user\<close> goes by the rows of
  the session table instead; those targets are not meant here.)\<close>

theorem disconnect_targets_live:
  "let out = resolve_disconnect_targets v cfgs d nasses tid user sids framed_ip mac
   in (ro_error out = []) = (ro_sessions out \<noteq> []) \<and>
      list_all (live_target v cfgs d nasses tid (strip (strip user))) (ro_sessions out)"
proof -
  let ?out = "resolve_disconnect_targets v cfgs d nasses tid user sids framed_ip mac"
  let ?live = "ro_sessions (fst (live_sessions v cfgs (strip user) Map.empty))"
  let ?enriched = "map (\<lambda>s. enrich_nas_creds nasses tid (enrich_from_radacct d tid s)) ?live"
  have err: "(ro_error ?out = []) = (ro_sessions ?out \<noteq> [])"
    by (auto simp: resolve_disconnect_targets_def Let_def split_beta ERR_ROUTER_UNREACHABLE_def ERR_SESSION_NOT_ACTIVE_def
        ERR_SESSION_STALE_def ERR_MISSING_ATTRS_def)
  have mem: "s \<in> set ?enriched \<and> has_disconnect_keys s \<and> ls_secret s \<noteq> []" if "s \<in> set (ro_sessions ?out)" for s
    using that select_subset [of d tid "strip user" sids framed_ip mac ?enriched]
    by (auto simp: resolve_disconnect_targets_def Let_def split_beta split: if_splits)
  have "live_target v cfgs d nasses tid (strip (strip user)) s" if s: "s \<in> set (ro_sessions ?out)" for s
  proof -
    obtain s0 where s0: "s0 \<in> set ?live" "s = enrich_nas_creds nasses tid (enrich_from_radacct d tid s0)" using mem [OF s] by auto
    have r: "reported v cfgs s0" "same_user (strip (strip user)) s0" using live_sessions_ok s0(1) by blast+
    note blank = reported_blank [OF r(1)]
    have "\<exists>n \<in> set nasses. nas_hit tid (ls_nas_address s) n \<and> ls_secret s = nd_secret n \<and> nd_secret n \<noteq> []"
      using enrich_secret [of nasses tid "enrich_from_radacct d tid s0"] mem [OF s] blank unfolding s0(2) by auto
    moreover have "ls_session_id s \<noteq> [] \<longrightarrow> (\<exists>a \<in> set (radacct d). a_tenant_id a = tid \<and> a_username a = ls_username s \<and>
        a_stop a = None \<and> agrees_with s a \<and> ls_session_id s = strip (a_acctsessionid a) \<and> \<not> synthetic_id (ls_session_id s))"
    proof
      assume "ls_session_id s \<noteq> []"
      then obtain a where "a \<in> set (radacct d)" "a_tenant_id a = tid" "a_username a = ls_username s0" "a_stop a = None" "agrees_with s0 a"
        "ls_session_id (enrich_from_radacct d tid s0) = strip (a_acctsessionid a)" "\<not> synthetic_id (strip (a_acctsessionid a))"
        using enrich_session_id [of d tid s0] blank by (auto simp: s0(2))
      then show "\<exists>a \<in> set (radacct d). a_tenant_id a = tid \<and> a_username a = ls_username s \<and>
        a_stop a = None \<and> agrees_with s a \<and> ls_session_id s = strip (a_acctsessionid a) \<and> \<not> synthetic_id (ls_session_id s)"
        by (intro bexI [of _ a]) (simp_all add: s0(2))
    qed
    moreover have "\<exists>s0. reported v cfgs s0 \<and> same_user (strip (strip user)) s0 \<and> ls_username s = ls_username s0 \<and>
        ls_nas_address s = ls_nas_address s0 \<and> ls_framed_ip s = ls_framed_ip s0 \<and> ls_calling s = ls_calling s0"
      using r by (intro exI [of _ s0]) (simp add: s0(2))
    ultimately show ?thesis using mem [OF s] by (simp add: live_target_def)
  qed
  then show ?thesis using err by (simp add: Let_def list_all_iff)
qed

text \<open>C10. The rows of \<open>radacct\<close> alone never cut a session: when every router of the tenant answered and none reports the
  user, the disconnection is refused as not active whatever the session table says, and the answer is the same under
  every behaviour of the network, because nothing is sent.\<close>

theorem absent_user_not_disconnected:
  assumes "reconcile_disconnect_enabled e" "cfgs \<noteq> []" "\<forall>n. \<forall>cfg \<in> set cfgs. rv_fetch v n cfg \<noteq> None"
    and "\<forall>s. reported v cfgs s \<longrightarrow> \<not> same_user (strip (strip user)) s"
  shows "disconnect_user c v cfgs e d nasses tid user sids = Inr (coa_failure ''session_not_active'' Panel)"
proof -
  have counts: "ro_queried (fst (live_sessions_from v u n cs cache out)) = ro_queried out + length cs \<and>
      ro_unreachable (fst (live_sessions_from v u n cs cache out)) = ro_unreachable out"
    if "set cs \<subseteq> set cfgs" "\<forall>h t rows. cache h = Some (t, rows) \<longrightarrow> rows \<noteq> None" for u n cs cache out
    using that
  proof (induction cs arbitrary: n cache out)
    case (Cons cfg cs)
    obtain rows cache1 where c: "cached_rows v n cfg cache = (rows, cache1)" by fastforce
    obtain y where y: "rv_fetch v n cfg = Some y" using assms(3) Cons.prems(1) by fastforce
    have "rows \<noteq> None \<and> (\<forall>h t rows. cache1 h = Some (t, rows) \<longrightarrow> rows \<noteq> None)"
      using c Cons.prems(2) by (auto simp: cached_rows_def Let_def y split: option.splits if_splits)
    then obtain rs where "rows = Some rs" "\<forall>h t rows. cache1 h = Some (t, rows) \<longrightarrow> rows \<noteq> None" by auto
    then show ?case using c Cons.IH [of cache1] Cons.prems(1) by (simp add: Let_def)
  qed simp
  let ?l = "fst (live_sessions v cfgs (strip user) Map.empty)"
  have none: "ro_sessions ?l = []"
    using live_sessions_ok [of v cfgs "strip user"] assms(4) by (metis list.set_intros(1) neq_Nil_conv)
  have "ro_queried ?l = length cfgs" "ro_unreachable ?l = 0"
    using counts [of cfgs Map.empty "strip (strip user)" 0 no_outcome] by (simp_all add: live_sessions_def no_outcome_def)
  then show ?thesis
    using assms(1,2) none
    by (simp add: disconnect_user_def disconnect_reconciled_def resolve_disconnect_targets_def Let_def split_beta
        ERR_SESSION_NOT_ACTIVE_def)
qed

definition empty_view :: router_view where
  "empty_view = \<lparr>rv_fetch = (\<lambda>_ _. Some []), rv_clock = (\<lambda>_. 0), rv_ttl = 8\<rparr>"

definition one_router :: router_cfg where
  "one_router = \<lparr>rc_id = 1, rc_host = ''r'', rc_port = 8728, rc_username = ''admin'', rc_password = [], rc_use_tls = False,
     rc_verify_tls = False, rc_timeout_sec = 20\<rparr>"

theorem absent_user_not_disconnected_witness:
  "disconnect_user \<lparr>ce_udp = (\<lambda>_ _. UdpTimeout), ce_ident = (\<lambda>_. 0)\<rparr> empty_view [one_router] blank_env lost_db [] 1 ''ali'' [] =
     Inr (coa_failure ''session_not_active'' Panel)"
proof (rule absent_user_not_disconnected)
  show "reconcile_disconnect_enabled blank_env" by code_simp
  show "\<forall>s. reported empty_view [one_router] s \<longrightarrow> \<not> same_user (strip (strip ''ali'')) s"
    by (simp add: reported_def empty_view_def)
qed (simp_all add: empty_view_def)

end
