(* ===== verification/Wallets.thy ===== *)
theory Wallets
  imports Prelude
begin

text \<open>
  \<open>app/radius/services/business_os_finance.py\<close>: money in minor units, wallets and their transactions, the ledger, the
  business events and the price snapshots. A balance changes only together with a transaction, a ledger entry and an
  event, in one database transaction: an error leaves the tables as they were. Metadata (JSON for people) and stamps are
  not modelled; amounts are texts, as \<open>Decimal\<close> reads them.
\<close>

section \<open>Money\<close>

datatype money_error =
    BusinessOSValidationError string
  | ManagerCreditError string
  | ManagerCreditConfirmRequired int int int int bool
  | IntegrityError

text \<open>\<open>ROUND_HALF_UP\<close>: ties away from zero.\<close>

definition round_half_up :: "rat \<Rightarrow> int" where
  "round_half_up x = (if 0 \<le> x then \<lfloor>x + 1 / 2\<rfloor> else - \<lfloor>- x + 1 / 2\<rfloor>)"

definition not_numeric :: money_error where
  "not_numeric = BusinessOSValidationError ''amount must be numeric''"

text \<open>The result of \<open>quantize\<close> has at most 28 digits, the precision of the default context.\<close>

definition money_to_minor :: "string \<Rightarrow> money_error + int" where
  "money_to_minor amount =
     (case parse_decimal (strip amount) of
        None \<Rightarrow> Inl not_numeric
      | Some x \<Rightarrow> (let n = round_half_up (x * 100) in if \<bar>n\<bar> < 10 ^ 28 then Inr n else Inl not_numeric))"

text \<open>For amounts of at most 28 digits; a column holds at most 19.\<close>

definition minor_to_money :: "int \<Rightarrow> string" where
  "minor_to_money n =
     (let a = nat \<bar>n\<bar>; c = a mod 100
      in (if n < 0 then ''-'' else []) @ digits_of (a div 100) @ ''.'' @ digits_of (c div 10) @ digits_of (c mod 10))"

definition positive_minor :: "string \<Rightarrow> money_error + int" where
  "positive_minor amount =
     res_bind (money_to_minor amount) (\<lambda>n.
       if n \<le> 0 then Inl (BusinessOSValidationError ''amount must be positive'') else Inr n)"

section \<open>Tables\<close>

record wallet =
  w_id :: int
  w_tenant_id :: int
  w_owner_type :: string
  w_owner_id :: "int option"
  w_balance :: int
  w_currency :: string

record wallet_tx =
  tx_id :: int
  tx_tenant_id :: int
  tx_wallet_id :: int
  tx_type :: string
  tx_amount :: int
  tx_before :: int
  tx_after :: int
  tx_currency :: string
  tx_reference_type :: string
  tx_reference_id :: "int option"
  tx_actor_type :: string
  tx_actor_id :: "int option"
  tx_notes :: string

record ledger_entry =
  le_id :: int
  le_tenant_id :: int
  le_type :: string
  le_debit :: string
  le_credit :: string
  le_amount :: int
  le_currency :: string
  le_actor_type :: string
  le_actor_id :: "int option"
  le_target_type :: string
  le_target_id :: "int option"
  le_reference_type :: string
  le_reference_id :: "int option"

record business_event =
  be_id :: int
  be_tenant_id :: int
  be_category :: string
  be_severity :: string
  be_key :: string
  be_actor_type :: string
  be_actor_id :: "int option"
  be_target_type :: string
  be_target_id :: "int option"

record price_snapshot =
  ps_id :: int
  ps_tenant_id :: int
  ps_reference_type :: string
  ps_reference_id :: "int option"
  ps_package_id :: "int option"
  ps_retail :: int
  ps_wholesale :: int
  ps_effective :: int
  ps_discount :: int
  ps_currency :: string

text \<open>The configured currency is part of the state: it is a setting.\<close>

record money_db =
  wallets :: "wallet list"
  wallet_transactions :: "wallet_tx list"
  ledger_entries :: "ledger_entry list"
  business_events :: "business_event list"
  price_snapshots :: "price_snapshot list"
  default_currency :: string

section \<open>Events and the ledger\<close>

definition EVENT_CATEGORIES :: "string list" where
  "EVENT_CATEGORIES =
     [''manager'', ''subscriber'', ''card'', ''financial'', ''system'', ''security'', ''radius'', ''notification'']"

definition EVENT_SEVERITIES :: "string list" where
  "EVENT_SEVERITIES = [''debug'', ''info'', ''warning'', ''error'', ''critical'']"

definition LEDGER_TYPES :: "string list" where
  "LEDGER_TYPES =
     [''payment'', ''renewal'', ''debt'', ''loan'', ''discount'', ''wallet_recharge'', ''card_sale'', ''batch_creation'',
      ''profit_share'', ''reversal'', ''correction'']"

definition OWNER_TYPES :: "string list" where
  "OWNER_TYPES = [''company'', ''manager'', ''distributor'', ''subscriber'', ''card_user'']"

text \<open>Who acts and on what: the four fields the ledger and the events share.\<close>

record party =
  pa_actor_type :: string
  pa_actor_id :: "int option"
  pa_target_type :: string
  pa_target_id :: "int option"

definition record_event :: "int \<Rightarrow> string \<Rightarrow> string \<Rightarrow> string \<Rightarrow> party \<Rightarrow> money_db \<Rightarrow> money_error + money_db" where
  "record_event tid category severity event_key p m =
     (if strip category \<notin> set EVENT_CATEGORIES then Inl (BusinessOSValidationError ''unknown event category'')
      else if strip (or_default severity ''info'') \<notin> set EVENT_SEVERITIES
      then Inl (BusinessOSValidationError ''unknown event severity'')
      else if strip event_key = [] then Inl (BusinessOSValidationError ''event_key is required'')
      else Inr (m\<lparr>business_events := business_events m @
        [\<lparr>be_id = next_id (map be_id (business_events m)), be_tenant_id = tid, be_category = strip category,
          be_severity = strip (or_default severity ''info''), be_key = strip event_key, be_actor_type = pa_actor_type p,
          be_actor_id = pa_actor_id p, be_target_type = pa_target_type p, be_target_id = pa_target_id p\<rparr>]\<rparr>))"

definition insert_entry ::
    "int \<Rightarrow> string \<Rightarrow> string \<Rightarrow> string \<Rightarrow> string \<Rightarrow> string \<Rightarrow> party \<Rightarrow> string \<Rightarrow> int option \<Rightarrow> money_db \<Rightarrow>
       money_error + ledger_entry \<times> money_db" where
  "insert_entry tid entry_type debit_account credit_account amount currency p reference_type reference_id m =
     (if strip entry_type \<notin> set LEDGER_TYPES then Inl (BusinessOSValidationError ''unknown ledger entry_type'')
      else
        res_bind (positive_minor amount) (\<lambda>n.
          if strip debit_account = [] then Inl (BusinessOSValidationError ''debit_account is required'')
          else if strip credit_account = [] then Inl (BusinessOSValidationError ''credit_account is required'')
          else
            let row = \<lparr>le_id = next_id (map le_id (ledger_entries m)), le_tenant_id = tid, le_type = strip entry_type,
                       le_debit = debit_account, le_credit = credit_account, le_amount = n,
                       le_currency = or_default currency (default_currency m), le_actor_type = pa_actor_type p,
                       le_actor_id = pa_actor_id p, le_target_type = pa_target_type p, le_target_id = pa_target_id p,
                       le_reference_type = reference_type, le_reference_id = reference_id\<rparr>
            in Inr (row, m\<lparr>ledger_entries := ledger_entries m @ [row]\<rparr>)))"

definition write_entry ::
    "int \<Rightarrow> string \<Rightarrow> string \<Rightarrow> string \<Rightarrow> string \<Rightarrow> string \<Rightarrow> party \<Rightarrow> string \<Rightarrow> int option \<Rightarrow> bool \<Rightarrow> money_db \<Rightarrow>
       money_error + ledger_entry \<times> money_db" where
  "write_entry tid entry_type debit_account credit_account amount currency p reference_type reference_id emit_event m =
     res_bind (insert_entry tid entry_type debit_account credit_account amount currency p reference_type reference_id m)
       (\<lambda>(row, m1).
         if emit_event then
           res_bind (record_event tid ''financial'' ''info'' (''ledger.'' @ entry_type) p m1) (\<lambda>m2. Inr (row, m2))
         else Inr (row, m1))"

section \<open>Wallets\<close>

definition get_wallet :: "int \<Rightarrow> int \<Rightarrow> money_db \<Rightarrow> wallet option" where
  "get_wallet tid wid m = find (\<lambda>w. w_tenant_id w = tid \<and> w_id w = wid) (wallets m)"

text \<open>The unique index of the table has no entry for a wallet without an owner identifier.\<close>

definition create_wallet :: "int \<Rightarrow> string \<Rightarrow> int option \<Rightarrow> string \<Rightarrow> money_db \<Rightarrow> money_error + wallet \<times> money_db" where
  "create_wallet tid owner_type owner_id currency m =
     (let cur = or_default currency (default_currency m); owner = strip owner_type;
          w = \<lparr>w_id = next_id (map w_id (wallets m)), w_tenant_id = tid, w_owner_type = owner, w_owner_id = owner_id,
               w_balance = 0, w_currency = cur\<rparr> in
      if owner \<notin> set OWNER_TYPES then Inl (BusinessOSValidationError ''unknown wallet owner_type'')
      else if owner \<noteq> ''company'' \<and> owner_id = None
      then Inl (BusinessOSValidationError ''owner_id is required for this wallet owner_type'')
      else if owner_id \<noteq> None \<and> (\<exists>v \<in> set (wallets m). w_tenant_id v = tid \<and> w_owner_type v = owner \<and>
                w_owner_id v = owner_id \<and> w_currency v = cur) then Inl IntegrityError
      else
        res_bind (record_event tid ''financial'' ''info'' ''wallet.created''
            \<lparr>pa_actor_type = [], pa_actor_id = None, pa_target_type = owner, pa_target_id = owner_id\<rparr>
            (m\<lparr>wallets := wallets m @ [w]\<rparr>))
          (\<lambda>m1. Inr (w, m1)))"

definition list_wallets :: "int \<Rightarrow> string \<Rightarrow> nat \<Rightarrow> money_db \<Rightarrow> wallet list" where
  "list_wallets tid owner_type limit m =
     take limit (rev (sort_key w_id (filter (\<lambda>w. w_tenant_id w = tid \<and> (owner_type = [] \<or> w_owner_type w = owner_type)) (wallets m))))"

definition list_transactions :: "int \<Rightarrow> int \<Rightarrow> nat \<Rightarrow> money_db \<Rightarrow> wallet_tx list" where
  "list_transactions tid wid limit m =
     take limit (rev (sort_key tx_id (filter (\<lambda>t. tx_tenant_id t = tid \<and> tx_wallet_id t = wid) (wallet_transactions m))))"

definition wallet_account :: "int \<Rightarrow> string" where
  "wallet_account wid = ''wallet:'' @ str_of_int wid"

text \<open>What a caller says about a change: the reference, the actor and the note.\<close>

record memo =
  mm_reference_type :: string
  mm_reference_id :: "int option"
  mm_actor_type :: string
  mm_actor_id :: "int option"
  mm_notes :: string

definition new_balance :: "string \<Rightarrow> int \<Rightarrow> wallet \<Rightarrow> int" where
  "new_balance kind n w = (if kind = ''credit'' then w_balance w + n else w_balance w - n)"

definition wallet_party :: "wallet \<Rightarrow> memo \<Rightarrow> party" where
  "wallet_party w memo =
     \<lparr>pa_actor_type = mm_actor_type memo, pa_actor_id = mm_actor_id memo, pa_target_type = w_owner_type w, pa_target_id = w_owner_id w\<rparr>"

definition transaction_row :: "int \<Rightarrow> wallet \<Rightarrow> string \<Rightarrow> int \<Rightarrow> memo \<Rightarrow> money_db \<Rightarrow> wallet_tx" where
  "transaction_row tid w kind n memo m =
     \<lparr>tx_id = next_id (map tx_id (wallet_transactions m)), tx_tenant_id = tid, tx_wallet_id = w_id w, tx_type = kind, tx_amount = n,
      tx_before = w_balance w, tx_after = new_balance kind n w, tx_currency = or_default (w_currency w) (default_currency m),
      tx_reference_type = mm_reference_type memo, tx_reference_id = mm_reference_id memo, tx_actor_type = mm_actor_type memo,
      tx_actor_id = mm_actor_id memo, tx_notes = mm_notes memo\<rparr>"

definition store_transaction :: "wallet_tx \<Rightarrow> money_db \<Rightarrow> money_db" where
  "store_transaction t m =
     m\<lparr>wallets := map (\<lambda>v. if w_tenant_id v = tx_tenant_id t \<and> w_id v = tx_wallet_id t then v\<lparr>w_balance := tx_after t\<rparr> else v) (wallets m),
       wallet_transactions := wallet_transactions m @ [t]\<rparr>"

text \<open>The ledger entry of a transaction: money comes into a wallet from the cash account and leaves it to there.\<close>

definition wallet_entry :: "int \<Rightarrow> wallet \<Rightarrow> string \<Rightarrow> string \<Rightarrow> memo \<Rightarrow> wallet_tx \<Rightarrow> money_db \<Rightarrow> money_error + ledger_entry \<times> money_db" where
  "wallet_entry tid w amount kind memo t m =
     (let account = wallet_account (w_id w); reference_type = or_default (mm_reference_type memo) ''wallet_transaction'';
          reference_id = (case mm_reference_id memo of None \<Rightarrow> Some (tx_id t) | Some i \<Rightarrow> Some (if i = 0 then tx_id t else i)) in
      if kind = ''credit''
      then insert_entry tid ''wallet_recharge'' ''cash'' account amount (tx_currency t) (wallet_party w memo) reference_type reference_id m
      else insert_entry tid ''correction'' account ''cash'' amount (tx_currency t) (wallet_party w memo) reference_type reference_id m)"

definition change_balance :: "int \<Rightarrow> int \<Rightarrow> string \<Rightarrow> string \<Rightarrow> memo \<Rightarrow> money_db \<Rightarrow> money_error + wallet_tx \<times> money_db" where
  "change_balance tid wid amount kind memo m =
     (if kind \<notin> {''credit'', ''debit''} then Inl (BusinessOSValidationError ''unsupported wallet transaction'')
      else
        res_bind (positive_minor amount) (\<lambda>n.
          case get_wallet tid wid m of
            None \<Rightarrow> Inl (BusinessOSValidationError ''wallet not found'')
          | Some w \<Rightarrow>
              if new_balance kind n w < 0 then Inl (BusinessOSValidationError ''wallet balance cannot go negative'')
              else
                let t = transaction_row tid w kind n memo m in
                res_bind (wallet_entry tid w amount kind memo t (store_transaction t m)) (\<lambda>(_, m1).
                  res_bind (record_event tid ''financial'' ''info'' (''wallet.'' @ kind) (wallet_party w memo) m1) (\<lambda>m2. Inr (t, m2)))))"

definition credit :: "int \<Rightarrow> int \<Rightarrow> string \<Rightarrow> memo \<Rightarrow> money_db \<Rightarrow> money_error + wallet_tx \<times> money_db" where
  "credit tid wid amount memo m = change_balance tid wid amount ''credit'' memo m"

definition debit :: "int \<Rightarrow> int \<Rightarrow> string \<Rightarrow> memo \<Rightarrow> money_db \<Rightarrow> money_error + wallet_tx \<times> money_db" where
  "debit tid wid amount memo m = change_balance tid wid amount ''debit'' memo m"

section \<open>Price snapshots\<close>

definition capture_snapshot ::
    "int \<Rightarrow> string \<Rightarrow> int option \<Rightarrow> int option \<Rightarrow> string \<Rightarrow> string \<Rightarrow> string option \<Rightarrow> string \<Rightarrow> string \<Rightarrow> string \<Rightarrow> int option \<Rightarrow>
       money_db \<Rightarrow> money_error + price_snapshot \<times> money_db" where
  "capture_snapshot tid reference_type reference_id package_id retail_price wholesale_price effective_price discount_amount
     currency captured_by_type captured_by_id m =
     (if strip reference_type = [] then Inl (BusinessOSValidationError ''reference_type is required'')
      else
        res_bind (money_to_minor retail_price) (\<lambda>retail.
        res_bind (money_to_minor wholesale_price) (\<lambda>wholesale.
        res_bind (money_to_minor discount_amount) (\<lambda>discount.
        res_bind (money_to_minor (case effective_price of None \<Rightarrow> retail_price | Some x \<Rightarrow> x)) (\<lambda>effective.
          if min (min retail wholesale) (min discount effective) < 0
          then Inl (BusinessOSValidationError ''prices cannot be negative'')
          else
            let s = \<lparr>ps_id = next_id (map ps_id (price_snapshots m)), ps_tenant_id = tid, ps_reference_type = reference_type,
                     ps_reference_id = reference_id, ps_package_id = package_id, ps_retail = retail, ps_wholesale = wholesale,
                     ps_effective = effective, ps_discount = discount, ps_currency = or_default currency (default_currency m)\<rparr>
            in res_bind (record_event tid ''financial'' ''info'' ''price_snapshot.captured''
                 \<lparr>pa_actor_type = captured_by_type, pa_actor_id = captured_by_id, pa_target_type = reference_type,
                  pa_target_id = reference_id\<rparr> (m\<lparr>price_snapshots := price_snapshots m @ [s]\<rparr>))
               (\<lambda>m1. Inr (s, m1)))))))"

end
