(* ===== verification/WalletProperties.thy ===== *)
theory WalletProperties
  imports Wallets
begin

text \<open>
  Lemmas on \<open>Wallets\<close>: money printed and read back, what a change of a balance writes, and the books: every balance is the
  sum of its transactions and of its entries in the ledger.
\<close>

section \<open>Money in text\<close>

lemma last_two_digits: "c < 10 \<Longrightarrow> digits_of c = [char_of (48 + c)]"
  by (subst digits_of.simps) simp

lemma digit_char: "c < 10 \<Longrightarrow> is_digit (char_of (48 + c) :: char) \<and> digit_val (char_of (48 + c)) = c"
  by (simp add: is_digit_def digit_val_def)

lemma parse_decimal_cents:
  assumes "c < 100"
  shows "parse_decimal (digits_of n @ ''.'' @ digits_of (c div 10) @ digits_of (c mod 10)) = Some (of_nat n + of_nat c / 100)"
    and "parse_decimal (''-'' @ digits_of n @ ''.'' @ digits_of (c div 10) @ digits_of (c mod 10)) = Some (- (of_nat n + of_nat c / 100))"
proof -
  let ?f = "digits_of (c div 10) @ digits_of (c mod 10)"
  have f: "?f = [char_of (48 + c div 10), char_of (48 + c mod 10)]" using assms by (simp add: last_two_digits)
  have dig: "list_all is_digit ?f" using assms by (simp add: f digit_char)
  have val: "nat_of_digits ?f = c" using assms by (simp add: f nat_of_digits_def digit_char)
  have all: "\<forall>x \<in> set (digits_of n). is_digit x" using digits_of_digits by (simp add: list_all_iff)
  have dot: "\<not> is_digit (CHR ''.'')" by code_simp
  have split: "takeWhile is_digit (digits_of n @ ''.'' @ ?f) = digits_of n" "dropWhile is_digit (digits_of n @ ''.'' @ ?f) = CHR ''.'' # ?f"
    using all dot by (simp_all add: takeWhile_append2 dropWhile_append2)
  obtain h t where h: "digits_of n = h # t" by (cases "digits_of n") (use digits_of_nonempty in auto)
  have "is_digit h" using all h by simp
  then have hs: "h \<noteq> CHR ''-''" "h \<noteq> CHR ''+''" by (auto simp: is_digit_def code_def)
  have len: "length ?f = 2" by (simp add: f)
  have ne: "digits_of n @ ?f \<noteq> []" by simp
  have pos: "parse_decimal (digits_of n @ ''.'' @ ?f) = Some (1 * (of_nat (nat_of_digits (digits_of n)) + of_nat (nat_of_digits ?f) / 10 ^ length ?f))"
    using hs split dig ne by (simp add: parse_decimal_def h Let_def)
  have neg: "parse_decimal (''-'' @ digits_of n @ ''.'' @ ?f) = Some (-1 * (of_nat (nat_of_digits (digits_of n)) + of_nat (nat_of_digits ?f) / 10 ^ length ?f))"
    using split dig ne by (simp add: parse_decimal_def Let_def)
  show "parse_decimal (digits_of n @ ''.'' @ ?f) = Some (of_nat n + of_nat c / 100)"
    unfolding pos val len by simp
  show "parse_decimal (''-'' @ digits_of n @ ''.'' @ ?f) = Some (- (of_nat n + of_nat c / 100))"
    unfolding neg val len by simp
qed

lemma round_half_up_int [simp]: "round_half_up (of_int n) = n"
proof -
  have "\<lfloor>of_int i + 1 / 2 :: rat\<rfloor> = i" for i :: int by (simp add: floor_eq_iff)
  note half = this
  show ?thesis
  proof (cases "0 \<le> n")
    case True
    then show ?thesis using half [of n] by (simp add: round_half_up_def)
  next
    case False
    have "\<lfloor>- of_int n + 1 / 2 :: rat\<rfloor> = - n" using half [of "- n"] by (simp del: floor_add_int)
    then show ?thesis using False by (simp add: round_half_up_def)
  qed
qed

lemma money_to_minor_printed: "money_to_minor (minor_to_money n) = (if \<bar>n\<bar> < 10 ^ 28 then Inr n else Inl not_numeric)"
proof -
  define a where "a = nat \<bar>n\<bar>"
  have m: "minor_to_money n = (if n < 0 then ''-'' else []) @ digits_of (a div 100) @ ''.'' @ digits_of (a mod 100 div 10) @
      digits_of (a mod 100 mod 10)"
    by (simp add: minor_to_money_def a_def Let_def)
  have c: "a mod 100 < 100" by simp
  have q: "of_nat (a div 100) + of_nat (a mod 100) / 100 = (of_nat a / 100 :: rat)"
  proof -
    have "of_nat a = (of_nat (a div 100 * 100 + a mod 100) :: rat)" by simp
    then show ?thesis by (simp only: of_nat_add of_nat_mult) simp
  qed
  have nosp: "\<not> is_space x" if "x \<in> set (minor_to_money n)" for x
  proof -
    have "x \<in> set ''-.'' \<or> is_digit x"
      using that digits_of_digits by (auto simp: m list_all_iff split: if_splits)
    then show ?thesis by (auto simp: is_digit_def is_space_def code_def)
  qed
  then have "strip (minor_to_money n) = minor_to_money n" by (simp add: strip_no_space)
  moreover have "parse_decimal (minor_to_money n) = Some (of_int n / 100)"
  proof (cases "n < 0")
    case True
    then have "of_nat a = (- of_int n :: rat)" by (simp add: a_def)
    then show ?thesis using parse_decimal_cents(2) [OF c, of "a div 100"] True q
      by (simp add: m)
  next
    case False
    then have "of_nat a = (of_int n :: rat)" by (simp add: a_def)
    then show ?thesis using parse_decimal_cents(1) [OF c, of "a div 100"] False q
      by (simp add: m)
  qed
  ultimately show ?thesis by (simp add: money_to_minor_def Let_def)
qed

text \<open>C23. Money survives its text: an amount of at most 28 digits of minor units (a column of the database holds at most
  19), negative ones included, is read back from what \<open>minor_to_money\<close> prints as exactly itself.\<close>

theorem money_roundtrip: "\<bar>n\<bar> < 10 ^ 28 \<Longrightarrow> money_to_minor (minor_to_money n) = Inr n"
  by (simp add: money_to_minor_printed)

theorem money_roundtrip_witness: "minor_to_money (-105) = ''-1.05'' \<and> money_to_minor (minor_to_money (-105)) = Inr (-105)"
  using money_roundtrip [of "-105"] by code_simp

lemma positive_printed: "positive_minor (minor_to_money n) = Inr k \<longleftrightarrow> k = n \<and> 0 < n \<and> n < 10 ^ 28"
  by (auto simp: positive_minor_def money_to_minor_printed res_bind_Inr split: if_splits)

section \<open>A change of a balance\<close>

definition tx_effect :: "wallet_tx \<Rightarrow> int" where
  "tx_effect t = (if tx_type t = ''credit'' then tx_amount t else - tx_amount t)"

definition entry_effect :: "string \<Rightarrow> ledger_entry \<Rightarrow> int" where
  "entry_effect acct e = (if le_credit e = acct then le_amount e else 0) - (if le_debit e = acct then le_amount e else 0)"

text \<open>What a change of a balance writes: the balance, one transaction and one entry of the ledger, on this wallet only.\<close>

definition moved :: "int \<Rightarrow> int \<Rightarrow> wallet_tx \<Rightarrow> wallet \<Rightarrow> money_db \<Rightarrow> money_db \<Rightarrow> bool" where
  "moved tid wid t w m m' =
     (get_wallet tid wid m = Some w \<and> tx_type t \<in> {''credit'', ''debit''} \<and> 0 < tx_amount t \<and> tx_wallet_id t = wid \<and>
      tx_before t = w_balance w \<and> tx_after t = w_balance w + tx_effect t \<and> 0 \<le> tx_after t \<and>
      wallets m' = map (\<lambda>v. if w_tenant_id v = tid \<and> w_id v = wid then v\<lparr>w_balance := tx_after t\<rparr> else v) (wallets m) \<and>
      wallet_transactions m' = wallet_transactions m @ [t] \<and> default_currency m' = default_currency m \<and>
      (\<exists>e. ledger_entries m' = ledger_entries m @ [e] \<and> entry_effect (wallet_account wid) e = tx_effect t \<and>
         (\<forall>i. i \<noteq> wid \<longrightarrow> entry_effect (wallet_account i) e = 0)))"

lemma record_event_Inr: "record_event tid c sv k p m = Inr m' \<Longrightarrow> \<exists>es. m' = m\<lparr>business_events := es\<rparr>"
  by (auto simp: record_event_def split: if_splits)

lemma wallet_account_inject [simp]: "wallet_account i = wallet_account j \<longleftrightarrow> i = j" "wallet_account i \<noteq> ''cash''" "''cash'' \<noteq> wallet_account i"
  by (simp_all add: wallet_account_def)

lemma insert_entry_Inr:
  "insert_entry tid ty da ca amount cur p rt ri m = Inr (e, m') \<Longrightarrow>
     positive_minor amount = Inr (le_amount e) \<and> le_debit e = da \<and> le_credit e = ca \<and>
     m' = m\<lparr>ledger_entries := ledger_entries m @ [e]\<rparr>"
  by (auto simp: insert_entry_def res_bind_Inr Let_def split: if_splits)

lemma positive_minor_pos: "positive_minor amount = Inr n \<Longrightarrow> 0 < n"
  by (auto simp: positive_minor_def res_bind_Inr split: if_splits)

lemma wallet_entry_Inr:
  assumes "wallet_entry tid w amount kind memo t m = Inr (e, m')" "kind \<in> {''credit'', ''debit''}"
  shows "positive_minor amount = Inr (le_amount e) \<and> m' = m\<lparr>ledger_entries := ledger_entries m @ [e]\<rparr> \<and>
    (\<forall>i. entry_effect (wallet_account i) e =
       (if i = w_id w then if kind = ''credit'' then le_amount e else - le_amount e else 0))"
  using assms by (auto simp: wallet_entry_def Let_def entry_effect_def split: if_splits dest!: insert_entry_Inr)

lemma change_balance_moved:
  assumes "change_balance tid wid amount kind memo m = Inr (t, m')"
  shows "\<exists>w. moved tid wid t w m m' \<and> tx_type t = kind \<and> positive_minor amount = Inr (tx_amount t)"
proof -
  obtain n where n: "positive_minor amount = Inr n" "kind \<in> {''credit'', ''debit''}"
    using assms by (auto simp: change_balance_def res_bind_Inr split: if_splits)
  obtain w where w: "get_wallet tid wid m = Some w"
    using assms n by (auto simp: change_balance_def split: option.splits)
  then have wid: "w_id w = wid" using find_Some_first by (fastforce simp: get_wallet_def)
  have nn: "\<not> new_balance kind n w < 0" using assms n w by (auto simp: change_balance_def split: if_splits)
  obtain e m1 where e: "wallet_entry tid w amount kind memo (transaction_row tid w kind n memo m)
        (store_transaction (transaction_row tid w kind n memo m) m) = Inr (e, m1)"
    "record_event tid ''financial'' ''info'' (''wallet.'' @ kind) (wallet_party w memo) m1 = Inr m'" "t = transaction_row tid w kind n memo m"
    using assms n(1,2) w nn by (auto simp: change_balance_def Let_def res_bind_Inr)
  note le = wallet_entry_Inr [OF e(1) n(2)]
  obtain es where m': "m' = m1\<lparr>business_events := es\<rparr>" using record_event_Inr [OF e(2)] by blast
  have "0 < n" by (rule positive_minor_pos [OF n(1)])
  then have "moved tid wid t w m m'"
    using le n nn w wid
    by (auto simp: moved_def m' e(3) transaction_row_def store_transaction_def tx_effect_def new_balance_def)
  then show ?thesis using n(1) by (auto simp: e(3) transaction_row_def)
qed

section \<open>The books\<close>

definition wallet_sum :: "money_db \<Rightarrow> int \<Rightarrow> int" where
  "wallet_sum m wid = sum_list (map tx_effect (filter (\<lambda>t. tx_wallet_id t = wid) (wallet_transactions m)))"

definition account_sum :: "money_db \<Rightarrow> string \<Rightarrow> int" where
  "account_sum m acct = sum_list (map (entry_effect acct) (ledger_entries m))"

text \<open>Identifiers of wallets are a key; no balance is negative; the balance of a wallet is the sum of its transactions and
  the sum of the ledger on its account (a wallet that does not exist has none); and each transaction is right in itself.\<close>

definition balance_of :: "money_db \<Rightarrow> int \<Rightarrow> int" where
  "balance_of m wid = (case find (\<lambda>w. w_id w = wid) (wallets m) of None \<Rightarrow> 0 | Some w \<Rightarrow> w_balance w)"

definition books :: "money_db \<Rightarrow> bool" where
  "books m =
     (distinct (map w_id (wallets m)) \<and> (\<forall>w \<in> set (wallets m). 0 \<le> w_balance w) \<and>
      (\<forall>wid. wallet_sum m wid = balance_of m wid \<and> account_sum m (wallet_account wid) = balance_of m wid) \<and>
      (\<forall>t \<in> set (wallet_transactions m). 0 < tx_amount t \<and> 0 \<le> tx_before t \<and> 0 \<le> tx_after t \<and> tx_after t = tx_before t + tx_effect t))"

lemma find_wallet: "distinct (map w_id ws) \<Longrightarrow> w \<in> set ws \<Longrightarrow> find (\<lambda>v. w_id v = w_id w) ws = Some w"
  by (induction ws) (auto simp: rev_image_eqI)

lemma moved_balance:
  assumes "moved tid wid t w m m'" "books m"
  shows "balance_of m wid = w_balance w" and "balance_of m' i = (if i = wid then tx_after t else balance_of m i)"
proof -
  let ?f = "\<lambda>v. if w_tenant_id v = tid \<and> w_id v = wid then v\<lparr>w_balance := tx_after t\<rparr> else v"
  have w: "w \<in> set (wallets m)" "w_tenant_id w = tid" "w_id w = wid"
    using assms(1) find_Some_first [of _ "wallets m" w] by (auto simp: moved_def get_wallet_def)
  have d: "distinct (map w_id (wallets m))" using assms(2) by (simp add: books_def)
  have ws: "wallets m' = map ?f (wallets m)" using assms(1) by (simp add: moved_def)
  have fw: "find (\<lambda>v. w_id v = wid) (wallets m) = Some w" using find_wallet [OF d w(1)] w(3) by simp
  then show "balance_of m wid = w_balance w" by (simp add: balance_of_def)
  have "find (\<lambda>v. w_id v = i) (wallets m') = map_option ?f (find (\<lambda>v. w_id v = i) (wallets m))"
    unfolding ws by (rule find_map_preserving) simp
  moreover have "?f v = v" if "find (\<lambda>v. w_id v = i) (wallets m) = Some v" "i \<noteq> wid" for v
    using find_Some_first [OF that(1)] that(2) by auto
  ultimately show "balance_of m' i = (if i = wid then tx_after t else balance_of m i)"
    using w fw by (auto simp: balance_of_def split: option.splits)
qed

lemma books_moved:
  assumes "moved tid wid t w m m'" "books m"
  shows "books m'"
proof -
  have w: "w \<in> set (wallets m)" using assms(1) find_Some_first [of _ "wallets m" w] by (auto simp: moved_def get_wallet_def)
  note bal = moved_balance [OF assms]
  obtain e where e: "ledger_entries m' = ledger_entries m @ [e]" "entry_effect (wallet_account wid) e = tx_effect t"
    "\<forall>i. i \<noteq> wid \<longrightarrow> entry_effect (wallet_account i) e = 0"
    using assms(1) by (auto simp: moved_def)
  have t: "tx_after t = w_balance w + tx_effect t" "0 \<le> tx_after t" "tx_wallet_id t = wid" "0 < tx_amount t"
    "tx_before t = w_balance w" "wallet_transactions m' = wallet_transactions m @ [t]"
    and ws: "wallets m' = map (\<lambda>v. if w_tenant_id v = tid \<and> w_id v = wid then v\<lparr>w_balance := tx_after t\<rparr> else v) (wallets m)"
    using assms(1) by (auto simp: moved_def)
  have "wallet_sum m' i = balance_of m' i \<and> account_sum m' (wallet_account i) = balance_of m' i" for i
    using assms(2) e t bal by (auto simp: books_def wallet_sum_def account_sum_def)
  moreover have "map w_id (wallets m') = map w_id (wallets m)" by (simp add: ws)
  moreover have "\<forall>v \<in> set (wallets m'). 0 \<le> w_balance v" using assms(2) t(2) by (auto simp: ws books_def)
  moreover have "0 \<le> tx_before t" using assms(2) w by (simp add: books_def t(5))
  ultimately show ?thesis using t assms(2) by (auto simp: books_def)
qed

lemma books_same:
  "wallets m' = wallets m \<Longrightarrow> wallet_transactions m' = wallet_transactions m \<Longrightarrow> ledger_entries m' = ledger_entries m \<Longrightarrow> books m' = books m"
  by (simp add: books_def wallet_sum_def account_sum_def balance_of_def)

lemma change_balance_books: "change_balance tid wid amount kind memo m = Inr (t, m') \<Longrightarrow> books m \<Longrightarrow> books m'"
  using change_balance_moved books_moved by blast

lemma create_wallet_Inr:
  assumes "create_wallet tid ot oi cur m = Inr (w, m')"
  shows "wallets m' = wallets m @ [w] \<and> w_id w = next_id (map w_id (wallets m)) \<and> w_balance w = 0 \<and> w_tenant_id w = tid \<and>
    w_owner_type w = strip ot \<and> w_owner_id w = oi \<and>
    wallet_transactions m' = wallet_transactions m \<and> ledger_entries m' = ledger_entries m \<and> default_currency m' = default_currency m"
  using assms by (auto simp: create_wallet_def Let_def res_bind_Inr split: if_splits dest!: record_event_Inr)

lemma create_wallet_books:
  assumes "create_wallet tid ot oi cur m = Inr (w, m')" "books m"
  shows "books m'"
proof -
  note c = create_wallet_Inr [OF assms(1)]
  have "w_id w \<notin> set (map w_id (wallets m))" using c next_id_fresh [of "w_id w" "map w_id (wallets m)"] by (metis less_irrefl)
  then have fresh: "w_id w \<notin> w_id ` set (wallets m)" by simp
  then have none: "find (\<lambda>v. w_id v = w_id w) (wallets m) = None" by (auto simp: find_None_iff image_iff)
  have f: "find P (xs @ [w]) = (case find P xs of None \<Rightarrow> if P w then Some w else None | Some v \<Rightarrow> Some v)" for P xs
    by (induction xs) auto
  have "balance_of m' i = balance_of m i" for i
    using c none by (auto simp: balance_of_def f split: option.splits)
  then show ?thesis using assms(2) c fresh by (auto simp: books_def wallet_sum_def account_sum_def)
qed

section \<open>When a change succeeds\<close>

lemma wallet_account_strip [simp]: "strip (wallet_account i) = wallet_account i"
proof -
  have "list_all (\<lambda>x. \<not> is_space x) (str_of_int i)" 
  proof -
    have "\<not> is_space x" if "is_digit x" for x using that by (auto simp: is_digit_def is_space_def code_def)
    then have "list_all (\<lambda>x. \<not> is_space x) (digits_of n)" for n using digits_of_digits [of n] by (auto simp: list_all_iff)
    then show ?thesis by (auto simp: str_of_int_def is_space_def code_def)
  qed
  moreover have "list_all (\<lambda>x. \<not> is_space x) ''wallet:''" by code_simp
  ultimately show ?thesis by (intro strip_no_space) (auto simp: wallet_account_def list_all_iff)
qed

lemma change_balance_ok:
  assumes "positive_minor amount = Inr n" "kind \<in> {''credit'', ''debit''}" "get_wallet tid wid m = Some w" "0 \<le> new_balance kind n w"
  shows "\<exists>t m'. change_balance tid wid amount kind memo m = Inr (t, m')"
proof -
  have k: "strip ''cash'' = ''cash''" "strip ''wallet_recharge'' \<in> set LEDGER_TYPES" "strip ''correction'' \<in> set LEDGER_TYPES"
    by code_simp+
  have "\<exists>m2. record_event tid ''financial'' ''info'' (''wallet.'' @ kind) p m1 = Inr m2" for p m1
  proof -
    have "strip ''financial'' \<in> set EVENT_CATEGORIES" "strip (or_default ''info'' ''info'') \<in> set EVENT_SEVERITIES"
      "strip ''wallet.credit'' \<noteq> []" "strip ''wallet.debit'' \<noteq> []"
      by code_simp+
    then show ?thesis using assms(2) by (auto simp: record_event_def)
  qed
  moreover have "\<exists>e m1. wallet_entry tid w amount kind memo t m0 = Inr (e, m1)" for t m0
    using assms(1,2) k by (auto simp: wallet_entry_def insert_entry_def Let_def wallet_account_def [symmetric] res_bind_def)
      (auto simp: wallet_account_def)
  ultimately obtain e m1 m2 where
    "wallet_entry tid w amount kind memo (transaction_row tid w kind n memo m) (store_transaction (transaction_row tid w kind n memo m) m) =
       Inr (e, m1)"
    "record_event tid ''financial'' ''info'' (''wallet.'' @ kind) (wallet_party w memo) m1 = Inr m2"
    by meson
  then show ?thesis using assms by (simp add: change_balance_def Let_def)
qed

end
