(* ===== verification/ManagerCredit.thy ===== *)
theory ManagerCredit
  imports Wallets
begin

text \<open>
  \<open>app/radius/services/manager_credit.py\<close>, the gate every spending of a manager goes through, and the part of
  \<open>app/radius/db/repos/admins_repo.py\<close> that says who the owner is. A cost is paid from the manager's wallet first and the
  rest is booked as debt within his cap. Outside a transaction every statement commits on its own, so an operation
  returns the state it left behind also when it raises.
\<close>

section \<open>Managers and owners\<close>

record admin =
  am_id :: int
  am_username :: string
  am_email :: string
  am_enabled :: bool
  am_deleted :: bool
  am_co_owner :: bool
  am_debt_cap_enabled :: bool
  am_debt_cap :: int
  am_loan_cap_enabled :: bool
  am_loan_cap :: int

record credit_entry =
  ce_id :: int
  ce_tenant_id :: int
  ce_manager_id :: int
  ce_kind :: string
  ce_amount :: int
  ce_currency :: string
  ce_reference_type :: string
  ce_reference_id :: "int option"
  ce_actor :: string
  ce_super_override :: bool
  ce_notes :: string

text \<open>\<open>cs_owner_keys\<close> is the list under \<open>bridge.owner_admins\<close> in the settings.\<close>

record credit_state =
  cs_money :: money_db
  cs_ledger :: "credit_entry list"
  cs_admins :: "admin list"
  cs_owner_keys :: "string list option"

definition primary_admin_id :: "credit_state \<Rightarrow> int option" where
  "primary_admin_id s =
     (case map am_id (filter (\<lambda>a. \<not> am_deleted a) (cs_admins s)) of [] \<Rightarrow> None | i # ids \<Rightarrow> Some (foldl min i ids))"

fun clean_owner_keys :: "string list \<Rightarrow> string list \<Rightarrow> string list" where
  "clean_owner_keys seen [] = []"
| "clean_owner_keys seen (raw # keys) =
     (let key = strip raw in
      if key = [] \<or> lower key \<in> set seen then clean_owner_keys seen keys
      else key # clean_owner_keys (lower key # seen) keys)"

definition set_designated_owners :: "string list \<Rightarrow> credit_state \<Rightarrow> string list \<times> credit_state" where
  "set_designated_owners keys s =
     (let cleaned = clean_owner_keys [] keys in (cleaned, s\<lparr>cs_owner_keys := Some cleaned\<rparr>))"

definition clear_designated_owners :: "credit_state \<Rightarrow> credit_state" where
  "clear_designated_owners s = s\<lparr>cs_owner_keys := None\<rparr>"

definition designated_owner_keys :: "credit_state \<Rightarrow> string list option" where
  "designated_owner_keys s =
     (case cs_owner_keys s of
        None \<Rightarrow> None
      | Some ks \<Rightarrow>
          (let keys = map (\<lambda>k. lower (strip k)) (filter (\<lambda>k. strip k \<noteq> []) ks) in if keys = [] then None else Some keys))"

definition get_admin :: "credit_state \<Rightarrow> int \<Rightarrow> admin option" where
  "get_admin s i = find (\<lambda>a. am_id a = i \<and> \<not> am_deleted a) (cs_admins s)"

definition matches_owner_keys :: "admin \<Rightarrow> string list \<Rightarrow> bool" where
  "matches_owner_keys a keys =
     ((am_username a \<noteq> [] \<and> lower (strip (am_username a)) \<in> set keys) \<or>
      (am_email a \<noteq> [] \<and> lower (strip (am_email a)) \<in> set keys))"

definition is_original_owner :: "credit_state \<Rightarrow> int \<Rightarrow> bool" where
  "is_original_owner s i =
     (i \<noteq> 0 \<and>
      (case designated_owner_keys s of
         Some keys \<Rightarrow> (case get_admin s i of None \<Rightarrow> False | Some a \<Rightarrow> matches_owner_keys a keys)
       | None \<Rightarrow> primary_admin_id s = Some i))"

definition is_co_owner :: "credit_state \<Rightarrow> int \<Rightarrow> bool" where
  "is_co_owner s i =
     (i \<noteq> 0 \<and> (case get_admin s i of None \<Rightarrow> False | Some a \<Rightarrow> am_enabled a \<and> am_co_owner a))"

definition is_primary_owner :: "credit_state \<Rightarrow> int \<Rightarrow> bool" where
  "is_primary_owner s i = (i \<noteq> 0 \<and> (is_co_owner s i \<or> is_original_owner s i))"

definition is_uncapped :: "credit_state \<Rightarrow> int \<Rightarrow> bool" where
  "is_uncapped s i = (i \<noteq> 0 \<and> is_primary_owner s i)"

record caps =
  cp_debt_enabled :: bool
  cp_debt :: int
  cp_loan_enabled :: bool
  cp_loan :: int

definition get_caps :: "credit_state \<Rightarrow> int \<Rightarrow> caps" where
  "get_caps s i =
     (case (if i = 0 then None else get_admin s i) of
        None \<Rightarrow> \<lparr>cp_debt_enabled = False, cp_debt = 0, cp_loan_enabled = False, cp_loan = 0\<rparr>
      | Some a \<Rightarrow> \<lparr>cp_debt_enabled = am_debt_cap_enabled a, cp_debt = am_debt_cap a, cp_loan_enabled = am_loan_cap_enabled a,
                  cp_loan = am_loan_cap a\<rparr>)"

section \<open>The wallet and the credit ledger of a manager\<close>

type_synonym 'a credit_op = "credit_state \<Rightarrow> (money_error + 'a) \<times> credit_state"

definition transactional :: "(money_db \<Rightarrow> money_error + 'a \<times> money_db) \<Rightarrow> 'a credit_op" where
  "transactional f s =
     (case f (cs_money s) of Inl e \<Rightarrow> (Inl e, s) | Inr (x, m) \<Rightarrow> (Inr x, s\<lparr>cs_money := m\<rparr>))"

definition owner_number :: "wallet \<Rightarrow> int" where
  "owner_number w = (case w_owner_id w of None \<Rightarrow> 0 | Some i \<Rightarrow> i)"

definition manager_wallet :: "int \<Rightarrow> int \<Rightarrow> wallet credit_op" where
  "manager_wallet tid mid s =
     (case find (\<lambda>w. owner_number w = mid) (list_wallets tid ''manager'' 500 (cs_money s)) of
        Some w \<Rightarrow> (Inr w, s)
      | None \<Rightarrow> transactional (create_wallet tid ''manager'' (Some mid) []) s)"

definition KIND_DEBT :: string where "KIND_DEBT = ''debt''"
definition KIND_DEBT_SETTLE :: string where "KIND_DEBT_SETTLE = ''debt_settle''"
definition KIND_ADVANCE :: string where "KIND_ADVANCE = ''advance''"
definition KIND_ADVANCE_SETTLE :: string where "KIND_ADVANCE_SETTLE = ''advance_settle''"

definition ledger_sum :: "int \<Rightarrow> int \<Rightarrow> string \<Rightarrow> string \<Rightarrow> credit_state \<Rightarrow> int" where
  "ledger_sum tid mid plus_kind minus_kind s =
     max 0 (sum_list (map (\<lambda>c. if ce_kind c = plus_kind then ce_amount c else if ce_kind c = minus_kind then - ce_amount c else 0)
       (filter (\<lambda>c. ce_tenant_id c = tid \<and> ce_manager_id c = mid) (cs_ledger s))))"

definition current_debt :: "int \<Rightarrow> int \<Rightarrow> credit_state \<Rightarrow> int" where
  "current_debt tid mid s = ledger_sum tid mid KIND_DEBT KIND_DEBT_SETTLE s"

definition current_advances :: "int \<Rightarrow> int \<Rightarrow> credit_state \<Rightarrow> int" where
  "current_advances tid mid s = ledger_sum tid mid KIND_ADVANCE KIND_ADVANCE_SETTLE s"

text \<open>Who did it and why: the columns of an entry that no decision reads.\<close>

record remark =
  rk_reference_type :: string
  rk_reference_id :: "int option"
  rk_actor :: string
  rk_notes :: string
  rk_currency :: string

definition record_credit :: "int \<Rightarrow> int \<Rightarrow> string \<Rightarrow> int \<Rightarrow> bool \<Rightarrow> remark \<Rightarrow> credit_state \<Rightarrow> credit_state" where
  "record_credit tid mid kind amount super_override r s =
     s\<lparr>cs_ledger := cs_ledger s @
       [\<lparr>ce_id = next_id (map ce_id (cs_ledger s)), ce_tenant_id = tid, ce_manager_id = mid, ce_kind = kind, ce_amount = amount,
         ce_currency = or_default (rk_currency r) (default_currency (cs_money s)), ce_reference_type = rk_reference_type r,
         ce_reference_id = rk_reference_id r, ce_actor = rk_actor r, ce_super_override = super_override,
         ce_notes = rk_notes r\<rparr>]\<rparr>"

text \<open>What stands in for an empty reference and an empty note; a translated text stands under its name.\<close>

definition referred_as :: "string \<Rightarrow> remark \<Rightarrow> remark" where
  "referred_as reference r = r\<lparr>rk_reference_type := or_default (rk_reference_type r) reference\<rparr>"

definition noted_as :: "string \<Rightarrow> remark \<Rightarrow> remark" where
  "noted_as note r = r\<lparr>rk_notes := or_default (rk_notes r) note\<rparr>"

definition settle_debt :: "int \<Rightarrow> int \<Rightarrow> int \<Rightarrow> remark \<Rightarrow> credit_state \<Rightarrow> int \<times> credit_state" where
  "settle_debt tid mid amount r s =
     (let settled = min amount (current_debt tid mid s) in
      if amount \<le> 0 \<or> settled \<le> 0 then (0, s)
      else (settled, record_credit tid mid KIND_DEBT_SETTLE settled False (noted_as ''debt_paid_by_recharge'' (referred_as ''debt_settle'' r)) s))"

definition record_debt :: "int \<Rightarrow> int \<Rightarrow> int \<Rightarrow> bool \<Rightarrow> remark \<Rightarrow> credit_state \<Rightarrow> int \<times> credit_state" where
  "record_debt tid mid amount super_override r s =
     (if amount \<le> 0 then (0, s)
      else (amount, record_credit tid mid KIND_DEBT amount super_override (noted_as ''credit_on_account'' (referred_as ''on_account_credit'' r)) s))"

section \<open>The gate\<close>

record spend_decision =
  sd_ok :: bool
  sd_mode :: string
  sd_wallet_deduct :: int
  sd_debt :: int
  sd_advance :: int
  sd_cost :: int
  sd_shortfall :: int
  sd_message :: string
  sd_super_can_override :: bool
  sd_detail :: "string list"

definition spend :: "bool \<Rightarrow> string \<Rightarrow> int \<Rightarrow> int \<Rightarrow> int \<Rightarrow> int \<Rightarrow> spend_decision" where
  "spend ok mode deduct debt cost shortfall =
     \<lparr>sd_ok = ok, sd_mode = mode, sd_wallet_deduct = deduct, sd_debt = debt, sd_advance = 0, sd_cost = cost,
      sd_shortfall = shortfall, sd_message = [], sd_super_can_override = False, sd_detail = []\<rparr>"

definition NO_BALANCE :: string where "NO_BALANCE = ''no_balance''"
definition NO_BALANCE_OWN :: string where "NO_BALANCE_OWN = ''no_balance_own''"
definition LOAN_EXCEEDED :: string where "LOAN_EXCEEDED = ''loan_exceeded''"

text \<open>How a cost above the balance is funded.\<close>

definition fund_shortfall :: "int \<Rightarrow> int \<Rightarrow> int \<Rightarrow> int \<Rightarrow> credit_state \<Rightarrow> spend_decision" where
  "fund_shortfall tid mid cost balance s =
     (let shortfall = cost - balance; caps = get_caps s mid in
      if is_uncapped s mid then (spend True ''debt'' balance shortfall cost shortfall)\<lparr>sd_detail := [''uncapped'']\<rparr>
      else if cp_debt_enabled caps \<and> current_debt tid mid s + shortfall \<le> cp_debt caps
      then spend True ''debt'' balance shortfall cost shortfall
      else (spend False ''blocked'' 0 0 cost shortfall)\<lparr>sd_message := NO_BALANCE, sd_super_can_override := True\<rparr>)"

definition evaluate_spend :: "int \<Rightarrow> int \<Rightarrow> int \<Rightarrow> spend_decision credit_op" where
  "evaluate_spend tid mid cost =
     (if cost \<le> 0 then io_return (spend True ''wallet'' 0 0 0 0)
      else
        io_bind (manager_wallet tid mid) (\<lambda>w s.
          (Inr (if w_balance w \<ge> cost then spend True ''wallet'' cost 0 cost 0 else fund_shortfall tid mid cost (w_balance w) s), s)))"

definition evaluate_advance :: "int \<Rightarrow> int \<Rightarrow> int \<Rightarrow> spend_decision credit_op" where
  "evaluate_advance tid mid advance0 =
     (let advance = max 0 advance0 in
      io_bind (evaluate_spend tid mid advance) (\<lambda>funding s.
        (Inr (if \<not> sd_ok funding then funding
              else
                let caps = get_caps s mid in
                if \<not> is_uncapped s mid \<and> (\<not> cp_loan_enabled caps \<or> current_advances tid mid s + advance > cp_loan caps)
                then (spend False ''blocked'' 0 0 advance 0)\<lparr>sd_advance := advance, sd_message := LOAN_EXCEEDED\<rparr>
                else funding\<lparr>sd_advance := advance\<rparr>), s)))"

section \<open>Committing and reversing\<close>

record charge_result =
  ch_mode :: string
  ch_cost :: int
  ch_wallet_deducted :: int
  ch_debt_recorded :: int
  ch_advance_recorded :: int
  ch_super_override :: bool
  ch_wallet_id :: int
  ch_wallet_tx_id :: "int option"

text \<open>A part of nothing is not recorded.\<close>

definition record_part :: "int \<Rightarrow> int \<Rightarrow> string \<Rightarrow> int \<Rightarrow> bool \<Rightarrow> remark \<Rightarrow> credit_state \<Rightarrow> credit_state" where
  "record_part tid mid kind amount super_override r s =
     (if amount > 0 then record_credit tid mid kind amount super_override r s else s)"

definition commit_memo :: "int \<Rightarrow> string \<Rightarrow> remark \<Rightarrow> memo" where
  "commit_memo mid kind r =
     \<lparr>mm_reference_type = or_default (rk_reference_type r) (kind @ ''_charge''), mm_reference_id = rk_reference_id r,
      mm_actor_type = ''manager'', mm_actor_id = Some mid, mm_notes = rk_notes r\<rparr>"

definition commit_spend :: "int \<Rightarrow> int \<Rightarrow> spend_decision \<Rightarrow> string \<Rightarrow> bool \<Rightarrow> remark \<Rightarrow> charge_result credit_op" where
  "commit_spend tid mid dec kind super_override r =
     io_bind (manager_wallet tid mid) (\<lambda>w.
     io_bind (if sd_wallet_deduct dec > 0
              then io_bind (transactional (debit tid (w_id w) (minor_to_money (sd_wallet_deduct dec)) (commit_memo mid kind r)))
                     (\<lambda>t. io_return (Some (tx_id t)))
              else io_return None) (\<lambda>tx s.
       let s1 = record_part tid mid KIND_DEBT (sd_debt dec) super_override (referred_as (kind @ ''_debt'') r) s;
           s2 = record_part tid mid KIND_ADVANCE (sd_advance dec) super_override (referred_as ''advance'' r) s1
       in (Inr \<lparr>ch_mode = sd_mode dec, ch_cost = sd_cost dec, ch_wallet_deducted = max 0 (sd_wallet_deduct dec),
                ch_debt_recorded = max 0 (sd_debt dec), ch_advance_recorded = max 0 (sd_advance dec),
                ch_super_override = super_override, ch_wallet_id = w_id w,
                ch_wallet_tx_id = (case tx of None \<Rightarrow> None | Some i \<Rightarrow> if i = 0 then None else Some i)\<rparr>, s2)))"

definition reversal_memo :: "int \<Rightarrow> remark \<Rightarrow> memo" where
  "reversal_memo mid r =
     \<lparr>mm_reference_type = or_default (rk_reference_type r) ''credit_reversal'', mm_reference_id = rk_reference_id r,
      mm_actor_type = ''manager'', mm_actor_id = Some mid, mm_notes = or_default (rk_notes r) ''returned''\<rparr>"

definition reverse_charge :: "int \<Rightarrow> int \<Rightarrow> charge_result \<Rightarrow> remark \<Rightarrow> unit credit_op" where
  "reverse_charge tid mid c r =
     io_bind (if ch_wallet_deducted c > 0
              then io_bind (manager_wallet tid mid) (\<lambda>w.
                     io_bind (transactional (credit tid (w_id w) (minor_to_money (ch_wallet_deducted c)) (reversal_memo mid r)))
                       (\<lambda>_. io_return ()))
              else io_return ()) (\<lambda>_ s.
       let s1 = record_part tid mid KIND_DEBT_SETTLE (ch_debt_recorded c) False
                  (noted_as ''debt_returned'' ((referred_as ''debt_reversal'' r)\<lparr>rk_currency := []\<rparr>)) s;
           s2 = record_part tid mid KIND_ADVANCE_SETTLE (ch_advance_recorded c) False
                  (noted_as ''advance_returned'' ((referred_as ''advance_reversal'' r)\<lparr>rk_currency := []\<rparr>)) s1
       in (Inr (), s2))"

section \<open>What routes and services call\<close>

definition charge :: "int \<Rightarrow> int \<Rightarrow> int \<Rightarrow> string \<Rightarrow> bool \<Rightarrow> remark \<Rightarrow> charge_result credit_op" where
  "charge tid mid cost kind own r =
     io_bind (if kind = KIND_ADVANCE then evaluate_advance tid mid cost else evaluate_spend tid mid cost) (\<lambda>dec.
       if \<not> sd_ok dec then
         let msg = or_default (sd_message dec) NO_BALANCE
         in io_raise (ManagerCreditError (if own \<and> msg = NO_BALANCE then NO_BALANCE_OWN else msg))
       else commit_spend tid mid dec kind False r)"

definition plan_package :: "int \<Rightarrow> int \<Rightarrow> int \<Rightarrow> bool \<Rightarrow> bool \<Rightarrow> bool \<Rightarrow> spend_decision credit_op" where
  "plan_package tid mid cost0 actor_is_super allow_super_debt own =
     (let cost = max 0 cost0 in
      io_bind (evaluate_spend tid mid cost) (\<lambda>dec.
        if sd_ok dec then io_return dec
        else if \<not> actor_is_super then io_raise (ManagerCreditError (if own then NO_BALANCE_OWN else NO_BALANCE))
        else
          io_bind (manager_wallet tid mid) (\<lambda>w s.
            if \<not> allow_super_debt then
              let caps = get_caps s mid; debt = current_debt tid mid s in
              (Inl (ManagerCreditConfirmRequired (sd_shortfall dec) (if cp_debt_enabled caps then cp_debt caps else 0) debt
                 (w_balance w - cost - debt) (cp_debt_enabled caps \<and> debt + sd_shortfall dec > cp_debt caps)), s)
            else
              let deduct = min (w_balance w) cost in
              (Inr ((spend True (if cost - deduct > 0 then ''debt'' else ''wallet'') deduct (cost - deduct) cost 0)
                 \<lparr>sd_detail := [''super_override'']\<rparr>), s))))"

text \<open>The message shown when the spending is refused; no message means it was booked or is free.\<close>

definition enforce_manager_spend ::
    "int \<Rightarrow> int option \<Rightarrow> bool \<Rightarrow> string \<Rightarrow> string \<Rightarrow> remark \<Rightarrow> string option credit_op" where
  "enforce_manager_spend tid manager is_super cost_money kind r s =
     (let mid = (case manager of None \<Rightarrow> 0 | Some i \<Rightarrow> i) in
      if is_super \<or> is_uncapped s mid then (Inr None, s)
      else
        (case money_to_minor cost_money of
           Inl e \<Rightarrow> (Inl e, s)
         | Inr cost \<Rightarrow>
             if cost \<le> 0 then (Inr None, s)
             else
               (case charge tid mid cost kind True r s of
                  (Inl (ManagerCreditError msg), s1) \<Rightarrow> (Inr (Some msg), s1)
                | (Inl e, s1) \<Rightarrow> (Inl e, s1)
                | (Inr _, s1) \<Rightarrow> (Inr None, s1))))"

end
