(* ===== verification/CreditProperties.thy ===== *)
theory CreditProperties
  imports WalletProperties ManagerCredit "HOL-Library.Sublist"
begin

text \<open>
  Lemmas and properties of the managers' credit: the books stay balanced whatever operations run in whatever order, a
  charge takes the wallet first and then debt within the cap, a refused charge books nothing, a reversal makes the manager
  whole.
\<close>

section \<open>Operations that keep the books\<close>

text \<open>Rows of the journals are only appended.\<close>

definition grows :: "credit_state \<Rightarrow> credit_state \<Rightarrow> bool" where
  "grows s s' =
     (prefix (wallet_transactions (cs_money s)) (wallet_transactions (cs_money s')) \<and>
      prefix (ledger_entries (cs_money s)) (ledger_entries (cs_money s')) \<and> prefix (cs_ledger s) (cs_ledger s'))"

definition booked :: "credit_state \<Rightarrow> credit_state \<Rightarrow> bool" where
  "booked s s' = ((books (cs_money s) \<longrightarrow> books (cs_money s')) \<and> grows s s')"

definition bookkeeping :: "'a credit_op \<Rightarrow> bool" where
  "bookkeeping f = (\<forall>s. booked s (snd (f s)))"

named_theorems keeping

lemma booked_refl [simp]: "booked s s"
  by (simp add: booked_def grows_def)

lemma booked_trans: "booked s t \<Longrightarrow> booked t u \<Longrightarrow> booked s u"
  by (auto simp: booked_def grows_def elim: prefix_order.trans)

lemma bookkeeping_bind [keeping]: "bookkeeping f \<Longrightarrow> (\<And>x. bookkeeping (g x)) \<Longrightarrow> bookkeeping (io_bind f g)"
proof -
  assume f: "bookkeeping f" and g: "\<And>x. bookkeeping (g x)"
  have "booked s (snd (io_bind f g s))" for s
  proof -
    obtain r s1 where r: "f s = (r, s1)" by (cases "f s")
    then have "booked s s1" using f by (metis bookkeeping_def snd_conv)
    moreover have "booked s1 (snd (g x s1))" for x using g by (simp add: bookkeeping_def)
    ultimately show ?thesis using r by (cases r) (auto simp: io_bind_def intro: booked_trans)
  qed
  then show "bookkeeping (io_bind f g)" by (simp add: bookkeeping_def)
qed

lemma bookkeeping_return [keeping]: "bookkeeping (io_return x)" "bookkeeping (io_raise e)" "bookkeeping (Pair r)"
  by (simp_all add: bookkeeping_def io_return_def io_raise_def)

lemma bookkeeping_read [keeping]: "bookkeeping (\<lambda>s. (f s, s))"
  by (simp add: bookkeeping_def)

lemma bookkeeping_if [keeping]: "bookkeeping f \<Longrightarrow> bookkeeping g \<Longrightarrow> bookkeeping (if b then f else g)"
  by simp

lemma bookkeeping_transaction:
  assumes "\<And>m x m'. f m = Inr (x, m') \<Longrightarrow>
    (books m \<longrightarrow> books m') \<and> prefix (wallet_transactions m) (wallet_transactions m') \<and> prefix (ledger_entries m) (ledger_entries m')"
  shows "bookkeeping (transactional f)"
  using assms by (auto simp: bookkeeping_def booked_def grows_def transactional_def split: sum.split)

lemma create_wallet_keeping [keeping]: "bookkeeping (transactional (create_wallet tid ot oi cur))"
proof (rule bookkeeping_transaction)
  fix m w m' assume c: "create_wallet tid ot oi cur m = Inr (w, m')"
  show "(books m \<longrightarrow> books m') \<and> prefix (wallet_transactions m) (wallet_transactions m') \<and>
      prefix (ledger_entries m) (ledger_entries m')"
    using create_wallet_books [OF c] create_wallet_Inr [OF c] by simp
qed

lemma change_balance_keeping [keeping]: "bookkeeping (transactional (change_balance tid wid amount kind memo))"
proof (rule bookkeeping_transaction)
  fix m t m' assume c: "change_balance tid wid amount kind memo m = Inr (t, m')"
  then obtain w where "moved tid wid t w m m'" using change_balance_moved by blast
  then show "(books m \<longrightarrow> books m') \<and> prefix (wallet_transactions m) (wallet_transactions m') \<and>
      prefix (ledger_entries m) (ledger_entries m')"
    using c change_balance_books by (auto simp: moved_def)
qed

lemma credit_debit_keeping [keeping]:
  "bookkeeping (transactional (credit tid wid amount memo))" "bookkeeping (transactional (debit tid wid amount memo))"
  using change_balance_keeping by (simp_all add: credit_def [abs_def] debit_def [abs_def])

lemma capture_snapshot_Inr:
  assumes "capture_snapshot tid rt ri pk rp wp ep da cur ct ci m = Inr (x, m')"
  shows "\<exists>ss es. m' = m\<lparr>price_snapshots := ss, business_events := es\<rparr>"
proof -
  obtain ss p where "record_event tid ''financial'' ''info'' ''price_snapshot.captured'' p (m\<lparr>price_snapshots := ss\<rparr>) = Inr m'"
    using assms by (simp add: capture_snapshot_def Let_def res_bind_Inr del: min_less_iff_disj split: if_split_asm) blast
  then show ?thesis using record_event_Inr by blast
qed

lemma capture_snapshot_keeping [keeping]: "bookkeeping (transactional (capture_snapshot tid rt ri pk rp wp ep da cur ct ci))"
proof (rule bookkeeping_transaction)
  fix m x m' assume "capture_snapshot tid rt ri pk rp wp ep da cur ct ci m = Inr (x, m')"
  from capture_snapshot_Inr [OF this] obtain ss es where "m' = m\<lparr>price_snapshots := ss, business_events := es\<rparr>" by blast
  then show "(books m \<longrightarrow> books m') \<and> prefix (wallet_transactions m) (wallet_transactions m') \<and>
      prefix (ledger_entries m) (ledger_entries m')"
    using books_same [of m' m] by simp
qed

text \<open>An entry written by hand keeps the books when it stays off the accounts of the wallets.\<close>

lemma write_entry_keeping:
  assumes "\<And>i. da \<noteq> wallet_account i" "\<And>i. ca \<noteq> wallet_account i"
  shows "bookkeeping (transactional (write_entry tid ty da ca amount cur p rt ri ev))"
proof (rule bookkeeping_transaction)
  fix m x m' assume "write_entry tid ty da ca amount cur p rt ri ev m = Inr (x, m')"
  then have e: "le_debit x = da" "le_credit x = ca" "wallets m' = wallets m" "wallet_transactions m' = wallet_transactions m"
      "ledger_entries m' = ledger_entries m @ [x]"
    by (auto simp: write_entry_def res_bind_Inr split: if_splits dest!: insert_entry_Inr record_event_Inr)
  have z: "entry_effect (wallet_account i) x = 0" for i
    using assms e(1,2) by (simp add: entry_effect_def)
  then show "(books m \<longrightarrow> books m') \<and> prefix (wallet_transactions m) (wallet_transactions m') \<and>
      prefix (ledger_entries m) (ledger_entries m')"
    using z e by (auto simp: books_def wallet_sum_def account_sum_def balance_of_def)
qed

lemma record_credit_booked [simp]: "booked s (record_credit tid mid k a ov r s)"
  by (simp add: booked_def grows_def record_credit_def)

lemma manager_wallet_keeping [keeping]: "bookkeeping (manager_wallet tid mid)"
  using create_wallet_keeping by (auto simp: bookkeeping_def manager_wallet_def split: option.split)

lemma evaluate_keeping [keeping]:
  "bookkeeping (evaluate_spend tid mid cost)" "bookkeeping (evaluate_advance tid mid cost)"
  unfolding evaluate_spend_def [abs_def] evaluate_advance_def [abs_def] Let_def
  by (simp_all add: evaluate_spend_def keeping)

lemma bookkeeping_writes: "(\<And>s. booked s (f s)) \<Longrightarrow> bookkeeping (\<lambda>s. (g s, f s))"
  by (simp add: bookkeeping_def)

lemma booked_part: "booked s t \<Longrightarrow> booked s (record_part tid mid k a ov r t)"
  by (auto simp: record_part_def intro: booked_trans)

lemma commit_keeping [keeping]: "bookkeeping (commit_spend tid mid dec kind ov r)"
  unfolding commit_spend_def Let_def
  by (intro bookkeeping_bind bookkeeping_if bookkeeping_writes booked_part) (simp_all add: keeping)

lemma reverse_keeping [keeping]: "bookkeeping (reverse_charge tid mid c r)"
  unfolding reverse_charge_def Let_def
  by (intro bookkeeping_bind bookkeeping_if bookkeeping_writes booked_part) (simp_all add: keeping)

lemma charge_keeping [keeping]: "bookkeeping (charge tid mid cost kind own r)"
  unfolding charge_def Let_def by (intro bookkeeping_bind bookkeeping_if) (simp_all add: keeping)

lemma bookkeeping_choice [keeping]: "bookkeeping (\<lambda>s. if b then (f s, s) else (g s, s))"
  by (simp add: bookkeeping_def)

lemma plan_keeping [keeping]: "bookkeeping (plan_package tid mid cost super allow own)"
  unfolding plan_package_def Let_def by (intro bookkeeping_bind bookkeeping_if) (simp_all add: keeping)

lemma enforce_keeping [keeping]: "bookkeeping (enforce_manager_spend tid mid super cost kind r)"
proof -
  have "booked s (snd (charge tid i n kind True r s))" for i n s using charge_keeping by (simp add: bookkeeping_def)
  note c = this
  have "booked s s1" if "charge tid i n kind True r s = (x, s1)" for i n s x s1 using c [of s i n] that by simp
  then show ?thesis
    by (auto simp: bookkeeping_def enforce_manager_spend_def Let_def split: sum.split prod.split money_error.split)
qed

lemma settle_booked: "booked s (snd (settle_debt tid mid amount r s))" "booked s (snd (record_debt tid mid amount ov r s))"
  by (simp_all add: settle_debt_def record_debt_def Let_def)

section \<open>Every run\<close>

text \<open>The requests that move money, one rule each, with any arguments. A charge is evaluated and committed in two steps, so
  \<open>commit\<close> takes any decision, the stale ones included, and \<open>reverse\<close> any result. An entry written by hand stays off
  the accounts of the wallets.\<close>

inductive money_step :: "credit_state \<Rightarrow> credit_state \<Rightarrow> bool" where
  create: "transactional (create_wallet tid ot oi cur) s = (x, s') \<Longrightarrow> money_step s s'"
| credited: "transactional (credit tid wid amount memo) s = (x, s') \<Longrightarrow> money_step s s'"
| debited: "transactional (debit tid wid amount memo) s = (x, s') \<Longrightarrow> money_step s s'"
| snapshot: "transactional (capture_snapshot tid rt ri pk rp wp ep da cur ct ci) s = (x, s') \<Longrightarrow> money_step s s'"
| entry: "transactional (write_entry tid ty da ca amount cur p rt ri ev) s = (x, s') \<Longrightarrow>
    (\<And>i. da \<noteq> wallet_account i) \<Longrightarrow> (\<And>i. ca \<noteq> wallet_account i) \<Longrightarrow> money_step s s'"
| evaluate: "evaluate_spend tid mid cost s = (x, s') \<Longrightarrow> money_step s s'"
| advance: "evaluate_advance tid mid cost s = (x, s') \<Longrightarrow> money_step s s'"
| plan: "plan_package tid mid cost super allow own s = (x, s') \<Longrightarrow> money_step s s'"
| commit: "commit_spend tid mid dec kind ov r s = (x, s') \<Longrightarrow> money_step s s'"
| enforce: "enforce_manager_spend tid manager super cost_money kind r s = (x, s') \<Longrightarrow> money_step s s'"
| reverse: "reverse_charge tid mid c r s = (x, s') \<Longrightarrow> money_step s s'"
| settle: "settle_debt tid mid amount r s = (n, s') \<Longrightarrow> money_step s s'"
| on_account: "record_debt tid mid amount ov r s = (n, s') \<Longrightarrow> money_step s s'"
| owners: "set_designated_owners keys s = (ks, s') \<Longrightarrow> money_step s s'"
| caps: "money_step s (s\<lparr>cs_admins := admins\<rparr>)"

lemma bookkeeping_step: "bookkeeping f \<Longrightarrow> f s = (x, s') \<Longrightarrow> booked s s'"
  unfolding bookkeeping_def by (metis snd_conv)

lemma money_step_booked: "money_step s s' \<Longrightarrow> booked s s'"
proof (induction rule: money_step.induct)
  case (settle tid mid amount r s n s')
  then show ?case using settle_booked(1) [of s tid mid amount r] by simp
next
  case (on_account tid mid amount ov r s n s')
  then show ?case using settle_booked(2) [of s tid mid amount ov r] by simp
next
  case (owners keys s ks s')
  then show ?case by (auto simp: set_designated_owners_def Let_def booked_def grows_def)
next
  case (caps s admins)
  then show ?case by (simp add: booked_def grows_def)
next
  case (entry tid ty da ca amount cur p rt ri ev s x s')
  then show ?case using write_entry_keeping by (blast intro: bookkeeping_step)
qed (auto intro: bookkeeping_step keeping)

interpretation money: progressing money_step "\<lambda>s. books (cs_money s)" grows
proof
  show "grows s s" for s by (simp add: grows_def)
  show "grows s t \<Longrightarrow> grows t u \<Longrightarrow> grows s u" for s t u by (auto simp: grows_def elim: prefix_order.trans)
  show "books (cs_money t) \<and> grows s t" if "money_step s t" "books (cs_money s)" for s t
    using money_step_booked [OF that(1)] that(2) by (simp add: booked_def)
qed

text \<open>C20. The books of the wallets balance in every run: whatever requests move money in whatever order, with stale
  decisions and repeated reversals, no wallet is ever negative, the balance of each wallet is the sum of its transactions
  and the sum of the ledger on its account, and transactions, ledger and credit entries are only appended to.\<close>

theorem money_books_balance:
  assumes "money_step\<^sup>*\<^sup>* s s'" "books (cs_money s)"
  shows "(\<forall>w \<in> set (wallets (cs_money s')). 0 \<le> w_balance w \<and>
      wallet_sum (cs_money s') (w_id w) = w_balance w \<and> account_sum (cs_money s') (wallet_account (w_id w)) = w_balance w) \<and>
    prefix (wallet_transactions (cs_money s)) (wallet_transactions (cs_money s')) \<and>
    prefix (ledger_entries (cs_money s)) (ledger_entries (cs_money s')) \<and> prefix (cs_ledger s) (cs_ledger s')"
proof -
  have k: "books (cs_money s')" "grows s s'" using money.every_run [OF assms] by simp_all
  have "balance_of (cs_money s') (w_id w) = w_balance w" if "w \<in> set (wallets (cs_money s'))" for w
    using find_wallet [OF _ that] k(1) by (simp add: balance_of_def books_def)
  then show ?thesis using k by (auto simp: books_def grows_def)
qed

section \<open>The wallet of a manager\<close>

lemma insort_key_last: "f y \<le> f x \<Longrightarrow> insort_key f y (ys @ [x]) = insort_key f y ys @ [x]" for f :: "'a \<Rightarrow> 'b :: linorder"
  by (induction ys) auto

lemma sort_key_last: "(\<And>y. y \<in> set xs \<Longrightarrow> f y \<le> f x) \<Longrightarrow> sort_key f (xs @ [x]) = sort_key f xs @ [x]"
  for f :: "'a \<Rightarrow> 'b :: linorder"
  by (induction xs) (simp_all add: insort_key_last)

lemma sort_key_map: "(\<And>x. f (g x) = f x) \<Longrightarrow> sort_key f (map g xs) = map g (sort_key f xs)" for f :: "'a \<Rightarrow> 'b :: linorder"
proof (induction xs)
  case (Cons x xs)
  have "insort_key f (g x) (map g ys) = map g (insort_key f x ys)" for ys
    using Cons.prems by (induction ys) auto
  then show ?case using Cons by simp
qed simp

text \<open>The wallet found is the wallet found again, also when it was created just now.\<close>

lemma manager_wallet_cases:
  assumes "manager_wallet tid mid s = (Inr w, s')"
  obtains (found) "find (\<lambda>w. owner_number w = mid) (list_wallets tid ''manager'' 500 (cs_money s)) = Some w" "s' = s"
  | (created) m' where "create_wallet tid ''manager'' (Some mid) [] (cs_money s) = Inr (w, m')" "s' = s\<lparr>cs_money := m'\<rparr>"
proof (cases "find (\<lambda>w. owner_number w = mid) (list_wallets tid ''manager'' 500 (cs_money s))")
  case None
  then have t: "transactional (create_wallet tid ''manager'' (Some mid) []) s = (Inr w, s')" using assms by (simp add: manager_wallet_def)
  show ?thesis
  proof (cases "create_wallet tid ''manager'' (Some mid) [] (cs_money s)")
    case (Inl e)
    then show ?thesis using t by (simp add: transactional_def)
  next
    case (Inr p)
    obtain v m' where p: "p = (v, m')" by (cases p)
    have "v = w" "s' = s\<lparr>cs_money := m'\<rparr>" using t by (simp_all add: transactional_def Inr p)
    then show ?thesis using that(2) Inr p by blast
  qed
next
  case (Some v)
  then have "v = w" "s' = s" using assms by (simp_all add: manager_wallet_def)
  then show ?thesis using that(1) Some by blast
qed

lemma manager_wallet_again:
  assumes "manager_wallet tid mid s = (Inr w, s')"
  shows "manager_wallet tid mid s' = (Inr w, s')"
  using assms
proof (cases rule: manager_wallet_cases)
  case found
  then show ?thesis by (simp add: manager_wallet_def)
next
  case (created m')
  note c = create_wallet_Inr [OF created(1)]
  have st: "strip ''manager'' = ''manager''" by code_simp
  let ?P = "\<lambda>w. w_tenant_id w = tid \<and> w_owner_type w = ''manager''"
  have le: "w_id v \<le> w_id w" if "v \<in> set (wallets (cs_money s))" for v
    using next_id_fresh [of "w_id v" "map w_id (wallets (cs_money s))"] that c by simp
  have "sort_key w_id (filter ?P (wallets m')) = sort_key w_id (filter ?P (wallets (cs_money s))) @ [w]"
    using sort_key_last [of "filter ?P (wallets (cs_money s))" w_id w] le c st by simp
  then have "\<exists>ws. list_wallets tid ''manager'' 500 m' = w # ws" by (simp add: list_wallets_def)
  then show ?thesis using c by (auto simp: manager_wallet_def created(2) owner_number_def)
qed

lemma manager_wallet_in:
  assumes "manager_wallet tid mid s = (Inr w, s')"
  shows "w \<in> set (wallets (cs_money s')) \<and> w_tenant_id w = tid"
  using assms
proof (cases rule: manager_wallet_cases)
  case found
  have "w \<in> set (list_wallets tid ''manager'' 500 (cs_money s))" using found(1) by (auto simp: find_Some_iff)
  then show ?thesis using found(2) by (auto simp: list_wallets_def dest: in_set_takeD)
next
  case (created m')
  then show ?thesis using create_wallet_Inr by fastforce
qed

text \<open>Balances of known wallets, debts and advances are as before.\<close>

lemma manager_wallet_same:
  assumes "manager_wallet tid mid s = (x, s')"
  shows "cs_ledger s' = cs_ledger s \<and> wallet_transactions (cs_money s') = wallet_transactions (cs_money s) \<and>
    ledger_entries (cs_money s') = ledger_entries (cs_money s) \<and> cs_admins s' = cs_admins s \<and> cs_owner_keys s' = cs_owner_keys s \<and>
    (wallets (cs_money s') = wallets (cs_money s) \<or>
      (\<exists>w. wallets (cs_money s') = wallets (cs_money s) @ [w] \<and> w_balance w = 0 \<and> x = Inr w))"
  using assms create_wallet_Inr [of tid "''manager''" "Some mid" "[]" "cs_money s"]
  by (auto simp: manager_wallet_def transactional_def split: option.splits sum.splits)

lemma find_append: "find P (xs @ ys) = (case find P xs of None \<Rightarrow> find P ys | Some v \<Rightarrow> Some v)"
  by (induction xs) auto

lemma manager_wallet_balances:
  assumes "manager_wallet tid mid s = (x, s')" 
  shows "balance_of (cs_money s') i = balance_of (cs_money s) i"
  using manager_wallet_same [OF assms] by (auto simp: balance_of_def find_append split: option.split if_split_asm)

lemma same_caps:
  assumes "cs_admins s' = cs_admins s" "cs_owner_keys s' = cs_owner_keys s"
  shows "get_caps s' i = get_caps s i \<and> is_uncapped s' i = is_uncapped s i"
proof -
  have "primary_admin_id s' = primary_admin_id s" "get_admin s' i = get_admin s i" "designated_owner_keys s' = designated_owner_keys s"
    using assms by (simp_all add: primary_admin_id_def get_admin_def designated_owner_keys_def)
  then show ?thesis
    by (simp add: get_caps_def is_uncapped_def is_primary_owner_def is_co_owner_def is_original_owner_def cong: option.case_cong)
qed

section \<open>Decisions\<close>

definition credit_net :: "int \<Rightarrow> int \<Rightarrow> string \<Rightarrow> string \<Rightarrow> credit_state \<Rightarrow> int" where
  "credit_net tid mid plus_kind minus_kind s =
     sum_list (map (\<lambda>c. if ce_kind c = plus_kind then ce_amount c else if ce_kind c = minus_kind then - ce_amount c else 0)
       (filter (\<lambda>c. ce_tenant_id c = tid \<and> ce_manager_id c = mid) (cs_ledger s)))"

lemma ledger_sum_net: "ledger_sum tid mid pk mk s = max 0 (credit_net tid mid pk mk s)"
  by (simp add: ledger_sum_def credit_net_def)

lemma credit_net_record [simp]:
  "credit_net t k pk mk (record_credit tid mid kind a ov r s) =
     credit_net t k pk mk s + (if tid = t \<and> mid = k then if kind = pk then a else if kind = mk then - a else 0 else 0)"
  by (simp add: credit_net_def record_credit_def)

lemma credit_net_cong: "cs_ledger s' = cs_ledger s \<Longrightarrow> credit_net tid mid pk mk s' = credit_net tid mid pk mk s"
  by (simp add: credit_net_def)

lemma credit_net_part [simp]:
  "credit_net t k pk mk (record_part tid mid kind a ov r s) =
     credit_net t k pk mk s + (if tid = t \<and> mid = k then if kind = pk then max 0 a else if kind = mk then - max 0 a else 0 else 0)"
  by (simp add: record_part_def)

lemma credit_net_money [simp]: "credit_net t k pk mk (s\<lparr>cs_money := m\<rparr>) = credit_net t k pk mk s"
  by (simp add: credit_net_def)

lemma record_part_frame [simp]:
  "cs_money (record_part tid mid k a ov r s) = cs_money s" "cs_admins (record_part tid mid k a ov r s) = cs_admins s"
  "cs_owner_keys (record_part tid mid k a ov r s) = cs_owner_keys s"
  by (simp_all add: record_part_def record_credit_def)

lemma kinds_differ [simp]:
  "KIND_DEBT \<noteq> KIND_DEBT_SETTLE" "KIND_DEBT \<noteq> KIND_ADVANCE" "KIND_DEBT \<noteq> KIND_ADVANCE_SETTLE" "KIND_DEBT_SETTLE \<noteq> KIND_DEBT"
  "KIND_DEBT_SETTLE \<noteq> KIND_ADVANCE" "KIND_DEBT_SETTLE \<noteq> KIND_ADVANCE_SETTLE" "KIND_ADVANCE \<noteq> KIND_DEBT"
  "KIND_ADVANCE \<noteq> KIND_DEBT_SETTLE" "KIND_ADVANCE \<noteq> KIND_ADVANCE_SETTLE" "KIND_ADVANCE_SETTLE \<noteq> KIND_DEBT"
  "KIND_ADVANCE_SETTLE \<noteq> KIND_DEBT_SETTLE" "KIND_ADVANCE_SETTLE \<noteq> KIND_ADVANCE"
  by (simp_all add: KIND_DEBT_def KIND_DEBT_SETTLE_def KIND_ADVANCE_def KIND_ADVANCE_SETTLE_def)

text \<open>What an approved decision says: the wallet first, the rest as debt within the cap.\<close>

definition approved :: "int \<Rightarrow> int \<Rightarrow> int \<Rightarrow> int \<Rightarrow> spend_decision \<Rightarrow> credit_state \<Rightarrow> bool" where
  "approved tid mid cost balance dec s =
     (sd_wallet_deduct dec = min balance cost \<and> sd_debt dec = cost - min balance cost \<and>
      (balance < cost \<longrightarrow> is_uncapped s mid \<or>
         (cp_debt_enabled (get_caps s mid) \<and> current_debt tid mid s + (cost - balance) \<le> cp_debt (get_caps s mid))))"

lemma evaluate_spend_Inr:
  assumes "evaluate_spend tid mid cost s = (Inr dec, s')" "0 < cost"
  shows "\<exists>w. manager_wallet tid mid s = (Inr w, s') \<and> sd_advance dec = 0 \<and>
    (if sd_ok dec then approved tid mid cost (w_balance w) dec s'
     else w_balance w < cost \<and> \<not> is_uncapped s' mid \<and> sd_message dec = NO_BALANCE \<and>
       (cp_debt_enabled (get_caps s' mid) \<longrightarrow> cp_debt (get_caps s' mid) < current_debt tid mid s' + (cost - w_balance w)))"
  using assms
  by (auto simp: evaluate_spend_def io_bind_eq_Inr approved_def fund_shortfall_def Let_def spend_def not_le)

lemma evaluate_advance_Inr:
  assumes "evaluate_advance tid mid cost s = (Inr dec, s')" "0 < cost"
  shows "\<exists>w. manager_wallet tid mid s = (Inr w, s') \<and>
    (if sd_ok dec then approved tid mid cost (w_balance w) dec s' \<and> sd_advance dec = cost \<and>
       (\<not> is_uncapped s' mid \<longrightarrow> cp_loan_enabled (get_caps s' mid) \<and> current_advances tid mid s' + cost \<le> cp_loan (get_caps s' mid))
     else sd_message dec = LOAN_EXCEEDED \<or> w_balance w < cost \<and> \<not> is_uncapped s' mid \<and> sd_message dec = NO_BALANCE \<and>
       (cp_debt_enabled (get_caps s' mid) \<longrightarrow> cp_debt (get_caps s' mid) < current_debt tid mid s' + (cost - w_balance w)))"
proof -
  obtain f where f: "evaluate_spend tid mid cost s = (Inr f, s')"
      "dec = (if \<not> sd_ok f then f
              else if \<not> is_uncapped s' mid \<and> (\<not> cp_loan_enabled (get_caps s' mid) \<or> current_advances tid mid s' + cost > cp_loan (get_caps s' mid))
              then (spend False ''blocked'' 0 0 cost 0)\<lparr>sd_advance := cost, sd_message := LOAN_EXCEEDED\<rparr>
              else f\<lparr>sd_advance := cost\<rparr>)"
    using assms by (auto simp: evaluate_advance_def io_bind_eq_Inr Let_def max_def)
  obtain w where "manager_wallet tid mid s = (Inr w, s')"
      "if sd_ok f then approved tid mid cost (w_balance w) f s'
       else w_balance w < cost \<and> \<not> is_uncapped s' mid \<and> sd_message f = NO_BALANCE \<and>
         (cp_debt_enabled (get_caps s' mid) \<longrightarrow> cp_debt (get_caps s' mid) < current_debt tid mid s' + (cost - w_balance w))"
    using evaluate_spend_Inr [OF f(1) assms(2)] by blast
  then show ?thesis by (intro exI [of _ w]) (auto simp: f(2) approved_def spend_def)
qed

section \<open>Charging\<close>

lemma commit_spend_cases:
  assumes "commit_spend tid mid dec kind ov r s = (x, s')" "manager_wallet tid mid s = (Inr w, s)"
  obtains (refused) e where "x = Inl e" "s' = s"
    | (free) c where "sd_wallet_deduct dec \<le> 0" "x = Inr c" "cs_money s' = cs_money s"
    | (paid) c t where "0 < sd_wallet_deduct dec" "x = Inr c"
        "debit tid (w_id w) (minor_to_money (sd_wallet_deduct dec)) (commit_memo mid kind r) (cs_money s) = Inr (t, cs_money s')"
  using assms
  by (cases "0 < sd_wallet_deduct dec")
    (auto simp: commit_spend_def io_bind_def transactional_def io_return_def Let_def split: sum.splits prod.splits if_splits)

lemma commit_spend_Inr:
  assumes "commit_spend tid mid dec kind ov r s = (Inr c, s')" "manager_wallet tid mid s = (Inr w, s)"
  shows "ch_wallet_deducted c = max 0 (sd_wallet_deduct dec) \<and> ch_debt_recorded c = max 0 (sd_debt dec) \<and>
    ch_advance_recorded c = max 0 (sd_advance dec) \<and> ch_wallet_id c = w_id w \<and> cs_admins s' = cs_admins s \<and> cs_owner_keys s' = cs_owner_keys s \<and>
    credit_net t k KIND_DEBT KIND_DEBT_SETTLE s' =
      credit_net t k KIND_DEBT KIND_DEBT_SETTLE s + (if tid = t \<and> mid = k then ch_debt_recorded c else 0) \<and>
    credit_net t k KIND_ADVANCE KIND_ADVANCE_SETTLE s' =
      credit_net t k KIND_ADVANCE KIND_ADVANCE_SETTLE s + (if tid = t \<and> mid = k then ch_advance_recorded c else 0)"
  using assms by (auto simp: commit_spend_def io_bind_eq_Inr transactional_def io_return_def Let_def split: sum.splits if_splits)

lemma charge_Inr:
  assumes "charge tid mid cost kind own r s = (Inr c, s')" "0 < cost"
  obtains w dec s1 where "manager_wallet tid mid s = (Inr w, s1)" "manager_wallet tid mid s1 = (Inr w, s1)"
    "approved tid mid cost (w_balance w) dec s1" "commit_spend tid mid dec kind False r s1 = (Inr c, s')"
    "sd_advance dec = (if kind = KIND_ADVANCE then cost else 0)"
    "kind = KIND_ADVANCE \<and> \<not> is_uncapped s1 mid \<longrightarrow>
       cp_loan_enabled (get_caps s1 mid) \<and> current_advances tid mid s1 + cost \<le> cp_loan (get_caps s1 mid)"
proof -
  obtain dec s1 where d: "(if kind = KIND_ADVANCE then evaluate_advance tid mid cost else evaluate_spend tid mid cost) s = (Inr dec, s1)"
      "sd_ok dec" "commit_spend tid mid dec kind False r s1 = (Inr c, s')"
    using assms(1) by (auto simp: charge_def io_bind_eq_Inr io_raise_def Let_def split: if_splits)
  then obtain w where w: "manager_wallet tid mid s = (Inr w, s1)" "approved tid mid cost (w_balance w) dec s1"
      "sd_advance dec = (if kind = KIND_ADVANCE then cost else 0)"
      "kind = KIND_ADVANCE \<and> \<not> is_uncapped s1 mid \<longrightarrow>
         cp_loan_enabled (get_caps s1 mid) \<and> current_advances tid mid s1 + cost \<le> cp_loan (get_caps s1 mid)"
    using evaluate_spend_Inr [of tid mid cost s dec s1] evaluate_advance_Inr [of tid mid cost s dec s1] assms(2)
    by (auto split: if_splits)
  then show ?thesis using that d(3) manager_wallet_again [OF w(1)] by blast
qed

lemma debit_moved:
  assumes "debit tid wid (minor_to_money n) memo m = Inr (t, m')"
  shows "\<exists>w. moved tid wid t w m m' \<and> tx_effect t = - n \<and> 0 < n \<and> n < 10 ^ 28"
proof -
  obtain w where w: "moved tid wid t w m m'" "tx_type t = ''debit''" "positive_minor (minor_to_money n) = Inr (tx_amount t)"
    using change_balance_moved [of tid wid "minor_to_money n" "''debit''" memo m t m'] assms by (auto simp: debit_def)
  then show ?thesis by (auto simp: tx_effect_def positive_printed)
qed

lemma commit_balances:
  assumes "commit_spend tid mid dec kind ov r s = (Inr c, s')" "manager_wallet tid mid s = (Inr w, s)" "books (cs_money s)"
  shows "balance_of (cs_money s') i = balance_of (cs_money s) i - (if i = w_id w then ch_wallet_deducted c else 0)"
  using assms(1,2)
proof (cases rule: commit_spend_cases)
  case (free c')
  then show ?thesis using commit_spend_Inr [OF assms(1,2)] by simp
next
  case (paid c' t)
  from debit_moved [OF paid(3)] obtain v where v: "moved tid (w_id w) t v (cs_money s) (cs_money s')" "tx_effect t = - sd_wallet_deduct dec"
    by blast
  note b = moved_balance [OF v(1) assms(3)]
  have "tx_after t = w_balance v + tx_effect t" using v(1) by (simp add: moved_def)
  then show ?thesis using b v(2) paid(1) commit_spend_Inr [OF assms(1,2)] by simp
qed simp

lemma manager_balance:
  assumes "manager_wallet tid mid s = (Inr w, s')" "books (cs_money s)"
  shows "books (cs_money s') \<and> balance_of (cs_money s) (w_id w) = w_balance w \<and> 0 \<le> w_balance w"
proof -
  have b: "books (cs_money s')"
    using bookkeeping_step [OF manager_wallet_keeping assms(1)] assms(2) by (simp add: booked_def)
  moreover have "w \<in> set (wallets (cs_money s'))" using manager_wallet_in [OF assms(1)] by simp
  ultimately have "balance_of (cs_money s') (w_id w) = w_balance w" "0 \<le> w_balance w"
    using find_wallet [of "wallets (cs_money s')" w] by (simp_all add: books_def balance_of_def)
  then show ?thesis using b manager_wallet_balances [OF assms(1)] by simp
qed

text \<open>C19. A manager who has caps (one that is not uncapped) spends within them: whatever a charge of any kind costs, over books
  that balance, it is split exactly into what his wallet
  held and a debt; no other balance and no other manager's debt moves; if there is a debt part the wallet is empty
  afterwards, his debt cap is enabled and his total debt stays within it; and an advance stays within his loan cap.\<close>

theorem charge_within_cap:
  assumes "charge tid mid cost kind own r s = (Inr c, s')" "0 < cost" "\<not> is_uncapped s mid" "books (cs_money s)"
  shows "ch_wallet_deducted c + ch_debt_recorded c = cost \<and>
    (\<forall>i. balance_of (cs_money s') i = balance_of (cs_money s) i - (if i = ch_wallet_id c then ch_wallet_deducted c else 0)) \<and>
    (0 < ch_debt_recorded c \<longrightarrow> balance_of (cs_money s') (ch_wallet_id c) = 0 \<and> cp_debt_enabled (get_caps s mid) \<and>
       current_debt tid mid s' \<le> cp_debt (get_caps s mid)) \<and>
    (\<forall>t k. (t, k) \<noteq> (tid, mid) \<longrightarrow> current_debt t k s' = current_debt t k s) \<and>
    (kind = KIND_ADVANCE \<longrightarrow> current_advances tid mid s' \<le> cp_loan (get_caps s mid))"
proof -
  obtain w dec s1 where h: "manager_wallet tid mid s = (Inr w, s1)" "manager_wallet tid mid s1 = (Inr w, s1)"
      "approved tid mid cost (w_balance w) dec s1" "commit_spend tid mid dec kind False r s1 = (Inr c, s')"
      "sd_advance dec = (if kind = KIND_ADVANCE then cost else 0)"
      "kind = KIND_ADVANCE \<and> \<not> is_uncapped s1 mid \<longrightarrow>
         cp_loan_enabled (get_caps s1 mid) \<and> current_advances tid mid s1 + cost \<le> cp_loan (get_caps s1 mid)"
    by (rule charge_Inr [OF assms(1,2)])
  note b = manager_balance [OF h(1) assms(4)]
  note c = commit_spend_Inr [OF h(4,2)]
  have caps: "get_caps s1 mid = get_caps s mid" "is_uncapped s1 mid = is_uncapped s mid" "cs_ledger s1 = cs_ledger s"
    using same_caps [of s1 s mid] manager_wallet_same [OF h(1)] by simp_all
  have split: "ch_wallet_deducted c = min (w_balance w) cost" "ch_debt_recorded c = cost - min (w_balance w) cost"
    using c h(3) b assms(2) by (auto simp: approved_def)
  have bal: "balance_of (cs_money s') i = balance_of (cs_money s) i - (if i = ch_wallet_id c then ch_wallet_deducted c else 0)" for i
    using commit_balances [OF h(4,2)] manager_wallet_balances [OF h(1)] b c by simp
  have net: "credit_net t k pk mk s1 = credit_net t k pk mk s" for t k pk mk by (rule credit_net_cong [OF caps(3)])
  have debt: "balance_of (cs_money s') (ch_wallet_id c) = 0 \<and> cp_debt_enabled (get_caps s mid) \<and>
      current_debt tid mid s' \<le> cp_debt (get_caps s mid)" if d: "0 < ch_debt_recorded c"
  proof -
    have less: "w_balance w < cost" using d split(2) by simp
    then have cap: "cp_debt_enabled (get_caps s mid)"
        "max 0 (credit_net tid mid KIND_DEBT KIND_DEBT_SETTLE s1) + (cost - w_balance w) \<le> cp_debt (get_caps s mid)"
      using h(3) caps(1,2) assms(3) by (simp_all add: approved_def current_debt_def ledger_sum_net)
    have "credit_net tid mid KIND_DEBT KIND_DEBT_SETTLE s' = credit_net tid mid KIND_DEBT KIND_DEBT_SETTLE s1 + (cost - w_balance w)"
      using c [of tid mid] split(2) less by simp
    then have "current_debt tid mid s' \<le> cp_debt (get_caps s mid)"
      using cap(2) less by (simp add: current_debt_def ledger_sum_net max_def split: if_split_asm)
    moreover have "balance_of (cs_money s') (ch_wallet_id c) = 0" using bal [of "ch_wallet_id c"] split(1) less b c [of tid mid] by simp
    ultimately show ?thesis using cap(1) by simp
  qed
  have others: "current_debt t k s' = current_debt t k s" if "(t, k) \<noteq> (tid, mid)" for t k
    using c [of t k] that by (auto simp: current_debt_def ledger_sum_net net)
  have adv: "kind = KIND_ADVANCE \<longrightarrow> current_advances tid mid s' \<le> cp_loan (get_caps s mid)"
    using c [of tid mid] h(5,6) caps(1,2) assms(2,3)
    by (auto simp: current_advances_def ledger_sum_net)
  show ?thesis using split bal debt others adv by simp
qed

section \<open>Refusals\<close>

lemma res_bind_Inl: "res_bind r f = Inl e \<longleftrightarrow> r = Inl e \<or> (\<exists>x. r = Inr x \<and> f x = Inl e)"
  by (cases r) auto

lemma money_tables_raise:
  "record_event tid ca sv ek p m \<noteq> Inl (ManagerCreditError x)" "positive_minor amount \<noteq> Inl (ManagerCreditError x)"
  "insert_entry tid ty da cr amount cur p rt ri m \<noteq> Inl (ManagerCreditError x)"
proof -
  show r: "record_event tid ca sv ek p m \<noteq> Inl (ManagerCreditError x)" by (simp add: record_event_def)
  show a: "positive_minor amount \<noteq> Inl (ManagerCreditError x)"
    by (auto simp: positive_minor_def money_to_minor_def not_numeric_def res_bind_Inl Let_def split: option.splits if_splits)
  show "insert_entry tid ty da cr amount cur p rt ri m \<noteq> Inl (ManagerCreditError x)"
    using a by (auto simp: insert_entry_def res_bind_Inl Let_def split: if_splits)
qed

lemma debit_raise: "debit tid wid amount memo m \<noteq> Inl (ManagerCreditError x)"
  by (auto simp: debit_def change_balance_def res_bind_Inl wallet_entry_def Let_def money_tables_raise split: option.splits if_splits)

lemma manager_wallet_raise: "fst (manager_wallet tid mid s) \<noteq> Inl (ManagerCreditError x)"
  by (auto simp: manager_wallet_def transactional_def create_wallet_def res_bind_Inl Let_def money_tables_raise
      split: option.splits sum.splits if_splits)

lemma refusal_cases:
  assumes "charge tid mid cost kind own r s = (Inl e, s')" "0 < cost"
  obtains (wallet) "manager_wallet tid mid s = (Inl e, s')"
    | (gate) w where "manager_wallet tid mid s = (Inr w, s')"
        "e = ManagerCreditError LOAN_EXCEEDED \<or> w_balance w < cost \<and> \<not> is_uncapped s' mid \<and>
          (cp_debt_enabled (get_caps s' mid) \<longrightarrow> cp_debt (get_caps s' mid) < current_debt tid mid s' + (cost - w_balance w))"
    | (debit) w amount memo where "manager_wallet tid mid s = (Inr w, s')" "debit tid (w_id w) amount memo (cs_money s') = Inl e"
proof -
  let ?eval = "if kind = KIND_ADVANCE then evaluate_advance tid mid cost else evaluate_spend tid mid cost"
  consider (raised) "?eval s = (Inl e, s')"
    | (decided) dec s1 where "?eval s = (Inr dec, s1)"
        "(if \<not> sd_ok dec then
            let msg = or_default (sd_message dec) NO_BALANCE
            in io_raise (ManagerCreditError (if own \<and> msg = NO_BALANCE then NO_BALANCE_OWN else msg))
          else commit_spend tid mid dec kind False r) s1 = (Inl e, s')"
    using assms(1) by (auto simp: charge_def io_bind_def split: prod.splits sum.splits)
  then show ?thesis
  proof cases
    case raised
    have "evaluate_spend tid mid cost s = (Inl e, s')"
      using raised assms(2) by (auto simp: evaluate_advance_def io_bind_def Let_def max_def split: prod.splits sum.splits if_splits)
    then have "manager_wallet tid mid s = (Inl e, s')"
      using assms(2) by (auto simp: evaluate_spend_def io_bind_def split: prod.splits sum.splits)
    then show ?thesis by (rule wallet)
  next
    case (decided dec s1)
    obtain w where w: "manager_wallet tid mid s = (Inr w, s1)"
        "\<not> sd_ok dec \<Longrightarrow> sd_message dec = LOAN_EXCEEDED \<or> w_balance w < cost \<and> \<not> is_uncapped s1 mid \<and> sd_message dec = NO_BALANCE \<and>
          (cp_debt_enabled (get_caps s1 mid) \<longrightarrow> cp_debt (get_caps s1 mid) < current_debt tid mid s1 + (cost - w_balance w))"
      using evaluate_spend_Inr [of tid mid cost s dec s1] evaluate_advance_Inr [of tid mid cost s dec s1] assms(2) decided(1)
      by (auto split: if_splits)
    show ?thesis
    proof (cases "sd_ok dec")
      case True
      then have c: "commit_spend tid mid dec kind False r s1 = (Inl e, s')" using decided(2) by simp
      have "s' = s1 \<and> (\<exists>amount memo. debit tid (w_id w) amount memo (cs_money s1) = Inl e)"
        using c manager_wallet_again [OF w(1)]
        by (auto simp: commit_spend_def io_bind_def transactional_def io_return_def Let_def split: sum.splits prod.splits if_splits)
      then show ?thesis using w(1) debit by blast
    next
      case False
      have m: "NO_BALANCE \<noteq> []" "LOAN_EXCEEDED \<noteq> []" "LOAN_EXCEEDED \<noteq> NO_BALANCE"
        by (simp_all add: NO_BALANCE_def LOAN_EXCEEDED_def)
      have "s' = s1" "sd_message dec = LOAN_EXCEEDED \<Longrightarrow> e = ManagerCreditError LOAN_EXCEEDED"
        using decided(2) False m by (auto simp: io_raise_def Let_def or_default_def)
      then show ?thesis using gate w(1) w(2) [OF False] by blast
    qed
  qed
qed

text \<open>C22. A refused charge books nothing: no transaction, no ledger entry, no debt, and no balance moves; and money is the
  reason only when the wallet and the free part of the debt cap together really do not cover the cost.\<close>

theorem refused_charge_books_nothing:
  assumes "charge tid mid cost kind own r s = (Inl e, s')" "0 < cost"
  shows "wallet_transactions (cs_money s') = wallet_transactions (cs_money s) \<and>
    ledger_entries (cs_money s') = ledger_entries (cs_money s) \<and> cs_ledger s' = cs_ledger s \<and>
    (\<forall>i. balance_of (cs_money s') i = balance_of (cs_money s) i) \<and>
    (e \<in> {ManagerCreditError NO_BALANCE, ManagerCreditError NO_BALANCE_OWN} \<longrightarrow>
       (\<exists>w. manager_wallet tid mid s = (Inr w, s') \<and> w_balance w < cost \<and> \<not> is_uncapped s mid \<and>
         (cp_debt_enabled (get_caps s mid) \<longrightarrow> cp_debt (get_caps s mid) < current_debt tid mid s + (cost - w_balance w))))"
proof -
  have same: ?thesis if m: "manager_wallet tid mid s = (x, s')"
      and why: "e \<in> {ManagerCreditError NO_BALANCE, ManagerCreditError NO_BALANCE_OWN} \<Longrightarrow> \<exists>w. x = Inr w \<and> w_balance w < cost \<and>
        \<not> is_uncapped s' mid \<and> (cp_debt_enabled (get_caps s' mid) \<longrightarrow>
          cp_debt (get_caps s' mid) < current_debt tid mid s' + (cost - w_balance w))" for x
    using manager_wallet_same [OF m] manager_wallet_balances [OF m] same_caps [of s' s mid] why m
      credit_net_cong [of s' s] by (auto simp: current_debt_def ledger_sum_net)
  from assms show ?thesis
  proof (cases rule: refusal_cases)
    case wallet
    have "e \<noteq> ManagerCreditError x" for x using manager_wallet_raise [of tid mid s x] wallet by simp
    then show ?thesis by (intro same [OF wallet]) simp
  next
    case (gate w)
    have "ManagerCreditError LOAN_EXCEEDED \<notin> {ManagerCreditError NO_BALANCE, ManagerCreditError NO_BALANCE_OWN}"
      by (simp add: NO_BALANCE_def NO_BALANCE_OWN_def LOAN_EXCEEDED_def)
    then have "\<exists>v. Inr w = Inr v \<and> w_balance v < cost \<and> \<not> is_uncapped s' mid \<and> (cp_debt_enabled (get_caps s' mid) \<longrightarrow>
        cp_debt (get_caps s' mid) < current_debt tid mid s' + (cost - w_balance v))"
      if "e \<in> {ManagerCreditError NO_BALANCE, ManagerCreditError NO_BALANCE_OWN}"
      using gate(2) that by (intro exI [of _ w]) auto
    then show ?thesis by (rule same [OF gate(1)])
  next
    case (debit w amount memo)
    have "e \<noteq> ManagerCreditError x" for x using debit_raise debit(2) by blast
    then show ?thesis by (intro same [OF debit(1)]) simp
  qed
qed

section \<open>Reversals\<close>

text \<open>A change of a balance does not change which wallet a manager has.\<close>

lemma list_wallets_moved:
  assumes "wallets m' = map (\<lambda>v. if w_tenant_id v = a \<and> w_id v = i then v\<lparr>w_balance := n\<rparr> else v) (wallets m)"
  shows "list_wallets tid ot k m' = map (\<lambda>v. if w_tenant_id v = a \<and> w_id v = i then v\<lparr>w_balance := n\<rparr> else v) (list_wallets tid ot k m)"
proof -
  let ?f = "\<lambda>v :: wallet. if w_tenant_id v = a \<and> w_id v = i then v\<lparr>w_balance := n\<rparr> else v"
  let ?P = "\<lambda>w :: wallet. w_tenant_id w = tid \<and> (ot = [] \<or> w_owner_type w = ot)"
  have "filter ?P (map ?f (wallets m)) = map ?f (filter ?P (wallets m))" by (rule filter_map_preserving) simp
  moreover have "sort_key w_id (map ?f xs) = map ?f (sort_key w_id xs)" for xs by (rule sort_key_map) simp
  ultimately show ?thesis by (simp add: list_wallets_def assms take_map rev_map)
qed

lemma manager_wallet_found:
  assumes "manager_wallet tid mid s = (Inr w, s)"
  shows "find (\<lambda>w. owner_number w = mid) (list_wallets tid ''manager'' 500 (cs_money s)) = Some w"
  using assms
proof (cases rule: manager_wallet_cases)
  case (created m')
  then have "m' = cs_money s" by (metis credit_state.select_convs(1) credit_state.surjective credit_state.update_convs(1))
  then show ?thesis using create_wallet_Inr [OF created(1)] by simp
qed

lemma manager_wallet_moved:
  assumes "manager_wallet tid mid s = (Inr w, s)"
    "wallets (cs_money s') = map (\<lambda>v. if w_tenant_id v = a \<and> w_id v = i then v\<lparr>w_balance := n\<rparr> else v) (wallets (cs_money s))"
  shows "\<exists>w'. manager_wallet tid mid s' = (Inr w', s') \<and> w_id w' = w_id w"
proof -
  let ?f = "\<lambda>v :: wallet. if w_tenant_id v = a \<and> w_id v = i then v\<lparr>w_balance := n\<rparr> else v"
  have "owner_number (?f v) = owner_number v" for v by (simp add: owner_number_def)
  then have "find (\<lambda>w. owner_number w = mid) (map ?f ws) = map_option ?f (find (\<lambda>w. owner_number w = mid) ws)" for ws
    by (intro find_map_preserving) simp
  then have "manager_wallet tid mid s' = (Inr (?f w), s')"
    using manager_wallet_found [OF assms(1)] list_wallets_moved [OF assms(2)] by (simp add: manager_wallet_def)
  then show ?thesis by (intro exI [of _ "?f w"]) simp
qed

lemma reverse_credit:
  assumes "manager_wallet tid mid s = (Inr w, s)" "books (cs_money s)" "0 < n" "n < 10 ^ 28"
  shows "\<exists>t m'. credit tid (w_id w) (minor_to_money n) memo (cs_money s) = Inr (t, m') \<and>
    (\<forall>i. balance_of m' i = balance_of (cs_money s) i + (if i = w_id w then n else 0))"
proof -
  note i = manager_wallet_in [OF assms(1)]
  have g: "get_wallet tid (w_id w) (cs_money s) = Some w"
  proof -
    have "find (\<lambda>v. w_tenant_id v = tid \<and> w_id v = w_id w) ws = Some w" if "distinct (map w_id ws)" "w \<in> set ws" for ws
      using that i by (induction ws) (auto simp: rev_image_eqI)
    then show ?thesis using i assms(2) by (simp add: get_wallet_def books_def)
  qed
  have p: "positive_minor (minor_to_money n) = Inr n" using assms(3,4) by (simp add: positive_printed)
  have "0 \<le> new_balance ''credit'' n w" using assms(2,3) i by (auto simp: new_balance_def books_def)
  then obtain t m' where t: "change_balance tid (w_id w) (minor_to_money n) ''credit'' memo (cs_money s) = Inr (t, m')"
    using change_balance_ok [OF p _ g] by blast
  obtain v where v: "moved tid (w_id w) t v (cs_money s) m'" "tx_type t = ''credit''" "tx_amount t = n"
    using change_balance_moved [OF t] p by auto
  note b = moved_balance [OF v(1) assms(2)]
  have "tx_after t = w_balance v + n" using v by (auto simp: moved_def tx_effect_def)
  then show ?thesis using t b by (auto simp: credit_def)
qed

text \<open>C21. A reversal makes the manager whole: reversing a charge that went through never fails, and afterwards every balance,
  every debt and every advance is what it was before the charge.\<close>

theorem reversal_restores:
  assumes "charge tid mid cost kind own r s = (Inr c, s1)" "0 < cost" "books (cs_money s)"
    "reverse_charge tid mid c r' s1 = (x, s2)"
  shows "x = Inr () \<and> balance_of (cs_money s2) i = balance_of (cs_money s) i \<and>
    current_debt t k s2 = current_debt t k s \<and> current_advances t k s2 = current_advances t k s"
proof -
  obtain w dec s0 where h: "manager_wallet tid mid s = (Inr w, s0)" "manager_wallet tid mid s0 = (Inr w, s0)"
      "commit_spend tid mid dec kind False r s0 = (Inr c, s1)"
    by (rule charge_Inr [OF assms(1,2)]) blast
  have b0: "books (cs_money s0)" using manager_balance [OF h(1) assms(3)] by simp
  have b1: "books (cs_money s1)" using bookkeeping_step [OF commit_keeping h(3)] b0 by (simp add: booked_def)
  note c = commit_spend_Inr [OF h(3,2)]
  have net0: "credit_net t k pk mk s0 = credit_net t k pk mk s" for pk mk
    using manager_wallet_same [OF h(1)] by (intro credit_net_cong) simp
  have bal: "balance_of (cs_money s1) j = balance_of (cs_money s) j - (if j = w_id w then ch_wallet_deducted c else 0)" for j
    using commit_balances [OF h(3,2) b0] manager_wallet_balances [OF h(1)] by simp
  have d: "0 \<le> ch_debt_recorded c" "0 \<le> ch_advance_recorded c" "0 \<le> ch_wallet_deducted c" using c [of t k] by simp_all
  have undone: "\<exists>m. x = Inr () \<and> cs_money s2 = m \<and>
      (\<forall>j. balance_of m j = balance_of (cs_money s1) j + (if j = w_id w then ch_wallet_deducted c else 0)) \<and>
      credit_net t k KIND_DEBT KIND_DEBT_SETTLE s2 =
        credit_net t k KIND_DEBT KIND_DEBT_SETTLE s1 - (if tid = t \<and> mid = k then ch_debt_recorded c else 0) \<and>
      credit_net t k KIND_ADVANCE KIND_ADVANCE_SETTLE s2 =
        credit_net t k KIND_ADVANCE KIND_ADVANCE_SETTLE s1 - (if tid = t \<and> mid = k then ch_advance_recorded c else 0)"
  proof (cases "0 < ch_wallet_deducted c")
    case False
    then show ?thesis using assms(4) d by (auto simp: reverse_charge_def io_bind_def io_return_def Let_def)
  next
    case True
    obtain tx where tx: "debit tid (w_id w) (minor_to_money (sd_wallet_deduct dec)) (commit_memo mid kind r) (cs_money s0) = Inr (tx, cs_money s1)"
      using h(3,2) c [of t k] True by (cases rule: commit_spend_cases) auto
    from debit_moved [OF tx] obtain v where v: "moved tid (w_id w) tx v (cs_money s0) (cs_money s1)" "sd_wallet_deduct dec < 10 ^ 28" by blast
    have "wallets (cs_money s1) =
        map (\<lambda>v. if w_tenant_id v = tid \<and> w_id v = w_id w then v\<lparr>w_balance := tx_after tx\<rparr> else v) (wallets (cs_money s0))"
      using v(1) by (simp add: moved_def)
    from manager_wallet_moved [OF h(2) this] obtain w' where w': "manager_wallet tid mid s1 = (Inr w', s1)" "w_id w' = w_id w" by blast
    have n: "ch_wallet_deducted c < 10 ^ 28" using v(2) c [of t k] by simp
    from reverse_credit [OF w'(1) b1 True n, of "reversal_memo mid r'"] obtain tx' m where
      m: "credit tid (w_id w') (minor_to_money (ch_wallet_deducted c)) (reversal_memo mid r') (cs_money s1) = Inr (tx', m)"
        "\<forall>j. balance_of m j = balance_of (cs_money s1) j + (if j = w_id w then ch_wallet_deducted c else 0)"
      using w'(2) by auto
    show ?thesis using assms(4) True d w'(1) m
      by (auto simp: reverse_charge_def io_bind_def io_return_def transactional_def Let_def)
  qed
  have "balance_of (cs_money s2) i = balance_of (cs_money s) i" using undone bal by auto
  moreover have "credit_net t k KIND_DEBT KIND_DEBT_SETTLE s2 = credit_net t k KIND_DEBT KIND_DEBT_SETTLE s"
    "credit_net t k KIND_ADVANCE KIND_ADVANCE_SETTLE s2 = credit_net t k KIND_ADVANCE KIND_ADVANCE_SETTLE s"
    using undone c [of t k] net0 by auto
  ultimately show ?thesis using undone by (auto simp: current_debt_def current_advances_def ledger_sum_net)
qed

section \<open>Instances\<close>

text \<open>The owner 1 and the manager 7, who may owe 100.00 and lend 50.00; then his wallet with 50.00 in it.\<close>

definition a_manager :: "int \<Rightarrow> admin" where
  "a_manager i = \<lparr>am_id = i, am_username = ''m'', am_email = [], am_enabled = True, am_deleted = False, am_co_owner = False,
     am_debt_cap_enabled = True, am_debt_cap = 10000, am_loan_cap_enabled = True, am_loan_cap = 5000\<rparr>"

definition new_office :: credit_state where
  "new_office = \<lparr>cs_money = \<lparr>wallets = [], wallet_transactions = [], ledger_entries = [], business_events = [], price_snapshots = [],
     default_currency = ''ILS''\<rparr>, cs_ledger = [], cs_admins = [a_manager 1, a_manager 7], cs_owner_keys = None\<rparr>"

definition no_remark :: remark where
  "no_remark = \<lparr>rk_reference_type = [], rk_reference_id = None, rk_actor = [], rk_notes = [], rk_currency = []\<rparr>"

definition with_wallet :: credit_state where "with_wallet = snd (manager_wallet 1 7 new_office)"

definition funded :: credit_state where
  "funded = snd (transactional (credit 1 1 ''50.00'' (reversal_memo 7 no_remark)) with_wallet)"

lemma books_funded: "books (cs_money new_office) \<and> books (cs_money funded)"
proof -
  have o: "books (cs_money new_office)" by (simp add: new_office_def books_def wallet_sum_def account_sum_def balance_of_def)
  have "booked new_office with_wallet" "booked with_wallet funded"
    using manager_wallet_keeping credit_debit_keeping(1) by (simp_all add: bookkeeping_def with_wallet_def funded_def)
  then show ?thesis using o by (simp add: booked_def)
qed

definition debited_and_owed :: "(money_error + charge_result) \<times> credit_state \<Rightarrow> bool" where
  "debited_and_owed p = (case fst p of Inl e \<Rightarrow> False | Inr c \<Rightarrow> ch_wallet_deducted c = 5000 \<and> ch_debt_recorded c = 7000)"

definition dear_charge :: "(money_error + charge_result) \<times> credit_state" where
  "dear_charge = charge 1 7 12000 ''card_package'' True no_remark funded"

lemma dear_charge_run: "debited_and_owed dear_charge" "\<not> is_uncapped funded 7" "money_step new_office with_wallet"
    "money_step with_wallet funded"
proof -
  show "debited_and_owed dear_charge" "\<not> is_uncapped funded 7" by code_simp+
  have "fst (manager_wallet 1 7 new_office) = fst (transactional (create_wallet 1 ''manager'' (Some 7) []) new_office) \<and>
      with_wallet = snd (transactional (create_wallet 1 ''manager'' (Some 7) []) new_office)"
    by (simp add: with_wallet_def manager_wallet_def list_wallets_def new_office_def)
  then show "money_step new_office with_wallet" by (metis money_step.create surjective_pairing)
  show "money_step with_wallet funded" unfolding funded_def by (rule money_step.credited [OF surjective_pairing])
qed

lemma dear_charge_Inr: obtains c s' where "dear_charge = (Inr c, s')" "ch_debt_recorded c = 7000"
proof -
  obtain x s' where p: "dear_charge = (x, s')" by (cases dear_charge) blast
  have "debited_and_owed (x, s')" using dear_charge_run(1) unfolding p .
  then show ?thesis using that p by (cases x) (simp_all add: debited_and_owed_def)
qed

theorem money_books_balance_witness:
  "map (\<lambda>w. (w_id w, w_balance w)) (wallets (cs_money funded)) = [(1, 5000)] \<and> wallet_sum (cs_money funded) 1 = 5000 \<and>
     account_sum (cs_money funded) (wallet_account 1) = 5000"
proof -
  have m: "map (\<lambda>w. (w_id w, w_balance w)) (wallets (cs_money funded)) = [(1, 5000)]" by code_simp
  then obtain w where w: "w \<in> set (wallets (cs_money funded))" "w_id w = 1" "w_balance w = 5000"
    by (cases "wallets (cs_money funded)") auto
  have r: "money_step\<^sup>*\<^sup>* new_office funded"
    using dear_charge_run(3,4) by (meson converse_rtranclp_into_rtranclp r_into_rtranclp)
  have "books (cs_money new_office)" using books_funded by simp
  from money_books_balance [OF r this] have "wallet_sum (cs_money funded) (w_id w) = w_balance w"
    "account_sum (cs_money funded) (wallet_account (w_id w)) = w_balance w"
    using w(1) by simp_all
  then show ?thesis using m w(2,3) by simp
qed

theorem charge_within_cap_witness: "debited_and_owed dear_charge \<and> current_debt 1 7 (snd dear_charge) \<le> 10000"
proof -
  obtain c s' where c: "dear_charge = (Inr c, s')" "ch_debt_recorded c = 7000"
    by (rule dear_charge_Inr)
  have "cp_debt (get_caps funded 7) = 10000" by code_simp
  then have "current_debt 1 7 s' \<le> 10000"
    using charge_within_cap [OF c(1) [unfolded dear_charge_def] _ dear_charge_run(2)] books_funded c(2) by simp
  then show ?thesis using dear_charge_run(1) unfolding c(1) by simp
qed

theorem refused_charge_books_nothing_witness:
  "\<exists>s'. charge 1 7 16000 ''card_package'' True no_remark funded = (Inl (ManagerCreditError NO_BALANCE_OWN), s') \<and>
     cs_ledger s' = cs_ledger funded"
proof -
  let ?p = "charge 1 7 16000 ''card_package'' True no_remark funded"
  have "fst ?p = Inl (ManagerCreditError NO_BALANCE_OWN)" by code_simp
  then have p: "?p = (Inl (ManagerCreditError NO_BALANCE_OWN), snd ?p)" by (metis prod.collapse)
  then show ?thesis using refused_charge_books_nothing [OF p] by auto
qed

theorem reversal_restores_witness:
  "\<exists>c s'. dear_charge = (Inr c, s') \<and> current_debt 1 7 (snd (reverse_charge 1 7 c no_remark s')) = current_debt 1 7 funded"
proof -
  obtain c s' where c: "dear_charge = (Inr c, s')" "ch_debt_recorded c = 7000"
    by (rule dear_charge_Inr)
  then show ?thesis
    using reversal_restores [OF c(1) [unfolded dear_charge_def] _ _ surjective_pairing, where i = 1 and t = 1 and k = 7] books_funded c(1) by auto
qed

text \<open>The check and the booking of a charge are separate statements, so the cap holds for one charge and not for two at the
  same time: both are within it when they are evaluated, and after both commits the manager owes more than he may.\<close>

lemma created_wallet: "\<exists>w. fst (manager_wallet 1 7 new_office) = Inr w"
proof -
  have "(case fst (manager_wallet 1 7 new_office) of Inl e \<Rightarrow> False | Inr w \<Rightarrow> True)" by code_simp
  then show ?thesis by (auto split: sum.splits)
qed

theorem concurrent_charges_exceed_cap:
  "\<exists>dec s1 s2. evaluate_spend 1 7 8000 with_wallet = (Inr dec, with_wallet) \<and> sd_ok dec \<and>
     snd (commit_spend 1 7 dec ''card_package'' False no_remark with_wallet) = s1 \<and>
     snd (commit_spend 1 7 dec ''card_package'' False no_remark s1) = s2 \<and>
     current_debt 1 7 s2 = 16000 \<and> cp_debt (get_caps s2 7) = 10000"
proof -
  let ?dec = "spend True ''debt'' 0 8000 8000 8000"
  let ?c = "\<lambda>s. snd (commit_spend 1 7 ?dec ''card_package'' False no_remark s)"
  have dec: "fst (evaluate_spend 1 7 8000 with_wallet) = Inr ((spend True ''debt'' 0 8000 8000 8000))" "sd_ok ?dec" by code_simp+
  obtain w where "fst (manager_wallet 1 7 new_office) = Inr w" using created_wallet by blast
  then have "manager_wallet 1 7 new_office = (Inr w, with_wallet)" unfolding with_wallet_def by (metis prod.collapse)
  then have "manager_wallet 1 7 with_wallet = (Inr w, with_wallet)" by (rule manager_wallet_again)
  then have "snd (evaluate_spend 1 7 8000 with_wallet) = with_wallet" by (simp add: evaluate_spend_def io_bind_def)
  then have "evaluate_spend 1 7 8000 with_wallet = (Inr ?dec, with_wallet)" using dec(1) by (metis prod.collapse)
  moreover have "current_debt 1 7 (?c (?c with_wallet)) = 16000" "cp_debt (get_caps (?c (?c with_wallet)) 7) = 10000" by code_simp+
  ultimately show ?thesis using dec(2) by blast
qed

end
