(* ===== verification/Spec2Isabelle.thy ===== *)
theory Spec2Isabelle
  imports ScheduleWindow CardAccounting AccessControl QuotaPeriod CardBatchFlags AllowMode BandwidthRate CloneProperties PolicyProperties LoginProperties
    SweepProperties AccountingProperties System RouterOsProperties SystemRouters ActiveReconcilerProperties CreditProperties
begin
text \<open>
  A model of the authorization core of the RADIUS module and of its traffic with the routers, with the theorems that make
  it correct.

  \<^bold>\<open>The program.\<close> The module is the RADIUS back end of a hotspot and broadband operator. A router sends
  an Access-Request; \<open>app/radius/services/policy_engine.py\<close> (function \<open>authorize\<close>) resolves the account behind
  the user name (a subscriber, or a prepaid card turned into one), runs about twenty checks in a fixed order and
  answers with a rejection, a full reply or a captive reply. Later the router reports the session (start, interim,
  stop) and the accounting side keeps the session table that the next login reads: concurrent devices, time
  online, quota. A worker polls the routers over their API and corrects the session table by what they list; an operator
  or a sweep cuts a session or changes its speed with RADIUS packets of its own. A second, small RADIUS server
  authenticates the VPN accounts of a tenant. Managers pay for what they sell from prepaid wallets and, within a cap,
  on credit. The checks of a login share the tables of one SQL database and are wrapped, most of them, in
  \<open>try/except\<close> blocks that let the login pass when the check itself breaks.

  \<^bold>\<open>The data.\<close> \<open>RadiusTypes\<close> has the rows (one record per table or data class of \<open>core/types.py\<close> and
  \<open>db/repos\<close>), the database \<open>db\<close> as the record of those tables, the request and the result of a login, and the
  environment \<open>env\<close>: the clock, the local UTC offset, the configuration variables, the answer of the code that
  is not modelled (password hashes, SHA-256, the MikroTik disconnect) and, for each database access that sits in a
  guarded block, whether it fails (\<open>e_fault\<close>, indexed by the site of the call). So do the accesses outside a block in the two
  paths a router waits for: the lookups of the account and of the speed rules in a login, and every statement of an
  accounting event. A theorem that holds for every \<open>env\<close> therefore holds for every pattern of those failures. An exception is \<open>Inl\<close> of an error
  (\<open>'a res\<close> of \<open>Prelude\<close>), or the result \<open>Raised\<close> of an accounting event, which comes with what was written before it; a guarded
  block is \<open>guarded site default result\<close>. An operation that writes takes the
  \<open>db\<close> and returns the new one. \<open>Tables\<close> has the insert-or-update of SQL with its uniqueness law.

  \<^bold>\<open>The components\<close> (under \<open>src/app/radius/\<close>), in the order they rest on each other:
  \<^item> \<open>AccessSchedule\<close>: \<open>core/access_schedule.py\<close>, the schedule text of subscribers and plans: parsing, normal
    form, serialization, evaluation, the working days read off a schedule.
  \<^item> \<open>ScheduleWindow\<close>: \<open>services/schedule_window.py\<close>, the effective window of an account and the seconds to its
    end, found by a scan of at most 1500 minutes.
  \<^item> \<open>CardAccounting\<close>: \<open>services/card_accounting.py\<close>, budgets and remaining time of prepaid cards.
  \<^item> \<open>CardBatchFlags\<close>: \<open>services/card_batch_flags.py\<close>, the first connection of a card, its expiry, automatic
    renewal, binding to a device, disconnection.
  \<^item> \<open>SlidingWindow\<close>, \<open>AccessControl\<close>: \<open>services/access_control.py\<close> and \<open>db/repos/access_blocks_repo.py\<close>: blocks by
    user, device, address, router or network, in force always, until a date or in a daily window; the automatic
    block after repeated failures.
  \<^item> \<open>SessionReconciler\<close>, \<open>DeviceLimit\<close>: \<open>services/session_reconciler.py\<close> and \<open>services/device_limit.py\<close>: the forced
    close of sessions, the sessions counted against the device limit, the reservation of seats between a login and
    its accounting start.
  \<^item> \<open>QuotaPeriod\<close>: \<open>services/quota_period.py\<close>: quota periods, operator top-ups, daily and monthly windows in local
    time, sessions that straddle a window boundary.
  \<^item> \<open>AllowMode\<close>: \<open>services/allow_mode.py\<close>: the device allow list of a subscriber, with trust on first use.
  \<^item> \<open>BandwidthRate\<close>: \<open>core/units.py\<close> and \<open>services/bandwidth_rate.py\<close>: units, speed rules, rate strings.
  \<^item> \<open>ProviderGrant\<close>: \<open>services/provider_grant.py\<close>: what the provider's contract lets a tenant do, and the count of
    connected users.
  \<^item> \<open>AntiMacClone\<close>: \<open>services/anti_mac_clone.py\<close> and \<open>db/repos/mac_clone_repo.py\<close>: the fingerprint bound to a
    device address, its comparison at the next login, step-up and disconnection.
  \<^item> \<open>PolicyChecks\<close>, \<open>PolicyReply\<close>, \<open>Authorize\<close>: \<open>services/policy_engine.py\<close>: the checks in file order, the reply
    attributes and the pipeline with its login stamps and its log.
  \<^item> \<open>PolicyReconciler\<close>: \<open>services/policy_reconciler.py\<close>, the sweeps of \<open>services/quota_period.py\<close> and
    \<open>services/schedule_window.py\<close>, and the part of \<open>services/live_sessions.py\<close>, \<open>services/live_session_control.py\<close>
    and \<open>integration/radius_coa.py\<close> that chooses the session to disconnect: the checks of a login applied to running
    sessions.
  \<^item> \<open>Accounting\<close>: \<open>services/accounting_events.py\<close>: start, interim, stop and restart of a router written into the
    session table.
  \<^item> \<open>TableProgress\<close>, \<open>System\<close>: the whole service as a step relation with one rule per entry point (a login, an
    accounting event, each sweep, a manual close), in any order and under any failures.
  \<^item> \<open>Bytes\<close>, \<open>Digest\<close>: bytes as 8-bit words, numbers and texts as bytes, MD5 and HMAC-MD5 (checked on test vectors).
  \<^item> \<open>RouterOsProtocol\<close>: \<open>integration/mikrotik/protocol.py\<close>, \<open>errors.py\<close> and the exchanges of \<open>client.py\<close>: words behind their
    length, sentences, replies up to \<open>!done\<close>, login and print, over a stream of bytes that may end in any way.
  \<^item> \<open>VpnAccounts\<close>, \<open>RadiusServer\<close>: \<open>services/vpn_account_service.py\<close> and \<open>services/radius_auth_server.py\<close>: the accounts
    within the limit of their allocation; a datagram parsed, its password checked by PAP or MS-CHAPv2, the reply built.
  \<^item> \<open>CoaPackets\<close>, \<open>CoaSessions\<close>: \<open>integration/radius_coa.py\<close> and \<open>services/nas_connection.py\<close>: Disconnect- and
    CoA-Requests with their two digests, the reading of the answers, the router and the secret a session is signalled
    with, and the broadcast over all sessions of a user.
  \<^item> \<open>NasLiveness\<close>: \<open>services/nas_liveness.py\<close>, the register of which router answered last.
  \<^item> \<open>MtReconciler\<close>: \<open>app/workers/mt_reconciler.py\<close>, the worker: what a router lists, the closing of sessions it lost, the
    synthetic rows of sessions the table lacks, a pass over all tenants.
  \<^item> \<open>ActiveReconciler\<close>: \<open>services/mikrotik_active_reconciler.py\<close> and \<open>disconnect_user\<close> of \<open>radius_coa.py\<close>: the choice of the
    live sessions to cut.
  \<^item> \<open>Wallets\<close>, \<open>ManagerCredit\<close>: \<open>services/business_os_finance.py\<close>, \<open>services/manager_credit.py\<close> and the detection of the owner
    in \<open>db/repos/admins_repo.py\<close>: money, wallets, ledger, and the gate through which a manager spends.
  \<^item> \<open>SystemRouters\<close>: the runs of \<open>System\<close> with the polls of the worker between them.

  \<^bold>\<open>What the lemmas show.\<close> Each component theory ends with the properties of its operations: round trips of its
  texts, exact arithmetic of its windows and budgets, what its writes keep, and the specification it refines
  (\<open>AllowMode\<close> an abstract trust-on-first-use list, \<open>QuotaPeriod\<close> an override with a single saved value,
  \<open>DeviceLimit\<close> a set of seats). \<open>PolicyProperties\<close>, \<open>CloneProperties\<close> and \<open>LoginProperties\<close> span components: what
  an accepted login implies under every pattern of failures, when exceptions escape, what a login writes, how the
  session timeout is formed. \<open>SweepProperties\<close> compares the sweeps with the login and says whom they disconnect;
  \<open>AccountingProperties\<close> refines the session table to one automaton per session, with the events that a failing statement
  loses, and derives that a session is charged once; \<open>System\<close> has the invariants of every run: closed sessions are final, no session has two open rows, a card keeps
  its first use; \<open>SystemRouters\<close> extends the first of them to the worker, whatever the routers answer.
  \<open>RouterOsProperties\<close> shows that a sentence survives the wire, that an exchange over any finite stream returns and reads exactly its own
  reply; \<open>RadiusServerProperties\<close> that replies parse back and that an account created in the panel logs in
  over the wire with its password only; \<open>CoaProperties\<close> that a request carries both digests and the session keys given
  and never overflows; \<open>MtReconcilerProperties\<close> and \<open>MtConvergence\<close> whom the worker closes, that two passes close what is
  lost, that real rows are kept and that a later pass over the same sessions adds nothing; \<open>ActiveReconcilerProperties\<close> that only a session
  the routers report is cut; \<open>WalletProperties\<close> and \<open>CreditProperties\<close> that money survives its text, that the books balance in
  every run, that a charge stays within the caps, that a refused one books nothing and that a reversal restores. The locale \<open>framed_checks\<close> of \<open>Authorize\<close> is the interface between the pipeline and
  the checks: each check keeps a frame of the database that later checks read; it is interpreted on the real
  checks, for the login and for the sweep, and the pipeline lemmas rest on those interpretations; it is the instance
  of \<open>ordered_checks\<close> (checks that move along a preorder) where the preorder is equality of the frame. The other locales state the laws of a keyed table, a
  sliding window of failures and similar contracts, each interpreted on the code's own definitions.

  \<^bold>\<open>Bounds.\<close> The numbers of the code are Python integers, hence \<open>int\<close> without wrap-around; bytes of packets are 8-bit
  words and the registers of MD5 32-bit words, and a number that does not fit its field raises as \<open>struct.pack\<close> and \<open>bytes\<close>
  do. Loops are structural, or bounded by the code itself: the scan horizon of the window end (1500 minutes, more than a day),
  three attempts of the login stamps, at most a thousand blocks read, at most fifty retained candidates where a
  query has a limit. The readers of attributes advance by at least two bytes. The two \<open>while True\<close> loops that read a
  router's reply are partial functions, and \<open>exchange_returns\<close> proves that they return over every finite stream (a router that never
  stops sending is no value of the model, and would keep the code reading). No fuel was added.

  \<^bold>\<open>Abstractions.\<close> One clock reading per login (\<open>e_now\<close>), where the code reads the clock several times. Stored ISO
  texts are instants (integers in microseconds), so malformed stored dates are \<open>None\<close>. SQL \<open>NULL\<close> and the empty
  text are one value where the code treats them alike. Tenant identifiers are not zero. Texts are ASCII, so the
  Arabic comma and Unicode digits are outside the model. Float rounding of the interpolation is the parameter
  \<open>e_fl\<close>. A new row takes the greatest identifier plus one. The human-readable texts of rejections are kept as
  tags, and the Arabic duration of a message as its seconds. In the
  sweeps and the accounting a disconnection is a call of the disconnect service, and whether a router acknowledges it is
  the answer \<open>e_disconnect_ok\<close> of the environment; the service itself is \<open>ActiveReconciler.disconnect_user\<close>, over a
  network that is a function from address and packet to an answer. A character is a byte, so a text in a packet is its
  UTF-8 encoding. MD4, SHA-1, DES and Fernet are parameters. A query with \<open>LIMIT 1\<close> and no order takes the first row of the
  table. Decimal texts of a router have no exponent. The database does not fail in the disconnect service, where it only
  reads, nor in the money services; there a translated message stands under a name of its own,
  and an amount beyond 64 bits, which the database refuses, is not excluded. The counters of an
  accounting event are Python integers; the columns of the session table hold 64 bits, which no real counter fills. The
  sweep that an interim asks for runs in a thread of its own, hence as a step of its own. Pushing new rates to a router
  when the number of devices changes (\<open>rebalance_device_split\<close>) writes no table. The audit log and the action log are not part of the state.

  \<^bold>\<open>Limits of the runs.\<close> A step of a run is a call that returns. A login or a sweep that ends in an exception is no
  step, although a renewal or a claim written before the exception stays written. The accounts are looked up without failure
  in a sweep. Operator actions on cards (resetting the usage, releasing the device, \<open>cards_repo.reset_card_usage\<close> and
  \<open>unlock_card_mac\<close>) are no steps, so what a card keeps is kept by the service and not against the operator; the polls of routers
  are steps of \<open>SystemRouters\<close> only, because one poll may enter a session twice (\<open>listed_twice_entered_twice\<close>). The marking of
  stale sessions, whose one statement raises or writes, is a step when it writes. A counter or an uptime that Python reads as
  infinite, and an uptime that reaches before the year 1, raise \<open>OverflowError\<close> in the worker and end its pass; the model has
  neither. In \<open>MtReconciler\<close> and the staleness of sessions a blank instant and a missing one are the same. The sweeps know of
  the router of a session only whether it is known, enabled and has a secret (\<open>e_nas_reachable\<close>); the lookup itself is
  \<open>CoaSessions.find_session_targets\<close>.

  \<^bold>\<open>Not modelled.\<close> Web routes, page rendering, card printing and templates (strings for people, no decisions of the
  core); vendor lookup of device addresses (a data table); sockets, threads and connection pools (their input and output are modelled). The parts
  of the program that carry logic and are not modelled are listed in the manifest with their reason.
\<close>
end
